(* ===== verification/Prelude.thy ===== *)
theory Prelude
  imports Main "HOL-Library.Sublist" "HOL-Library.Code_Target_Nat"
begin

text \<open>
  Shared vocabulary of the development.

  \<^item> Rust's \<open>str\<close> is modelled as the list of its Unicode scalar values (\<open>rstr\<close>); a literal of
    the source is written \<open>lit ''...''\<close>.  Byte lengths, where the code counts bytes, are computed
    by \<open>byte_len\<close> from the UTF-8 width of every scalar value.
  \<^item> The string primitives of the standard library that the modelled code calls (\<open>trim\<close>,
    \<open>strip_prefix\<close>, \<open>split\<close>, \<open>lines\<close>, \<open>join\<close>, \<open>rsplit\<close>, \<open>replace\<close>, ASCII case folding) are
    executable functions on \<open>rstr\<close>.
  \<^item> Fallible code returns \<open>'e + 'a\<close> with \<open>Inl\<close> the error.
  \<^item> \<open>u64\<close> arithmetic that saturates is written out on \<open>nat\<close>.
\<close>

section \<open>Collections of facts\<close>

named_theorems text_simps \<open>evaluation of the string primitives on literals\<close>
named_theorems result_splits \<open>case splits for results and options\<close>

lemmas [result_splits] = option.splits sum.splits if_splits list.splits prod.splits

section \<open>Strings\<close>

type_synonym uchar = nat
type_synonym rstr = "uchar list"
type_synonym ('e, 'a) result = "'e + 'a"

definition lit :: "string \<Rightarrow> rstr" where
  "lit s = map of_char s"

lemma lit_inject [simp]: "lit a = lit b \<longleftrightarrow> a = b"
  unfolding lit_def by (meson inj_map_eq_map inj_of_char injI)

lemma lit_Nil [simp]: "lit [] = []"
  by (simp add: lit_def)

lemma lit_eq_Nil [simp]: "lit s = [] \<longleftrightarrow> s = []" "[] = lit s \<longleftrightarrow> s = []"
  by (auto simp: lit_def)

lemma length_lit [simp]: "length (lit s) = length s"
  by (simp add: lit_def)

lemma lit_append: "lit (a @ b) = lit a @ lit b"
  by (simp add: lit_def)

lemma lit_Cons: "lit (c # s) = of_char c # lit s"
  by (simp add: lit_def)

subsection \<open>Characters\<close>

definition ch :: "char \<Rightarrow> uchar" where
  "ch c = of_char c"

abbreviation newline_ch :: uchar where "newline_ch \<equiv> 10"
abbreviation cr_ch :: uchar where "cr_ch \<equiv> 13"

text \<open>\<open>char::is_whitespace\<close>: the Unicode property White\_Space.\<close>

definition is_whitespace :: "uchar \<Rightarrow> bool" where
  "is_whitespace c \<longleftrightarrow>
     (9 \<le> c \<and> c \<le> 13) \<or> c = 32 \<or> c = 133 \<or> c = 160 \<or> c = 5760 \<or>
     (8192 \<le> c \<and> c \<le> 8202) \<or> c = 8232 \<or> c = 8233 \<or> c = 8239 \<or> c = 8287 \<or> c = 12288"

definition is_ascii_digit :: "uchar \<Rightarrow> bool" where
  "is_ascii_digit c \<longleftrightarrow> 48 \<le> c \<and> c \<le> 57"

definition is_ascii_alphabetic :: "uchar \<Rightarrow> bool" where
  "is_ascii_alphabetic c \<longleftrightarrow> (65 \<le> c \<and> c \<le> 90) \<or> (97 \<le> c \<and> c \<le> 122)"

definition to_ascii_lowercase_ch :: "uchar \<Rightarrow> uchar" where
  "to_ascii_lowercase_ch c = (if 65 \<le> c \<and> c \<le> 90 then c + 32 else c)"

definition to_ascii_lowercase :: "rstr \<Rightarrow> rstr" where
  "to_ascii_lowercase s = map to_ascii_lowercase_ch s"

text \<open>Width of a scalar value in UTF-8 and the length in bytes of a string (\<open>str::len\<close>).\<close>

definition len_utf8 :: "uchar \<Rightarrow> nat" where
  "len_utf8 c = (if c < 128 then 1 else if c < 2048 then 2 else if c < 65536 then 3 else 4)"

definition byte_len :: "rstr \<Rightarrow> nat" where
  "byte_len s = sum_list (map len_utf8 s)"

lemma len_utf8_bounds: "1 \<le> len_utf8 c" "len_utf8 c \<le> 4"
  by (auto simp: len_utf8_def)

lemma byte_len_simps [simp]:
  "byte_len [] = 0" "byte_len (c # s) = len_utf8 c + byte_len s"
  "byte_len (a @ b) = byte_len a + byte_len b"
  by (auto simp: byte_len_def)

lemma length_le_byte_len: "length s \<le> byte_len s"
proof (induction s)
  case (Cons c s)
  then show ?case using len_utf8_bounds(1) [of c] by simp
qed simp

lemma byte_len_ascii: "list_all (\<lambda>c. c < 128) s \<Longrightarrow> byte_len s = length s"
  by (induction s) (simp_all add: len_utf8_def)

subsection \<open>Trimming\<close>

definition trim_start :: "rstr \<Rightarrow> rstr" where
  "trim_start s = dropWhile is_whitespace s"

definition trim_end_matches :: "(uchar \<Rightarrow> bool) \<Rightarrow> rstr \<Rightarrow> rstr" where
  "trim_end_matches P s = rev (dropWhile P (rev s))"

definition trim_end :: "rstr \<Rightarrow> rstr" where
  "trim_end s = trim_end_matches is_whitespace s"

definition trim :: "rstr \<Rightarrow> rstr" where
  "trim s = trim_end (trim_start s)"

lemma trim_Nil [simp]: "trim [] = []" "trim_start [] = []" "trim_end [] = []"
  by (simp_all add: trim_def trim_start_def trim_end_def trim_end_matches_def)

lemma trim_end_matches_idem [simp]:
  "trim_end_matches P (trim_end_matches P s) = trim_end_matches P s"
  by (simp add: trim_end_matches_def)

lemma trim_end_idem [simp]: "trim_end (trim_end s) = trim_end s"
  by (simp add: trim_end_def)

lemma trim_end_append: "trim_end (u @ v) = (if trim_end v = [] then trim_end u else u @ trim_end v)"
  by (auto simp: trim_end_def trim_end_matches_def dropWhile_append)

lemma trim_end_eq_Nil: "trim_end s = [] \<longleftrightarrow> (\<forall>c\<in>set s. is_whitespace c)"
  by (auto simp: trim_end_def trim_end_matches_def)

lemma trim_start_Cons [simp]:
  "trim_start (c # s) = (if is_whitespace c then trim_start s else c # s)"
  by (simp add: trim_start_def)

lemma trim_end_singleton: "trim_end [c] = (if is_whitespace c then [] else [c])"
  by (simp add: trim_end_def trim_end_matches_def)

lemma trim_start_trim_end: "trim_start (trim_end s) = trim_end (trim_start s)"
proof (induction s)
  case (Cons c s)
  have split: "trim_end (c # s) = (if trim_end s = [] then trim_end [c] else c # trim_end s)"
    using trim_end_append [of "[c]" s] by simp
  show ?case
  proof (cases "trim_end s = []")
    case True
    then have "\<forall>x\<in>set s. is_whitespace x" by (simp add: trim_end_eq_Nil)
    then have "trim_start s = []" by (simp add: trim_start_def)
    with True show ?thesis by (simp add: split trim_end_singleton)
  next
    case False
    with Cons.IH show ?thesis by (simp add: split)
  qed
qed simp

lemma trim_start_idem [simp]: "trim_start (trim_start s) = trim_start s"
  by (simp add: trim_start_def)

lemma trim_idem [simp]: "trim (trim s) = trim s"
  by (simp add: trim_def trim_start_trim_end)

subsection \<open>Prefixes and suffixes\<close>

definition starts_with :: "rstr \<Rightarrow> rstr \<Rightarrow> bool" where
  "starts_with s p \<longleftrightarrow> prefix p s"

definition ends_with :: "rstr \<Rightarrow> rstr \<Rightarrow> bool" where
  "ends_with s p \<longleftrightarrow> suffix p s"

definition strip_prefix :: "rstr \<Rightarrow> rstr \<Rightarrow> rstr option" where
  "strip_prefix s p = (if prefix p s then Some (drop (length p) s) else None)"

definition strip_suffix :: "rstr \<Rightarrow> rstr \<Rightarrow> rstr option" where
  "strip_suffix s p = (if suffix p s then Some (take (length s - length p) s) else None)"

lemma strip_prefix_Some: "strip_prefix s p = Some r \<longleftrightarrow> s = p @ r"
  by (auto simp: strip_prefix_def prefix_def)

lemma strip_prefix_append [simp]: "strip_prefix (p @ r) p = Some r"
  by (simp add: strip_prefix_Some)

lemma strip_suffix_Some: "strip_suffix s p = Some r \<longleftrightarrow> s = r @ p"
  by (auto simp: strip_suffix_def suffix_def)

lemma prefix_lit [text_simps]: "prefix (lit a) (lit b) \<longleftrightarrow> prefix a b"
  proof -
  have "lit b = lit a @ zs \<Longrightarrow> \<exists>us. b = a @ us" for zs
    by (metis append_eq_map_conv lit_def lit_inject)
  then show ?thesis by (auto simp: prefix_def lit_append)
qed

subsection \<open>Splitting and joining\<close>

text \<open>\<open>s.split(c)\<close>: never empty; a separator at either end gives an empty piece there.\<close>

fun split_on :: "uchar \<Rightarrow> rstr \<Rightarrow> rstr list" where
  "split_on c [] = [[]]"
| "split_on c (x # xs) =
     (if x = c then [] # split_on c xs
      else (case split_on c xs of [] \<Rightarrow> [[x]] | p # ps \<Rightarrow> (x # p) # ps))"

fun join :: "rstr \<Rightarrow> rstr list \<Rightarrow> rstr" where
  "join sep [] = []"
| "join sep [p] = p"
| "join sep (p # q # ps) = p @ sep @ join sep (q # ps)"

lemma split_on_not_Nil [simp]: "split_on c s \<noteq> []"
  by (induction s) (auto split: list.splits)

lemma join_split_on: "join [c] (split_on c s) = s"
proof (induction s)
  case (Cons x s)
  then show ?case
    by (cases "split_on c s"; cases "tl (split_on c s)") auto
qed simp

lemma split_on_no_sep: "c \<notin> set p \<Longrightarrow> split_on c p = [p]"
  by (induction p) auto

lemma split_on_append_sep: "c \<notin> set p \<Longrightarrow> split_on c (p @ c # s) = p # split_on c s"
  by (induction p) auto

lemma split_on_join:
  "ps \<noteq> [] \<Longrightarrow> \<forall>p\<in>set ps. c \<notin> set p \<Longrightarrow> split_on c (join [c] ps) = ps"
  by (induction "[c]" ps rule: join.induct) (auto simp: split_on_no_sep split_on_append_sep)

lemma split_on_pieces: "p \<in> set (split_on c s) \<Longrightarrow> c \<notin> set p"
  by (induction s arbitrary: p) (auto split: list.splits if_splits)

text \<open>
  \<open>s.lines()\<close>: the pieces between line feeds; one carriage return before a line feed belongs to
  the line ending; a final line feed starts no further line.
\<close>

definition strip_cr :: "rstr \<Rightarrow> rstr" where
  "strip_cr s = (if s \<noteq> [] \<and> last s = cr_ch then butlast s else s)"

definition str_lines :: "rstr \<Rightarrow> rstr list" where
  "str_lines s =
     (let ps = split_on newline_ch s
      in map strip_cr (butlast ps) @ (if last ps = [] then [] else [last ps]))"

text \<open>\<open>s.rsplit(['/', '\\']).next()\<close>: the part after the last separator.\<close>

definition basename :: "rstr \<Rightarrow> rstr" where
  "basename s = rev (takeWhile (\<lambda>c. c \<noteq> 47 \<and> c \<noteq> 92) (rev s))"

text \<open>\<open>s.replace(from, to)\<close> for a non-empty \<open>from\<close>: left to right, without overlap.\<close>

function str_replace :: "rstr \<Rightarrow> rstr \<Rightarrow> rstr \<Rightarrow> rstr" where
  "str_replace from to s =
     (case s of [] \<Rightarrow> []
      | x # xs \<Rightarrow> if from \<noteq> [] \<and> prefix from s then to @ str_replace from to (drop (length from) s)
                 else x # str_replace from to xs)"
  by pat_completeness auto
termination
  by (relation "measure (\<lambda>(f, t, s). length s)") auto

declare str_replace.simps [simp del]

lemma str_replace_Nil [simp]: "str_replace f t [] = []"
  by (simp add: str_replace.simps)

text \<open>\<open>split_whitespace\<close>: the maximal runs of other characters.\<close>

fun words_loop :: "rstr \<Rightarrow> rstr \<Rightarrow> rstr list" where
  "words_loop current [] = (if current = [] then [] else [current])"
| "words_loop current (c # cs) =
     (if is_whitespace c then (if current = [] then words_loop [] cs else current # words_loop [] cs)
      else words_loop (current @ [c]) cs)"

definition split_whitespace :: "rstr \<Rightarrow> rstr list" where
  "split_whitespace s = words_loop [] s"

text \<open>The decimal digits of a number, as \<open>Display\<close> prints them.\<close>

fun show_nat :: "nat \<Rightarrow> rstr" where
  "show_nat n = (if n < 10 then [48 + n] else show_nat (n div 10) @ [48 + n mod 10])"

declare show_nat.simps [simp del]

text \<open>Offsets count bytes.\<close>

text \<open>\<open>str::split_at\<close>: \<open>None\<close> where it panics, at an offset that is not a character boundary.\<close>

fun split_at :: "nat \<Rightarrow> rstr \<Rightarrow> (rstr \<times> rstr) option" where
  "split_at n [] = (if n = 0 then Some ([], []) else None)"
| "split_at n (c # s) =
     (if n = 0 then Some ([], c # s)
      else if n < len_utf8 c then None
      else map_option (\<lambda>(a, b). (c # a, b)) (split_at (n - len_utf8 c) s))"

lemma split_at_parts: "split_at n s = Some (a, b) \<Longrightarrow> s = a @ b \<and> byte_len a = n"
proof (induction n s arbitrary: a b rule: split_at.induct)
  case (2 n c s)
  then show ?case by (auto split: if_splits)
qed (auto split: if_splits)

lemma byte_len_eq_0 [simp]: "byte_len s = 0 \<longleftrightarrow> s = []"
  using length_le_byte_len [of s] by auto

lemma append_eq_same_byte_len: "a @ b = c @ d \<Longrightarrow> byte_len a = byte_len c \<Longrightarrow> a = c \<and> b = d"
proof -
  assume e: "a @ b = c @ d" and l: "byte_len a = byte_len c"
  then obtain us where "a = c @ us \<and> us @ b = d \<or> a @ us = c \<and> b = us @ d" by (auto simp: append_eq_append_conv2)
  then show ?thesis using l by auto
qed

lemma split_at_unique: "split_at n s = Some (a, b) \<Longrightarrow> s = c @ d \<Longrightarrow> byte_len c = n \<Longrightarrow> c = a \<and> d = b"
  using split_at_parts append_eq_same_byte_len by metis

text \<open>\<open>&s[a..b]\<close> where both ends are character boundaries of \<open>s\<close>.\<close>

definition byte_slice :: "rstr \<Rightarrow> nat \<Rightarrow> nat \<Rightarrow> rstr option" where
  "byte_slice s a b =
     (case split_at b s of
        None \<Rightarrow> None
      | Some (l, _) \<Rightarrow> map_option snd (split_at a l))"

definition is_char_boundary :: "rstr \<Rightarrow> nat \<Rightarrow> bool" where
  "is_char_boundary s n \<longleftrightarrow> split_at n s \<noteq> None"

text \<open>The longest prefix of at most \<open>n\<close> bytes: a cut at \<open>n\<close>, moved back to a character boundary.\<close>

fun floor_cut :: "rstr \<Rightarrow> nat \<Rightarrow> rstr" where
  "floor_cut [] n = []"
| "floor_cut (c # s) n = (if len_utf8 c \<le> n then c # floor_cut s (n - len_utf8 c) else [])"

section \<open>Saturating unsigned arithmetic\<close>

definition U64_MAX :: nat where
  "U64_MAX = 2 ^ 64 - 1"

definition saturating_add_u64 :: "nat \<Rightarrow> nat \<Rightarrow> nat" where
  "saturating_add_u64 a b = min (a + b) U64_MAX"

definition as_u64 :: "nat \<Rightarrow> nat" where
  "as_u64 n = n mod 2 ^ 64"

lemma as_u64_le: "as_u64 n \<le> U64_MAX"
proof -
  have "n mod 2 ^ 64 < 2 ^ 64" by simp
  then show ?thesis unfolding as_u64_def U64_MAX_def by linarith
qed

lemma as_u64_id: "n \<le> U64_MAX \<Longrightarrow> as_u64 n = n"
proof -
  have "(1::nat) \<le> 2 ^ 64" by simp
  moreover assume "n \<le> U64_MAX"
  ultimately have "n < 2 ^ 64" unfolding U64_MAX_def by linarith
  then show "as_u64 n = n" by (simp add: as_u64_def)
qed

lemma saturating_add_u64_le: "saturating_add_u64 a b \<le> U64_MAX"
  by (simp add: saturating_add_u64_def)

section \<open>Lists\<close>

lemma suffix_same_length: "suffix xs ys \<Longrightarrow> length xs = length ys \<Longrightarrow> xs = ys"
  by (auto simp: suffix_def)

lemma strict_suffix_shorter: "strict_suffix xs ys \<Longrightarrow> length xs < length ys"
  by (auto simp: strict_suffix_def suffix_def)

lemma find_upt_Cons: "a < b \<Longrightarrow> find P [a..<b] = (if P a then Some a else find P [Suc a..<b])"
  by (simp add: upt_conv_Cons)

lemma find_upt_least:
  "find P [a..<b] = Some i \<longleftrightarrow> a \<le> i \<and> i < b \<and> P i \<and> (\<forall>j. a \<le> j \<and> j < i \<longrightarrow> \<not> P j)"
proof (induction "b - a" arbitrary: a)
  case (Suc n)
  then have ab: "a < b" by simp
  have IH: "find P [Suc a..<b] = Some i \<longleftrightarrow> Suc a \<le> i \<and> i < b \<and> P i \<and> (\<forall>j. Suc a \<le> j \<and> j < i \<longrightarrow> \<not> P j)"
    by (rule Suc(1)) (use Suc(2) in simp)
  show ?case
  proof (cases "P a")
    case True
    then show ?thesis using ab by (auto simp: find_upt_Cons [OF ab] dest: le_neq_implies_less)
  next
    case False
    have "(\<forall>j. a \<le> j \<and> j < i \<longrightarrow> \<not> P j) \<longleftrightarrow> (\<forall>j. Suc a \<le> j \<and> j < i \<longrightarrow> \<not> P j)"
      using False by (metis Suc_leD Suc_leI le_neq_implies_less)
    moreover have "P i \<Longrightarrow> a \<le> i \<longleftrightarrow> Suc a \<le> i" using False by (metis Suc_leD Suc_leI le_neq_implies_less)
    ultimately show ?thesis using IH False by (auto simp: find_upt_Cons [OF ab])
  qed
qed simp

lemma find_Some_iff_mem: "find P xs = Some x \<Longrightarrow> x \<in> set xs \<and> P x"
  by (auto simp: find_Some_iff)

end
