(* ===== verification/Sliding_Window.thy ===== *)
theory Sliding_Window
  imports Complex_Main Prelude
begin

text \<open>
  \<open>packages/platform/xai-circuit-breaker/src/window.rs\<close>: the bounded window over
  \<open>(timestamp, is_failure)\<close> samples.  Instants and durations are natural numbers of nanoseconds.
  The code keeps the number of failures incrementally; \<open>window_inv\<close> says it is the count, and
  \<open>window_history\<close> that the window always holds exactly the most recent samples.
\<close>

section \<open>Double precision division\<close>

text \<open>
  \<open>error_rate\<close> divides two counts as \<open>f64\<close>.  A finite double is its rational value; the quotient
  of two counts below \<open>2 ^ 53\<close> is the exact quotient rounded to 53 bits, half to even.
\<close>

datatype f64 = Finite rat | NaN | Infinity | NegInfinity

fun f64_ge :: "f64 \<Rightarrow> f64 \<Rightarrow> bool" where
  "f64_ge (Finite a) (Finite b) = (b \<le> a)"
| "f64_ge NaN _ = False"
| "f64_ge _ NaN = False"
| "f64_ge Infinity _ = True"
| "f64_ge _ NegInfinity = True"
| "f64_ge _ _ = False"

text \<open>\<open>round_half_even p q\<close> is \<open>p / q\<close> rounded to an integer.\<close>

definition round_half_even :: "nat \<Rightarrow> nat \<Rightarrow> nat" where
  "round_half_even p q =
     (let d = p div q; r = p mod q
      in if 2 * r < q then d else if q < 2 * r then Suc d else if even d then d else Suc d)"

text \<open>The scale that puts the quotient's leading bit at bit 52.\<close>

function f64_scale :: "nat \<Rightarrow> nat \<Rightarrow> nat \<Rightarrow> nat" where
  "f64_scale a b k = (if a = 0 \<or> b * 2 ^ 52 \<le> a * 2 ^ k then k else f64_scale a b (Suc k))"
  by pat_completeness auto
termination
proof (relation "measure (\<lambda>(a, b, k). b * 2 ^ 52 - a * 2 ^ k)")
  fix a b k :: nat
  assume "\<not> (a = 0 \<or> b * 2 ^ 52 \<le> a * 2 ^ k)"
  then have "a * 2 ^ k < b * 2 ^ 52" and "0 < a * 2 ^ k" by auto
  then have "b * 2 ^ 52 - 2 * (a * 2 ^ k) < b * 2 ^ 52 - a * 2 ^ k" by linarith
  then show "((a, b, Suc k), a, b, k) \<in> measure (\<lambda>(a, b, k). b * 2 ^ 52 - a * 2 ^ k)"
    by (simp add: algebra_simps)
qed simp

declare f64_scale.simps [simp del]

definition f64_div :: "nat \<Rightarrow> nat \<Rightarrow> rat" where
  "f64_div a b =
     (if a = 0 then 0
      else let k = f64_scale a b 52 in of_nat (round_half_even (a * 2 ^ k) b) / 2 ^ k)"

lemma f64_scale_ge: "k \<le> f64_scale a b k"
  by (induction a b k rule: f64_scale.induct) (subst f64_scale.simps, auto)

lemma round_half_even_bounds:
  assumes "0 < q"
  shows "2 * p \<le> 2 * q * round_half_even p q + q" "2 * q * round_half_even p q \<le> 2 * p + q"
proof -
  define d r where "d = p div q" and "r = p mod q"
  have p: "p = q * d + r" and r: "r < q" using assms by (simp_all add: d_def r_def)
  have "round_half_even p q = d \<and> 2 * r \<le> q \<or> round_half_even p q = Suc d \<and> q \<le> 2 * r"
    by (auto simp: round_half_even_def Let_def d_def r_def)
  then show "2 * p \<le> 2 * q * round_half_even p q + q" "2 * q * round_half_even p q \<le> 2 * p + q"
    using r by (auto simp: p algebra_simps)
qed

text \<open>For counts as small as the window's, rounding does not move a quotient across one half.\<close>

lemma f64_div_half:
  assumes b: "0 < b" "b \<le> 10000"
  shows "1 / 2 \<le> f64_div a b \<longleftrightarrow> b \<le> 2 * a"
proof (cases "a = 0")
  case True
  then show ?thesis using b by (simp add: f64_div_def)
next
  case False
  define k where "k = f64_scale a b 52"
  define m where "m = round_half_even (a * 2 ^ k) b"
  have k52: "52 \<le> k" using f64_scale_ge by (simp add: k_def)
  have pow: "b < 2 ^ k"
  proof -
    have "(2::nat) ^ 52 \<le> 2 ^ k" using k52 by (rule power_increasing) simp
    moreover have "(10000::nat) < 2 ^ 52" by simp
    ultimately show ?thesis using b(2) by linarith
  qed
  have val: "f64_div a b = of_nat m / 2 ^ k"
    using False by (simp add: f64_div_def k_def m_def Let_def)
  have half: "1 / 2 \<le> f64_div a b \<longleftrightarrow> 2 ^ k \<le> 2 * m"
  proof -
    have "(1 / 2 \<le> f64_div a b) = ((2::rat) ^ k \<le> of_nat (2 * m))"
      by (simp add: val field_simps)
    also have "\<dots> = (of_nat (2 ^ k) \<le> (of_nat (2 * m) :: rat))" by simp
    also have "\<dots> = (2 ^ k \<le> 2 * m)" by (rule of_nat_le_iff)
    finally show ?thesis .
  qed
  have lower: "2 * (a * 2 ^ k) \<le> 2 * b * m + b" and upper: "2 * b * m \<le> 2 * (a * 2 ^ k) + b"
    using round_half_even_bounds [OF b(1), of "a * 2 ^ k"] by (simp_all add: m_def)
  show ?thesis
  proof (cases "b \<le> 2 * a")
    case True
    have even_pow: "even ((2::nat) ^ k)" using k52 by simp
    have "b * 2 ^ k \<le> 2 * a * 2 ^ k" using True by (rule mult_right_mono) simp
    moreover have "2 * a * 2 ^ k \<le> b * (2 * m + 1)" using lower by (simp add: algebra_simps)
    ultimately have "b * 2 ^ k \<le> b * (2 * m + 1)" by linarith
    then have "2 ^ k \<le> 2 * m + 1" using b(1) by (simp only: mult_le_cancel1)
    moreover have "2 ^ k \<noteq> 2 * m + 1" using even_pow by presburger
    ultimately have "2 ^ k \<le> 2 * m" by linarith
    with half True show ?thesis by blast
  next
    case False
    then have "2 * a + 1 \<le> b" by simp
    then have "(2 * a + 1) * 2 ^ k \<le> b * 2 ^ k" by (rule mult_right_mono) simp
    then have "2 * (a * 2 ^ k) + 2 ^ k \<le> b * 2 ^ k" by (simp add: algebra_simps)
    with upper pow have "2 * b * m < b * 2 ^ k" by linarith
    then have "b * (2 * m) < b * 2 ^ k" by (simp add: algebra_simps)
    then have "2 * m < 2 ^ k" by (simp only: mult_less_cancel1)
    with half False show ?thesis by simp
  qed
qed

section \<open>The window\<close>

definition MAX_WINDOW_ENTRIES :: nat where
  "MAX_WINDOW_ENTRIES = 10000"

record sliding_window =
  entries :: "(nat \<times> bool) list"
  failures :: nat

definition window_new :: sliding_window where
  "window_new = \<lparr>entries = [], failures = 0\<rparr>"

definition pop_front_if_full :: "sliding_window \<Rightarrow> sliding_window" where
  "pop_front_if_full w =
     (if MAX_WINDOW_ENTRIES \<le> length (entries w)
      then (case entries w of
              [] \<Rightarrow> w
            | (_, was_failure) # rest \<Rightarrow>
                w\<lparr>entries := rest,
                  failures := (if was_failure then failures w - 1 else failures w)\<rparr>)
      else w)"

definition window_push :: "bool \<Rightarrow> nat \<Rightarrow> sliding_window \<Rightarrow> sliding_window" where
  "window_push is_failure ts w =
     (let w' = pop_front_if_full w
      in w'\<lparr>entries := entries w' @ [(ts, is_failure)],
            failures := (if is_failure then failures w' + 1 else failures w')\<rparr>)"

fun evict_loop :: "nat \<Rightarrow> (nat \<times> bool) list \<Rightarrow> nat \<Rightarrow> (nat \<times> bool) list \<times> nat" where
  "evict_loop cutoff [] n = ([], n)"
| "evict_loop cutoff ((ts, was_failure) # rest) n =
     (if ts < cutoff then evict_loop cutoff rest (if was_failure then n - 1 else n)
      else ((ts, was_failure) # rest, n))"

definition checked_sub :: "nat \<Rightarrow> nat \<Rightarrow> nat option" where
  "checked_sub now d = (if d \<le> now then Some (now - d) else None)"

definition window_evict :: "nat \<Rightarrow> nat \<Rightarrow> sliding_window \<Rightarrow> sliding_window" where
  "window_evict window now w =
     (case checked_sub now window of
        None \<Rightarrow> w
      | Some cutoff \<Rightarrow>
          (case evict_loop cutoff (entries w) (failures w) of
             (es, n) \<Rightarrow> w\<lparr>entries := es, failures := n\<rparr>))"

definition window_error_rate :: "sliding_window \<Rightarrow> f64" where
  "window_error_rate w =
     (if entries w = [] then Finite 0 else Finite (f64_div (failures w) (length (entries w))))"

definition sample_count :: "sliding_window \<Rightarrow> nat" where
  "sample_count w = length (entries w)"

definition window_clear :: "sliding_window \<Rightarrow> sliding_window" where
  "window_clear w = w\<lparr>entries := [], failures := 0\<rparr>"

section \<open>The incremental count\<close>

definition count_failures :: "(nat \<times> bool) list \<Rightarrow> nat" where
  "count_failures es = length (filter snd es)"

definition window_inv :: "sliding_window \<Rightarrow> bool" where
  "window_inv w \<longleftrightarrow>
     failures w = count_failures (entries w) \<and> length (entries w) \<le> MAX_WINDOW_ENTRIES"

lemma count_failures_simps [simp]:
  "count_failures [] = 0"
  "count_failures (x # es) = (if snd x then 1 else 0) + count_failures es"
  "count_failures (es @ fs) = count_failures es + count_failures fs"
  by (auto simp: count_failures_def)

lemma count_failures_le: "count_failures es \<le> length es"
  by (simp add: count_failures_def)

lemma evict_loop_eq:
  "evict_loop cutoff es (n + count_failures es) =
     (let es' = dropWhile (\<lambda>x. fst x < cutoff) es in (es', n + count_failures es'))"
proof (induction es)
  case (Cons x es)
  obtain ts f where "x = (ts, f)" by fastforce
  with Cons show ?case by (cases f) (auto simp: Let_def)
qed (simp add: Let_def)

lemma evict_entries:
  assumes "window_inv w"
  shows "entries (window_evict d now w) =
      (case checked_sub now d of None \<Rightarrow> entries w
       | Some cutoff \<Rightarrow> dropWhile (\<lambda>x. fst x < cutoff) (entries w))"
  using assms evict_loop_eq [of _ "entries w" 0]
  by (auto simp: window_evict_def window_inv_def Let_def split: option.splits)

lemma push_entries:
  "entries (window_push f t w) =
     (if MAX_WINDOW_ENTRIES \<le> length (entries w) then tl (entries w) else entries w) @ [(t, f)]"
  by (auto simp: window_push_def pop_front_if_full_def Let_def split: list.splits)

lemma window_inv_new [simp]: "window_inv window_new"
  by (simp add: window_inv_def window_new_def)

lemma window_inv_clear [simp]: "window_inv (window_clear w)"
  by (simp add: window_inv_def window_clear_def)

lemma window_inv_push:
  assumes "window_inv w"
  shows "window_inv (window_push f t w)"
proof (cases "entries w")
  case Nil
  with assms show ?thesis
    by (simp add: window_inv_def window_push_def pop_front_if_full_def MAX_WINDOW_ENTRIES_def)
next
  case (Cons x es)
  with assms show ?thesis
    by (cases x) (auto simp: window_inv_def window_push_def pop_front_if_full_def Let_def)
qed

lemma window_inv_evict:
  assumes "window_inv w"
  shows "window_inv (window_evict d now w)"
proof -
  have "length (dropWhile P (entries w)) \<le> MAX_WINDOW_ENTRIES" for P
    using assms length_dropWhile_le [of P "entries w"] by (simp add: window_inv_def)
  then show ?thesis
    using assms evict_loop_eq [of _ "entries w" 0]
    by (auto simp: window_evict_def window_inv_def Let_def split: option.splits)
qed

section \<open>What the window remembers\<close>

text \<open>
  The interface the breaker relies on: a window whose samples are a list that \<open>push\<close> extends,
  dropping the oldest sample at capacity, and \<open>evict\<close> shortens at the front.  Recording a run of
  samples, each followed by an eviction at its own time, keeps exactly the recent ones.
\<close>

definition recent :: "nat \<Rightarrow> nat \<Rightarrow> nat \<Rightarrow> (nat \<times> bool) list \<Rightarrow> (nat \<times> bool) list" where
  "recent cap d now h = dropWhile (\<lambda>x. fst x + d < now) (drop (length h - cap) h)"

lemma dropWhile_weaker:
  "(\<And>x. P x \<Longrightarrow> Q x) \<Longrightarrow> dropWhile Q (dropWhile P xs @ ys) = dropWhile Q (xs @ ys)"
  by (induction xs) auto

lemma recent_step:
  assumes "0 < cap" and "t \<le> t'"
  shows "dropWhile (\<lambda>x. fst x + d < t')
       ((if cap \<le> length (recent cap d t h) then tl (recent cap d t h) else recent cap d t h) @ [x]) =
     recent cap d t' (h @ [x])"
proof -
  let ?P = "\<lambda>x :: nat \<times> bool. fst x + d < t" and ?Q = "\<lambda>x :: nat \<times> bool. fst x + d < t'"
  have weaker: "dropWhile ?Q (dropWhile ?P xs @ ys) = dropWhile ?Q (xs @ ys)" for xs ys
    using assms(2) by (intro dropWhile_weaker) auto
  define X where "X = drop (length h - cap) h"
  have R: "recent cap d t h = dropWhile ?P X" by (simp add: recent_def X_def)
  show ?thesis
  proof (cases "length h < cap")
    case True
    then have "length (dropWhile ?P X) < cap"
      using length_dropWhile_le [of ?P X] by (simp add: X_def)
    with True show ?thesis by (simp add: R weaker) (simp add: recent_def X_def)
  next
    case False
    with assms(1) have len: "length X = cap"
      and rest: "recent cap d t' (h @ [x]) = dropWhile ?Q (tl X @ [x])"
      by (simp_all add: X_def recent_def tl_drop drop_Suc Suc_diff_le)
    then obtain y Y where X: "X = y # Y" using assms(1) by (cases X) auto
    show ?thesis
    proof (cases "?P y")
      case True
      then have "length (dropWhile ?P X) < cap"
        using length_dropWhile_le [of ?P Y] len by (simp add: X)
      with True show ?thesis by (simp add: R rest X weaker)
    next
      case False
      with len show ?thesis by (simp add: R rest X)
    qed
  qed
qed

locale sample_window =
  fixes push :: "bool \<Rightarrow> nat \<Rightarrow> 'w \<Rightarrow> 'w"
    and evict :: "nat \<Rightarrow> nat \<Rightarrow> 'w \<Rightarrow> 'w"
    and samples :: "'w \<Rightarrow> (nat \<times> bool) list"
    and ok :: "'w \<Rightarrow> bool"
    and cap :: nat
  assumes cap_pos: "0 < cap"
    and ok_push: "ok w \<Longrightarrow> ok (push f t w)"
    and ok_evict: "ok w \<Longrightarrow> ok (evict d now w)"
    and samples_push: "ok w \<Longrightarrow>
      samples (push f t w) = (if cap \<le> length (samples w) then tl (samples w) else samples w) @ [(t, f)]"
    and samples_evict: "ok w \<Longrightarrow>
      samples (evict d now w) = dropWhile (\<lambda>x. fst x + d < now) (samples w)"
begin

lemma samples_run:
  assumes "ok w" "samples w = []" "sorted (map fst h)"
  shows "ok (foldl (\<lambda>w x. evict d (fst x) (push (snd x) (fst x) w)) w h) \<and>
    samples (foldl (\<lambda>w x. evict d (fst x) (push (snd x) (fst x) w)) w h) =
      recent cap d (fst (last h)) h"
  using assms(3)
proof (induction h rule: rev_induct)
  case Nil
  then show ?case using assms(1,2) by (simp add: recent_def)
next
  case (snoc x h)
  let ?w = "foldl (\<lambda>w x. evict d (fst x) (push (snd x) (fst x) w)) w h"
  from snoc have ok: "ok ?w" and IH: "samples ?w = recent cap d (fst (last h)) h"
    and le: "h \<noteq> [] \<Longrightarrow> fst (last h) \<le> fst x"
    by (auto simp: sorted_append)
  have "samples ?w = recent cap d (min (fst (last h)) (fst x)) h"
    using IH le by (cases "h = []") (simp_all add: recent_def min_absorb1)
  then show ?case
    using ok cap_pos recent_step [of cap "min (fst (last h)) (fst x)" "fst x" d h x]
    by (simp add: ok_push ok_evict samples_push samples_evict split: if_split_asm)
qed

end

interpretation win: sample_window window_push window_evict entries window_inv MAX_WINDOW_ENTRIES
proof unfold_locales
  fix w d now
  assume "window_inv w"
  moreover have "(\<lambda>x :: nat \<times> bool. fst x < now - d) = (\<lambda>x. fst x + d < now)" if "d \<le> now"
    using that by (auto simp: fun_eq_iff)
  moreover have "dropWhile (\<lambda>x :: nat \<times> bool. fst x + d < now) es = es" if "\<not> d \<le> now" for es
    using that by (cases es) auto
  ultimately show "entries (window_evict d now w) = dropWhile (\<lambda>x. fst x + d < now) (entries w)"
    by (simp add: evict_entries checked_sub_def)
qed (simp_all add: MAX_WINDOW_ENTRIES_def window_inv_push window_inv_evict push_entries)

text \<open>
  Whenever the code decrements the failure counter of a consistent window the counter is
  positive, on \<open>push\<close> at capacity and for every sample evicted, so the \<open>usize\<close> subtractions of
  \<open>window.rs\<close> never underflow, and the counter stays equal to the number of failures among the
  retained samples.
\<close>

theorem window_counter_exact:
  assumes "window_inv w"
  shows "window_inv (window_push f t w) \<and> window_inv (window_evict d now w) \<and>
    (\<forall>ts rest. entries w = (ts, True) # rest \<longrightarrow> 0 < failures w) \<and>
    failures w \<le> sample_count w"
  using assms window_inv_push window_inv_evict count_failures_le [of "entries w"]
  by (simp add: window_inv_def sample_count_def)

theorem window_counter_exact_witness:
  "window_inv \<lparr>entries = [(5, True), (7, False)], failures = 1\<rparr> \<and>
   failures \<lparr>entries = [(5, True), (7, False)], failures = 1\<rparr> = 1 \<and>
   window_inv (window_evict 1 7 \<lparr>entries = [(5, True), (7, False)], failures = 1\<rparr>) \<and>
   window_evict 1 7 \<lparr>entries = [(5, True), (7, False)], failures = 1\<rparr> =
     \<lparr>entries = [(7, False)], failures = 0\<rparr>"
proof -
  let ?w = "\<lparr>entries = [(5, True), (7, False)], failures = 1\<rparr>"
  have inv: "window_inv ?w" by (simp add: window_inv_def MAX_WINDOW_ENTRIES_def)
  show ?thesis
    using inv window_counter_exact [OF inv, of True 8 1 7]
    by (simp add: window_evict_def checked_sub_def)
qed

text \<open>
  After recording any run of outcomes at non-decreasing times, each as \<open>record\<close> does it (a
  \<open>push\<close> and an \<open>evict\<close> at the same time), the window holds exactly the last
  \<open>MAX_WINDOW_ENTRIES\<close> samples minus those older than the window's duration: neither the cap nor
  the eviction ever loses a sample that is still due, or keeps one that is not.
\<close>

theorem window_history:
  assumes "sorted (map fst h)"
  shows "entries (foldl (\<lambda>w x. window_evict d (fst x) (window_push (snd x) (fst x) w)) window_new h) =
    recent MAX_WINDOW_ENTRIES d (fst (last h)) h"
  using win.samples_run [of window_new h d] assms by (simp add: window_new_def window_inv_def)

theorem window_history_witness:
  "sorted (map fst [(1::nat, True), (4, False), (9, True)]) \<and>
   entries (foldl (\<lambda>w x. window_evict 5 (fst x) (window_push (snd x) (fst x) w)) window_new
     [(1, True), (4, False), (9, True)]) = [(4, False), (9, True)]"
proof -
  have s: "sorted (map fst [(1::nat, True), (4, False), (9, True)])" by simp
  show ?thesis using s window_history [OF s, of 5] by (simp add: recent_def MAX_WINDOW_ENTRIES_def)
qed

end
