(* ===== verification/Breaker_Config.thy ===== *)
theory Breaker_Config
  imports Sliding_Window
begin

text \<open>
  \<open>config.rs\<close>, \<open>retry_policy.rs\<close> and \<open>grpc.rs\<close> of \<open>packages/platform/xai-circuit-breaker/src\<close>: the
  breaker's tuning knobs, their loading from an environment lookup, and the retry classification
  of HTTP and gRPC statuses.  Durations are nanoseconds; \<open>f64\<close> parsing is the standard library's
  and enters as a parameter.
\<close>

section \<open>Breaker configuration\<close>

record breaker_config =
  window_duration :: nat
  min_samples :: nat
  error_rate_threshold :: f64
  open_duration :: nat
  half_open_max_probes :: nat
  failure_codes :: "nat set"
  enabled :: bool

definition from_secs :: "nat \<Rightarrow> nat" where
  "from_secs s = s * 1000000000"

definition from_millis :: "nat \<Rightarrow> nat" where
  "from_millis ms = ms * 1000000"

definition default_failure_codes :: "nat set" where
  "default_failure_codes = {429, 500, 502, 503, 504}"

definition config_server :: breaker_config where
  "config_server =
     \<lparr>window_duration = from_secs 60, min_samples = 10, error_rate_threshold = Finite (1 / 2),
      open_duration = from_secs 10, half_open_max_probes = 1,
      failure_codes = default_failure_codes, enabled = True\<rparr>"

definition config_client :: breaker_config where
  "config_client =
     \<lparr>window_duration = from_secs 60, min_samples = 5, error_rate_threshold = Finite (1 / 2),
      open_duration = from_secs 60, half_open_max_probes = 1,
      failure_codes = {401}, enabled = True\<rparr>"

definition is_failure_status :: "breaker_config \<Rightarrow> nat \<Rightarrow> bool" where
  "is_failure_status c status \<longleftrightarrow> status \<in> failure_codes c"

subsection \<open>Parsing\<close>

text \<open>\<open>str::parse\<close> for an unsigned integer with largest value \<open>mx\<close>.\<close>

fun parse_digits :: "nat \<Rightarrow> rstr \<Rightarrow> nat \<Rightarrow> nat option" where
  "parse_digits mx [] acc = Some acc"
| "parse_digits mx (c # cs) acc =
     (if is_ascii_digit c \<and> acc * 10 + (c - 48) \<le> mx
      then parse_digits mx cs (acc * 10 + (c - 48)) else None)"

definition parse_uint :: "nat \<Rightarrow> rstr \<Rightarrow> nat option" where
  "parse_uint mx s =
     (let ds = (case s of [] \<Rightarrow> [] | c # cs \<Rightarrow> if c = 43 then cs else s)
      in if ds = [] then None else parse_digits mx ds 0)"

definition parse_bool :: "rstr \<Rightarrow> bool option" where
  "parse_bool s =
     (if s = lit ''true'' then Some True else if s = lit ''false'' then Some False else None)"

definition parse_failure_codes :: "rstr \<Rightarrow> nat set" where
  "parse_failure_codes s =
     set (List.map_filter (\<lambda>c. parse_uint 65535 (trim c)) (split_on 44 s))"

definition lookup_or :: "(rstr \<Rightarrow> rstr option) \<Rightarrow> (rstr \<Rightarrow> 'a option) \<Rightarrow> rstr \<Rightarrow> 'a \<Rightarrow> 'a" where
  "lookup_or get parse key dflt =
     (case get key of
        Some v \<Rightarrow> (case parse v of Some x \<Rightarrow> x | None \<Rightarrow> dflt)
      | None \<Rightarrow> dflt)"

definition from_lookup_with_prefix ::
  "(rstr \<Rightarrow> f64 option) \<Rightarrow> rstr \<Rightarrow> (rstr \<Rightarrow> rstr option) \<Rightarrow> breaker_config" where
  "from_lookup_with_prefix parse_f64 pre get =
     (let key = (\<lambda>k. pre @ lit k);
          codes = (case get (key ''FAILURE_CODES'') of
              Some raw \<Rightarrow>
                (let cs = parse_failure_codes raw in if cs = {} then default_failure_codes else cs)
            | None \<Rightarrow> default_failure_codes)
      in \<lparr>window_duration = from_secs (lookup_or get (parse_uint U64_MAX) (key ''WINDOW_SECS'') 60),
          min_samples = lookup_or get (parse_uint U64_MAX) (key ''MIN_SAMPLES'') 10,
          error_rate_threshold =
            lookup_or get parse_f64 (key ''ERROR_RATE_THRESHOLD'') (Finite (1 / 2)),
          open_duration =
            from_secs (lookup_or get (parse_uint U64_MAX) (key ''OPEN_DURATION_SECS'') 10),
          half_open_max_probes =
            max (lookup_or get (parse_uint U64_MAX) (key ''HALF_OPEN_MAX_PROBES'') 1) 1,
          failure_codes = codes,
          enabled = lookup_or get parse_bool (key ''ENABLED'') True\<rparr>)"

lemma parse_digits_le: "parse_digits mx cs acc = Some n \<Longrightarrow> acc \<le> mx \<Longrightarrow> n \<le> mx"
  by (induction mx cs acc rule: parse_digits.induct) (auto split: if_splits)

lemma parse_uint_le: "parse_uint mx s = Some n \<Longrightarrow> n \<le> mx"
  unfolding parse_uint_def Let_def
  by (auto split: if_splits list.splits dest: parse_digits_le)

lemma parse_failure_codes_u16: "n \<in> parse_failure_codes s \<Longrightarrow> n \<le> 65535"
  by (auto simp: parse_failure_codes_def List.map_filter_def dest: parse_uint_le)

text \<open>
  Whatever the environment holds, the loaded configuration is usable: at least one half-open
  probe, a non-empty set of failure codes that are \<open>u16\<close> values, and with no variable set it is
  the server preset.
\<close>

theorem from_lookup_well_formed:
  "1 \<le> half_open_max_probes (from_lookup_with_prefix pf pre get) \<and>
   failure_codes (from_lookup_with_prefix pf pre get) \<noteq> {} \<and>
   failure_codes (from_lookup_with_prefix pf pre get) \<subseteq> {..65535} \<and>
   from_lookup_with_prefix pf pre (\<lambda>_. None) = config_server"
proof -
  have "{} \<noteq> default_failure_codes" "default_failure_codes \<subseteq> {..65535}"
    by (auto simp: default_failure_codes_def)
  then show ?thesis
    by (auto simp: from_lookup_with_prefix_def Let_def config_server_def lookup_or_def
        split: option.splits dest: parse_failure_codes_u16)
qed

section \<open>Retry policies\<close>

datatype disposition = Retryable | AuthRefresh | Terminal

record retry_policy =
  retryable :: "nat list"
  auth_refresh :: "nat list"
  terminal :: "nat list"
  default_disposition :: disposition

definition classify :: "retry_policy \<Rightarrow> nat \<Rightarrow> disposition option" where
  "classify p status =
     (if 200 \<le> status \<and> status < 300 then None
      else if status \<in> set (auth_refresh p) then Some AuthRefresh
      else if status \<in> set (terminal p) then Some Terminal
      else if status \<in> set (retryable p) \<or> (500 \<le> status \<and> status < 600) then Some Retryable
      else Some (default_disposition p))"

definition should_retry :: "retry_policy \<Rightarrow> nat \<Rightarrow> bool" where
  "should_retry p status \<longleftrightarrow> classify p status = Some Retryable"

definition policy_server :: retry_policy where
  "policy_server =
     \<lparr>retryable = [429], auth_refresh = [], terminal = [], default_disposition = Terminal\<rparr>"

definition policy_edge_client :: retry_policy where
  "policy_edge_client =
     \<lparr>retryable = [429], auth_refresh = [], terminal = [525, 526], default_disposition = Terminal\<rparr>"

definition policy_client_storage :: retry_policy where
  "policy_client_storage =
     \<lparr>retryable = [], auth_refresh = [401], terminal = [400, 403, 404, 525, 526],
      default_disposition = Retryable\<rparr>"

text \<open>gRPC codes are tonic's; the policy only compares them, so they stay abstract.\<close>

definition grpc_classify :: "'code \<Rightarrow> 'code list \<Rightarrow> 'code \<Rightarrow> disposition option" where
  "grpc_classify ok_code retryable_codes code =
     (if code = ok_code then None
      else if code \<in> set retryable_codes then Some Retryable
      else Some Terminal)"

text \<open>
  The retry decision of the presets in closed form, for every status: the server preset
  retries 429 and 5xx; the edge preset the same minus the origin-TLS codes; the storage preset
  everything outside 2xx that is not one of its terminal codes or 401, which alone refreshes
  credentials.
\<close>

theorem retry_presets:
  "(should_retry policy_server s \<longleftrightarrow> s = 429 \<or> (500 \<le> s \<and> s < 600)) \<and>
   (should_retry policy_edge_client s \<longleftrightarrow> should_retry policy_server s \<and> s \<notin> {525, 526}) \<and>
   (should_retry policy_client_storage s \<longleftrightarrow>
      \<not> (200 \<le> s \<and> s < 300) \<and> s \<notin> {400, 401, 403, 404, 525, 526}) \<and>
   (classify policy_client_storage s = Some AuthRefresh \<longleftrightarrow> s = 401)"
  by (auto simp: should_retry_def classify_def policy_server_def policy_edge_client_def
      policy_client_storage_def)

end
