(* ===== verification/Circuit_Breaker.thy ===== *)
theory Circuit_Breaker
  imports Breaker_Config
begin

text \<open>
  \<open>breaker.rs\<close>, \<open>state.rs\<close> and \<open>registry.rs\<close> of \<open>packages/platform/xai-circuit-breaker/src\<close>.

  A breaker is the record of its atomics and its window.  Each block the code runs under
  \<open>probe_state_lock\<close> (or the window mutex) is one function on that record: \<open>trip_section\<close>,
  \<open>close_section\<close>, \<open>open_cas_section\<close>, \<open>probe_section\<close>, \<open>window_section\<close>.  \<open>check\<close> and \<open>record_outcome\<close> are
  composed from them for one caller; \<open>Breaker_Interleaving\<close> composes the same blocks for any
  number of threads.  Every read of the clock is an argument of its own; observer callbacks are
  the events returned beside the state, in order.
\<close>

datatype breaker_state = Closed | Open | HalfOpen

fun to_u8 :: "breaker_state \<Rightarrow> nat" where
  "to_u8 Closed = 0" | "to_u8 Open = 1" | "to_u8 HalfOpen = 2"

definition from_u8 :: "nat \<Rightarrow> breaker_state" where
  "from_u8 v = (if v = 0 then Closed else if v = 1 then Open else if v = 2 then HalfOpen else Closed)"

datatype outcome = Success | Failure

datatype obs_event =
    StateChange breaker_state breaker_state string
  | ProbeAdmission bool
  | OutcomeSeen outcome breaker_state

record breaker =
  config :: breaker_config
  state :: breaker_state
  baseline :: nat
  opened_at_millis :: nat
  half_open_probes :: nat
  probe_claimed_at_millis :: nat
  is_open_fast :: bool
  window :: sliding_window

definition NO_PROBE_CLAIM :: nat where
  "NO_PROBE_CLAIM = 0"

definition encode_probe_claim_millis :: "nat \<Rightarrow> nat" where
  "encode_probe_claim_millis elapsed = saturating_add_u64 elapsed 1"

definition breaker_with_clock :: "breaker_config \<Rightarrow> nat \<Rightarrow> breaker" where
  "breaker_with_clock c now =
     \<lparr>config = c\<lparr>half_open_max_probes := max (half_open_max_probes c) 1\<rparr>,
      state = Closed, baseline = now, opened_at_millis = 0, half_open_probes = 0,
      probe_claimed_at_millis = NO_PROBE_CLAIM, is_open_fast = False, window = window_new\<rparr>"

text \<open>\<open>clock.now().saturating_duration_since(baseline).as_millis() as u64\<close>\<close>

definition elapsed_millis :: "breaker \<Rightarrow> nat \<Rightarrow> nat" where
  "elapsed_millis b now = as_u64 ((now - baseline b) div 1000000)"

section \<open>The locked blocks\<close>

definition trip_section :: "nat \<Rightarrow> breaker \<Rightarrow> breaker" where
  "trip_section now b =
     b\<lparr>opened_at_millis := elapsed_millis b now, half_open_probes := 0,
       probe_claimed_at_millis := NO_PROBE_CLAIM, state := Open, is_open_fast := True\<rparr>"

definition close_section :: "breaker \<Rightarrow> breaker" where
  "close_section b =
     b\<lparr>state := Closed, half_open_probes := 0, probe_claimed_at_millis := NO_PROBE_CLAIM,
       is_open_fast := False\<rparr>"

definition clear_window_section :: "breaker \<Rightarrow> breaker" where
  "clear_window_section b = b\<lparr>window := window_clear (window b)\<rparr>"

definition open_cas_section :: "breaker \<Rightarrow> breaker \<times> bool" where
  "open_cas_section b =
     (if state b = Open then (b\<lparr>state := HalfOpen, is_open_fast := False\<rparr>, True) else (b, False))"

definition probe_section :: "nat \<Rightarrow> breaker \<Rightarrow> breaker \<times> bool" where
  "probe_section time b =
     (if state b \<noteq> HalfOpen then (b, False)
      else
        let now = elapsed_millis b time;
            encoded_now = encode_probe_claim_millis now;
            prev = half_open_probes b
        in if prev < half_open_max_probes (config b)
           then (b\<lparr>half_open_probes := prev + 1, probe_claimed_at_millis := encoded_now\<rparr>, True)
           else
             let lease_millis = as_u64 (open_duration (config b) div 1000000);
                 claimed = probe_claimed_at_millis b
             in if claimed \<noteq> NO_PROBE_CLAIM
                then
                  let claimed_at = claimed - 1
                  in if lease_millis \<le> now - claimed_at
                     then (b\<lparr>probe_claimed_at_millis := encoded_now\<rparr>, True)
                     else (b, False)
                else (b, False))"

definition window_section :: "bool \<Rightarrow> nat \<Rightarrow> breaker \<Rightarrow> breaker \<times> bool" where
  "window_section is_failure now b =
     (let w = window_evict (window_duration (config b)) now (window_push is_failure now (window b));
          should_trip = min_samples (config b) \<le> sample_count w \<and>
            f64_ge (window_error_rate w) (error_rate_threshold (config b))
      in (b\<lparr>window := w\<rparr>, should_trip))"

section \<open>Operations\<close>

definition change_event :: "breaker_state \<Rightarrow> breaker_state \<Rightarrow> string \<Rightarrow> obs_event list" where
  "change_event prev new reason = (if prev \<noteq> new then [StateChange prev new reason] else [])"

definition trip :: "nat \<Rightarrow> breaker_state \<Rightarrow> string \<Rightarrow> breaker \<Rightarrow> breaker \<times> obs_event list" where
  "trip now prev reason b = (trip_section now b, change_event prev Open reason)"

definition close :: "breaker_state \<Rightarrow> string \<Rightarrow> breaker \<Rightarrow> breaker \<times> obs_event list" where
  "close prev reason b = (clear_window_section (close_section b), change_event prev Closed reason)"

definition HALF_OPEN_PROBE_BACKOFF :: nat where
  "HALF_OPEN_PROBE_BACKOFF = from_millis 50"

definition try_half_open_probe ::
  "nat \<Rightarrow> breaker \<Rightarrow> breaker \<times> obs_event list \<times> (nat, unit) result" where
  "try_half_open_probe now b =
     (case probe_section now b of
        (b', True) \<Rightarrow> (b', [ProbeAdmission True], Inr ())
      | (b', False) \<Rightarrow>
          (b', [ProbeAdmission False], Inl (min HALF_OPEN_PROBE_BACKOFF (open_duration (config b)))))"

definition check_open ::
  "nat \<Rightarrow> nat \<Rightarrow> breaker \<Rightarrow> breaker \<times> obs_event list \<times> (nat, unit) result" where
  "check_open now now' b =
     (let elapsed = from_millis (elapsed_millis b now - opened_at_millis b)
      in if open_duration (config b) \<le> elapsed
         then
           case open_cas_section b of
             (b', True) \<Rightarrow>
               (case try_half_open_probe now' b' of
                  (b'', evs, r) \<Rightarrow> (b'', StateChange Open HalfOpen ''open_elapsed'' # evs, r))
           | (b', False) \<Rightarrow>
               (case state b' of
                  Closed \<Rightarrow> (b', [], Inr ())
                | HalfOpen \<Rightarrow> try_half_open_probe now' b'
                | Open \<Rightarrow>
                    (b', [], Inl (open_duration (config b') -
                       from_millis (elapsed_millis b' now' - opened_at_millis b'))))
         else (b, [], Inl (open_duration (config b) - elapsed)))"

definition check :: "nat \<Rightarrow> nat \<Rightarrow> breaker \<Rightarrow> breaker \<times> obs_event list \<times> (nat, unit) result" where
  "check now now' b =
     (if \<not> enabled (config b) then (b, [], Inr ())
      else case state b of
             Closed \<Rightarrow> (b, [], Inr ())
           | Open \<Rightarrow> check_open now now' b
           | HalfOpen \<Rightarrow> try_half_open_probe now' b)"

definition record_outcome :: "nat \<Rightarrow> nat \<Rightarrow> outcome \<Rightarrow> breaker \<Rightarrow> breaker \<times> obs_event list" where
  "record_outcome now now' oc b =
     (if \<not> enabled (config b) then (b, [])
      else
        let is_failure = (oc = Failure);
            (b', evs) =
              (case state b of
                 Closed \<Rightarrow>
                   (case window_section is_failure now b of
                      (b', should_trip) \<Rightarrow>
                        if should_trip then trip now' (state b) ''trip'' b' else (b', []))
               | HalfOpen \<Rightarrow>
                   if is_failure then trip now' (state b) ''probe_failure'' b
                   else close (state b) ''probe_success'' b
               | Open \<Rightarrow> (fst (window_section is_failure now b), []))
        in (b', evs @ [OutcomeSeen oc (state b')]))"

definition is_open :: "breaker \<Rightarrow> bool" where
  "is_open b = is_open_fast b"

definition error_rate :: "nat \<Rightarrow> breaker \<Rightarrow> breaker \<times> f64" where
  "error_rate now b =
     (let w = window_evict (window_duration (config b)) now (window b)
      in (b\<lparr>window := w\<rparr>, window_error_rate w))"

section \<open>Registry\<close>

text \<open>
  One breaker per key, created on first use.  A handle stands for the shared \<open>Arc\<close>, the heap for
  what it points to.
\<close>

record registry =
  reg_config :: breaker_config
  breakers :: "rstr \<rightharpoonup> nat"
  heap :: "nat \<rightharpoonup> breaker"
  next_handle :: nat

definition registry_new :: "breaker_config \<Rightarrow> registry" where
  "registry_new c = \<lparr>reg_config = c, breakers = Map.empty, heap = Map.empty, next_handle = 0\<rparr>"

definition registry_get :: "nat \<Rightarrow> rstr \<Rightarrow> registry \<Rightarrow> registry \<times> nat option" where
  "registry_get now key r =
     (if \<not> enabled (reg_config r) then (r, None)
      else case breakers r key of
             Some h \<Rightarrow> (r, Some h)
           | None \<Rightarrow>
               (let h = next_handle r
                in (r\<lparr>heap := (heap r)(h \<mapsto> breaker_with_clock (reg_config r) now),
                      next_handle := h + 1,
                      breakers := (breakers r)(key \<mapsto> h)\<rparr>, Some h)))"

section \<open>Invariant\<close>

definition breaker_inv :: "breaker \<Rightarrow> bool" where
  "breaker_inv b \<longleftrightarrow>
     window_inv (window b) \<and>
     1 \<le> half_open_max_probes (config b) \<and>
     (is_open_fast b \<longleftrightarrow> state b = Open) \<and>
     half_open_probes b \<le> half_open_max_probes (config b) \<and>
     (state b \<noteq> HalfOpen \<longrightarrow> half_open_probes b = 0) \<and>
     (half_open_probes b = 0 \<longleftrightarrow> probe_claimed_at_millis b = NO_PROBE_CLAIM)"

named_theorems section_defs \<open>definitions of the locked blocks\<close>

lemmas [section_defs] = trip_section_def close_section_def clear_window_section_def
  open_cas_section_def probe_section_def window_section_def

lemma from_u8_to_u8: "from_u8 (to_u8 s) = s"
  by (cases s) (simp_all add: from_u8_def)

lemma encode_pos: "encode_probe_claim_millis n \<noteq> NO_PROBE_CLAIM"
  by (simp add: encode_probe_claim_millis_def NO_PROBE_CLAIM_def saturating_add_u64_def U64_MAX_def)

lemma inv_trip_section: "breaker_inv b \<Longrightarrow> breaker_inv (trip_section t b)"
  by (simp add: breaker_inv_def trip_section_def)

lemma inv_close_section: "breaker_inv b \<Longrightarrow> breaker_inv (close_section b)"
  by (simp add: breaker_inv_def close_section_def)

lemma inv_clear_window: "breaker_inv b \<Longrightarrow> breaker_inv (clear_window_section b)"
  by (simp add: breaker_inv_def clear_window_section_def)

lemma inv_open_cas: "breaker_inv b \<Longrightarrow> breaker_inv (fst (open_cas_section b))"
  by (auto simp: breaker_inv_def open_cas_section_def)

lemma inv_probe: "breaker_inv b \<Longrightarrow> breaker_inv (fst (probe_section t b))"
  using encode_pos by (auto simp: breaker_inv_def probe_section_def Let_def)

lemma inv_window: "breaker_inv b \<Longrightarrow> breaker_inv (fst (window_section f t b))"
  by (auto simp: breaker_inv_def window_section_def Let_def window_inv_push window_inv_evict)

lemmas inv_sections = inv_trip_section inv_close_section inv_clear_window inv_open_cas inv_probe
  inv_window

lemma inv_with_clock: "breaker_inv (breaker_with_clock c now)"
  by (simp add: breaker_inv_def breaker_with_clock_def)

lemma inv_try_half_open_probe: "breaker_inv b \<Longrightarrow> breaker_inv (fst (try_half_open_probe t b))"
  using inv_probe [of b t] by (auto simp: try_half_open_probe_def split: prod.splits bool.splits)

lemma inv_check_open:
  assumes "breaker_inv b"
  shows "breaker_inv (fst (check_open t t' b))"
  using assms inv_open_cas [OF assms] inv_try_half_open_probe
  by (auto simp: check_open_def Let_def split: prod.splits bool.splits breaker_state.splits)
    (metis fst_conv)+

lemma inv_check: "breaker_inv b \<Longrightarrow> breaker_inv (fst (check t t' b))"
  by (auto simp: check_def inv_check_open inv_try_half_open_probe split: breaker_state.splits)

lemma inv_record_outcome:
  assumes "breaker_inv b"
  shows "breaker_inv (fst (record_outcome t t' oc b))"
proof -
  obtain b' tripped where ws: "window_section (oc = Failure) t b = (b', tripped)"
    by fastforce
  with inv_window [OF assms, of "oc = Failure" t] have "breaker_inv b'" by simp
  with assms ws show ?thesis
    by (cases "state b")
      (simp_all add: record_outcome_def Let_def trip_def close_def inv_trip_section
        inv_close_section inv_clear_window)
qed

lemma inv_error_rate: "breaker_inv b \<Longrightarrow> breaker_inv (fst (error_rate t b))"
  by (simp add: error_rate_def Let_def breaker_inv_def window_inv_evict)

text \<open>
  A new breaker satisfies the invariant and every operation keeps it, on every branch: the
  lock-free mirror agrees with the state, at most \<open>half_open_max_probes\<close> slots are taken, slots are
  taken only while half open, a claim time is published exactly when a slot is taken, and the
  window's counter is exact.
\<close>

theorem breaker_operations_keep_invariant:
  "breaker_inv (breaker_with_clock c now) \<and>
   (breaker_inv b \<longrightarrow>
      breaker_inv (fst (check t t' b)) \<and> breaker_inv (fst (record_outcome t t' oc b)) \<and>
      breaker_inv (fst (error_rate t b)) \<and> (is_open b \<longleftrightarrow> state b = Open))"
  using inv_with_clock inv_check inv_record_outcome inv_error_rate
  by (simp add: is_open_def breaker_inv_def)

theorem breaker_operations_keep_invariant_witness:
  "breaker_inv (fst (record_outcome 5 6 Failure (breaker_with_clock config_client 0)))"
  using breaker_operations_keep_invariant [of config_client 0 "breaker_with_clock config_client 0" 5 6 Failure]
  by blast

section \<open>Shedding and recovery\<close>

lemma probe_fresh:
  assumes "state b = HalfOpen" "half_open_probes b < half_open_max_probes (config b)"
  shows "probe_section t b =
    (b\<lparr>half_open_probes := half_open_probes b + 1,
       probe_claimed_at_millis := encode_probe_claim_millis (elapsed_millis b t)\<rparr>, True)"
  using assms by (simp add: probe_section_def Let_def)

lemma probe_due:
  assumes "breaker_inv b" "state b = HalfOpen"
    and "as_u64 (open_duration (config b) div 1000000) \<le>
      elapsed_millis b t - (probe_claimed_at_millis b - 1)"
  shows "snd (probe_section t b)"
  using assms by (auto simp: probe_section_def Let_def breaker_inv_def NO_PROBE_CLAIM_def)

text \<open>
  While the cool-down runs, an open breaker refuses every request without changing, and tells
  the caller a positive wait of at most the cool-down, exactly what is left of it.
\<close>

theorem open_breaker_sheds:
  assumes "enabled (config b)" "state b = Open"
    and "from_millis (elapsed_millis b t - opened_at_millis b) < open_duration (config b)"
  shows "\<exists>r. check t t' b = (b, [], Inl r) \<and> 0 < r \<and> r \<le> open_duration (config b) \<and>
    r + from_millis (elapsed_millis b t - opened_at_millis b) = open_duration (config b)"
  using assms by (simp add: check_def check_open_def Let_def)

theorem open_breaker_sheds_witness:
  "\<exists>r. check 3000000 3000000 (trip_section 0 (breaker_with_clock config_server 0)) =
     (trip_section 0 (breaker_with_clock config_server 0), [], Inl r) \<and> 0 < r \<and> r \<le> 10000000000"
proof -
  let ?b = "trip_section 0 (breaker_with_clock config_server 0)"
  have "enabled (config ?b)" "state ?b = Open"
    "from_millis (elapsed_millis ?b 3000000 - opened_at_millis ?b) < open_duration (config ?b)"
    by (simp_all add: trip_section_def breaker_with_clock_def config_server_def elapsed_millis_def
        from_millis_def from_secs_def as_u64_def)
  from open_breaker_sheds [OF this, of 3000000] show ?thesis
    by (auto simp: trip_section_def breaker_with_clock_def config_server_def from_secs_def)
qed

text \<open>
  C40. Recovery.  Once the cool-down has elapsed, the next \<open>check\<close> of an open breaker is admitted as
  a probe and leaves it half open with one slot taken; the probe's success closes it with an empty
  window and lets requests through again, its failure opens it for another cool-down.
\<close>

theorem open_breaker_recovers:
  assumes "breaker_inv b" "enabled (config b)" "state b = Open"
    and "open_duration (config b) \<le> from_millis (elapsed_millis b t - opened_at_millis b)"
  shows "\<exists>b' evs. check t t' b = (b', evs, Inr ()) \<and> state b' = HalfOpen \<and> half_open_probes b' = 1 \<and>
    (let s = fst (record_outcome u u' Success b')
     in state s = Closed \<and> entries (window s) = [] \<and> \<not> is_open s \<and> check v v' s = (s, [], Inr ())) \<and>
    (let f = fst (record_outcome u u' Failure b')
     in state f = Open \<and> opened_at_millis f = elapsed_millis b u' \<and> half_open_probes f = 0)"
proof -
  define h where "h = b\<lparr>state := HalfOpen, is_open_fast := False\<rparr>"
  have max1: "half_open_probes h < half_open_max_probes (config h)" "state h = HalfOpen"
    using assms(1,3) by (simp_all add: h_def breaker_inv_def)
  define b' where "b' = fst (probe_section t' h)"
  have b': "probe_section t' h = (b', True)" "state b' = HalfOpen" "half_open_probes b' = 1"
    "config b' = config b" "baseline b' = baseline b"
    using probe_fresh [OF max1(2,1), of t'] assms(1,3)
    by (simp_all add: b'_def h_def breaker_inv_def)
  have "check t t' b = (b', [StateChange Open HalfOpen ''open_elapsed'', ProbeAdmission True], Inr ())"
    using assms b'(1)
    by (simp add: check_def check_open_def open_cas_section_def try_half_open_probe_def h_def [symmetric])
  then show ?thesis
    using assms(2) b'(2-)
    by (simp add: Let_def record_outcome_def close_def close_section_def clear_window_section_def
        window_clear_def is_open_def check_def trip_def trip_section_def elapsed_millis_def)
qed

theorem open_breaker_recovers_witness:
  "\<exists>b' evs. check 10000000000 10000000000 (trip_section 0 (breaker_with_clock config_server 0)) =
     (b', evs, Inr ()) \<and> state b' = HalfOpen"
proof -
  let ?b = "trip_section 0 (breaker_with_clock config_server 0)"
  have "breaker_inv ?b" by (intro inv_trip_section inv_with_clock)
  moreover have "enabled (config ?b)" "state ?b = Open"
    "open_duration (config ?b) \<le> from_millis (elapsed_millis ?b 10000000000 - opened_at_millis ?b)"
    by (simp_all add: trip_section_def breaker_with_clock_def config_server_def elapsed_millis_def
        from_millis_def from_secs_def as_u64_def)
  ultimately show ?thesis using open_breaker_recovers [of ?b 10000000000 10000000000] by blast
qed

text \<open>
  A lost probe cannot strand the breaker: in every consistent half-open state, a \<open>check\<close> whose
  clock is at least one cool-down after the published claim is admitted, whether or not the slots
  are exhausted and whether or not any earlier probe ever reported back.
\<close>

theorem half_open_never_stuck:
  assumes "breaker_inv b" "enabled (config b)" "state b = HalfOpen"
    and "as_u64 (open_duration (config b) div 1000000) \<le>
      elapsed_millis b t' - (probe_claimed_at_millis b - 1)"
  shows "\<exists>b' evs. check t t' b = (b', evs, Inr ()) \<and> state b' = HalfOpen \<and> breaker_inv b'"
proof -
  obtain b' where b': "probe_section t' b = (b', True)"
    using probe_due [OF assms(1,3,4)] by (cases "probe_section t' b") auto
  moreover have "state b' = HalfOpen"
    using b' assms(3) by (auto simp: probe_section_def Let_def split: if_splits)
  moreover have "breaker_inv b'" using inv_probe [OF assms(1), of t'] b' by simp
  ultimately show ?thesis
    using assms(2,3) by (simp add: check_def try_half_open_probe_def)
qed

theorem half_open_never_stuck_witness:
  "\<exists>b' evs. check 0 10001000000
     (fst (probe_section 1000000 (fst (open_cas_section
        (trip_section 0 (breaker_with_clock config_server 0)))))) = (b', evs, Inr ())"
proof -
  let ?b = "fst (probe_section 1000000 (fst (open_cas_section
        (trip_section 0 (breaker_with_clock config_server 0)))))"
  have inv: "breaker_inv ?b" by (intro inv_probe inv_open_cas inv_trip_section inv_with_clock)
  have "enabled (config ?b)" "state ?b = HalfOpen"
    "as_u64 (open_duration (config ?b) div 1000000) \<le>
      elapsed_millis ?b 10001000000 - (probe_claimed_at_millis ?b - 1)"
    by (simp_all add: trip_section_def breaker_with_clock_def config_server_def elapsed_millis_def
        from_secs_def as_u64_def open_cas_section_def probe_section_def Let_def
        encode_probe_claim_millis_def saturating_add_u64_def U64_MAX_def)
  from half_open_never_stuck [OF inv this, of 0] show ?thesis by blast
qed

section \<open>The trip decision\<close>

lemma window_section_nonempty:
  assumes "window_inv w"
  shows "entries (window_evict d now (window_push f now w)) \<noteq> []"
proof -
  have "entries (window_push f now w) \<noteq> []" "last (entries (window_push f now w)) = (now, f)"
    by (simp_all add: push_entries)
  then have "dropWhile (\<lambda>x. fst x < now - d) (entries (window_push f now w)) \<noteq> []"
    by (metis (lifting) diff_le_self dropWhile_eq_Nil_conv fst_conv last_in_set not_le)
  then show ?thesis
    using window_inv_push [OF assms] \<open>entries (window_push f now w) \<noteq> []\<close>
    by (auto simp: evict_entries checked_sub_def)
qed

text \<open>
  With the threshold one half that both presets use, a closed breaker opens on recording an
  outcome exactly when its updated window holds at least \<open>min_samples\<close> samples and at least half of
  them are failures: the rounding of the \<open>f64\<close> division never decides the comparison.
\<close>

theorem closed_breaker_trips_iff:
  assumes "breaker_inv b" "enabled (config b)" "state b = Closed"
    and "error_rate_threshold (config b) = Finite (1 / 2)"
  shows "let es = entries (window (fst (record_outcome t t' oc b)))
    in state (fst (record_outcome t t' oc b)) = Open \<longleftrightarrow>
      min_samples (config b) \<le> length es \<and> length es \<le> 2 * count_failures es"
proof -
  define w where
    "w = window_evict (window_duration (config b)) t (window_push (oc = Failure) t (window b))"
  have inv: "window_inv w"
    using assms(1) by (simp add: w_def breaker_inv_def window_inv_evict window_inv_push)
  have ne: "entries w \<noteq> []"
    using assms(1) by (simp add: w_def breaker_inv_def window_section_nonempty)
  have es: "entries (window (fst (record_outcome t t' oc b))) = entries w"
    using assms(2,3) by (simp add: record_outcome_def Let_def window_section_def w_def
        trip_def trip_section_def)
  have rate: "f64_ge (window_error_rate w) (Finite (1 / 2)) \<longleftrightarrow>
      length (entries w) \<le> 2 * count_failures (entries w)"
    using inv ne f64_div_half [of "length (entries w)" "failures w"]
    by (simp add: window_error_rate_def window_inv_def MAX_WINDOW_ENTRIES_def)
  have "state (fst (record_outcome t t' oc b)) = Open \<longleftrightarrow>
      min_samples (config b) \<le> sample_count w \<and> f64_ge (window_error_rate w) (Finite (1 / 2))"
    using assms(2-4) by (simp add: record_outcome_def Let_def window_section_def w_def
        trip_def trip_section_def)
  then show ?thesis by (simp add: Let_def rate es sample_count_def)
qed

theorem closed_breaker_trips_iff_witness:
  "state (fst (record_outcome 7 7 Failure
      ((breaker_with_clock config_client 0)\<lparr>window :=
         \<lparr>entries = [(1, True), (2, False), (3, True), (4, False)], failures = 2\<rparr>\<rparr>))) = Open"
proof -
  let ?b = "(breaker_with_clock config_client 0)\<lparr>window :=
         \<lparr>entries = [(1, True), (2, False), (3, True), (4, False)], failures = 2\<rparr>\<rparr>"
  have "breaker_inv ?b" "enabled (config ?b)" "state ?b = Closed"
    "error_rate_threshold (config ?b) = Finite (1 / 2)"
    by (simp_all add: breaker_inv_def breaker_with_clock_def config_client_def window_inv_def
        MAX_WINDOW_ENTRIES_def)
  note trips = closed_breaker_trips_iff [OF this, of 7 7 Failure]
  have "entries (window (fst (record_outcome 7 7 Failure ?b))) =
      [(1, True), (2, False), (3, True), (4, False), (7, True)]"
    by (simp add: record_outcome_def Let_def window_section_def trip_def trip_section_def
        breaker_with_clock_def config_client_def window_evict_def window_push_def
        pop_front_if_full_def MAX_WINDOW_ENTRIES_def checked_sub_def from_secs_def)
  with trips show ?thesis by (simp add: Let_def breaker_with_clock_def config_client_def)
qed

section \<open>Registry properties\<close>

definition registry_inv :: "registry \<Rightarrow> bool" where
  "registry_inv r \<longleftrightarrow>
     (\<forall>k h. breakers r k = Some h \<longrightarrow> h < next_handle r \<and> heap r h \<noteq> None) \<and>
     inj_on (breakers r) (dom (breakers r))"

lemma registry_inv_new: "registry_inv (registry_new c)"
  by (simp add: registry_inv_def registry_new_def)

lemma registry_inv_get:
  assumes "registry_inv r"
  shows "registry_inv (fst (registry_get now key r))"
proof (cases "enabled (reg_config r) \<and> breakers r key = None")
  case True
  then have fresh: "\<And>k h. breakers r k = Some h \<Longrightarrow> h < next_handle r"
    using assms by (simp add: registry_inv_def)
  show ?thesis
    using True assms fresh
    by (fastforce simp: registry_inv_def registry_get_def Let_def inj_on_def dom_def split: if_splits)
next
  case False
  with assms show ?thesis by (auto simp: registry_get_def split: option.splits)
qed

text \<open>
  A registry hands out one shared breaker per key: asking again, after any other request,
  returns the same handle, two keys never share one, the handle always points to a live breaker,
  and a disabled registry hands out none.
\<close>

theorem registry_one_breaker_per_key:
  assumes "registry_inv r"
  shows "(let (r1, h1) = registry_get now k r; (r2, h2) = registry_get now' k' r1;
             (r3, h3) = registry_get now'' k r2
         in registry_inv r3 \<and> h3 = h1 \<and> (enabled (reg_config r) \<longleftrightarrow> h1 \<noteq> None) \<and>
            (k \<noteq> k' \<and> h1 \<noteq> None \<longrightarrow> h2 \<noteq> h1) \<and>
            (\<forall>h. h1 = Some h \<longrightarrow> heap r1 h \<noteq> None))"
proof -
  let ?g1 = "registry_get now k r"
  let ?g2 = "registry_get now' k' (fst ?g1)"
  let ?g3 = "registry_get now'' k (fst ?g2)"
  have inv1: "registry_inv (fst ?g1)" using assms by (rule registry_inv_get)
  have inv2: "registry_inv (fst ?g2)" using inv1 by (rule registry_inv_get)
  have inv3: "registry_inv (fst ?g3)" using inv2 by (rule registry_inv_get)
  have en: "enabled (reg_config (fst ?g1)) = enabled (reg_config r)"
    by (simp add: registry_get_def Let_def split: option.splits)
  have got1: "enabled (reg_config r) \<Longrightarrow> breakers (fst ?g1) k = snd ?g1 \<and> snd ?g1 \<noteq> None"
    by (auto simp: registry_get_def Let_def split: option.splits)
  have got2: "enabled (reg_config r) \<Longrightarrow> breakers (fst ?g2) k = snd ?g1 \<and> breakers (fst ?g2) k' = snd ?g2"
    using got1 en by (auto simp: registry_get_def Let_def split: option.splits)
  have en2: "enabled (reg_config (fst ?g2)) = enabled (reg_config r)"
    using en by (simp add: registry_get_def Let_def split: option.splits)
  have same: "snd ?g3 = snd ?g1"
    using got1 got2 en2 by (auto simp: registry_get_def Let_def split: option.splits)
  have dis: "k \<noteq> k' \<Longrightarrow> snd ?g1 \<noteq> None \<Longrightarrow> snd ?g2 \<noteq> snd ?g1"
    using got1 got2 inv2 by (cases "enabled (reg_config r)")
      (auto simp: registry_inv_def inj_on_def dom_def registry_get_def)
  have live: "snd ?g1 = Some h \<Longrightarrow> heap (fst ?g1) h \<noteq> None" for h
    using got1 inv1 by (cases "enabled (reg_config r)") (auto simp: registry_inv_def registry_get_def)
  have "enabled (reg_config r) \<longleftrightarrow> snd ?g1 \<noteq> None"
    using got1 by (auto simp: registry_get_def)
  with inv3 same dis live show ?thesis by (simp add: case_prod_beta Let_def)
qed

theorem registry_one_breaker_per_key_witness:
  "registry_inv (registry_new config_client) \<and>
   snd (registry_get 0 (lit ''a'') (registry_new config_client)) = Some 0 \<and>
   snd (registry_get 1 (lit ''b'') (fst (registry_get 0 (lit ''a'') (registry_new config_client)))) = Some 1"
  using registry_one_breaker_per_key [OF registry_inv_new [of config_client], of 0 "lit ''a''" 1 "lit ''b''" 2]
    registry_inv_new [of config_client]
  by (simp add: registry_get_def registry_new_def config_client_def Let_def)

end
