(* ===== verification/Breaker_Interleaving.thy ===== *)
theory Breaker_Interleaving
  imports Circuit_Breaker
begin

text \<open>
  Any number of threads share one breaker.  A thread's \<open>check\<close> or \<open>record\<close> is a sequence of atomic
  steps: a load of the state, a load of \<open>opened_at_millis\<close>, one locked block.  The step relation
  below interleaves them arbitrarily with each other and with the clock; \<open>pc\<close> is where a thread
  stands between two steps.  A locked block is one step, also for readers without the lock: the one thing they could see inside
  it is that the fast flag of \<open>is_open\<close> lags the state stored just before it.  \<open>granted\<close> counts, for the current half-open generation, the requests
  admitted through a fresh slot.
\<close>

datatype pc =
    Idle
  | AtCheckOpen
  | AtTimer nat
  | AtCas
  | AtReevaluate
  | AtProbe
  | AtRecordClosed outcome
  | AtRecordOpen outcome
  | AtTrip
  | AtClose
  | AtClearWindow

record system =
  shared :: breaker
  clock :: nat
  pcs :: "nat \<Rightarrow> pc"
  granted :: nat

definition init_system :: "breaker_config \<Rightarrow> nat \<Rightarrow> system" where
  "init_system c now =
     \<lparr>shared = breaker_with_clock c now, clock = now, pcs = (\<lambda>_. Idle), granted = 0\<rparr>"

text \<open>Where a \<open>check\<close> or a \<open>record\<close> goes after it has loaded the state.\<close>

definition after_check_load :: "breaker_state \<Rightarrow> pc" where
  "after_check_load st = (case st of Closed \<Rightarrow> Idle | Open \<Rightarrow> AtCheckOpen | HalfOpen \<Rightarrow> AtProbe)"

definition after_record_load :: "outcome \<Rightarrow> breaker_state \<Rightarrow> pc" where
  "after_record_load oc st =
     (case st of Closed \<Rightarrow> AtRecordClosed oc
      | HalfOpen \<Rightarrow> (if oc = Failure then AtTrip else AtClose)
      | Open \<Rightarrow> AtRecordOpen oc)"

definition after_reevaluate :: "breaker_state \<Rightarrow> pc" where
  "after_reevaluate st = (case st of HalfOpen \<Rightarrow> AtProbe | _ \<Rightarrow> Idle)"

definition goto :: "nat \<Rightarrow> pc \<Rightarrow> system \<Rightarrow> system" where
  "goto i p s = s\<lparr>pcs := (pcs s)(i := p)\<rparr>"

text \<open>A fresh admission takes a slot; a reclaim takes over an abandoned one.\<close>

definition fresh_admission :: "breaker \<Rightarrow> breaker \<Rightarrow> bool" where
  "fresh_admission b b' \<longleftrightarrow> half_open_probes b < half_open_probes b'"

inductive cb_step :: "system \<Rightarrow> system \<Rightarrow> bool" where
  tick: "clock s \<le> t \<Longrightarrow> cb_step s (s\<lparr>clock := t\<rparr>)"
| check_load: "pcs s i = Idle \<Longrightarrow> enabled (config (shared s)) \<Longrightarrow>
    cb_step s (goto i (after_check_load (state (shared s))) s)"
| check_open_load: "pcs s i = AtCheckOpen \<Longrightarrow>
    cb_step s (goto i (AtTimer (opened_at_millis (shared s))) s)"
| check_timer: "pcs s i = AtTimer opened \<Longrightarrow>
    cb_step s (goto i (if open_duration (config (shared s)) \<le>
        from_millis (elapsed_millis (shared s) (clock s) - opened) then AtCas else Idle) s)"
| check_cas: "pcs s i = AtCas \<Longrightarrow> open_cas_section (shared s) = (b, won) \<Longrightarrow>
    cb_step s (goto i (if won then AtProbe else AtReevaluate)
      (s\<lparr>shared := b, granted := (if won then 0 else granted s)\<rparr>))"
| check_reevaluate: "pcs s i = AtReevaluate \<Longrightarrow>
    cb_step s (goto i (after_reevaluate (state (shared s))) s)"
| check_probe: "pcs s i = AtProbe \<Longrightarrow> probe_section (clock s) (shared s) = (b, admitted) \<Longrightarrow>
    cb_step s (goto i Idle
      (s\<lparr>shared := b,
         granted := (if fresh_admission (shared s) b then granted s + 1 else granted s)\<rparr>))"
| record_load: "pcs s i = Idle \<Longrightarrow> enabled (config (shared s)) \<Longrightarrow>
    cb_step s (goto i (after_record_load oc (state (shared s))) s)"
| record_closed: "pcs s i = AtRecordClosed oc \<Longrightarrow>
    window_section (oc = Failure) (clock s) (shared s) = (b, should_trip) \<Longrightarrow>
    cb_step s (goto i (if should_trip then AtTrip else Idle) (s\<lparr>shared := b\<rparr>))"
| record_open: "pcs s i = AtRecordOpen oc \<Longrightarrow>
    window_section (oc = Failure) (clock s) (shared s) = (b, should_trip) \<Longrightarrow>
    cb_step s (goto i Idle (s\<lparr>shared := b\<rparr>))"
| record_trip: "pcs s i = AtTrip \<Longrightarrow>
    cb_step s (goto i Idle (s\<lparr>shared := trip_section (clock s) (shared s)\<rparr>))"
| record_close: "pcs s i = AtClose \<Longrightarrow>
    cb_step s (goto i AtClearWindow (s\<lparr>shared := close_section (shared s)\<rparr>))"
| record_clear: "pcs s i = AtClearWindow \<Longrightarrow>
    cb_step s (goto i Idle (s\<lparr>shared := clear_window_section (shared s)\<rparr>))"

inductive reachable_from :: "system \<Rightarrow> system \<Rightarrow> bool" for s0 where
  start: "reachable_from s0 s0"
| step: "reachable_from s0 s \<Longrightarrow> cb_step s s' \<Longrightarrow> reachable_from s0 s'"

inductive_simps cb_step_simps: "cb_step s s'"

section \<open>Invariant of all interleavings\<close>

definition system_inv :: "system \<Rightarrow> bool" where
  "system_inv s \<longleftrightarrow>
     breaker_inv (shared s) \<and>
     (state (shared s) = HalfOpen \<longrightarrow> granted s = half_open_probes (shared s))"

lemma goto_simps [simp]:
  "shared (goto i p s) = shared s" "clock (goto i p s) = clock s" "granted (goto i p s) = granted s"
  "pcs (goto i p s) = (pcs s)(i := p)"
  by (simp_all add: goto_def)

lemma probe_section_frame:
  assumes "probe_section t b = (b', admitted)"
  shows "config b' = config b" "state b' = state b" "window b' = window b"
    "half_open_probes b' = half_open_probes b \<or>
       half_open_probes b' = half_open_probes b + 1 \<and> state b = HalfOpen"
  using assms by (auto simp: probe_section_def Let_def split: if_splits)

lemma window_section_frame:
  assumes "window_section f t b = (b', tripped)"
  shows "config b' = config b" "state b' = state b" "half_open_probes b' = half_open_probes b"
  using assms by (auto simp: window_section_def Let_def)

lemma system_inv_init: "system_inv (init_system c now)"
  using inv_with_clock [of c now]
  by (simp add: system_inv_def init_system_def) (simp add: breaker_with_clock_def)

lemma system_inv_step:
  assumes "cb_step s s'" "system_inv s"
  shows "system_inv s'"
  using assms
proof cases
  case (check_cas i b won)
  with assms(2) inv_open_cas [of "shared s"] show ?thesis
    by (auto simp: system_inv_def open_cas_section_def breaker_inv_def split: if_splits)
next
  case (check_probe i b admitted)
  with assms(2) inv_probe [of "shared s" "clock s"] probe_section_frame [OF check_probe(3)]
  show ?thesis by (auto simp: system_inv_def fresh_admission_def)
next
  case (record_closed i oc b tr)
  with assms(2) inv_window [of "shared s" "oc = Failure" "clock s"] window_section_frame [OF record_closed(3)]
  show ?thesis by (auto simp: system_inv_def)
next
  case (record_open i oc b tr)
  with assms(2) inv_window [of "shared s" "oc = Failure" "clock s"] window_section_frame [OF record_open(3)]
  show ?thesis by (auto simp: system_inv_def)
next
  case (record_trip i)
  with assms(2) inv_trip_section [of "shared s"] show ?thesis
    by (simp add: system_inv_def trip_section_def)
next
  case (record_close i)
  with assms(2) inv_close_section [of "shared s"] show ?thesis
    by (simp add: system_inv_def close_section_def)
next
  case (record_clear i)
  with assms(2) inv_clear_window [of "shared s"] show ?thesis
    by (simp add: system_inv_def clear_window_section_def)
qed (simp_all add: system_inv_def)

lemma system_inv_reachable: "reachable_from s0 s \<Longrightarrow> system_inv s0 \<Longrightarrow> system_inv s"
  by (induction rule: reachable_from.induct) (auto intro: system_inv_step)

lemma section_config:
  assumes "cb_step s s'"
  shows "config (shared s') = config (shared s)"
  using assms
proof cases
  case (check_cas i b won)
  then show ?thesis by (auto simp: open_cas_section_def split: if_splits)
next
  case (check_probe i b admitted)
  then show ?thesis using probe_section_frame [OF check_probe(3)] by simp
next
  case (record_closed i oc b tr)
  then show ?thesis using window_section_frame [OF record_closed(3)] by simp
next
  case (record_open i oc b tr)
  then show ?thesis using window_section_frame [OF record_open(3)] by simp
qed (simp_all add: trip_section_def close_section_def clear_window_section_def)

lemma reachable_config: "reachable_from s0 s \<Longrightarrow> config (shared s) = config (shared s0)"
  by (induction rule: reachable_from.induct) (auto dest: section_config)

text \<open>
  C35. Under every interleaving of any number of threads calling \<open>check\<close> and \<open>record\<close>, the breaker's
  invariant holds between any two atomic steps, so whenever no locked block is in progress \<open>is_open\<close> agrees with the state (within
  a block the fast flag is stored after the state and lags it for that moment), and a half-open generation never admits more fresh probes than
  \<open>half_open_max_probes\<close>: the race the comment in \<open>check_open\<close> describes, where losers of the
  compare-and-swap slip in extra probes, cannot happen.
\<close>

theorem interleaved_probe_bound:
  assumes "reachable_from (init_system c now) s"
  shows "breaker_inv (shared s) \<and> (is_open (shared s) \<longleftrightarrow> state (shared s) = Open) \<and>
    (state (shared s) = HalfOpen \<longrightarrow> granted s \<le> max (half_open_max_probes c) 1)"
proof -
  have "system_inv s" using assms system_inv_init by (rule system_inv_reachable)
  moreover have "half_open_max_probes (config (shared s)) = max (half_open_max_probes c) 1"
    using reachable_config [OF assms] by (simp add: init_system_def breaker_with_clock_def)
  ultimately show ?thesis by (auto simp: system_inv_def breaker_inv_def is_open_def)
qed

text \<open>A run, step by step, to a half-open state whose one probe is granted.\<close>

definition instant_config :: breaker_config where
  "instant_config =
     config_server\<lparr>min_samples := 1, error_rate_threshold := Finite 0, open_duration := 0\<rparr>"

definition demo_window :: breaker where
  "demo_window = fst (window_section True 0 (breaker_with_clock instant_config 0))"

definition demo_half_open :: breaker where
  "demo_half_open = fst (open_cas_section (trip_section 0 demo_window))"

definition demo_state :: "breaker \<Rightarrow> nat \<Rightarrow> pc \<Rightarrow> system" where
  "demo_state b g p = \<lparr>shared = b, clock = 0, pcs = (\<lambda>_. Idle)(0 := p), granted = g\<rparr>"

lemmas demo_defs = demo_window_def demo_half_open_def instant_config_def config_server_def
  breaker_with_clock_def window_section_def trip_section_def open_cas_section_def Let_def

lemma demo_trips: "window_section True 0 (breaker_with_clock instant_config 0) = (demo_window, True)"
  by (simp add: demo_defs window_push_def window_new_def pop_front_if_full_def window_evict_def
      checked_sub_def sample_count_def window_error_rate_def from_secs_def f64_div_def
      MAX_WINDOW_ENTRIES_def)

lemma demo_state_simps [simp]:
  "pcs (demo_state b g p) 0 = p" "shared (demo_state b g p) = b" "clock (demo_state b g p) = 0"
  "granted (demo_state b g p) = g" "goto 0 q (demo_state b g p) = demo_state b g q"
  "(demo_state b g p)\<lparr>shared := b'\<rparr> = demo_state b' g p"
  "(demo_state b g p)\<lparr>granted := g'\<rparr> = demo_state b g' p"
  by (simp_all add: demo_state_def goto_def)

lemma demo_run:
  "reachable_from (init_system instant_config 0)
     (demo_state (fst (probe_section 0 demo_half_open)) 1 Idle)"
proof -
  let ?R = "reachable_from (init_system instant_config 0)"
  let ?b0 = "breaker_with_clock instant_config 0"
  let ?b2 = "trip_section 0 demo_window"
  have en: "enabled (config ?b0)" "state ?b0 = Closed"
    "enabled (config ?b2)" "state ?b2 = Open" "open_duration (config ?b2) = 0"
    by (simp_all add: demo_defs)
  have cas: "open_cas_section ?b2 = (demo_half_open, True)"
    by (simp add: demo_half_open_def open_cas_section_def en)
  obtain b3 where probe: "probe_section 0 demo_half_open = (b3, True)"
    and fresh: "fresh_admission demo_half_open b3"
    by (simp add: probe_section_def fresh_admission_def demo_defs)
  have "?R (demo_state ?b0 0 Idle)"
    using reachable_from.start [of "init_system instant_config 0"]
    by (simp add: init_system_def demo_state_def fun_upd_idem)
  then have "?R (demo_state ?b0 0 (AtRecordClosed Failure))"
    using cb_step.record_load [of "demo_state ?b0 0 Idle" 0 Failure]
    by (auto simp: en after_record_load_def intro: reachable_from.step)
  then have "?R (demo_state demo_window 0 AtTrip)"
    using cb_step.record_closed [of "demo_state ?b0 0 (AtRecordClosed Failure)" 0 Failure demo_window True]
    by (auto simp: demo_trips intro: reachable_from.step)
  then have "?R (demo_state ?b2 0 Idle)"
    using cb_step.record_trip [of "demo_state demo_window 0 AtTrip" 0] by (auto intro: reachable_from.step)
  then have "?R (demo_state ?b2 0 AtCheckOpen)"
    using cb_step.check_load [of "demo_state ?b2 0 Idle" 0]
    by (auto simp: en after_check_load_def intro: reachable_from.step)
  then have "?R (demo_state ?b2 0 (AtTimer (opened_at_millis ?b2)))"
    using cb_step.check_open_load [of "demo_state ?b2 0 AtCheckOpen" 0] by (auto intro: reachable_from.step)
  then have "?R (demo_state ?b2 0 AtCas)"
    using cb_step.check_timer [of "demo_state ?b2 0 (AtTimer (opened_at_millis ?b2))" 0]
    by (auto simp: en intro: reachable_from.step)
  then have "?R (demo_state demo_half_open 0 AtProbe)"
    using cb_step.check_cas [of "demo_state ?b2 0 AtCas" 0 demo_half_open True] cas
    by (auto intro: reachable_from.step)
  then show ?thesis
    using cb_step.check_probe [of "demo_state demo_half_open 0 AtProbe" 0 b3 True] probe fresh
    by (auto intro: reachable_from.step)
qed

theorem interleaved_probe_bound_witness:
  "reachable_from (init_system instant_config 0)
     (demo_state (fst (probe_section 0 demo_half_open)) 1 Idle) \<and>
   state (fst (probe_section 0 demo_half_open)) = HalfOpen \<and>
   granted (demo_state (fst (probe_section 0 demo_half_open)) 1 Idle) \<le> max (half_open_max_probes instant_config) 1"
proof -
  have "state (fst (probe_section 0 demo_half_open)) = HalfOpen"
    by (simp add: demo_defs probe_section_def)
  with interleaved_probe_bound [OF demo_run] demo_run show ?thesis by simp
qed

end
