(* ===== verification/Message_Delivery.thy ===== *)
theory Message_Delivery
  imports Prelude "HOL-Library.Multiset" "HOL-Library.Word"
begin

unbundle bit_operations_syntax

text \<open>
  The message-delivery core (\<open>packages/coding-agent/xai-message-delivery-core\<close>).

  \<^item> \<open>envelope.rs\<close>: source-typed envelopes, the bit set of operations a grant allows and
    \<open>authorize_operation\<close>.
  \<^item> \<open>lifecycle.rs\<close>: the queue of messages bound to a turn.  A message is admitted as
    \<open>Pending\<close>, handed out at a safe point (\<open>Projecting\<close>), marked \<open>Delivered\<close> once the caller's
    commit succeeded, and leaves with the terminal transition of its turn, either as a fallback
    (to be queued as a prompt of its own) or as a completion.

  The generic parameters of the Rust types are type variables.  The commit closure of
  \<open>finish_delivery\<close> is a function from the messages to its result.
\<close>

section \<open>Envelopes and authorization\<close>

datatype principal = Human | Agent | Runtime

datatype operation = Queue | Steer | Interject | InterruptAndSend

record ('m, 'p) delivery_identity =
  message_id :: 'm
  prompt_id_part :: 'p

record ('g, 'c, 'i) delivery_envelope =
  env_principal :: principal
  env_operation :: operation
  env_content :: 'c
  env_identity :: 'i
  env_grant :: 'g

definition from_human :: "operation \<Rightarrow> 'c \<Rightarrow> 'i \<Rightarrow> 'g \<Rightarrow> ('g, 'c, 'i) delivery_envelope" where
  "from_human op c i g = \<lparr>env_principal = Human, env_operation = op, env_content = c,
     env_identity = i, env_grant = g\<rparr>"

definition from_agent :: "operation \<Rightarrow> 'c \<Rightarrow> 'i \<Rightarrow> 'g \<Rightarrow> ('g, 'c, 'i) delivery_envelope" where
  "from_agent op c i g = \<lparr>env_principal = Agent, env_operation = op, env_content = c,
     env_identity = i, env_grant = g\<rparr>"

definition envelope_into_parts :: "('g, 'c, 'i) delivery_envelope \<Rightarrow> operation \<times> 'c \<times> 'i \<times> 'g" where
  "envelope_into_parts e = (env_operation e, env_content e, env_identity e, env_grant e)"

type_synonym operation_set = "8 word"

definition QUEUE :: operation_set where
  "QUEUE = push_bit 0 1"

definition QUEUE_AND_STEER :: operation_set where
  "QUEUE_AND_STEER = push_bit 0 1 OR push_bit 1 1"

fun operation_flag :: "operation \<Rightarrow> operation_set" where
  "operation_flag Queue = push_bit 0 1"
| "operation_flag Steer = push_bit 1 1"
| "operation_flag Interject = push_bit 2 1"
| "operation_flag InterruptAndSend = push_bit 3 1"

definition contains :: "operation_set \<Rightarrow> operation \<Rightarrow> bool" where
  "contains s op \<longleftrightarrow> s AND operation_flag op \<noteq> 0"

datatype authorized_operation = AuthorizedOperation operation
datatype unsupported_operation = UnsupportedOperation operation

definition authorize_operation ::
    "operation_set \<Rightarrow> operation \<Rightarrow> (unsupported_operation, authorized_operation) result" where
  "authorize_operation allowed requested =
     (if contains allowed requested then Inr (AuthorizedOperation requested)
      else Inl (UnsupportedOperation requested))"

section \<open>The lifecycle\<close>

record ('p, 'e) turn_binding =
  prompt_id :: 'p
  epoch :: 'e

record ('i, 's, 'c) delivery_message =
  identity :: 'i
  source :: 's
  content :: 'c

record ('i, 's, 'c, 'k, 'p, 'e) owned_delivery =
  binding :: "('p, 'e) turn_binding"
  message :: "('i, 's, 'c) delivery_message"
  completion :: 'k

datatype ('i, 's, 'c, 'k, 'p, 'e) delivery_slot =
    Pending "('i, 's, 'c, 'k, 'p, 'e) owned_delivery"
  | is_Projecting: Projecting "('i, 's, 'c, 'k, 'p, 'e) owned_delivery"
  | Delivered "('i, 's, 'c, 'k, 'p, 'e) owned_delivery"

fun owned :: "('i, 's, 'c, 'k, 'p, 'e) delivery_slot \<Rightarrow> ('i, 's, 'c, 'k, 'p, 'e) owned_delivery" where
  "owned (Pending d) = d"
| "owned (Projecting d) = d"
| "owned (Delivered d) = d"

datatype terminal_cause = Completion | SoftCancel | Rewind | HardTeardown | ActorDrop

fun falls_back :: "terminal_cause \<Rightarrow> bool" where
  "falls_back Completion = True"
| "falls_back SoftCancel = True"
| "falls_back Rewind = True"
| "falls_back _ = False"

datatype ('p, 'e) terminal_target = Turn "('p, 'e) turn_binding" | All

record ('i, 's, 'c, 'k, 'p, 'e) terminal_transition =
  fallbacks :: "('i, 's, 'c, 'k, 'p, 'e) owned_delivery list"
  completions :: "('i, 's, 'c, 'k, 'p, 'e) owned_delivery list"

record ('i, 's, 'c, 'k, 'p, 'e) lifecycle =
  slots :: "('i, 's, 'c, 'k, 'p, 'e) delivery_slot list"

definition lifecycle_default :: "('i, 's, 'c, 'k, 'p, 'e) lifecycle" where
  "lifecycle_default = \<lparr>slots = []\<rparr>"

definition lifecycle_len :: "('i, 's, 'c, 'k, 'p, 'e) lifecycle \<Rightarrow> nat" where
  "lifecycle_len l = length (slots l)"

definition lifecycle_is_empty :: "('i, 's, 'c, 'k, 'p, 'e) lifecycle \<Rightarrow> bool" where
  "lifecycle_is_empty l \<longleftrightarrow> slots l = []"

definition contains_identity :: "'i \<Rightarrow> ('i, 's, 'c, 'k, 'p, 'e) lifecycle \<Rightarrow> bool" where
  "contains_identity i l \<longleftrightarrow> list_ex (\<lambda>slot. identity (message (owned slot)) = i) (slots l)"

definition admit_pending ::
    "('p, 'e) turn_binding \<Rightarrow> ('i, 's, 'c) delivery_message \<Rightarrow> 'k \<Rightarrow>
     ('i, 's, 'c, 'k, 'p, 'e) lifecycle \<Rightarrow>
     ('i, 's, 'c, 'k, 'p, 'e) lifecycle \<times> (('i, 's, 'c) delivery_message, unit) result" where
  "admit_pending b m k l =
     (if list_ex (\<lambda>slot. identity (message (owned slot)) = identity m) (slots l) then (l, Inl m)
      else (l\<lparr>slots := slots l @ [Pending \<lparr>binding = b, message = m, completion = k\<rparr>]\<rparr>, Inr ()))"

text \<open>The two patterns the closures match: a pending, or a projecting slot of the given turn.\<close>

fun pending_of :: "('p, 'e) turn_binding \<Rightarrow> ('i, 's, 'c, 'k, 'p, 'e) delivery_slot \<Rightarrow>
    ('i, 's, 'c, 'k, 'p, 'e) owned_delivery option" where
  "pending_of b (Pending d) = (if binding d = b then Some d else None)"
| "pending_of b _ = None"

fun projecting_of :: "('p, 'e) turn_binding \<Rightarrow> ('i, 's, 'c, 'k, 'p, 'e) delivery_slot \<Rightarrow>
    ('i, 's, 'c, 'k, 'p, 'e) owned_delivery option" where
  "projecting_of b (Projecting d) = (if binding d = b then Some d else None)"
| "projecting_of b _ = None"

definition pending_messages :: "('p, 'e) turn_binding \<Rightarrow>
    ('i, 's, 'c, 'k, 'p, 'e) lifecycle \<Rightarrow> ('i, 's, 'c) delivery_message list" where
  "pending_messages b l = List.map_filter (\<lambda>s. map_option message (pending_of b s)) (slots l)"

definition begin_delivery :: "('p, 'e) turn_binding \<Rightarrow> ('i, 's, 'c, 'k, 'p, 'e) lifecycle \<Rightarrow>
    ('i, 's, 'c, 'k, 'p, 'e) lifecycle \<times> ('i, 's, 'c) delivery_message list" where
  "begin_delivery b l =
     (let messages = pending_messages b l
      in if messages = [] then (l, messages)
         else (l\<lparr>slots := map (\<lambda>slot. case pending_of b slot of Some d \<Rightarrow> Projecting d | None \<Rightarrow> slot)
                             (slots l)\<rparr>, messages))"

definition finish_delivery :: "('p, 'e) turn_binding \<Rightarrow>
    (('i, 's, 'c) delivery_message list \<Rightarrow> ('err, unit) result) \<Rightarrow>
    ('i, 's, 'c, 'k, 'p, 'e) lifecycle \<Rightarrow>
    ('i, 's, 'c, 'k, 'p, 'e) lifecycle \<times> ('err, ('i, 's, 'c) delivery_message list) result" where
  "finish_delivery b commit l =
     (let messages = List.map_filter (\<lambda>s. map_option message (projecting_of b s)) (slots l)
      in if messages = [] then (l, Inr messages)
         else case commit messages of
             Inl e \<Rightarrow> (l, Inl e)
           | Inr _ \<Rightarrow>
               (l\<lparr>slots := map (\<lambda>slot. case projecting_of b slot of Some d \<Rightarrow> Delivered d | None \<Rightarrow> slot)
                             (slots l)\<rparr>, Inr messages))"

fun target_matches :: "('p, 'e) terminal_target \<Rightarrow> ('i, 's, 'c, 'k, 'p, 'e) delivery_slot \<Rightarrow> bool" where
  "target_matches (Turn b) slot \<longleftrightarrow> binding (owned slot) = b"
| "target_matches All slot \<longleftrightarrow> True"

text \<open>
  \<open>transition\<close>: one pass over the slots, keeping those of other turns and pushing the rest on one
  of the two lists.
\<close>

fun transition_loop :: "('p, 'e) terminal_target \<Rightarrow> terminal_cause \<Rightarrow>
    ('i, 's, 'c, 'k, 'p, 'e) delivery_slot list \<Rightarrow>
    ('i, 's, 'c, 'k, 'p, 'e) terminal_transition \<Rightarrow>
    ('i, 's, 'c, 'k, 'p, 'e) delivery_slot list \<times> ('i, 's, 'c, 'k, 'p, 'e) terminal_transition" where
  "transition_loop tgt cause [] t = ([], t)"
| "transition_loop tgt cause (slot # rest) t =
     (if \<not> target_matches tgt slot then
        (let (kept, t') = transition_loop tgt cause rest t in (slot # kept, t'))
      else transition_loop tgt cause rest
        (case slot of
           Pending d \<Rightarrow>
             if falls_back cause then t\<lparr>fallbacks := fallbacks t @ [d]\<rparr>
             else t\<lparr>completions := completions t @ [d]\<rparr>
         | Projecting d \<Rightarrow> t\<lparr>completions := completions t @ [d]\<rparr>
         | Delivered d \<Rightarrow> t\<lparr>completions := completions t @ [d]\<rparr>))"

definition transition :: "('p, 'e) terminal_target \<Rightarrow> terminal_cause \<Rightarrow>
    ('i, 's, 'c, 'k, 'p, 'e) lifecycle \<Rightarrow>
    ('i, 's, 'c, 'k, 'p, 'e) lifecycle \<times> ('i, 's, 'c, 'k, 'p, 'e) terminal_transition" where
  "transition tgt cause l =
     (let (kept, t) = transition_loop tgt cause (slots l) \<lparr>fallbacks = [], completions = []\<rparr>
      in (l\<lparr>slots := kept\<rparr>, t))"

section \<open>Promoting slots of one turn\<close>

text \<open>
  \<open>begin_delivery\<close> and \<open>finish_delivery\<close> promote the slots of one turn that are in a given stage
  to the next stage.  The interface: the selector sees the delivery a slot owns and only slots of
  the turn, and the promoted slot owns the same delivery.
\<close>

locale slot_promotion =
  fixes sel :: "('p, 'e) turn_binding \<Rightarrow> ('i, 's, 'c, 'k, 'p, 'e) delivery_slot \<Rightarrow>
      ('i, 's, 'c, 'k, 'p, 'e) owned_delivery option"
    and next_stage :: "('i, 's, 'c, 'k, 'p, 'e) owned_delivery \<Rightarrow> ('i, 's, 'c, 'k, 'p, 'e) delivery_slot"
  assumes sel_owned: "sel b slot = Some d \<Longrightarrow> owned slot = d \<and> binding d = b"
    and owned_next: "owned (next_stage d) = d"
begin

definition promote where
  "promote b ss = map (\<lambda>slot. case sel b slot of Some d \<Rightarrow> next_stage d | None \<Rightarrow> slot) ss"

lemma promote_owned: "map owned (promote b ss) = map owned ss"
  by (auto simp: promote_def owned_next split: option.split dest: sel_owned)

lemma promote_frame:
  "filter (\<lambda>slot. binding (owned slot) \<noteq> b) (promote b ss) =
   filter (\<lambda>slot. binding (owned slot) \<noteq> b) ss"
proof (induction ss)
  case (Cons s ss)
  show ?case
  proof (cases "sel b s")
    case None
    with Cons show ?thesis by (simp add: promote_def)
  next
    case (Some d)
    with Cons sel_owned [OF Some] show ?thesis by (simp add: promote_def owned_next)
  qed
qed (simp add: promote_def)

end

interpretation to_projecting: slot_promotion pending_of Projecting
proof
  show "pending_of b slot = Some d \<Longrightarrow> owned slot = d \<and> binding d = b" for b slot d
    by (cases slot) (auto split: if_splits)
qed simp

interpretation to_delivered: slot_promotion projecting_of Delivered
proof
  show "projecting_of b slot = Some d \<Longrightarrow> owned slot = d \<and> binding d = b" for b slot d
    by (cases slot) (auto split: if_splits)
qed simp

section \<open>Behaviour of the operations\<close>

fun slot_pending :: "('i, 's, 'c, 'k, 'p, 'e) delivery_slot \<Rightarrow> bool" where
  "slot_pending (Pending d) = True"
| "slot_pending _ = False"

lemmas begin_slots = to_projecting.promote_def [symmetric]
lemmas finish_slots = to_delivered.promote_def [symmetric]

lemma pending_of_Some: "pending_of b slot = Some d \<longleftrightarrow> slot = Pending d \<and> binding d = b"
  by (cases slot) auto

lemma projecting_of_Some: "projecting_of b slot = Some d \<longleftrightarrow> slot = Projecting d \<and> binding d = b"
  by (cases slot) auto

lemma pending_of_None_iff:
  "pending_of b slot = None \<longleftrightarrow> \<not> (slot_pending slot \<and> binding (owned slot) = b)"
  by (cases slot) auto

lemma pending_messages_filter:
  "pending_messages b l =
     map (message \<circ> owned) (filter (\<lambda>s. slot_pending s \<and> binding (owned s) = b) (slots l))"
proof -
  have "List.map_filter (\<lambda>s. map_option message (pending_of b s)) ss =
      map (message \<circ> owned) (filter (\<lambda>s. slot_pending s \<and> binding (owned s) = b) ss)" for ss
  proof (induction ss)
    case (Cons s ss)
    then show ?case by (cases s) auto
  qed simp
  then show ?thesis by (simp add: pending_messages_def)
qed

lemma begin_delivery_slots:
  "slots (fst (begin_delivery b l)) = to_projecting.promote b (slots l)"
proof (cases "pending_messages b l = []")
  case True
  then have "\<forall>s\<in>set (slots l). pending_of b s = None"
    by (auto simp: pending_messages_filter filter_empty_conv pending_of_None_iff)
  then have "to_projecting.promote b (slots l) = slots l"
    by (auto simp: to_projecting.promote_def intro: map_idI)
  with True show ?thesis by (simp add: begin_delivery_def)
qed (simp add: begin_delivery_def Let_def to_projecting.promote_def)

lemma begin_delivery_result: "snd (begin_delivery b l) = pending_messages b l"
  by (simp add: begin_delivery_def Let_def)

text \<open>The messages of a turn being projected, in admission order.\<close>

definition projecting_messages where
  "projecting_messages b l =
     List.map_filter (\<lambda>s. map_option message (projecting_of b s)) (slots l)"

lemma finish_delivery_cases:
  "finish_delivery b commit l =
     (if projecting_messages b l = [] then (l, Inr [])
      else case commit (projecting_messages b l) of
          Inl e \<Rightarrow> (l, Inl e)
        | Inr _ \<Rightarrow> (l\<lparr>slots := to_delivered.promote b (slots l)\<rparr>, Inr (projecting_messages b l)))"
  by (simp add: finish_delivery_def projecting_messages_def Let_def to_delivered.promote_def
      split: sum.split)

text \<open>The pass of \<open>transition\<close>, as three filters.\<close>

lemma transition_loop_spec:
  "transition_loop tgt cause ss t =
     (filter (\<lambda>s. \<not> target_matches tgt s) ss,
      t\<lparr>fallbacks := fallbacks t @
          map owned (filter (\<lambda>s. target_matches tgt s \<and> slot_pending s \<and> falls_back cause) ss),
        completions := completions t @
          map owned (filter (\<lambda>s. target_matches tgt s \<and> \<not> (slot_pending s \<and> falls_back cause)) ss)\<rparr>)"
proof (induction ss arbitrary: t)
  case (Cons s ss)
  show ?case by (cases s) (simp_all add: Cons.IH)
qed simp

lemma transition_slots:
  "slots (fst (transition tgt cause l)) = filter (\<lambda>s. \<not> target_matches tgt s) (slots l)"
  "fallbacks (snd (transition tgt cause l)) =
     map owned (filter (\<lambda>s. target_matches tgt s \<and> slot_pending s \<and> falls_back cause) (slots l))"
  "completions (snd (transition tgt cause l)) =
     map owned (filter (\<lambda>s. target_matches tgt s \<and> \<not> (slot_pending s \<and> falls_back cause)) (slots l))"
  by (simp_all add: transition_def transition_loop_spec)

lemma pending_messages_promote:
  "slots l' = to_projecting.promote b (slots l) \<Longrightarrow> pending_messages b l' = []"
  by (auto simp: pending_messages_filter filter_empty_conv to_projecting.promote_def
      pending_of_Some pending_of_None_iff split: option.splits)

lemma projecting_of_promoted:
  "s \<in> set (to_delivered.promote b ss) \<Longrightarrow> projecting_of b s = None"
  by (auto simp: to_delivered.promote_def projecting_of_Some split: option.splits)

lemma projecting_messages_promote:
  "projecting_messages b (l\<lparr>slots := to_delivered.promote b (slots l)\<rparr>) = []"
  using projecting_of_promoted [of _ b "slots l"]
  by (simp add: projecting_messages_def map_filter_def)

section \<open>Runs of the lifecycle\<close>

text \<open>
  A caller's sequence of operations with everything it observed: the deliveries admitted, the
  messages handed out by \<open>begin_delivery\<close>, those confirmed by a successful \<open>finish_delivery\<close>,
  and the two outputs of the terminal transitions.
\<close>

datatype ('i, 's, 'c, 'k, 'p, 'e, 'err) delivery_op =
    Admit "('p, 'e) turn_binding" "('i, 's, 'c) delivery_message" 'k
  | Begin "('p, 'e) turn_binding"
  | Finish "('p, 'e) turn_binding" "('i, 's, 'c) delivery_message list \<Rightarrow> 'err + unit"
  | Terminate "('p, 'e) terminal_target" terminal_cause

record ('i, 's, 'c, 'k, 'p, 'e) delivery_log =
  life :: "('i, 's, 'c, 'k, 'p, 'e) lifecycle"
  admitted :: "('i, 's, 'c, 'k, 'p, 'e) owned_delivery list"
  handed_out :: "('i, 's, 'c) delivery_message list"
  confirmed :: "('i, 's, 'c) delivery_message list"
  fell_back :: "('i, 's, 'c, 'k, 'p, 'e) owned_delivery list"
  completed :: "('i, 's, 'c, 'k, 'p, 'e) owned_delivery list"

fun apply_op :: "('i, 's, 'c, 'k, 'p, 'e, 'err) delivery_op \<Rightarrow>
    ('i, 's, 'c, 'k, 'p, 'e) delivery_log \<Rightarrow> ('i, 's, 'c, 'k, 'p, 'e) delivery_log" where
  "apply_op (Admit b m k) g =
     (case admit_pending b m k (life g) of
        (l, Inl _) \<Rightarrow> g\<lparr>life := l\<rparr>
      | (l, Inr _) \<Rightarrow>
          g\<lparr>life := l, admitted := admitted g @ [\<lparr>binding = b, message = m, completion = k\<rparr>]\<rparr>)"
| "apply_op (Begin b) g =
     (let (l, ms) = begin_delivery b (life g) in g\<lparr>life := l, handed_out := handed_out g @ ms\<rparr>)"
| "apply_op (Finish b commit) g =
     (case finish_delivery b commit (life g) of
        (l, Inl _) \<Rightarrow> g\<lparr>life := l\<rparr>
      | (l, Inr ms) \<Rightarrow> g\<lparr>life := l, confirmed := confirmed g @ ms\<rparr>)"
| "apply_op (Terminate tgt cause) g =
     (let (l, t) = transition tgt cause (life g)
      in g\<lparr>life := l, fell_back := fell_back g @ fallbacks t, completed := completed g @ completions t\<rparr>)"

definition empty_log :: "('i, 's, 'c, 'k, 'p, 'e) delivery_log" where
  "empty_log = \<lparr>life = lifecycle_default, admitted = [], handed_out = [], confirmed = [],
     fell_back = [], completed = []\<rparr>"

definition run_ops :: "('i, 's, 'c, 'k, 'p, 'e, 'err) delivery_op list \<Rightarrow>
    ('i, 's, 'c, 'k, 'p, 'e) delivery_log" where
  "run_ops ops = fold apply_op ops empty_log"

text \<open>What a run keeps: unique identities, and every admitted delivery in exactly one place.\<close>

definition pending_mset :: "('i, 's, 'c, 'k, 'p, 'e) delivery_slot list \<Rightarrow>
    ('i, 's, 'c) delivery_message multiset" where
  "pending_mset ss = mset (map (message \<circ> owned) (filter slot_pending ss))"

definition projecting_mset :: "('i, 's, 'c, 'k, 'p, 'e) delivery_slot list \<Rightarrow>
    ('i, 's, 'c) delivery_message multiset" where
  "projecting_mset ss = mset (map (message \<circ> owned) (filter is_Projecting ss))"

definition log_inv :: "('i, 's, 'c, 'k, 'p, 'e) delivery_log \<Rightarrow> bool" where
  "log_inv g \<longleftrightarrow>
     distinct (map (identity \<circ> message) (map owned (slots (life g)))) \<and>
     mset (admitted g) = mset (map owned (slots (life g))) + mset (fell_back g) + mset (completed g) \<and>
     mset (handed_out g) + mset (map message (fell_back g)) + pending_mset (slots (life g))
       \<subseteq># mset (map message (admitted g)) \<and>
     mset (confirmed g) + projecting_mset (slots (life g)) \<subseteq># mset (handed_out g)"

lemma msets_simps [simp]:
  "pending_mset [] = {#}" "projecting_mset [] = {#}"
  "pending_mset (s # ss) =
     (if slot_pending s then {#message (owned s)#} else {#}) + pending_mset ss"
  "projecting_mset (s # ss) =
     (if is_Projecting s then {#message (owned s)#} else {#}) + projecting_mset ss"
  "pending_mset (ss @ [Pending d]) = add_mset (message d) (pending_mset ss)"
  "projecting_mset (ss @ [Pending d]) = projecting_mset ss"
  by (simp_all add: pending_mset_def projecting_mset_def)

lemmas msets_defs = pending_mset_def projecting_mset_def
  to_projecting.promote_def to_delivered.promote_def

lemma begin_msets_list:
  "mset (map (message \<circ> owned) (filter (\<lambda>s. slot_pending s \<and> binding (owned s) = b) ss)) +
     pending_mset (to_projecting.promote b ss) = pending_mset ss \<and>
   projecting_mset (to_projecting.promote b ss) = projecting_mset ss +
     mset (map (message \<circ> owned) (filter (\<lambda>s. slot_pending s \<and> binding (owned s) = b) ss))"
proof (induction ss)
  case (Cons s ss)
  then show ?case by (cases s) (auto simp: msets_defs)
qed (simp add: msets_defs)

lemma begin_msets:
  "mset (pending_messages b l) + pending_mset (to_projecting.promote b (slots l)) = pending_mset (slots l)"
  "projecting_mset (to_projecting.promote b (slots l)) =
     projecting_mset (slots l) + mset (pending_messages b l)"
  using begin_msets_list [of b "slots l"] by (simp_all only: pending_messages_filter)

lemma finish_msets_list:
  "mset (List.map_filter (\<lambda>s. map_option message (projecting_of b s)) ss) +
     projecting_mset (to_delivered.promote b ss) = projecting_mset ss"
proof (induction ss)
  case (Cons s ss)
  then show ?case by (cases s) (auto simp: msets_defs)
qed (simp add: msets_defs)

lemma finish_pending_mset: "pending_mset (to_delivered.promote b ss) = pending_mset ss"
proof (induction ss)
  case (Cons s ss)
  then show ?case by (cases s) (auto simp: msets_defs)
qed (simp add: msets_defs)

lemma terminate_pending_split:
  "mset (map message (map owned (filter (\<lambda>s. target_matches tgt s \<and> slot_pending s \<and> fb) ss))) +
     pending_mset (filter (\<lambda>s. \<not> target_matches tgt s) ss) +
     mset (map message (map owned (filter (\<lambda>s. target_matches tgt s \<and> slot_pending s \<and> \<not> fb) ss))) =
   pending_mset ss"
  by (induction ss) auto

lemma terminate_fallbacks_mset:
  "mset (map message (map owned (filter (\<lambda>s. target_matches tgt s \<and> slot_pending s \<and> fb) ss))) +
     pending_mset (filter (\<lambda>s. \<not> target_matches tgt s) ss) \<subseteq># pending_mset ss"
  by (subst terminate_pending_split [of tgt fb ss, symmetric]) (rule mset_subset_eq_add_left)

lemma terminate_projecting_mset: "projecting_mset (filter P ss) \<subseteq># projecting_mset ss"
proof -
  have "projecting_mset ss = projecting_mset (filter P ss) + projecting_mset (filter (\<lambda>s. \<not> P s) ss)"
    by (induction ss) auto
  then show ?thesis by simp
qed

lemma terminate_owned_mset:
  "mset (map owned ss) = mset (map owned (filter (\<lambda>s. \<not> target_matches tgt s) ss)) +
     mset (map owned (filter (\<lambda>s. target_matches tgt s \<and> slot_pending s \<and> fb) ss)) +
     mset (map owned (filter (\<lambda>s. target_matches tgt s \<and> \<not> (slot_pending s \<and> fb)) ss))"
  by (induction ss) auto

lemma distinct_map_filter: "distinct (map f (map g ss)) \<Longrightarrow> distinct (map f (map g (filter P ss)))"
  by (simp add: distinct_map_filter)

lemma log_inv_promote:
  assumes "log_inv g" and "map owned (slots l) = map owned (slots (life g))"
    and "mset h + mset (map message (fell_back g)) + pending_mset (slots l)
      \<subseteq># mset (map message (admitted g))"
    and "mset c + projecting_mset (slots l) \<subseteq># mset h"
  shows "log_inv (g\<lparr>life := l, handed_out := h, confirmed := c\<rparr>)"
  using assms by (simp add: log_inv_def del: mset_map map_map)

lemma apply_op_keeps_log_inv: "log_inv g \<Longrightarrow> log_inv (apply_op op g)"
proof (cases op)
  case (Admit b m k)
  assume inv: "log_inv g"
  show ?thesis
  proof (cases "list_ex (\<lambda>slot. identity (message (owned slot)) = identity m) (slots (life g))")
    case True
    with inv Admit show ?thesis by (simp add: admit_pending_def)
  next
    case False
    with inv Admit show ?thesis
      by (auto simp: admit_pending_def log_inv_def list_ex_iff pending_mset_def projecting_mset_def
          intro: subset_mset.order_trans)
  qed
next
  case (Begin b)
  assume inv: "log_inv g"
  obtain l ms where l: "begin_delivery b (life g) = (l, ms)" by fastforce
  then have ms: "ms = pending_messages b (life g)"
    and sl: "slots l = to_projecting.promote b (slots (life g))"
    using begin_delivery_result begin_delivery_slots by (metis snd_conv, metis fst_conv)
  have "mset (handed_out g @ ms) + mset (map message (fell_back g)) + pending_mset (slots l) =
      mset (handed_out g) + mset (map message (fell_back g)) + pending_mset (slots (life g))"
    unfolding ms sl by (simp flip: begin_msets(1) [of b "life g"])
  then have "mset (handed_out g @ ms) + mset (map message (fell_back g)) + pending_mset (slots l)
      \<subseteq># mset (map message (admitted g))"
    using inv by (simp only: log_inv_def)
  moreover have "mset (confirmed g) + projecting_mset (slots l) \<subseteq># mset (handed_out g @ ms)"
    using inv by (simp add: log_inv_def ms sl begin_msets(2))
  moreover have "map owned (slots l) = map owned (slots (life g))"
    unfolding sl by (rule to_projecting.promote_owned)
  ultimately show ?thesis
    using log_inv_promote [OF inv, of l "handed_out g @ ms" "confirmed g"] Begin l by simp
next
  case (Finish b commit)
  assume inv: "log_inv g"
  let ?ms = "projecting_messages b (life g)"
  let ?l = "(life g)\<lparr>slots := to_delivered.promote b (slots (life g))\<rparr>"
  have "mset ?ms + projecting_mset (to_delivered.promote b (slots (life g))) = projecting_mset (slots (life g))"
    unfolding projecting_messages_def by (rule finish_msets_list)
  then have "mset (confirmed g @ ?ms) + projecting_mset (slots ?l) =
      mset (confirmed g) + projecting_mset (slots (life g))" by simp
  then have "mset (confirmed g @ ?ms) + projecting_mset (slots ?l) \<subseteq># mset (handed_out g)"
    using inv by (simp only: log_inv_def)
  moreover have "mset (handed_out g) + mset (map message (fell_back g)) + pending_mset (slots ?l)
      \<subseteq># mset (map message (admitted g))"
    using inv by (simp add: log_inv_def finish_pending_mset del: mset_map map_map)
  ultimately have "log_inv (g\<lparr>life := ?l, handed_out := handed_out g, confirmed := confirmed g @ ?ms\<rparr>)"
    using inv to_delivered.promote_owned by (intro log_inv_promote) simp_all
  moreover have "log_inv (g\<lparr>life := life g\<rparr>)" "log_inv (g\<lparr>life := life g, confirmed := confirmed g @ []\<rparr>)"
    using inv by simp_all
  ultimately show ?thesis
    using Finish by (simp add: finish_delivery_cases split: sum.split)
next
  case (Terminate tgt cause)
  assume inv: "log_inv g"
  obtain l t where l: "transition tgt cause (life g) = (l, t)" by fastforce
  then have ls: "slots l = filter (\<lambda>s. \<not> target_matches tgt s) (slots (life g))"
    and fb: "fallbacks t = map owned (filter (\<lambda>s. target_matches tgt s \<and> slot_pending s \<and> falls_back cause) (slots (life g)))"
    and cp: "completions t = map owned (filter (\<lambda>s. target_matches tgt s \<and> \<not> (slot_pending s \<and> falls_back cause)) (slots (life g)))"
    using transition_slots [of tgt cause "life g"] by simp_all
  have pm: "mset (map message (fallbacks t)) + pending_mset (slots l) \<subseteq># pending_mset (slots (life g))"
    unfolding ls fb by (rule terminate_fallbacks_mset)
  have rm: "projecting_mset (slots l) \<subseteq># projecting_mset (slots (life g))"
    unfolding ls by (rule terminate_projecting_mset)
  have om: "mset (map owned (slots (life g))) = mset (map owned (slots l)) + mset (fallbacks t) + mset (completions t)"
    unfolding ls fb cp by (rule terminate_owned_mset)
  have "distinct (map (identity \<circ> message) (map owned (slots l)))"
    using inv unfolding ls log_inv_def by (intro distinct_map_filter) simp
  moreover have "mset (handed_out g) + mset (map message (fell_back g @ fallbacks t)) + pending_mset (slots l)
      \<subseteq># mset (map message (admitted g))"
  proof -
    have "(mset (handed_out g) + mset (map message (fell_back g))) +
        (mset (map message (fallbacks t)) + pending_mset (slots l))
      \<subseteq># (mset (handed_out g) + mset (map message (fell_back g))) + pending_mset (slots (life g))"
      by (rule subset_mset.add_left_mono [OF pm])
    also have "\<dots> \<subseteq># mset (map message (admitted g))" using inv by (simp only: log_inv_def)
    finally show ?thesis by (simp only: map_append mset_append ac_simps)
  qed
  moreover have "mset (confirmed g) + projecting_mset (slots l) \<subseteq># mset (handed_out g)"
    using inv subset_mset.order_trans [OF subset_mset.add_left_mono [OF rm]]
    unfolding log_inv_def by blast
  ultimately show ?thesis
    using inv om l Terminate by (simp add: log_inv_def del: mset_map map_map)
qed

lemma fold_log_inv: "log_inv g \<Longrightarrow> log_inv (fold apply_op ops g)"
  by (induction ops arbitrary: g) (simp_all add: apply_op_keeps_log_inv)

lemma run_ops_log_inv: "log_inv (run_ops ops)"
  unfolding run_ops_def
  by (rule fold_log_inv) (simp add: log_inv_def empty_log_def lifecycle_default_def)

section \<open>Properties\<close>

text \<open>
  C34. Over every sequence of operations on the lifecycle, the identities it holds are pairwise
  distinct, and every delivery ever admitted is in exactly one place: still in a slot, given back
  as a fallback by a terminal transition, or given back as a completion.  No delivery, with the
  completion handle it owns, is lost or duplicated.
\<close>

theorem delivery_conservation:
  "distinct (map (identity \<circ> message \<circ> owned) (slots (life (run_ops ops)))) \<and>
   mset (admitted (run_ops ops)) = mset (map owned (slots (life (run_ops ops)))) +
     mset (fell_back (run_ops ops)) + mset (completed (run_ops ops))"
  using run_ops_log_inv [of ops] by (simp add: log_inv_def)

text \<open>
  A message is used at most once: over every sequence of operations, the messages handed out
  at safe points together with the messages that fell back to be queued again are within the
  messages admitted (as multisets), so nothing shown to the model inside its turn is queued
  again as a prompt of its own; and a successful \<open>finish_delivery\<close> only confirms messages that
  were handed out before.
\<close>

theorem delivered_at_most_once:
  "mset (handed_out (run_ops ops)) + mset (map message (fell_back (run_ops ops)))
     \<subseteq># mset (map message (admitted (run_ops ops))) \<and>
   mset (confirmed (run_ops ops)) \<subseteq># mset (handed_out (run_ops ops))"
  using run_ops_log_inv [of ops] unfolding log_inv_def by (meson mset_subset_eq_add_left subset_mset.order_trans)

text \<open>
  The operations of one turn, on every branch.  \<open>begin_delivery\<close> hands out the pending messages
  of the turn in admission order and leaves none of them pending; \<open>finish_delivery\<close> changes
  nothing when the commit fails, so the messages stay projecting and can be retried, and otherwise
  returns exactly the messages the commit saw; neither reorders the deliveries held nor touches a slot of
  another turn.
\<close>

theorem delivery_stages:
  "let (l1, handed) = begin_delivery b l;
       (l2, res) = finish_delivery b commit l;
       others = (\<lambda>l. filter (\<lambda>s. binding (owned s) \<noteq> b) (slots l))
   in handed = map (message \<circ> owned) (filter (\<lambda>s. slot_pending s \<and> binding (owned s) = b) (slots l)) \<and>
      pending_messages b l1 = [] \<and>
      map owned (slots l1) = map owned (slots l) \<and> others l1 = others l \<and>
      map owned (slots l2) = map owned (slots l) \<and> others l2 = others l \<and>
      (case res of
         Inl e \<Rightarrow> l2 = l \<and> commit (projecting_messages b l) = Inl e
       | Inr ms \<Rightarrow> ms = projecting_messages b l \<and> (ms = [] \<or> commit ms = Inr ()) \<and>
                   projecting_messages b l2 = [])"
proof -
  obtain l1 handed where l1: "begin_delivery b l = (l1, handed)" by fastforce
  obtain l2 res where l2: "finish_delivery b commit l = (l2, res)" by fastforce
  have "slots l1 = to_projecting.promote b (slots l)" "handed = pending_messages b l"
    using begin_delivery_slots [of b l] begin_delivery_result [of b l] by (simp_all add: l1)
  moreover have "slots l2 = to_delivered.promote b (slots l) \<or> l2 = l"
    using l2 by (auto simp: finish_delivery_cases split: if_splits sum.splits)
  moreover have "case res of
         Inl e \<Rightarrow> l2 = l \<and> commit (projecting_messages b l) = Inl e
       | Inr ms \<Rightarrow> ms = projecting_messages b l \<and> (ms = [] \<or> commit ms = Inr ()) \<and>
                   projecting_messages b l2 = []"
    using l2 projecting_messages_promote
    by (auto simp: finish_delivery_cases split: if_splits sum.splits)
  ultimately show ?thesis
    using to_projecting.promote_frame [of b "slots l"] to_delivered.promote_frame [of b "slots l"]
      to_projecting.promote_owned [of b "slots l"] to_delivered.promote_owned [of b "slots l"]
      pending_messages_promote [of l1 b l]
    by (auto simp: l1 l2 pending_messages_filter simp del: map_map)
qed

text \<open>
  A terminal transition removes exactly the slots of its target and keeps the rest in order.
  A delivery falls back only when it was still pending and the turn ended by completion, soft
  cancel or rewind; every other delivery of the target is a completion; a transition of all turns
  empties the lifecycle, and a second transition of the same turn gives nothing.
\<close>

theorem terminal_transition_exact:
  "let (l', t) = transition tgt cause l;
       hit = filter (target_matches tgt) (slots l)
   in slots l' = filter (\<lambda>s. \<not> target_matches tgt s) (slots l) \<and>
      fallbacks t = (if cause \<in> {Completion, SoftCancel, Rewind} then map owned (filter slot_pending hit) else []) \<and>
      completions t = map owned (if cause \<in> {Completion, SoftCancel, Rewind}
                                 then filter (\<lambda>s. \<not> slot_pending s) hit else hit) \<and>
      transition tgt cause' l' = (l', \<lparr>fallbacks = [], completions = []\<rparr>) \<and>
      lifecycle_is_empty (fst (transition All cause l))"
proof -
  have "falls_back cause \<longleftrightarrow> cause \<in> {Completion, SoftCancel, Rewind}" by (cases cause) auto
  then show ?thesis
    by (auto simp: transition_def transition_loop_spec Let_def lifecycle_is_empty_def split: prod.split
        intro: filter_cong)
qed

text \<open>
  Authorization is exactly the flag of the operation: a request is answered with the
  operation it asked for, a grant for queueing allows nothing else, and a grant for queueing and
  steering allows neither interjecting nor interrupting.
\<close>

theorem authorization_exact:
  "authorize_operation s op = (if contains s op then Inr (AuthorizedOperation op) else Inl (UnsupportedOperation op)) \<and>
   (contains QUEUE op \<longleftrightarrow> op = Queue) \<and>
   (contains QUEUE_AND_STEER op \<longleftrightarrow> op = Queue \<or> op = Steer)"
  by (cases op) (simp_all add: authorize_operation_def contains_def QUEUE_def QUEUE_AND_STEER_def)

end
