(* ===== verification/Prompt_Queue.thy ===== *)
theory Prompt_Queue
  imports Prelude "HOL-Library.Multiset"
begin

text \<open>
  Input queues of a session.

  \<^item> \<open>packages/agent/xai-prompt-queue/src/combine.rs\<close>: which run of queued follow-ups merges into one
    prompt, and how their texts join.
  \<^item> \<open>packages/agent/xai-interjection-core\<close>: the shared event queue (\<open>events.rs\<close>), draining
    interjections as framed user messages (\<open>buffer.rs\<close>), and the frame itself with its byte
    threshold (\<open>format.rs\<close>).

  The event queue is a mutex around a vector: every operation holds the lock throughout, so each is
  one state transformer.  Slicing a string at a byte offset that is not a character boundary panics
  in Rust and is \<open>None\<close> here.
\<close>

section \<open>Combining queued prompts\<close>

definition TEXT_SEPARATOR :: rstr where
  "TEXT_SEPARATOR = [newline_ch, newline_ch]"

definition COMBINED_DISPLAY_TEXTS_META :: rstr where
  "COMBINED_DISPLAY_TEXTS_META = lit ''combinedDisplayTexts''"

record combine_gate =
  gate_id :: rstr
  is_plain_prompt :: bool
  is_synthetic :: bool
  is_expanded_skill :: bool
  is_bash :: bool
  has_images :: bool
  gate_text :: rstr

definition can_merge_front :: "combine_gate \<Rightarrow> bool" where
  "can_merge_front g \<longleftrightarrow>
     is_plain_prompt g \<and> \<not> is_synthetic g \<and> \<not> is_expanded_skill g \<and> \<not> is_bash g \<and> gate_text g \<noteq> []"

definition can_merge_follower :: "combine_gate \<Rightarrow> rstr list \<Rightarrow> bool" where
  "can_merge_follower g skip_ids \<longleftrightarrow>
     can_merge_front g \<and> \<not> has_images g \<and> \<not> List.member skip_ids (gate_id g)"

fun count_followers :: "combine_gate list \<Rightarrow> rstr list \<Rightarrow> nat \<Rightarrow> nat" where
  "count_followers [] skip_ids n = n"
| "count_followers (next # rest) skip_ids n =
     (if \<not> can_merge_follower next skip_ids then n else count_followers rest skip_ids (n + 1))"

definition combine_prefix_len :: "combine_gate list \<Rightarrow> rstr list \<Rightarrow> nat" where
  "combine_prefix_len items skip_ids =
     (case items of
        [] \<Rightarrow> 0
      | front # iter \<Rightarrow> if \<not> can_merge_front front then 1 else count_followers iter skip_ids 1)"

definition join_texts :: "rstr list \<Rightarrow> rstr" where
  "join_texts texts = join TEXT_SEPARATOR (filter (\<lambda>t. t \<noteq> []) texts)"

definition is_combined :: "rstr list \<Rightarrow> bool" where
  "is_combined segs \<longleftrightarrow> length segs \<ge> 2"

text \<open>
  \<open>stamp_combined_display_texts\<close> inserts a JSON array of the segments; the constructor of that value
  belongs to the JSON library and is the first argument.
\<close>

definition stamp_combined_display_texts ::
    "(rstr list \<Rightarrow> 'json) \<Rightarrow> (rstr \<rightharpoonup> 'json) \<Rightarrow> rstr list \<Rightarrow> (rstr \<rightharpoonup> 'json)" where
  "stamp_combined_display_texts string_array meta segs =
     (if \<not> is_combined segs then meta else meta(COMBINED_DISPLAY_TEXTS_META \<mapsto> string_array segs))"

section \<open>The event queue\<close>

record 'a event_queue =
  events :: "'a list"

definition queue_new :: "'a event_queue" where
  "queue_new = \<lparr>events = []\<rparr>"

definition queue_push :: "'a \<Rightarrow> 'a event_queue \<Rightarrow> 'a event_queue" where
  "queue_push x q = q\<lparr>events := events q @ [x]\<rparr>"

definition push_capped :: "'a \<Rightarrow> nat \<Rightarrow> 'a event_queue \<Rightarrow> 'a event_queue" where
  "push_capped x max_len q =
     (let q = q\<lparr>events := events q @ [x]\<rparr>
      in if length (events q) > max_len
         then (let excess = length (events q) - max_len in q\<lparr>events := drop excess (events q)\<rparr>)
         else q)"

definition queue_len :: "'a event_queue \<Rightarrow> nat" where
  "queue_len q = length (events q)"

definition queue_is_empty :: "'a event_queue \<Rightarrow> bool" where
  "queue_is_empty q \<longleftrightarrow> events q = []"

definition drain_matching :: "('a \<Rightarrow> bool) \<Rightarrow> 'a event_queue \<Rightarrow> 'a event_queue \<times> 'a list" where
  "drain_matching take_it q =
     (let (matched, kept) = List.partition take_it (events q) in (q\<lparr>events := kept\<rparr>, matched))"

definition drain_all :: "'a event_queue \<Rightarrow> 'a event_queue \<times> 'a list" where
  "drain_all q = (q\<lparr>events := []\<rparr>, events q)"

definition restore_front :: "'a list \<Rightarrow> 'a event_queue \<Rightarrow> 'a event_queue" where
  "restore_front es q = (if es = [] then q else q\<lparr>events := es @ events q\<rparr>)"

definition queue_clear :: "'a event_queue \<Rightarrow> 'a event_queue" where
  "queue_clear q = q\<lparr>events := []\<rparr>"

definition snapshot :: "'a event_queue \<Rightarrow> 'a list" where
  "snapshot q = events q"

section \<open>Framing interjections\<close>

definition LARGE_PROMPT_THRESHOLD :: nat where
  "LARGE_PROMPT_THRESHOLD = 25000"

definition INTERJECTION_NOTE :: rstr where
  "INTERJECTION_NOTE = lit ''The user sent a message while you were working:''"

definition INTERRUPT_NOTE :: rstr where
  "INTERRUPT_NOTE = lit ''The user interrupted the previous turn:''"

definition UNFINISHED_TASKS_REMINDER :: rstr where
  "UNFINISHED_TASKS_REMINDER =
     lit ''Make sure to complete any unfinished tasks from previous turns.''"

definition user_query :: "rstr \<Rightarrow> rstr" where
  "user_query user_message =
     lit ''<user_query>'' @ [newline_ch] @ user_message @ [newline_ch] @ lit ''</user_query>''"

definition frame_user_turn :: "rstr \<Rightarrow> rstr \<Rightarrow> rstr" where
  "frame_user_turn note assembled =
     note @ [newline_ch] @ assembled @ [newline_ch] @ UNFINISHED_TASKS_REMINDER"

text \<open>\<open>char_indices\<close> from a byte offset, and \<open>&text[..end]\<close> (\<open>None\<close> where it panics).\<close>

fun char_indices :: "nat \<Rightarrow> rstr \<Rightarrow> (nat \<times> uchar) list" where
  "char_indices i [] = []"
| "char_indices i (c # s) = (i, c) # char_indices (i + len_utf8 c) s"

fun slice_to :: "nat \<Rightarrow> rstr \<Rightarrow> rstr option" where
  "slice_to n [] = (if n = 0 then Some [] else None)"
| "slice_to n (c # s) =
     (if n = 0 then Some []
      else if n < len_utf8 c then None
      else map_option ((#) c) (slice_to (n - len_utf8 c) s))"

definition truncation_end :: "rstr \<Rightarrow> nat" where
  "truncation_end text =
     (let before = takeWhile (\<lambda>(i, c). i < LARGE_PROMPT_THRESHOLD) (char_indices 0 text)
      in if before = [] then byte_len text else (let (i, c) = last before in i + len_utf8 c))"

definition format_steered_query :: "rstr \<Rightarrow> rstr \<Rightarrow> rstr option" where
  "format_steered_query note text =
     map_option (\<lambda>truncated. frame_user_turn note (user_query truncated))
       (if byte_len text \<le> LARGE_PROMPT_THRESHOLD then Some text
        else map_option (\<lambda>kept. kept @ lit ''... [truncated]'') (slice_to (truncation_end text) text))"

definition format_interjection :: "rstr \<Rightarrow> rstr option" where
  "format_interjection text = format_steered_query INTERJECTION_NOTE text"

definition format_interrupt :: "rstr \<Rightarrow> rstr option" where
  "format_interrupt text = format_steered_query INTERRUPT_NOTE text"

record 'att interjection =
  inter_text :: rstr
  attachments :: "'att list"

text \<open>
  \<open>drain_formatted\<close>: the queue after it, and one framed message per entry.
\<close>

definition drain_formatted :: "(rstr \<Rightarrow> rstr) \<Rightarrow> 'att interjection event_queue \<Rightarrow>
    'att interjection event_queue \<times> 'att interjection list option" where
  "drain_formatted sanitize_text buffer =
     (let (buffer', entries) = drain_all buffer
      in (buffer', those (map (\<lambda>entry.
            map_option (\<lambda>t. \<lparr>inter_text = t, attachments = attachments entry\<rparr>)
              (format_interjection (sanitize_text (inter_text entry)))) entries)))"

section \<open>Queues that can be drained and restored\<close>

text \<open>
  The contract readers of the queue rely on: the contents as a list, a push at the back, a drain that
  takes everything, and a restore in front.
\<close>

locale restorable_queue =
  fixes contents :: "'q \<Rightarrow> 'a list"
    and push :: "'a \<Rightarrow> 'q \<Rightarrow> 'q"
    and drain :: "'q \<Rightarrow> 'q \<times> 'a list"
    and restore :: "'a list \<Rightarrow> 'q \<Rightarrow> 'q"
  assumes push_contents: "contents (push x q) = contents q @ [x]"
    and drain_contents: "contents (fst (drain q)) = []"
    and drain_result: "snd (drain q) = contents q"
    and restore_contents: "contents (restore xs q) = xs @ contents q"
begin

definition pushes :: "'a list \<Rightarrow> 'q \<Rightarrow> 'q" where
  "pushes xs q = fold push xs q"

lemma pushes_contents: "contents (pushes xs q) = contents q @ xs"
  unfolding pushes_def by (induction xs arbitrary: q) (simp_all add: push_contents)

text \<open>
  A reader that drains, handles the first \<open>n\<close> events while others are pushed, and restores the rest
  has taken exactly those \<open>n\<close> off the front.
\<close>

lemma aborted_drain:
  "take n (contents q) @ contents (restore (drop n (snd (drain q))) (pushes xs (fst (drain q)))) =
   contents q @ xs"
  by (simp add: restore_contents pushes_contents drain_contents drain_result)

end

interpretation evq: restorable_queue events queue_push drain_all restore_front
  by unfold_locales (auto simp: queue_push_def drain_all_def restore_front_def)

section \<open>Lemmas\<close>

lemma count_followers_takeWhile:
  "count_followers rest skip_ids n = n + length (takeWhile (\<lambda>g. can_merge_follower g skip_ids) rest)"
  by (induction rest arbitrary: n) auto

lemma truncation_prefix:
  assumes "L < k + byte_len s" and "k \<le> L"
  obtains u c v where "s = u @ c # v"
    and "takeWhile (\<lambda>(i, c). i < Suc L) (char_indices k s) = char_indices k (u @ [c])"
    and "k + byte_len u \<le> L" and "L < k + byte_len u + len_utf8 c"
  using assms
proof (induction s arbitrary: k thesis)
  case (Cons c s)
  show ?case
  proof (cases "L < k + len_utf8 c")
    case True
    have "takeWhile (\<lambda>(i, c). i < Suc L) (char_indices (k + len_utf8 c) s) = []"
      using True by (cases s) auto
    with True Cons.prems show ?thesis by (intro Cons.prems(1) [of "[]" c s]) auto
  next
    case False
    with Cons.prems(2) have less: "L < k + len_utf8 c + byte_len s" "k + len_utf8 c \<le> L" by auto
    obtain u d v where "s = u @ d # v"
      and tw: "takeWhile (\<lambda>(i, c). i < Suc L) (char_indices (k + len_utf8 c) s) = char_indices (k + len_utf8 c) (u @ [d])"
      and "k + len_utf8 c + byte_len u \<le> L" "L < k + len_utf8 c + byte_len u + len_utf8 d"
      using Cons.IH [OF _ less] by blast
    with Cons.prems(3) show ?thesis by (intro Cons.prems(1) [of "c # u" d v]) auto
  qed
qed simp

lemma char_indices_append:
  "char_indices k (u @ v) = char_indices k u @ char_indices (k + byte_len u) v"
  by (induction u arbitrary: k) (simp_all add: add.assoc)

lemma slice_to_prefix: "slice_to (byte_len u) (u @ v) = Some u"
proof (induction u)
  case Nil
  then show ?case by (cases v) auto
next
  case (Cons c u)
  then show ?case using len_utf8_bounds(1) [of c] by simp
qed

lemma truncated_text:
  assumes "LARGE_PROMPT_THRESHOLD < byte_len text"
  obtains kept rest where "text = kept @ rest" and "slice_to (truncation_end text) text = Some kept"
    and "LARGE_PROMPT_THRESHOLD \<le> byte_len kept" and "byte_len kept \<le> LARGE_PROMPT_THRESHOLD + 3"
proof -
  define L where "L = LARGE_PROMPT_THRESHOLD - 1"
  have L: "LARGE_PROMPT_THRESHOLD = Suc L" by (simp add: L_def LARGE_PROMPT_THRESHOLD_def)
  obtain u c v where split: "text = u @ c # v"
    and tw: "takeWhile (\<lambda>(i, c). i < Suc L) (char_indices 0 text) = char_indices 0 (u @ [c])"
    and bounds: "byte_len u \<le> L" "L < byte_len u + len_utf8 c"
    using truncation_prefix [of L 0 "text"] assms L by auto
  have "truncation_end text = byte_len (u @ [c])"
    by (simp add: truncation_end_def L tw char_indices_append)
  then have "slice_to (truncation_end text) text = Some (u @ [c])"
    using slice_to_prefix [of "u @ [c]" v] split by simp
  moreover have "LARGE_PROMPT_THRESHOLD \<le> byte_len (u @ [c])" "byte_len (u @ [c]) \<le> LARGE_PROMPT_THRESHOLD + 3"
    using bounds len_utf8_bounds(2) [of c] L by auto
  ultimately show ?thesis using split by (intro that [of "u @ [c]" v]) auto
qed

text \<open>What a framed text promises about the text it was made from.\<close>

definition frames :: "rstr \<Rightarrow> rstr \<Rightarrow> rstr \<Rightarrow> bool" where
  "frames note framed text \<longleftrightarrow>
     (\<exists>kept. framed = frame_user_turn note (user_query kept) \<and>
        (if byte_len text \<le> LARGE_PROMPT_THRESHOLD then kept = text
         else (\<exists>pre. prefix pre text \<and> kept = pre @ lit ''... [truncated]'' \<and>
               LARGE_PROMPT_THRESHOLD \<le> byte_len pre \<and> byte_len pre \<le> LARGE_PROMPT_THRESHOLD + 3)))"

lemma format_steered_query_total:
  "\<exists>framed. format_steered_query note text = Some framed \<and> frames note framed text"
proof (cases "byte_len text \<le> LARGE_PROMPT_THRESHOLD")
  case False
  then obtain kept rest where "text = kept @ rest" "slice_to (truncation_end text) text = Some kept"
    "LARGE_PROMPT_THRESHOLD \<le> byte_len kept" "byte_len kept \<le> LARGE_PROMPT_THRESHOLD + 3"
    using truncated_text [of "text"] by auto
  with False show ?thesis by (auto simp: format_steered_query_def frames_def)
qed (simp add: format_steered_query_def frames_def)

lemma those_total: "\<forall>x\<in>set xs. \<exists>y. f x = Some y \<Longrightarrow> those (map f xs) = Some (map (the \<circ> f) xs)"
  by (induction xs) auto

section \<open>Properties\<close>

text \<open>
  \<open>combine_prefix_len\<close> is the length of the longest prefix that may merge: it is 0 only for an
  empty queue, an ineligible front is taken alone, every row after the front within it is an eligible
  follower, and the run stops only at the end of the queue or at a row that is not one.
\<close>

theorem combine_prefix_maximal:
  "let n = combine_prefix_len items skip_ids
   in n \<le> length items \<and> (n = 0 \<longleftrightarrow> items = []) \<and>
      (n \<ge> 2 \<longrightarrow> can_merge_front (hd items)) \<and>
      (\<forall>i<n. i = 0 \<or> can_merge_follower (items ! i) skip_ids) \<and>
      (n = length items \<or> \<not> can_merge_front (hd items) \<or> \<not> can_merge_follower (items ! n) skip_ids)"
proof (cases items)
  case (Cons front iter)
  let ?P = "\<lambda>g. can_merge_follower g skip_ids"
  let ?k = "length (takeWhile ?P iter)"
  have "?k = length iter \<or> \<not> ?P (iter ! ?k)"
    using nth_length_takeWhile [of ?P iter] length_takeWhile_le [of ?P iter] by linarith
  moreover have "i < ?k \<Longrightarrow> ?P (iter ! i)" for i
    using set_takeWhileD [of "takeWhile ?P iter ! i"] by (metis nth_mem takeWhile_nth)
  ultimately show ?thesis
    using Cons length_takeWhile_le [of ?P iter]
    by (auto simp: combine_prefix_len_def count_followers_takeWhile nth_Cons less_Suc_eq_0_disj split: nat.split)
qed (simp add: combine_prefix_len_def)

theorem combine_prefix_maximal_witness:
  "let row = \<lparr>gate_id = lit ''a'', is_plain_prompt = True, is_synthetic = False,
       is_expanded_skill = False, is_bash = False, has_images = False, gate_text = lit ''one''\<rparr>
   in combine_prefix_len [row, row, row\<lparr>is_bash := True\<rparr>, row] [] = 2 \<and> can_merge_front row"
proof -
  let ?row = "\<lparr>gate_id = lit ''a'', is_plain_prompt = True, is_synthetic = False,
       is_expanded_skill = False, is_bash = False, has_images = False, gate_text = lit ''one''\<rparr>"
  have "combine_prefix_len [?row, ?row, ?row\<lparr>is_bash := True\<rparr>, ?row] [] = 2"
    by (simp add: combine_prefix_len_def can_merge_front_def can_merge_follower_def)
  then show ?thesis
    using combine_prefix_maximal [of "[?row, ?row, ?row\<lparr>is_bash := True\<rparr>, ?row]" "[]"] by simp
qed

text \<open>
  Cancel safety of the event queue: a reader that drains everything, handles the first \<open>n\<close> events
  while producers push others, and restores the unprocessed rest leaves a queue in which no event is lost,
  duplicated or reordered.
\<close>

theorem aborted_drain_is_safe:
  "let (q1, drained) = drain_all q;
       q2 = fold queue_push later q1;
       q3 = restore_front (drop n drained) q2
   in take n (events q) @ events q3 = events q @ later"
  using evq.aborted_drain [of n q later] by (simp add: evq.pushes_def Let_def case_prod_beta)

text \<open>
  A capped push keeps the newest events, at most \<open>max_len\<close> of them and the pushed one whenever
  the cap allows any; \<open>drain_matching\<close> splits the queue without losing an event and keeps the order
  on both sides.
\<close>

theorem event_queue_keeps_order:
  "let q' = push_capped x max_len q; (q2, taken) = drain_matching P q
   in suffix (events q') (events q @ [x]) \<and> queue_len q' = min max_len (queue_len q + 1) \<and>
      taken = filter P (events q) \<and> events q2 = filter (\<lambda>e. \<not> P e) (events q) \<and>
      mset taken + mset (events q2) = mset (events q)"
  by (auto simp: push_capped_def drain_matching_def queue_len_def Let_def suffix_drop o_def min_def
      simp flip: multiset_partition)

text \<open>
  Draining interjections never fails and empties the queue, giving one framed message per entry,
  in order and with its attachments.  A text within the byte threshold is framed whole; a longer one is cut
  at a character boundary at or at most three bytes beyond the threshold, and marked as truncated.
\<close>

theorem drain_formatted_total:
  "\<exists>msgs. snd (drain_formatted sanitize q) = Some msgs \<and> events (fst (drain_formatted sanitize q)) = [] \<and>
     map attachments msgs = map attachments (events q) \<and>
     list_all2 (\<lambda>m entry. frames INTERJECTION_NOTE (inter_text m) (sanitize (inter_text entry)))
       msgs (events q)"
proof -
  let ?f = "\<lambda>entry :: 'a interjection. map_option (\<lambda>t. \<lparr>inter_text = t, attachments = attachments entry\<rparr>)
      (format_interjection (sanitize (inter_text entry)))"
  have f: "\<exists>m. ?f entry = Some m \<and> attachments m = attachments entry \<and>
      frames INTERJECTION_NOTE (inter_text m) (sanitize (inter_text entry))" for entry :: "'a interjection"
    using format_steered_query_total [of INTERJECTION_NOTE "sanitize (inter_text entry)"]
    by (auto simp: format_interjection_def)
  define g where "g = the \<circ> ?f"
  have "those (map ?f (events q)) = Some (map g (events q))"
    unfolding g_def using f by (intro those_total) blast
  moreover have "attachments (g entry) = attachments entry \<and>
      frames INTERJECTION_NOTE (inter_text (g entry)) (sanitize (inter_text entry))" for entry
    using f [of entry] by (auto simp: g_def)
  ultimately show ?thesis
    by (auto simp: drain_formatted_def drain_all_def list_all2_conv_all_nth)
qed

end
