(* ===== verification/Transcript.thy ===== *)
theory Transcript
  imports Prelude
begin

text \<open>
  The transcript of a Hypercore session and its soft cap
  (\<open>packages/agent/xai-hyper-core/src/lib.rs\<close>: \<open>TranscriptItem\<close>, \<open>partition_transcript_groups\<close>,
  \<open>active_turn_protected_from\<close>, \<open>trim_messages\<close>).

  A transcript is a list of rows.  Trimming partitions it into atomic groups (index ranges as in the
  code), deletes one group per iteration and partitions again; the loop is a recursive function with
  the length of the transcript as its measure.
\<close>

section \<open>Rows and groups\<close>

record transcript_tool_call =
  tc_id :: rstr
  tc_name :: rstr
  tc_arguments :: rstr

record transcript_item =
  role :: rstr
  item_content :: rstr
  tool_calls :: "transcript_tool_call list"
  tool_call_id :: "rstr option"

definition item_text :: "rstr \<Rightarrow> rstr \<Rightarrow> transcript_item" where
  "item_text r c = \<lparr>role = r, item_content = c, tool_calls = [], tool_call_id = None\<rparr>"

datatype group_kind = SystemGroup | ToolExchange | OtherGroup

record transcript_group =
  start :: nat
  stop :: nat
  kind :: group_kind

definition is_system :: "transcript_item \<Rightarrow> bool" where
  "is_system item \<longleftrightarrow> role item = lit ''system''"

definition is_tool :: "transcript_item \<Rightarrow> bool" where
  "is_tool item \<longleftrightarrow> role item = lit ''tool''"

definition is_user :: "transcript_item \<Rightarrow> bool" where
  "is_user item \<longleftrightarrow> role item = lit ''user''"

definition opens_exchange :: "transcript_item \<Rightarrow> bool" where
  "opens_exchange item \<longleftrightarrow> role item = lit ''assistant'' \<and> tool_calls item \<noteq> []"

text \<open>\<open>partition_from i items\<close> is the outer loop at index \<open>i\<close> with the rows still ahead.\<close>

function partition_from :: "nat \<Rightarrow> transcript_item list \<Rightarrow> transcript_group list" where
  "partition_from i [] = []"
| "partition_from i (item # rest) =
     (if is_system item then
        \<lparr>start = i, stop = i + 1, kind = SystemGroup\<rparr> # partition_from (i + 1) rest
      else if opens_exchange item then
        (let j = i + 1 + length (takeWhile is_tool rest)
         in \<lparr>start = i, stop = j, kind = ToolExchange\<rparr> # partition_from j (dropWhile is_tool rest))
      else \<lparr>start = i, stop = i + 1, kind = OtherGroup\<rparr> # partition_from (i + 1) rest)"
  by pat_completeness auto
termination
  by (relation "measure (\<lambda>(i, items). length items)") (auto simp: le_imp_less_Suc length_dropWhile_le)

definition partition_transcript_groups :: "transcript_item list \<Rightarrow> transcript_group list" where
  "partition_transcript_groups items = partition_from 0 items"

fun last_user_start :: "transcript_item list \<Rightarrow> nat \<Rightarrow> transcript_group list \<Rightarrow> nat option \<Rightarrow> nat option" where
  "last_user_start items active_start [] user_start = user_start"
| "last_user_start items active_start (g # groups) user_start =
     (if start g \<ge> active_start then user_start
      else last_user_start items active_start groups
        (if kind g = OtherGroup \<and> start g < length items \<and> is_user (items ! start g)
         then Some (start g) else user_start))"

definition active_turn_protected_from ::
    "transcript_item list \<Rightarrow> transcript_group list \<Rightarrow> nat option" where
  "active_turn_protected_from items groups =
     (if groups = [] \<or> kind (last groups) \<noteq> ToolExchange then None
      else Some (case last_user_start items (start (last groups)) groups None of
          Some u \<Rightarrow> u
        | None \<Rightarrow> start (last groups)))"

definition droppable :: "nat option \<Rightarrow> transcript_group \<Rightarrow> bool" where
  "droppable protected_from g \<longleftrightarrow>
     kind g \<noteq> SystemGroup \<and> (case protected_from of None \<Rightarrow> True | Some pf \<Rightarrow> \<not> start g \<ge> pf)"

text \<open>One iteration: the group to delete, if anything is safe to drop.\<close>

definition group_to_delete :: "transcript_item list \<Rightarrow> transcript_group option" where
  "group_to_delete items =
     (let groups = partition_transcript_groups items;
          protected_from = active_turn_protected_from items groups;
          system_count = length (filter (\<lambda>g. kind g = SystemGroup) groups)
      in case find (droppable protected_from) groups of
           Some g \<Rightarrow> Some g
         | None \<Rightarrow> if system_count > 1 then find (\<lambda>g. kind g = SystemGroup) groups else None)"

definition remove_range :: "nat \<Rightarrow> nat \<Rightarrow> 'a list \<Rightarrow> 'a list" where
  "remove_range i j xs = take i xs @ drop j xs"

section \<open>The partition\<close>

text \<open>
  The rows of each group, without indices: the reference definition the index ranges are compared with.
\<close>

function chunks :: "transcript_item list \<Rightarrow> transcript_item list list" where
  "chunks [] = []"
| "chunks (item # rest) =
     (if \<not> is_system item \<and> opens_exchange item
      then (item # takeWhile is_tool rest) # chunks (dropWhile is_tool rest)
      else [item] # chunks rest)"
  by pat_completeness auto
termination
  by (relation "measure length") (auto simp: le_imp_less_Suc length_dropWhile_le)

fun chunk_kind :: "transcript_item list \<Rightarrow> group_kind" where
  "chunk_kind [] = OtherGroup"
| "chunk_kind (item # _) =
     (if is_system item then SystemGroup else if opens_exchange item then ToolExchange else OtherGroup)"

text \<open>Groups laid out from index \<open>i\<close>.\<close>

fun layout :: "nat \<Rightarrow> transcript_item list list \<Rightarrow> transcript_group list" where
  "layout i [] = []"
| "layout i (c # cs) = \<lparr>start = i, stop = i + length c, kind = chunk_kind c\<rparr> # layout (i + length c) cs"

lemma partition_from_layout: "partition_from i items = layout i (chunks items)"
  by (induction i items rule: partition_from.induct) (auto simp: Let_def add.assoc)

lemma concat_chunks [simp]: "concat (chunks items) = items"
  by (induction items rule: chunks.induct) auto

lemma chunk_nonempty: "c \<in> set (chunks items) \<Longrightarrow> c \<noteq> []"
  by (induction items rule: chunks.induct) (auto split: if_splits)

lemma chunks_eq_Nil [simp]: "chunks items = [] \<longleftrightarrow> items = []"
  by (cases items) auto

text \<open>Every group of a layout is the slice of one chunk.\<close>

lemma layout_append: "layout i (xs @ ys) = layout i xs @ layout (i + length (concat xs)) ys"
  by (induction xs arbitrary: i) (simp_all add: add.assoc)

definition group_at :: "nat \<Rightarrow> transcript_item list list \<Rightarrow> transcript_item list \<Rightarrow> transcript_group" where
  "group_at i pre c =
     \<lparr>start = i + length (concat pre), stop = i + length (concat pre) + length c, kind = chunk_kind c\<rparr>"

lemma group_at_simps [simp]:
  "start (group_at i pre c) = i + length (concat pre)"
  "stop (group_at i pre c) = i + length (concat pre) + length c"
  "kind (group_at i pre c) = chunk_kind c"
  by (simp_all add: group_at_def)

lemma layout_split: "layout i (pre @ c # post) =
    layout i pre @ group_at i pre c # layout (i + length (concat pre) + length c) post"
  by (simp add: layout_append group_at_def)

lemma layout_mem_chunk:
  "g \<in> set (layout i cs) \<Longrightarrow> \<exists>pre c post. cs = pre @ c # post \<and> g = group_at i pre c"
proof (induction cs arbitrary: i)
  case (Cons c cs)
  show ?case
  proof (cases "g \<in> set (layout (i + length c) cs)")
    case True
    then obtain pre d post where "cs = pre @ d # post" "g = group_at (i + length c) pre d"
      using Cons.IH by blast
    then show ?thesis
      by (intro exI [of _ "c # pre"] exI [of _ d] exI [of _ post]) (simp add: group_at_def add.assoc)
  next
    case False
    with Cons.prems show ?thesis
      by (intro exI [of _ "[]"] exI [of _ c] exI [of _ cs]) (simp add: group_at_def)
  qed
qed simp

lemma find_mem: "find P xs = Some x \<Longrightarrow> x \<in> set xs \<and> P x"
  by (auto simp: find_Some_iff)

lemma group_to_delete_mem:
  assumes "group_to_delete items = Some g"
  shows "g \<in> set (partition_transcript_groups items)"
  using assms by (auto simp: group_to_delete_def Let_def dest: find_mem split: option.splits if_splits)

lemma remove_chunk:
  assumes "chunks items = pre @ c # post"
  shows "remove_range (start (group_at 0 pre c)) (stop (group_at 0 pre c)) items = concat (pre @ post)"
proof -
  have "items = concat pre @ c @ concat post" using concat_chunks [of items] assms by simp
  then show ?thesis by (simp add: remove_range_def)
qed

lemma deleted_chunk:
  assumes "group_to_delete items = Some g"
  obtains pre c post where "chunks items = pre @ c # post" and "c \<noteq> []"
    and "start g = length (concat pre)" and "kind g = chunk_kind c"
    and "remove_range (start g) (stop g) items = concat (pre @ post)"
proof -
  from group_to_delete_mem [OF assms] obtain pre c post where cs: "chunks items = pre @ c # post"
    and g: "g = group_at 0 pre c"
    by (auto simp: partition_transcript_groups_def partition_from_layout dest: layout_mem_chunk)
  have "remove_range (start g) (stop g) items = concat (pre @ post)"
    unfolding g by (rule remove_chunk [OF cs])
  moreover have "c \<noteq> []" using chunk_nonempty [of c items] cs by simp
  ultimately show ?thesis using that cs g by simp
qed

lemma deletion_shrinks:
  assumes "group_to_delete items = Some g"
  shows "length (remove_range (start g) (stop g) items) < length items"
proof -
  obtain pre c post where "chunks items = pre @ c # post" "c \<noteq> []"
    and r: "remove_range (start g) (stop g) items = concat (pre @ post)"
    using deleted_chunk [OF assms] .
  then have "length items = length (concat (pre @ c # post))" by (metis concat_chunks)
  with r \<open>c \<noteq> []\<close> show ?thesis by (simp only: concat_append concat.simps length_append) simp
qed

section \<open>The trimming loop\<close>

function trim_loop :: "nat \<Rightarrow> transcript_item list \<Rightarrow> transcript_item list" where
  "trim_loop cap items =
     (if length items > cap then
        (case group_to_delete items of
           Some g \<Rightarrow> trim_loop cap (remove_range (start g) (stop g) items)
         | None \<Rightarrow> items)
      else items)"
  by pat_completeness auto
termination
  by (relation "measure (\<lambda>(cap, items). length items)") (auto dest: deletion_shrinks)

declare trim_loop.simps [simp del]

definition trim_messages :: "nat \<Rightarrow> transcript_item list \<Rightarrow> transcript_item list" where
  "trim_messages max_messages items = trim_loop (max max_messages 2) items"

text \<open>Induction over the loop: what each deletion keeps, the result keeps.\<close>

lemma trim_loop_invariant:
  assumes "P items"
    and "\<And>items g. P items \<Longrightarrow> cap < length items \<Longrightarrow> group_to_delete items = Some g \<Longrightarrow>
      P (remove_range (start g) (stop g) items)"
  shows "P (trim_loop cap items)"
  using assms
proof (induction cap items rule: trim_loop.induct)
  case (1 cap items)
  show ?case
  proof (cases "cap < length items \<and> group_to_delete items \<noteq> None")
    case True
    then obtain g where g: "cap < length items" "group_to_delete items = Some g" by blast
    then have "P (remove_range (start g) (stop g) items)" by (rule "1.prems"(2) [OF "1.prems"(1)])
    then have "P (trim_loop cap (remove_range (start g) (stop g) items))"
      using "1.IH" [OF g] "1.prems"(2) by blast
    with g show ?thesis by (simp add: trim_loop.simps [of cap items])
  next
    case False
    then have "trim_loop cap items = items" by (subst trim_loop.simps) auto
    with "1.prems"(1) show ?thesis by simp
  qed
qed

lemma trim_loop_stops:
  "length (trim_loop cap items) \<le> cap \<or> group_to_delete (trim_loop cap items) = None"
proof (induction cap items rule: trim_loop.induct)
  case (1 cap items)
  then show ?case
    by (subst (1 2) trim_loop.simps) (simp split: option.split)
qed

section \<open>Whole groups\<close>

fun is_chunk :: "transcript_item list \<Rightarrow> bool" where
  "is_chunk [] = False"
| "is_chunk (item # rest) =
     (if \<not> is_system item \<and> opens_exchange item then list_all is_tool rest else rest = [])"

lemma role_disjoint:
  "is_tool x \<Longrightarrow> \<not> opens_exchange x" "is_user x \<Longrightarrow> \<not> opens_exchange x"
  "is_tool x \<Longrightarrow> \<not> is_system x" "is_user x \<Longrightarrow> \<not> is_system x" "is_tool x \<Longrightarrow> \<not> is_user x"
  "opens_exchange x \<Longrightarrow> \<not> is_system x"
  by (auto simp: is_tool_def is_user_def is_system_def opens_exchange_def)

lemma chunks_are_chunks: "c \<in> set (chunks items) \<Longrightarrow> is_chunk c"
  by (induction items rule: chunks.induct)
    (auto split: if_splits simp: list_all_iff dest: set_takeWhileD)

lemma takeWhile_tool_groups:
  assumes "\<forall>g\<in>set gs. is_chunk g"
  shows "\<exists>t r. gs = t @ r \<and> takeWhile is_tool (concat gs) = concat t \<and> dropWhile is_tool (concat gs) = concat r"
  using assms
proof (induction gs)
  case (Cons g gs)
  then obtain x rest where g: "g = x # rest" by (cases g) auto
  show ?case
  proof (cases "is_tool x")
    case True
    with g Cons.prems have "g = [x]" by (auto dest: role_disjoint)
    moreover obtain t r where "gs = t @ r" "takeWhile is_tool (concat gs) = concat t"
      "dropWhile is_tool (concat gs) = concat r" using Cons by auto
    ultimately show ?thesis
      using True by (intro exI [of _ "g # t"] exI [of _ r]) simp
  next
    case False
    with g show ?thesis by (intro exI [of _ "[]"] exI [of _ "g # gs"]) simp
  qed
qed simp

text \<open>Partitioning what is left after deletions only ever joins surviving groups.\<close>

lemma chunks_coarsen:
  "\<forall>g\<in>set gs. is_chunk g \<Longrightarrow> \<exists>hs. concat hs = gs \<and> chunks (concat gs) = map concat hs"
proof (induction gs rule: length_induct)
  case (1 gs)
  show ?case
  proof (cases gs)
    case (Cons g gs')
    then obtain x rest where g: "g = x # rest" using 1 by (cases g) auto
    show ?thesis
    proof (cases "opens_exchange x")
      case True
      then have rest: "list_all is_tool rest" using 1 Cons g by (auto dest: role_disjoint)
      obtain t r where tr: "gs' = t @ r" "takeWhile is_tool (concat gs') = concat t"
        "dropWhile is_tool (concat gs') = concat r" using takeWhile_tool_groups [of gs'] 1 Cons by auto
      then obtain hs where "concat hs = r" "chunks (concat r) = map concat hs"
        using 1 Cons by force
      moreover have "chunks (concat gs) = (g @ concat t) # chunks (concat r)"
        using True rest tr Cons g by (simp add: role_disjoint list_all_iff takeWhile_append dropWhile_append)
      ultimately show ?thesis using Cons tr by (intro exI [of _ "(g # t) # hs"]) simp
    next
      case False
      obtain hs where "concat hs = gs'" "chunks (concat gs') = map concat hs" using 1 Cons by force
      moreover have "chunks (concat gs) = g # chunks (concat gs')" using False 1 Cons g by auto
      ultimately show ?thesis using Cons by (intro exI [of _ "[g] # hs"]) simp
    qed
  qed simp
qed

lemma subseq_concat: "subseq xss yss \<Longrightarrow> subseq (concat xss) (concat yss)"
  by (induction rule: list_emb.induct) (auto intro: list_emb_append_mono)

lemma subseq_map_inv: "subseq xs (map f ys) \<Longrightarrow> \<exists>zs. xs = map f zs \<and> subseq zs ys"
  by (metis nths_map subseq_conv_nths)

lemma concat_map_concat: "concat (map concat xss) = concat (concat xss)"
  by (induction xss) simp_all

lemma trim_loop_groups: "\<exists>gs. subseq gs (chunks items) \<and> trim_loop cap items = concat gs"
proof (induction cap items rule: trim_loop.induct)
  case (1 cap items)
  show ?case
  proof (cases "cap < length items \<and> group_to_delete items \<noteq> None")
    case False
    then have "trim_loop cap items = concat (chunks items)" by (subst trim_loop.simps) auto
    then show ?thesis by blast
  next
    case True
    then obtain g where g: "cap < length items" "group_to_delete items = Some g" by blast
    obtain pre c post where cs: "chunks items = pre @ c # post"
      and r: "remove_range (start g) (stop g) items = concat (pre @ post)"
      using deleted_chunk [OF g(2)] .
    obtain gs where gs: "subseq gs (chunks (concat (pre @ post)))" "trim_loop cap items = concat gs"
      using 1 [OF g] trim_loop.simps [of cap items] g r by auto
    have "\<forall>d\<in>set (pre @ post). is_chunk d" using chunks_are_chunks [of _ items] cs by auto
    then obtain hs where hs: "concat hs = pre @ post" "chunks (concat (pre @ post)) = map concat hs"
      using chunks_coarsen by blast
    then obtain hs' where "gs = map concat hs'" "subseq hs' hs" using gs(1) subseq_map_inv by metis
    then have "trim_loop cap items = concat (concat hs')" "subseq (concat hs') (pre @ post)"
      using gs(2) hs(1) subseq_concat by (simp add: concat_map_concat, metis)
    moreover have "subseq (pre @ post) (chunks items)" unfolding cs by (simp add: list_emb_append_mono subseq_Cons')
    ultimately show ?thesis using subseq_order.order_trans by blast
  qed
qed

section \<open>Counting system rows\<close>

lemma chunk_kind_System: "chunk_kind c = SystemGroup \<longleftrightarrow> (\<exists>x xs. c = x # xs \<and> is_system x)"
  by (cases c) auto

lemma is_chunk_rows:
  assumes "is_chunk c"
  shows "length (filter is_system c) = (if chunk_kind c = SystemGroup then 1 else 0)"
    and "chunk_kind c = SystemGroup \<Longrightarrow> \<exists>x. c = [x] \<and> is_system x"
    and "chunk_kind c = OtherGroup \<Longrightarrow> \<exists>x. c = [x] \<and> \<not> is_system x"
  using assms
  by (cases c; auto simp: list_all_iff role_disjoint filter_empty_conv split: if_splits)+

lemma system_groups_are_rows:
  assumes "\<forall>c\<in>set cs. is_chunk c"
  shows "length (filter (\<lambda>g. kind g = SystemGroup) (layout i cs)) = length (filter is_system (concat cs))"
  using assms by (induction cs arbitrary: i) (auto simp: is_chunk_rows(1) simp del: chunk_kind.simps)

lemma system_count_rows:
  "length (filter (\<lambda>g. kind g = SystemGroup) (partition_transcript_groups items)) =
   length (filter is_system items)"
  using system_groups_are_rows [of "chunks items" 0] chunks_are_chunks
  by (simp add: partition_transcript_groups_def partition_from_layout)

lemma find_layout:
  "find P (layout i cs) = Some g \<Longrightarrow>
     \<exists>pre c post. cs = pre @ c # post \<and> g = group_at i pre c \<and> P g \<and> (\<forall>h\<in>set (layout i pre). \<not> P h)"
proof (induction cs arbitrary: i)
  case (Cons c cs)
  show ?case
  proof (cases "P (group_at i [] c)")
    case True
    with Cons.prems show ?thesis
      by (intro exI [of _ "[]"] exI [of _ c] exI [of _ cs]) (simp add: group_at_def)
  next
    case False
    with Cons.prems have "find P (layout (i + length c) cs) = Some g" by (simp add: group_at_def)
    from Cons.IH [OF this] obtain pre d post where "cs = pre @ d # post" "g = group_at (i + length c) pre d"
      "P g" "\<forall>h\<in>set (layout (i + length c) pre). \<not> P h" by blast
    with False show ?thesis
      by (intro exI [of _ "c # pre"] exI [of _ d] exI [of _ post]) (simp add: group_at_def add.assoc)
  qed
qed simp

lemma layout_kinds: "kind ` set (layout i cs) = chunk_kind ` set cs"
  by (induction cs arbitrary: i) auto

text \<open>What is deleted: the first droppable group, or the first of several system rows.\<close>

lemma deleted_cases:
  assumes "group_to_delete items = Some g"
  obtains (dropped) pre c post where "chunks items = pre @ c # post"
      and "remove_range (start g) (stop g) items = concat (pre @ post)" and "g = group_at 0 pre c"
      and "droppable (active_turn_protected_from items (partition_transcript_groups items)) g"
      and "\<forall>h\<in>set (layout 0 pre). \<not> droppable (active_turn_protected_from items (partition_transcript_groups items)) h"
    | (system) pre x post where "chunks items = pre @ [x] # post" and "is_system x"
      and "remove_range (start g) (stop g) items = concat (pre @ post)"
      and "\<forall>d\<in>set pre. chunk_kind d \<noteq> SystemGroup"
      and "1 < length (filter is_system items)"
      and "\<forall>h\<in>set (partition_transcript_groups items).
        \<not> droppable (active_turn_protected_from items (partition_transcript_groups items)) h"
proof -
  let ?gs = "partition_transcript_groups items"
  let ?pf = "active_turn_protected_from items ?gs"
  have lay: "?gs = layout 0 (chunks items)"
    by (simp add: partition_transcript_groups_def partition_from_layout)
  note rem = remove_chunk [of items]
  show ?thesis
  proof (cases "find (droppable ?pf) ?gs")
    case (Some h)
    with assms have "find (droppable ?pf) (layout 0 (chunks items)) = Some g"
      by (simp add: group_to_delete_def Let_def lay)
    from find_layout [OF this] show ?thesis using rem by (auto intro: dropped)
  next
    case None
    with assms have f: "find (\<lambda>g. kind g = SystemGroup) (layout 0 (chunks items)) = Some g"
      and many: "1 < length (filter is_system items)"
      by (auto simp: group_to_delete_def Let_def lay simp flip: system_count_rows split: if_splits)
    from find_layout [OF f] obtain pre c post where cs: "chunks items = pre @ c # post"
      and g: "g = group_at 0 pre c" "kind g = SystemGroup"
      and first: "\<forall>h\<in>set (layout 0 pre). kind h \<noteq> SystemGroup" by blast
    obtain x where "c = [x]" "is_system x"
      using is_chunk_rows(2) [of c] chunks_are_chunks [of c items] cs g by auto
    moreover have "\<forall>d\<in>set pre. chunk_kind d \<noteq> SystemGroup" using first layout_kinds [of 0 pre] by (metis imageE imageI)
    moreover have "\<forall>h\<in>set ?gs. \<not> droppable ?pf h" using None by (simp add: find_None_iff)
    ultimately show ?thesis using system cs many rem [OF cs] g by blast
  qed
qed

section \<open>What each deletion keeps\<close>

lemma protected_None_or_tail:
  assumes "chunks items = pre @ [c]"
  shows "active_turn_protected_from items (partition_transcript_groups items) =
    (if chunk_kind c = ToolExchange
     then Some (case last_user_start items (length (concat pre)) (layout 0 (chunks items)) None of
         Some u \<Rightarrow> u | None \<Rightarrow> length (concat pre))
     else None)"
  using assms
  by (simp add: active_turn_protected_from_def partition_transcript_groups_def partition_from_layout layout_split
      split: option.split)

lemma last_user_start_less:
  "u = None \<or> the u < a \<Longrightarrow> last_user_start items a gs u = Some s \<Longrightarrow> s < a"
  by (induction items a gs u rule: last_user_start.induct) (auto split: if_splits)

lemma all_system_rows:
  assumes "\<forall>h\<in>set (layout i cs). kind h = SystemGroup" and "\<forall>c\<in>set cs. is_chunk c"
  shows "length (concat cs) = length (filter is_system (concat cs))"
proof -
  have "\<forall>c\<in>set cs. chunk_kind c = SystemGroup" using assms(1) layout_kinds [of i cs] by (metis imageE imageI)
  then show ?thesis using assms(2) is_chunk_rows(2) by (induction cs) fastforce+
qed

lemma protected_tail_not_droppable:
  assumes cs: "chunks items = pre @ [c]" and "chunk_kind c = ToolExchange"
  shows "\<not> droppable (active_turn_protected_from items (partition_transcript_groups items)) (group_at 0 pre c)"
proof -
  let ?pf = "active_turn_protected_from items (partition_transcript_groups items)"
  obtain q where "?pf = Some q" "q \<le> length (concat pre)"
    using protected_None_or_tail [OF cs] assms(2) last_user_start_less [of None "length (concat pre)"]
    by (auto split: option.splits intro: less_imp_le)
  then show ?thesis by (simp add: droppable_def)
qed

text \<open>The last group is dropped only when it is a plain row behind nothing but system rows.\<close>

lemma tail_dropped:
  assumes cs: "chunks items = pre @ [c]" and g: "g = group_at 0 pre c"
    and drop: "droppable (active_turn_protected_from items (partition_transcript_groups items)) g"
    and first: "\<forall>h\<in>set (layout 0 pre).
      \<not> droppable (active_turn_protected_from items (partition_transcript_groups items)) h"
  shows "length items = length (filter is_system items) + 1"
proof -
  let ?pf = "active_turn_protected_from items (partition_transcript_groups items)"
  have ic: "is_chunk d" if "d \<in> set pre \<or> d = c" for d using chunks_are_chunks [of d items] cs that by auto
  have "chunk_kind c \<noteq> ToolExchange" using protected_tail_not_droppable [OF cs] drop g by blast
  moreover have "chunk_kind c \<noteq> SystemGroup" using drop g by (simp add: droppable_def)
  ultimately have k: "chunk_kind c = OtherGroup" and "?pf = None"
    using protected_None_or_tail [OF cs] by (cases "chunk_kind c"; simp)+
  then have "\<forall>h\<in>set (layout 0 pre). kind h = SystemGroup" using first by (simp add: droppable_def)
  then have "length (concat pre) = length (filter is_system (concat pre))"
    using ic all_system_rows [of 0 pre] by blast
  moreover obtain x where "c = [x]" "\<not> is_system x" using is_chunk_rows(3) ic k by blast
  moreover have "items = concat pre @ c" using concat_chunks [of items] cs by simp
  ultimately show ?thesis by simp
qed

lemma deletion_keeps_last:
  assumes "group_to_delete items = Some g" and "cap < length items" and "length (filter is_system items) < cap"
    and "items \<noteq> []"
  shows "remove_range (start g) (stop g) items \<noteq> [] \<and> last (remove_range (start g) (stop g) items) = last items"
proof -
  have "\<exists>pre c post. chunks items = pre @ c # post \<and> post \<noteq> [] \<and>
      remove_range (start g) (stop g) items = concat (pre @ post)"
    using assms(1)
  proof (cases rule: deleted_cases)
    case (dropped pre c post)
    with assms tail_dropped [of items pre c g] show ?thesis by fastforce
  next
    case (system pre x post)
    have "filter is_system (concat pre) = []"
      using system(4) is_chunk_rows(1) chunks_are_chunks [of _ items] system(1)
      by (induction pre) (fastforce simp: filter_empty_conv)+
    moreover have "items = concat pre @ x # concat post" using concat_chunks [of items] system(1) by simp
    ultimately have "post \<noteq> []" using system(2,5) by auto
    with system show ?thesis by blast
  qed
  then obtain pre c post where cs: "chunks items = pre @ c # post" "post \<noteq> []"
    and r: "remove_range (start g) (stop g) items = concat (pre @ post)" by blast
  have "concat post \<noteq> []" using cs chunk_nonempty [of "hd post" items] by (cases post) auto
  moreover have "items = concat pre @ c @ concat post" using concat_chunks [of items] cs by simp
  ultimately show ?thesis unfolding r by simp
qed

lemma deletion_system_rows:
  assumes "group_to_delete items = Some g"
  shows "length (filter is_system (remove_range (start g) (stop g) items)) \<le> length (filter is_system items)"
    and "filter is_system items \<noteq> [] \<Longrightarrow> filter is_system (remove_range (start g) (stop g) items) \<noteq> []"
proof -
  obtain pre c post where cs: "chunks items = pre @ c # post"
    and r: "remove_range (start g) (stop g) items = concat (pre @ post)"
    and k: "chunk_kind c \<noteq> SystemGroup \<or> (1 < length (filter is_system items) \<and> length c = 1)"
    using assms by (cases rule: deleted_cases) (auto simp: droppable_def)
  have i: "items = concat pre @ c @ concat post" using concat_chunks [of items] cs by simp
  show "length (filter is_system (remove_range (start g) (stop g) items)) \<le> length (filter is_system items)"
    unfolding r by (simp add: i)
  have "is_chunk c" using chunks_are_chunks [of c items] cs by simp
  then show "filter is_system items \<noteq> [] \<Longrightarrow> filter is_system (remove_range (start g) (stop g) items) \<noteq> []"
    using k is_chunk_rows(1) [of c] unfolding r by (auto simp: i split: if_splits)
qed

lemma stuck_shape:
  assumes none: "group_to_delete r = None" and long: "2 < length r"
  shows "let gs = partition_transcript_groups r
    in gs \<noteq> [] \<and> kind (last gs) = ToolExchange \<and> length (filter is_system r) \<le> 1 \<and>
       (\<forall>g\<in>set gs. kind g = SystemGroup \<or> start g \<ge> the (active_turn_protected_from r gs))"
proof -
  let ?gs = "partition_transcript_groups r" and ?pf = "active_turn_protected_from r (partition_transcript_groups r)"
  have nd: "\<forall>g\<in>set ?gs. \<not> droppable ?pf g"
    and sys: "\<not> 1 < length (filter (\<lambda>g. kind g = SystemGroup) ?gs)"
    using none by (auto simp: group_to_delete_def Let_def find_None_iff filter_empty_conv
        split: option.splits if_splits)
  have "?pf \<noteq> None"
  proof
    assume "?pf = None"
    then have "\<forall>g\<in>set ?gs. kind g = SystemGroup" using nd by (simp add: droppable_def)
    then have "length (concat (chunks r)) = length (filter is_system (concat (chunks r)))"
      using all_system_rows [of 0 "chunks r"] chunks_are_chunks [of _ r]
      unfolding partition_transcript_groups_def partition_from_layout by blast
    then show False using sys long by (simp add: system_count_rows)
  qed
  then have "?gs \<noteq> []" "kind (last ?gs) = ToolExchange"
    by (auto simp: active_turn_protected_from_def split: if_splits)
  with nd sys \<open>?pf \<noteq> None\<close> show ?thesis
    by (auto simp: Let_def droppable_def system_count_rows)
qed

section \<open>The active turn\<close>

lemma chunks_append:
  "ys = [] \<or> \<not> is_tool (hd ys) \<Longrightarrow> chunks (xs @ ys) = chunks xs @ chunks ys"
proof (induction xs rule: chunks.induct)
  case (2 item rest)
  have "takeWhile is_tool (rest @ ys) = takeWhile is_tool rest \<and>
      dropWhile is_tool (rest @ ys) = dropWhile is_tool rest @ ys"
    using 2(3) by (induction rest) (cases ys; auto)+
  with 2 show ?case by simp
qed simp

lemma chunks_of_suffix: "chunks items = a @ b \<Longrightarrow> chunks (concat b) = b"
proof (induction items arbitrary: a rule: chunks.induct)
  case (2 item rest)
  show ?case
  proof (cases a)
    case Nil
    with 2(3) concat_chunks [of "item # rest"] show ?thesis by simp
  next
    case (Cons c a')
    with 2 show ?thesis by (auto split: if_splits)
  qed
qed simp

lemma chunks_system_prefix:
  "\<forall>d\<in>set pre. chunk_kind d = SystemGroup \<and> is_chunk d \<Longrightarrow> chunks (concat pre @ ys) = pre @ chunks ys"
proof (induction pre)
  case (Cons d pre)
  then obtain x where "d = [x]" "is_system x" using is_chunk_rows(2) [of d] by auto
  with Cons show ?case by simp
qed simp

text \<open>The scan for the last user row before the active exchange.\<close>

lemma last_user_start_append:
  "\<forall>g\<in>set gs1. start g < a \<Longrightarrow>
   last_user_start items a (gs1 @ gs2) u = last_user_start items a gs2 (last_user_start items a gs1 u)"
  by (induction gs1 arbitrary: u) auto

lemma last_user_start_no_user:
  assumes "\<forall>g\<in>set gs. kind g = OtherGroup \<longrightarrow> start g < length items \<longrightarrow> \<not> is_user (items ! start g)"
  shows "last_user_start items a gs u = u"
  using assms by (induction gs) auto

lemma layout_starts: "\<forall>c\<in>set cs. c \<noteq> [] \<Longrightarrow> g \<in> set (layout i cs) \<Longrightarrow> start g < i + length (concat cs)"
  by (induction cs arbitrary: i) (fastforce simp: add.assoc)+

lemma layout_head_row:
  assumes "g \<in> set (layout (length (concat pre)) cs)" and "\<forall>c\<in>set cs. c \<noteq> []"
  shows "\<exists>c\<in>set cs. (concat pre @ concat cs @ zs) ! start g = hd c"
proof -
  obtain a c b where "cs = a @ c # b" "g = group_at (length (concat pre)) a c"
    using layout_mem_chunk [OF assms(1)] by blast
  then show ?thesis using assms(2) by (intro bexI [of _ c]) (auto simp: nth_append hd_conv_nth)
qed

lemma protected_active_turn:
  assumes cs: "chunks items = A @ [u] # M @ [act]" and u: "is_user u"
    and act: "chunk_kind act = ToolExchange" and mid: "\<forall>c\<in>set M. \<not> is_user (hd c)"
  shows "active_turn_protected_from items (partition_transcript_groups items) = Some (length (concat A))"
proof -
  have ne: "\<forall>c\<in>set (A @ [u] # M @ [act]). c \<noteq> []" using chunk_nonempty [of _ items] cs by auto
  have items: "items = concat (A @ [[u]]) @ concat M @ act" using concat_chunks [of items] cs by simp
  let ?a = "length (concat (A @ [u] # M))"
  let ?gA = "layout 0 A" and ?gu = "group_at 0 A [u]" and ?gM = "layout (length (concat (A @ [[u]]))) M"
  have lay: "layout 0 (chunks items) = (?gA @ [?gu]) @ ?gM @ [group_at 0 (A @ [u] # M) act]"
    unfolding cs by (simp add: layout_append layout_split group_at_def add.assoc)
  have lt: "\<forall>g\<in>set (?gA @ [?gu]). start g < ?a" "\<forall>g\<in>set ?gM. start g < ?a"
    using layout_starts [of A _ 0] layout_starts [of M _ "length (concat (A @ [[u]]))"] ne by fastforce+
  have "last_user_start items ?a (?gA @ [?gu]) None = Some (length (concat A))"
    using lt(1) u last_user_start_append [of ?gA ?a items "[?gu]" None] by (simp add: items role_disjoint)
  moreover have "last_user_start items ?a ?gM v = v" for v
  proof (rule last_user_start_no_user, intro ballI impI)
    fix g assume "g \<in> set ?gM"
    then show "\<not> is_user (items ! start g)"
      using layout_head_row [of g "A @ [[u]]" M act] mid ne unfolding items by auto
  qed
  ultimately have "last_user_start items ?a (layout 0 (chunks items)) None = Some (length (concat A))"
    unfolding lay using lt by (simp add: last_user_start_append del: append_assoc)
  then show ?thesis using protected_None_or_tail [of items "A @ [u] # M" act] cs act by simp
qed

text \<open>
  The groups of a transcript whose active turn is \<open>B\<close>: one user row, then groups without user or
  system rows, the last one a tool exchange.
\<close>

definition active_turn :: "transcript_item list list \<Rightarrow> bool" where
  "active_turn B \<longleftrightarrow> (\<exists>u M act. B = [u] # M @ [act] \<and> is_user u \<and> chunk_kind act = ToolExchange \<and>
     (\<forall>c\<in>set M. \<not> is_user (hd c)) \<and> (\<forall>c\<in>set B. chunk_kind c \<noteq> SystemGroup))"

lemma active_turnI:
  assumes "is_user u" and mid: "\<forall>x\<in>set mid. \<not> is_user x \<and> \<not> is_system x"
    and last: "kind (last (partition_transcript_groups items)) = ToolExchange"
    and cs: "chunks items = A @ chunks (u # mid)"
  shows "active_turn (chunks (u # mid))"
proof -
  have B: "chunks (u # mid) = [u] # chunks mid" using assms(1) by (simp add: role_disjoint)
  have "chunk_kind (last (A @ [u] # chunks mid)) = ToolExchange"
    using last cs B unfolding partition_transcript_groups_def partition_from_layout
    by (cases "chunks mid" rule: rev_cases) (simp_all add: layout_append)
  moreover from this have "chunks mid \<noteq> []" using assms(1) by (auto simp: role_disjoint split: if_splits)
  moreover have "hd c \<in> set mid" if "c \<in> set (chunks mid)" for c
    using that chunk_nonempty [OF that] concat_chunks [of mid] by (metis UN_I hd_in_set set_concat)
  then have rows: "\<not> is_user (hd c) \<and> chunk_kind c \<noteq> SystemGroup" if "c \<in> set (chunks mid)" for c
    using that mid chunk_kind_System [of c] by fastforce
  ultimately show ?thesis
    using B assms(1) rows unfolding active_turn_def
    by (intro exI [of _ u] exI [of _ "butlast (chunks mid)"] exI [of _ "last (chunks mid)"])
      (auto simp: role_disjoint dest: in_set_butlastD)
qed

text \<open>With that protection, a deletion takes a group of the prefix that only system rows precede.\<close>

lemma dropped_before_protected:
  assumes cs: "chunks items = A @ B" "chunks items = pre @ c # post"
    and pf: "pf = Some (length (concat A))"
    and drop: "droppable pf (group_at 0 pre c)" and first: "\<forall>h\<in>set (layout 0 pre). \<not> droppable pf h"
  shows "\<exists>post'. A = pre @ c # post' \<and> post = post' @ B \<and> (\<forall>d\<in>set pre. chunk_kind d = SystemGroup)"
proof -
  have lt: "length (concat pre) < length (concat A)" using drop by (simp add: droppable_def pf)
  have "\<exists>us. A = pre @ us \<and> us @ B = c # post \<or> A @ us = pre \<and> B = us @ c # post"
    using append_eq_append_conv2 [of A B pre "c # post"] cs by (simp only: simp_thms)
  then obtain us where "A = pre @ us \<and> us @ B = c # post \<or> pre = A @ us" by blast
  with lt have us: "A = pre @ us" "us @ B = c # post" "us \<noteq> []" by auto
  then obtain post' where A: "A = pre @ c # post'" "post = post' @ B" by (cases us) auto
  have "chunk_kind d = SystemGroup" if "d \<in> set pre" for d
  proof (rule ccontr)
    assume k: "chunk_kind d \<noteq> SystemGroup"
    obtain p q where "pre = p @ d # q" using split_list \<open>d \<in> set pre\<close> by metis
    then have "group_at 0 p d \<in> set (layout 0 pre)" "length (concat p) < length (concat A)"
      using lt by (auto simp: layout_split)
    with first k show False by (auto simp: droppable_def pf)
  qed
  with A show ?thesis by blast
qed

lemma system_before_protected:
  assumes cs: "chunks items = A @ B" "chunks items = pre @ [x] # post" and x: "is_system x"
    and pf: "pf = Some (length (concat A))" and nosys: "\<forall>c\<in>set B. chunk_kind c \<noteq> SystemGroup"
    and first: "\<forall>d\<in>set pre. chunk_kind d \<noteq> SystemGroup"
    and stuck: "\<forall>h\<in>set (partition_transcript_groups items). \<not> droppable pf h"
  shows "\<exists>post'. pre = [] \<and> A = [x] # post' \<and> post = post' @ B"
proof -
  have "[x] \<in> set (A @ B)" using cs by (metis in_set_conv_decomp)
  then have xA: "[x] \<in> set A" using nosys x by auto
  have sys: "chunk_kind d = SystemGroup" if "d \<in> set A" for d
  proof (rule ccontr)
    assume k: "chunk_kind d \<noteq> SystemGroup"
    obtain p q where A: "A = p @ d # q" using split_list \<open>d \<in> set A\<close> by metis
    then have "group_at 0 p d \<in> set (partition_transcript_groups items)"
      using cs(1) by (simp add: partition_transcript_groups_def partition_from_layout layout_split)
    moreover have "d \<noteq> []" using A cs(1) chunk_nonempty [of d items] by simp
    ultimately show False using stuck k A by (auto simp: droppable_def pf)
  qed
  have "pre = []"
  proof (cases pre)
    case (Cons d ds)
    then have "d \<in> set A" using xA cs by (cases A) auto
    then show ?thesis using sys first Cons by simp
  qed simp
  moreover obtain post' where "A = [x] # post'" "post = post' @ B"
    using cs xA \<open>pre = []\<close> by (cases A) auto
  ultimately show ?thesis by simp
qed

lemma deletion_keeps_active_turn:
  assumes cs: "chunks items = A @ B" and B: "active_turn B" and del: "group_to_delete items = Some g"
  shows "\<exists>A'. chunks (remove_range (start g) (stop g) items) = A' @ B"
proof -
  let ?pf = "active_turn_protected_from items (partition_transcript_groups items)"
  have nosys: "\<forall>c\<in>set B. chunk_kind c \<noteq> SystemGroup" and pf: "?pf = Some (length (concat A))"
    using B protected_active_turn [of items A] cs unfolding active_turn_def by auto
  have "\<exists>pre c post. A = pre @ c # post \<and> (\<forall>d\<in>set pre. chunk_kind d = SystemGroup) \<and>
      remove_range (start g) (stop g) items = concat (pre @ post @ B)"
    using del
  proof (cases rule: deleted_cases)
    case (dropped pre c post)
    with dropped_before_protected [OF cs dropped(1) pf] obtain post'
      where "A = pre @ c # post'" "post = post' @ B" "\<forall>d\<in>set pre. chunk_kind d = SystemGroup" by auto
    with dropped(2) show ?thesis by (intro exI [of _ pre] exI [of _ c] exI [of _ post']) simp
  next
    case (system pre x post)
    with system_before_protected [OF cs system(1,2) pf nosys system(4,6)] obtain post'
      where "pre = []" "A = [x] # post'" "post = post' @ B" by blast
    with system(3) show ?thesis by (intro exI [of _ "[]"] exI [of _ "[x]"] exI [of _ post']) simp
  qed
  then obtain pre c post where A: "A = pre @ c # post" and "\<forall>d\<in>set pre. chunk_kind d = SystemGroup"
    and r: "remove_range (start g) (stop g) items = concat pre @ concat (post @ B)" by auto
  then have "chunks (concat pre @ concat (post @ B)) = pre @ chunks (concat (post @ B))"
    using chunks_are_chunks [of _ items] cs by (intro chunks_system_prefix) auto
  moreover have "chunks (concat (post @ B)) = post @ B"
    using cs A by (intro chunks_of_suffix [of items "pre @ [c]"]) simp
  ultimately show ?thesis using r by (intro exI [of _ "pre @ post"]) simp
qed

section \<open>Properties\<close>

text \<open>
  Trimming removes whole groups: the result is the concatenation of a subsequence of the
  original groups, in order.  A tool exchange (an assistant row with tool calls and the tool rows
  after it) is therefore kept entirely or dropped entirely, and the partition itself loses no row.
\<close>

theorem trim_keeps_whole_groups:
  "concat (chunks items) = items \<and>
   (\<exists>kept. subseq kept (chunks items) \<and> trim_messages max_messages items = concat kept)"
  using trim_loop_groups unfolding trim_messages_def by simp

text \<open>
  Trimming reaches the cap unless the tail is an active tool exchange: either at most
  \<open>max(max_messages, 2)\<close> rows remain, or the last group is a tool exchange, at most one system row is
  left, and no group outside the protected suffix can be dropped.  A transcript with a system row keeps
  one.
\<close>

theorem trim_reaches_cap:
  "let r = trim_messages max_messages items; gs = partition_transcript_groups r
   in (length r \<le> max max_messages 2 \<or>
       (gs \<noteq> [] \<and> kind (last gs) = ToolExchange \<and> length (filter is_system r) \<le> 1 \<and>
        list_all (\<lambda>g. kind g = SystemGroup \<or> start g \<ge> the (active_turn_protected_from r gs)) gs)) \<and>
      (list_ex is_system r \<longleftrightarrow> list_ex is_system items)"
proof -
  let ?r = "trim_messages max_messages items" and ?cap = "max max_messages 2"
  let ?gs = "partition_transcript_groups ?r"
  have "filter is_system ?r \<noteq> []" if "filter is_system items \<noteq> []"
    unfolding trim_messages_def
    by (rule trim_loop_invariant [where P = "\<lambda>items. filter is_system items \<noteq> []"])
      (use that deletion_system_rows(2) in blast)+
  moreover have "set ?r \<subseteq> set items"
    using trim_loop_groups [of items ?cap] unfolding trim_messages_def
    by (metis concat_chunks subseq_concat subseq_conv_nths set_nths_subset)
  ultimately have sys: "list_ex is_system ?r \<longleftrightarrow> list_ex is_system items"
    by (auto simp: filter_empty_conv list_ex_iff)
  have "length ?r \<le> ?cap \<or> group_to_delete ?r = None" unfolding trim_messages_def by (rule trim_loop_stops)
  moreover have "?gs \<noteq> [] \<and> kind (last ?gs) = ToolExchange \<and> length (filter is_system ?r) \<le> 1 \<and>
      (\<forall>g\<in>set ?gs. kind g = SystemGroup \<or> start g \<ge> the (active_turn_protected_from ?r ?gs))"
    if "group_to_delete ?r = None" "length ?r > ?cap"
    using that stuck_shape [of ?r] by (simp add: Let_def)
  ultimately have "length ?r \<le> ?cap \<or> ?gs \<noteq> [] \<and> kind (last ?gs) = ToolExchange \<and>
      length (filter is_system ?r) \<le> 1 \<and>
      (\<forall>g\<in>set ?gs. kind g = SystemGroup \<or> start g \<ge> the (active_turn_protected_from ?r ?gs))"
    by linarith
  with sys show ?thesis by (simp only: Let_def list_all_iff simp_thms)
qed

text \<open>
  While a tool exchange is active at the tail, the rows of the running turn survive trimming whatever the
  cap: if the transcript ends with a user row and, after it, rows that hold no further user or system
  row and end in a tool exchange, then so does the trimmed transcript.
\<close>

theorem trim_keeps_active_turn:
  assumes "is_user u" and "\<forall>x\<in>set mid. \<not> is_user x \<and> \<not> is_system x"
    and "kind (last (partition_transcript_groups (old @ u # mid))) = ToolExchange"
  shows "suffix (u # mid) (trim_messages max_messages (old @ u # mid))"
proof -
  let ?B = "chunks (u # mid)"
  have cs: "chunks (old @ u # mid) = chunks old @ ?B"
    using assms(1) by (intro chunks_append) (auto dest: role_disjoint)
  have "active_turn ?B" by (rule active_turnI) (use assms cs in simp_all)
  then have "\<exists>A'. chunks (trim_messages max_messages (old @ u # mid)) = A' @ ?B"
    unfolding trim_messages_def
    by (intro trim_loop_invariant [where P = "\<lambda>items. \<exists>A'. chunks items = A' @ ?B"])
      (use cs deletion_keeps_active_turn in blast)+
  then obtain A' where "chunks (trim_messages max_messages (old @ u # mid)) = A' @ ?B" by blast
  then have "trim_messages max_messages (old @ u # mid) = concat A' @ concat ?B"
    by (metis concat_append concat_chunks)
  then show ?thesis by (simp only: concat_chunks suffix_def) blast
qed

definition sample_exchange :: "transcript_item list" where
  "sample_exchange =
     [\<lparr>role = lit ''assistant'', item_content = [],
       tool_calls = [\<lparr>tc_id = lit ''c1'', tc_name = lit ''ls'', tc_arguments = []\<rparr>], tool_call_id = None\<rparr>,
      \<lparr>role = lit ''tool'', item_content = lit ''ok'', tool_calls = [], tool_call_id = Some (lit ''c1'')\<rparr>]"

theorem trim_keeps_active_turn_witness:
  "suffix (item_text (lit ''user'') (lit ''now'') # sample_exchange)
     (trim_messages 2 ([item_text (lit ''user'') (lit ''before'')] @
        item_text (lit ''user'') (lit ''now'') # sample_exchange))"
proof (rule trim_keeps_active_turn)
  show "is_user (item_text (lit ''user'') (lit ''now''))" by (simp add: is_user_def item_text_def)
  show "\<forall>x\<in>set sample_exchange. \<not> is_user x \<and> \<not> is_system x"
    by (simp add: sample_exchange_def is_user_def is_system_def)
  show "kind (last (partition_transcript_groups ([item_text (lit ''user'') (lit ''before'')] @
        item_text (lit ''user'') (lit ''now'') # sample_exchange))) = ToolExchange"
    by (simp add: partition_transcript_groups_def sample_exchange_def item_text_def is_system_def
        opens_exchange_def is_tool_def)
qed

text \<open>
  The newest row survives trimming whenever fewer than \<open>max(max_messages, 2)\<close> rows are system
  rows: in particular the user row a new turn has just appended is still there when the
  model is called.
\<close>

theorem trim_keeps_newest:
  assumes "items \<noteq> []" and "length (filter is_system items) < max max_messages 2"
  shows "trim_messages max_messages items \<noteq> [] \<and> last (trim_messages max_messages items) = last items"
proof -
  let ?cap = "max max_messages 2"
  let ?P = "\<lambda>xs. xs \<noteq> [] \<and> last xs = last items \<and> length (filter is_system xs) < ?cap"
  have "?P (trim_loop ?cap items)"
  proof (rule trim_loop_invariant [where P = ?P])
    fix xs g
    assume "?P xs" "?cap < length xs" "group_to_delete xs = Some g"
    then show "?P (remove_range (start g) (stop g) xs)"
      using deletion_keeps_last [of xs g ?cap] deletion_system_rows(1) [of xs g] by auto
  qed (use assms in simp)
  then show ?thesis by (simp add: trim_messages_def)
qed

theorem trim_keeps_newest_witness:
  "last (trim_messages 2 [item_text (lit ''system'') [], item_text (lit ''user'') (lit ''a''),
      item_text (lit ''user'') (lit ''b'')]) = item_text (lit ''user'') (lit ''b'')"
  using trim_keeps_newest [of "[item_text (lit ''system'') [], item_text (lit ''user'') (lit ''a''),
      item_text (lit ''user'') (lit ''b'')]" 2]
  by (simp add: item_text_def is_system_def)

text \<open>
  The bound of the previous property is sharp: when the system rows alone fill the cap, the
  user row that was just appended is itself the oldest group that may be dropped, nothing protects it, and
  trimming removes it before the model ever sees it.
\<close>

theorem trim_can_drop_the_new_user_row:
  "trim_messages 2 [item_text (lit ''system'') (lit ''a''), item_text (lit ''system'') (lit ''b''),
      item_text (lit ''user'') (lit ''hello'')] =
   [item_text (lit ''system'') (lit ''a''), item_text (lit ''system'') (lit ''b'')]"
  by (simp add: trim_messages_def trim_loop.simps group_to_delete_def partition_transcript_groups_def
      item_text_def is_system_def opens_exchange_def active_turn_protected_from_def droppable_def remove_range_def)

end
