(* ===== verification/Hyper_Host.thy ===== *)
theory Hyper_Host
  imports Transcript
begin

text \<open>
  The host boundary of Hypercore: the types and the trait of
  \<open>packages/agent/xai-hyper-host/src/lib.rs\<close> and its in-memory implementation
  \<open>packages/agent/xai-hyper-core/src/mock.rs\<close>.

  The trait is a record of operations on a host state \<open>'h\<close>: operations through \<open>&self\<close> that change
  something return the new state, loads and listings only read it.  \<open>open_model_stream\<close> may fail to
  return (a panic), which is \<open>None\<close>.  A stream is a state \<open>'s\<close> with \<open>next_chunk\<close>.  Snapshot bytes
  \<open>'b\<close> and JSON values \<open>'json\<close> belong to the JSON library and are type variables.
\<close>

section \<open>Types of the boundary\<close>

datatype host_error =
    Unsupported rstr
  | Io rstr
  | Transport rstr
  | Auth "nat option" rstr rstr
  | HostMessage rstr

definition host_error_auth :: "nat option \<Rightarrow> rstr \<Rightarrow> host_error" where
  "host_error_auth status_code message = Auth status_code message (lit ''unknown'')"

fun is_auth_error :: "host_error \<Rightarrow> bool" where
  "is_auth_error (Auth _ _ _) = True"
| "is_auth_error _ = False"

record 'json tool_definition =
  td_name :: rstr
  td_description :: rstr
  input_schema :: 'json

record chat_tool_call =
  ctc_id :: rstr
  ctc_name :: rstr
  ctc_arguments :: rstr

record chat_message =
  chat_role :: rstr
  chat_content :: rstr
  chat_tool_calls :: "chat_tool_call list"
  chat_tool_call_id :: "rstr option"

definition chat_text :: "rstr \<Rightarrow> rstr \<Rightarrow> chat_message" where
  "chat_text r c = \<lparr>chat_role = r, chat_content = c, chat_tool_calls = [], chat_tool_call_id = None\<rparr>"

definition chat_assistant_tools :: "rstr \<Rightarrow> chat_tool_call list \<Rightarrow> chat_message" where
  "chat_assistant_tools c calls =
     \<lparr>chat_role = lit ''assistant'', chat_content = c, chat_tool_calls = calls, chat_tool_call_id = None\<rparr>"

definition chat_tool_result :: "rstr \<Rightarrow> rstr \<Rightarrow> chat_message" where
  "chat_tool_result call c =
     \<lparr>chat_role = lit ''tool'', chat_content = c, chat_tool_calls = [], chat_tool_call_id = Some call\<rparr>"

record 'json model_stream_request =
  req_session_id :: rstr
  req_turn_id :: rstr
  req_model :: rstr
  req_messages :: "chat_message list"
  req_tools :: "'json tool_definition list"
  req_json_schema :: "'json option"

datatype model_chunk =
    TextDelta rstr
  | ToolCallChunk rstr rstr rstr
  | Done "rstr option"

record terminal_turn_record =
  term_turn_id :: rstr
  request_text :: rstr
  assistant_text :: rstr
  stop_reason :: "rstr option"

record 'json host_tool_call =
  htc_id :: rstr
  htc_name :: rstr
  htc_arguments :: 'json

record host_tool_result =
  htr_call_id :: rstr
  htr_ok :: bool
  htr_content :: rstr

section \<open>The host trait\<close>

record ('h, 's, 'b, 'json) host =
  open_model_stream :: "'json model_stream_request \<Rightarrow> 'h \<Rightarrow> ('h \<times> (host_error + 's)) option"
  next_chunk :: "'s \<Rightarrow> 's \<times> (host_error + model_chunk option)"
  commit_snapshot :: "rstr \<Rightarrow> 'b \<Rightarrow> terminal_turn_record option \<Rightarrow> 'h \<Rightarrow> 'h \<times> (host_error + unit)"
  load_snapshot :: "rstr \<Rightarrow> 'h \<Rightarrow> host_error + 'b option"
  load_terminal_turn :: "rstr \<Rightarrow> rstr \<Rightarrow> 'h \<Rightarrow> host_error + terminal_turn_record option"
  list_tools :: "'h \<Rightarrow> host_error + 'json tool_definition list"
  invoke_tool :: "'json host_tool_call \<Rightarrow> 'h \<Rightarrow> 'h \<times> (host_error + host_tool_result)"

text \<open>The defaults of the trait: no tools, and no tool execution.\<close>

definition default_list_tools :: "'h \<Rightarrow> host_error + 'json tool_definition list" where
  "default_list_tools h = Inr []"

definition default_invoke_tool :: "'json host_tool_call \<Rightarrow> 'h \<Rightarrow> 'h \<times> (host_error + host_tool_result)" where
  "default_invoke_tool call h = (h, Inl (Unsupported (lit ''tools'')))"

text \<open>
  What the core relies on after a commit that reported success: the snapshot and the terminal record
  are there to be loaded.
\<close>

locale durable_host =
  fixes H :: "('h, 's, 'b, 'json) host"
  assumes commit_loads_snapshot:
      "commit_snapshot H sid b topt h = (h', Inr ()) \<Longrightarrow> load_snapshot H sid h' = Inr (Some b)"
    and commit_loads_terminal:
      "commit_snapshot H sid b (Some t) h = (h', Inr ()) \<Longrightarrow>
       load_terminal_turn H sid (term_turn_id t) h' = Inr (Some t)"

section \<open>The in-memory host\<close>

record 'b mock_host_inner =
  snapshots :: "rstr \<rightharpoonup> 'b"
  terminals :: "rstr \<times> rstr \<rightharpoonup> terminal_turn_record"
  stream_opens :: nat
  clock_ms :: "nat option"
  echo_tool :: bool

definition mock_new :: "'b mock_host_inner" where
  "mock_new = \<lparr>snapshots = Map.empty, terminals = Map.empty, stream_opens = 0, clock_ms = None,
     echo_tool = False\<rparr>"

definition mock_with_echo_tool :: "'b mock_host_inner" where
  "mock_with_echo_tool = mock_new\<lparr>echo_tool := True\<rparr>"

definition model_stream_opens :: "'b mock_host_inner \<Rightarrow> nat" where
  "model_stream_opens h = stream_opens h"

definition set_now_unix_ms :: "nat \<Rightarrow> 'b mock_host_inner \<Rightarrow> 'b mock_host_inner" where
  "set_now_unix_ms ms h = h\<lparr>clock_ms := Some ms\<rparr>"

text \<open>An \<open>EchoStream\<close> is the iterator over its remaining chunks.\<close>

definition echo_next_chunk :: "model_chunk list \<Rightarrow> model_chunk list \<times> (host_error + model_chunk option)" where
  "echo_next_chunk pending =
     (case pending of [] \<Rightarrow> ([], Inr None) | c # rest \<Rightarrow> (rest, Inr (Some c)))"

definition last_content :: "string \<Rightarrow> chat_message list \<Rightarrow> rstr" where
  "last_content r messages =
     (case find (\<lambda>m. chat_role m = lit r) (rev messages) of Some m \<Rightarrow> chat_content m | None \<Rightarrow> [])"

text \<open>
  The text of the JSON object \<open>{"text": user}\<close>, the \<open>text\<close> member of a JSON value, and the schema of
  the echo tool come from the JSON library.
\<close>

record 'json mock_json =
  text_object_string :: "rstr \<Rightarrow> rstr"
  get_text :: "'json \<Rightarrow> rstr option"
  echo_schema :: 'json

definition mock_open_model_stream :: "'json mock_json \<Rightarrow> 'json model_stream_request \<Rightarrow> 'b mock_host_inner \<Rightarrow>
    ('b mock_host_inner \<times> (host_error + model_chunk list)) option" where
  "mock_open_model_stream J req h =
     (let h = h\<lparr>stream_opens := (stream_opens h + 1) mod 2 ^ 64\<rparr>
      in if echo_tool h then
           (let has_tool_result = list_ex (\<lambda>m. chat_role m = lit ''tool'') (req_messages req)
            in if \<not> has_tool_result then
                 (let user = last_content ''user'' (req_messages req);
                      args = text_object_string J user
                  in Some (h, Inr [ToolCallChunk (lit ''call_echo_1'') (lit ''echo'') args,
                       Done (Some (lit ''tool_calls''))]))
               else
                 (let full = lit ''tool done: '' @ last_content ''tool'' (req_messages req)
                  in Some (h, Inr [TextDelta full, Done (Some (lit ''end_turn''))])))
         else
           (let full = lit ''echo: '' @ last_content ''user'' (req_messages req);
                mid = min ((byte_len full + 1) div 2) (byte_len full)
            in case split_at mid full of
                 None \<Rightarrow> None
               | Some (a, b) \<Rightarrow>
                   Some (h, Inr [TextDelta a, TextDelta b, Done (Some (lit ''end_turn''))])))"

definition mock_commit_snapshot :: "rstr \<Rightarrow> 'b \<Rightarrow> terminal_turn_record option \<Rightarrow> 'b mock_host_inner \<Rightarrow>
    'b mock_host_inner \<times> (host_error + unit)" where
  "mock_commit_snapshot sid snapshot terminal h =
     (let h = h\<lparr>snapshots := (snapshots h)(sid \<mapsto> snapshot)\<rparr>
      in ((case terminal of
             Some t \<Rightarrow> h\<lparr>terminals := (terminals h)((sid, term_turn_id t) \<mapsto> t)\<rparr>
           | None \<Rightarrow> h), Inr ()))"

definition mock_load_snapshot :: "rstr \<Rightarrow> 'b mock_host_inner \<Rightarrow> host_error + 'b option" where
  "mock_load_snapshot sid h = Inr (snapshots h sid)"

definition mock_load_terminal_turn :: "rstr \<Rightarrow> rstr \<Rightarrow> 'b mock_host_inner \<Rightarrow>
    host_error + terminal_turn_record option" where
  "mock_load_terminal_turn sid tid h = Inr (terminals h (sid, tid))"

definition mock_list_tools :: "'json mock_json \<Rightarrow> 'b mock_host_inner \<Rightarrow> host_error + 'json tool_definition list" where
  "mock_list_tools J h =
     (if echo_tool h then
        Inr [\<lparr>td_name = lit ''echo'', td_description = lit ''Echo back the text argument'',
              input_schema = echo_schema J\<rparr>]
      else Inr [])"

definition mock_invoke_tool :: "'json mock_json \<Rightarrow> 'json host_tool_call \<Rightarrow> 'b mock_host_inner \<Rightarrow>
    'b mock_host_inner \<times> (host_error + host_tool_result)" where
  "mock_invoke_tool J call h =
     (if htc_name call = lit ''echo'' then
        (let t = (case get_text J (htc_arguments call) of Some t \<Rightarrow> t | None \<Rightarrow> [])
         in (h, Inr \<lparr>htr_call_id = htc_id call, htr_ok = True, htr_content = lit ''echoed: '' @ t\<rparr>))
      else (h, Inl (Unsupported (lit ''tools''))))"

definition mock_host :: "'json mock_json \<Rightarrow> ('b mock_host_inner, model_chunk list, 'b, 'json) host" where
  "mock_host J =
     \<lparr>open_model_stream = mock_open_model_stream J, next_chunk = echo_next_chunk,
      commit_snapshot = mock_commit_snapshot, load_snapshot = mock_load_snapshot,
      load_terminal_turn = mock_load_terminal_turn, list_tools = mock_list_tools J,
      invoke_tool = mock_invoke_tool J\<rparr>"

interpretation mock: durable_host "mock_host J" for J :: "'json mock_json"
  by unfold_locales
    (auto simp: mock_host_def mock_commit_snapshot_def mock_load_snapshot_def
      mock_load_terminal_turn_def Let_def split: option.splits)

section \<open>A panic of the in-memory host\<close>

text \<open>
  On non-ASCII text the halving of the echo can fall inside a character: for a user message of four
  two-byte characters the byte midpoint is not a character boundary and \<open>split_at\<close> panics.
\<close>

lemma mock_echo_can_panic:
  "mock_open_model_stream J \<lparr>req_session_id = s, req_turn_id = t, req_model = m,
      req_messages = [chat_text (lit ''user'') [233, 233, 233, 233]], req_tools = [],
      req_json_schema = None\<rparr> mock_new = None"
proof -
  have "split_at 7 (lit ''echo: '' @ [233, 233, 233, 233]) = None" by code_simp
  moreover have "byte_len (lit ''echo: '' @ [233, 233, 233, 233]) = 14" by code_simp
  ultimately show ?thesis
    by (simp add: mock_open_model_stream_def mock_new_def last_content_def chat_text_def del: byte_len_simps)
qed

end
