(* ===== verification/Hyper_Core.thy ===== *)
theory Hyper_Core
  imports Hyper_Host
begin

text \<open>
  The Hypercore turn engine (\<open>packages/agent/xai-hyper-core/src/lib.rs\<close>).

  The state of \<open>HyperCore\<close> is a record; the host it owns is a state of its own, threaded through
  every operation.  A turn that never returns (a host call that panics or a model stream that never
  ends) is \<open>None\<close>; otherwise the operation gives the host, the core and a result.  The tool invoker of the
  caller is a function on the host state.  Events pushed just before an error is returned are lost
  with the local vector in the code and are not modelled.  Encoding and decoding of snapshots and
  of tool arguments belong to the JSON library and are the record \<open>serde\<close>.
\<close>

section \<open>State, requests and outcomes\<close>

definition SNAPSHOT_SCHEMA_VERSION :: nat where
  "SNAPSHOT_SCHEMA_VERSION = 2"

definition DEFAULT_MAX_TOOL_STEPS :: nat where
  "DEFAULT_MAX_TOOL_STEPS = 64"

datatype core_error =
    HostErr host_error
  | Snapshot rstr
  | Invalid rstr
  | ToolLoopLimit nat
  | Aborted rstr
  | TurnIdConflict rstr
  | CoreMessage rstr

record core_config =
  model :: rstr
  max_messages :: nat
  max_tool_steps :: nat

definition core_config_default :: core_config where
  "core_config_default =
     \<lparr>model = lit ''mock-echo'', max_messages = 256, max_tool_steps = DEFAULT_MAX_TOOL_STEPS\<rparr>"

record 'json turn_request =
  tr_turn_id :: rstr
  tr_text :: rstr
  tr_json_schema :: "'json option"
  tr_tools :: "'json tool_definition list option"

datatype tool_batch_result =
    Continue "host_tool_result list"
  | Finish "host_tool_result list"
  | Abort rstr

record turn_tool_call =
  ttc_id :: rstr
  ttc_name :: rstr
  ttc_arguments :: rstr
  ttc_ok :: bool
  ttc_content :: rstr

datatype core_event =
    Status rstr
  | TurnStarted rstr
  | AssistantDelta rstr rstr
  | ToolCallEvent rstr rstr rstr rstr
  | ToolResultEvent rstr rstr bool rstr
  | TurnCommitted rstr "rstr option" bool
  | TurnFailed rstr rstr

record turn_outcome =
  out_turn_id :: rstr
  out_assistant_text :: rstr
  replayed :: bool
  tools_called :: "turn_tool_call list"
  out_events :: "core_event list"

record 'json session_snapshot =
  schema_version :: nat
  snap_session_id :: rstr
  snap_items :: "transcript_item list"
  snap_completed_turns :: nat
  snap_model :: rstr
  extensions :: "rstr \<rightharpoonup> 'json"

record core =
  session_id :: rstr
  core_config :: core_config
  items :: "transcript_item list"
  completed_turns :: nat

record ('b, 'json) serde =
  to_vec :: "'json session_snapshot \<Rightarrow> rstr + 'b"
  from_slice :: "'b \<Rightarrow> rstr + 'json session_snapshot"
  from_str :: "rstr \<Rightarrow> 'json option"
  empty_object :: 'json
  raw_object :: "rstr \<Rightarrow> 'json"

section \<open>Snapshots\<close>

definition decode_snapshot :: "('b, 'json) serde \<Rightarrow> 'b \<Rightarrow> core_error + 'json session_snapshot" where
  "decode_snapshot S bytes =
     (case from_slice S bytes of
        Inl e \<Rightarrow> Inl (Snapshot (lit ''json: '' @ e))
      | Inr snap \<Rightarrow>
          if schema_version snap = 0 \<or> schema_version snap > SNAPSHOT_SCHEMA_VERSION
          then Inl (Snapshot (lit ''unsupported schema_version '' @ show_nat (schema_version snap)))
          else Inr snap)"

definition restore_or_new :: "('h, 's, 'b, 'json) host \<Rightarrow> ('b, 'json) serde \<Rightarrow> rstr \<Rightarrow> core_config \<Rightarrow> 'h \<Rightarrow>
    core_error + core" where
  "restore_or_new H S sid cfg h =
     (if trim sid = [] then Inl (Invalid (lit ''session_id must be non-empty''))
      else case load_snapshot H sid h of
          Inl e \<Rightarrow> Inl (HostErr e)
        | Inr None \<Rightarrow>
            Inr \<lparr>session_id = sid, core_config = cfg, items = [], completed_turns = 0\<rparr>
        | Inr (Some bytes) \<Rightarrow>
            (case decode_snapshot S bytes of
               Inl e \<Rightarrow> Inl e
             | Inr snap \<Rightarrow>
                 if snap_session_id snap \<noteq> sid then
                   Inl (Snapshot (lit ''session_id mismatch: snap='' @ snap_session_id snap @
                     lit '' request='' @ sid))
                 else
                   (let m = (if snap_model snap = [] then model cfg else snap_model snap)
                    in Inr \<lparr>session_id = sid, core_config = cfg\<lparr>model := m\<rparr>, items = snap_items snap,
                            completed_turns = snap_completed_turns snap\<rparr>)))"

definition core_trim :: "core \<Rightarrow> core" where
  "core_trim core = core\<lparr>items := trim_messages (max_messages (core_config core)) (items core)\<rparr>"

definition seed_transcript :: "transcript_item list \<Rightarrow> nat \<Rightarrow> core \<Rightarrow> core" where
  "seed_transcript is n core = core_trim (core\<lparr>items := is, completed_turns := n\<rparr>)"

definition snapshot_of :: "core \<Rightarrow> 'json session_snapshot" where
  "snapshot_of core =
     \<lparr>schema_version = SNAPSHOT_SCHEMA_VERSION, snap_session_id = session_id core,
      snap_items = items core, snap_completed_turns = completed_turns core,
      snap_model = model (core_config core), extensions = Map.empty\<rparr>"

definition export_snapshot :: "('b, 'json) serde \<Rightarrow> core \<Rightarrow> core_error + 'b" where
  "export_snapshot S core =
     (case to_vec S (snapshot_of core) of Inl e \<Rightarrow> Inl (Snapshot e) | Inr b \<Rightarrow> Inr b)"

section \<open>Messages and tool arguments\<close>

definition transcript_to_chat_message :: "transcript_item \<Rightarrow> chat_message" where
  "transcript_to_chat_message i =
     \<lparr>chat_role = role i, chat_content = item_content i,
      chat_tool_calls = map (\<lambda>t. \<lparr>ctc_id = tc_id t, ctc_name = tc_name t, ctc_arguments = tc_arguments t\<rparr>)
        (tool_calls i),
      chat_tool_call_id = tool_call_id i\<rparr>"

definition parse_tool_args :: "('b, 'json) serde \<Rightarrow> rstr \<Rightarrow> 'json" where
  "parse_tool_args S arguments =
     (let t = trim arguments
      in if t = [] then empty_object S
         else case from_str S t of Some v \<Rightarrow> v | None \<Rightarrow> raw_object S arguments)"

section \<open>One model step\<close>

text \<open>
  The inner loop over the chunks of a stream: the assistant text, the tool calls and the stop reason it
  collected, with the events, or the error that ended it.
\<close>

partial_function (option) collect_stream ::
    "('s \<Rightarrow> 's \<times> (host_error + model_chunk option)) \<Rightarrow> rstr \<Rightarrow> 's \<Rightarrow> rstr \<Rightarrow> transcript_tool_call list \<Rightarrow>
     core_event list \<Rightarrow>
     (host_error + (rstr \<times> transcript_tool_call list \<times> rstr option \<times> core_event list)) option" where
  "collect_stream nxt tid s assistant calls events =
     (case nxt s of (s', r) \<Rightarrow>
       (case r of
          Inl e \<Rightarrow> Some (Inl e)
        | Inr None \<Rightarrow> Some (Inr (assistant, calls, None, events))
        | Inr (Some c) \<Rightarrow>
            (case c of
               TextDelta delta \<Rightarrow>
                 if delta \<noteq> [] then
                   collect_stream nxt tid s' (assistant @ delta) calls (events @ [AssistantDelta tid delta])
                 else collect_stream nxt tid s' assistant calls events
             | ToolCallChunk cid name arguments \<Rightarrow>
                 collect_stream nxt tid s' assistant
                   (calls @ [\<lparr>tc_id = cid, tc_name = name, tc_arguments = arguments\<rparr>])
                   (events @ [ToolCallEvent tid cid name arguments])
             | Done sr \<Rightarrow> Some (Inr (assistant, calls, sr, events)))))"

declare collect_stream.simps [code]

record loop_state =
  ls_events :: "core_event list"
  ls_tools_called :: "turn_tool_call list"
  ls_final_assistant :: rstr
  ls_stop_reason :: "rstr option"

text \<open>Pushing the results of a batch: one tool row per pending call, whatever the invoker returned.\<close>

definition missing_result :: "transcript_tool_call \<Rightarrow> host_tool_result" where
  "missing_result call =
     \<lparr>htr_call_id = tc_id call, htr_ok = False,
      htr_content = lit ''tool invoker returned no result for this call''\<rparr>"

definition result_for :: "host_tool_result list \<Rightarrow> nat \<Rightarrow> transcript_tool_call \<Rightarrow> host_tool_result" where
  "result_for results idx call =
     (let result = (if idx < length results then results ! idx else missing_result call)
      in if htr_call_id result = [] then result\<lparr>htr_call_id := tc_id call\<rparr> else result)"

definition tool_row :: "transcript_tool_call \<Rightarrow> host_tool_result \<Rightarrow> transcript_item" where
  "tool_row call result =
     \<lparr>role = lit ''tool'', item_content = htr_content result, tool_calls = [],
      tool_call_id = Some (tc_id call)\<rparr>"

fun push_results :: "rstr \<Rightarrow> host_tool_result list \<Rightarrow> nat \<Rightarrow> transcript_tool_call list \<Rightarrow>
    core \<Rightarrow> loop_state \<Rightarrow> core \<times> loop_state" where
  "push_results tid results idx [] core st = (core, st)"
| "push_results tid results idx (call # calls) core st =
     (let result = result_for results idx call;
          st = st\<lparr>ls_events := ls_events st @
                    [ToolResultEvent tid (htr_call_id result) (htr_ok result) (htr_content result)],
                  ls_tools_called := ls_tools_called st @
                    [\<lparr>ttc_id = tc_id call, ttc_name = tc_name call, ttc_arguments = tc_arguments call,
                      ttc_ok = htr_ok result, ttc_content = htr_content result\<rparr>]\<rparr>;
          core = core\<lparr>items := items core @ [tool_row call result]\<rparr>
      in push_results tid results (idx + 1) calls core st)"

text \<open>The checkpoint of a turn and its restoration on every error path.\<close>

definition restore_checkpoint :: "core \<Rightarrow> core \<Rightarrow> core" where
  "restore_checkpoint checkpoint core =
     core\<lparr>items := items checkpoint, completed_turns := completed_turns checkpoint\<rparr>"

definition or_end_turn :: "rstr option \<Rightarrow> rstr option" where
  "or_end_turn sr = (case sr of Some s \<Rightarrow> Some s | None \<Rightarrow> Some (lit ''end_turn''))"

definition assistant_row :: "rstr \<Rightarrow> transcript_tool_call list \<Rightarrow> transcript_item" where
  "assistant_row c calls =
     \<lparr>role = lit ''assistant'', item_content = c, tool_calls = calls, tool_call_id = None\<rparr>"

definition push_item :: "transcript_item \<Rightarrow> core \<Rightarrow> core" where
  "push_item i core = core\<lparr>items := items core @ [i]\<rparr>"

text \<open>What is left after one iteration of the loop: leave it, go round again, or fail.\<close>

datatype step_result = BreakLoop loop_state | NextStep loop_state | FailStep core_error

text \<open>The part of an iteration after the tool batch.\<close>

definition apply_batch :: "rstr \<Rightarrow> core \<Rightarrow> nat \<Rightarrow> nat \<Rightarrow> transcript_tool_call list \<Rightarrow> rstr option \<Rightarrow>
    tool_batch_result \<Rightarrow> core \<Rightarrow> loop_state \<Rightarrow> core \<times> step_result" where
  "apply_batch tid checkpoint max_steps step calls step_stop batch core st =
     (case batch of
        Abort reason \<Rightarrow> (restore_checkpoint checkpoint core, FailStep (Aborted reason))
      | Finish results \<Rightarrow>
          (let (core, st) = push_results tid results 0 calls core st
           in (core_trim core, BreakLoop (st\<lparr>ls_stop_reason := or_end_turn step_stop\<rparr>)))
      | Continue results \<Rightarrow>
          (let (core, st) = push_results tid results 0 calls core st; core = core_trim core
           in if step + 1 \<ge> max_steps
              then (restore_checkpoint checkpoint core, FailStep (ToolLoopLimit max_steps))
              else (core, NextStep st)))"

definition stream_request :: "core \<Rightarrow> rstr \<Rightarrow> 'json tool_definition list \<Rightarrow> 'json option \<Rightarrow>
    'json model_stream_request" where
  "stream_request core tid tools schema =
     \<lparr>req_session_id = session_id core, req_turn_id = tid, req_model = model (core_config core),
      req_messages = map transcript_to_chat_message (items core), req_tools = tools, req_json_schema = schema\<rparr>"

text \<open>The part of an iteration after the stream has ended.\<close>

definition after_stream :: "('b, 'json) serde \<Rightarrow>
    (rstr \<Rightarrow> 'json host_tool_call list \<Rightarrow> 'h \<Rightarrow> 'h \<times> tool_batch_result) \<Rightarrow> rstr \<Rightarrow> core \<Rightarrow> nat \<Rightarrow> nat \<Rightarrow>
    rstr \<Rightarrow> transcript_tool_call list \<Rightarrow> rstr option \<Rightarrow> 'h \<Rightarrow> core \<Rightarrow> loop_state \<Rightarrow> 'h \<times> core \<times> step_result" where
  "after_stream S invoke_batch tid checkpoint max_steps step assistant calls step_stop h core st =
     (if calls = [] then
        (h, core_trim (push_item (assistant_row assistant []) core),
          BreakLoop (st\<lparr>ls_final_assistant := assistant, ls_stop_reason := or_end_turn step_stop\<rparr>))
      else
        (let core = core_trim (push_item (assistant_row assistant calls) core);
             st = (if assistant \<noteq> [] then st\<lparr>ls_final_assistant := assistant\<rparr> else st);
             host_calls = map (\<lambda>c. \<lparr>htc_id = tc_id c, htc_name = tc_name c,
                htc_arguments = parse_tool_args S (tc_arguments c)\<rparr>) calls;
             (h, batch) = invoke_batch assistant host_calls h
         in (h, apply_batch tid checkpoint max_steps step calls step_stop batch core st)))"

definition model_step :: "('h, 's, 'b, 'json) host \<Rightarrow> ('b, 'json) serde \<Rightarrow>
    (rstr \<Rightarrow> 'json host_tool_call list \<Rightarrow> 'h \<Rightarrow> 'h \<times> tool_batch_result) \<Rightarrow> rstr \<Rightarrow>
    'json tool_definition list \<Rightarrow> 'json option \<Rightarrow> core \<Rightarrow> nat \<Rightarrow> nat \<Rightarrow> 'h \<Rightarrow> core \<Rightarrow> loop_state \<Rightarrow>
    ('h \<times> core \<times> step_result) option" where
  "model_step H S invoke_batch tid tools schema checkpoint max_steps step h core st =
     (case open_model_stream H (stream_request core tid tools schema) h of
        None \<Rightarrow> None
      | Some (h, Inl e) \<Rightarrow> Some (h, restore_checkpoint checkpoint core, FailStep (HostErr e))
      | Some (h, Inr s) \<Rightarrow>
          (case collect_stream (next_chunk H) tid s [] [] (ls_events st) of
             None \<Rightarrow> None
           | Some (Inl e) \<Rightarrow> Some (h, restore_checkpoint checkpoint core, FailStep (HostErr e))
           | Some (Inr (assistant, calls, step_stop, events)) \<Rightarrow>
               Some (after_stream S invoke_batch tid checkpoint max_steps step assistant calls step_stop h core
                 (st\<lparr>ls_events := events\<rparr>))))"

section \<open>The turn\<close>

fun tool_loop :: "('h, 's, 'b, 'json) host \<Rightarrow> ('b, 'json) serde \<Rightarrow>
    (rstr \<Rightarrow> 'json host_tool_call list \<Rightarrow> 'h \<Rightarrow> 'h \<times> tool_batch_result) \<Rightarrow> rstr \<Rightarrow>
    'json tool_definition list \<Rightarrow> 'json option \<Rightarrow> core \<Rightarrow> nat \<Rightarrow> nat \<Rightarrow> nat \<Rightarrow> 'h \<Rightarrow> core \<Rightarrow> loop_state \<Rightarrow>
    ('h \<times> core \<times> (core_error + loop_state)) option" where
  "tool_loop H S invoke_batch tid tools schema checkpoint max_steps left step h core st =
     (if left = 0 then Some (h, core, Inr st)
      else case model_step H S invoke_batch tid tools schema checkpoint max_steps step h core st of
        None \<Rightarrow> None
      | Some (h, core, FailStep e) \<Rightarrow> Some (h, core, Inl e)
      | Some (h, core, BreakLoop st) \<Rightarrow> Some (h, core, Inr st)
      | Some (h, core, NextStep st) \<Rightarrow>
          tool_loop H S invoke_batch tid tools schema checkpoint max_steps (left - 1) (step + 1) h core st)"

declare tool_loop.simps [simp del]

text \<open>One turn of the loop: it is over, or the step decides.\<close>

lemma tool_loop_0 [simp]: "tool_loop H S ib tid tools schema cp n 0 step h core st = Some (h, core, Inr st)"
  by (simp add: tool_loop.simps)

lemma tool_loop_Suc [simp]:
  "tool_loop H S ib tid tools schema cp n (Suc left) step h core st =
     (case model_step H S ib tid tools schema cp n step h core st of
        None \<Rightarrow> None
      | Some (h, core, FailStep e) \<Rightarrow> Some (h, core, Inl e)
      | Some (h, core, BreakLoop st) \<Rightarrow> Some (h, core, Inr st)
      | Some (h, core, NextStep st) \<Rightarrow>
          tool_loop H S ib tid tools schema cp n left (step + 1) h core st)"
  by (subst tool_loop.simps) (simp split: option.split step_result.split prod.split)

definition commit_turn :: "('h, 's, 'b, 'json) host \<Rightarrow> ('b, 'json) serde \<Rightarrow> rstr \<Rightarrow> rstr \<Rightarrow> core \<Rightarrow>
    'h \<Rightarrow> core \<Rightarrow> loop_state \<Rightarrow> 'h \<times> core \<times> (core_error + turn_outcome)" where
  "commit_turn H S tid text checkpoint h core st =
     (let core = core\<lparr>completed_turns := saturating_add_u64 (completed_turns core) 1\<rparr>;
          terminal = \<lparr>term_turn_id = tid, request_text = text, assistant_text = ls_final_assistant st,
                      stop_reason = ls_stop_reason st\<rparr>
      in case export_snapshot S core of
           Inl e \<Rightarrow> (h, restore_checkpoint checkpoint core, Inl e)
         | Inr snapshot \<Rightarrow>
             (case commit_snapshot H (session_id core) snapshot (Some terminal) h of
                (h, Inl e) \<Rightarrow> (h, restore_checkpoint checkpoint core, Inl (HostErr e))
              | (h, Inr _) \<Rightarrow>
                  (h, core, Inr \<lparr>out_turn_id = tid, out_assistant_text = ls_final_assistant st,
                     replayed = False, tools_called = ls_tools_called st,
                     out_events = ls_events st @ [TurnCommitted tid (ls_stop_reason st) False]\<rparr>)))"

definition append_user_row :: "rstr option \<Rightarrow> core \<Rightarrow> core" where
  "append_user_row append_user core =
     (case append_user of
        Some user_text \<Rightarrow> core_trim (push_item (item_text (lit ''user'') user_text) core)
      | None \<Rightarrow> core)"

definition run_model_tool_loop :: "('h, 's, 'b, 'json) host \<Rightarrow> ('b, 'json) serde \<Rightarrow> rstr \<Rightarrow> rstr \<Rightarrow>
    'json tool_definition list option \<Rightarrow> 'json option \<Rightarrow> rstr option \<Rightarrow>
    (rstr \<Rightarrow> 'json host_tool_call list \<Rightarrow> 'h \<Rightarrow> 'h \<times> tool_batch_result) \<Rightarrow> 'h \<Rightarrow> core \<Rightarrow>
    ('h \<times> core \<times> (core_error + turn_outcome)) option" where
  "run_model_tool_loop H S tid text tools schema append_user invoke_batch h core =
     (let events = [Status (if append_user \<noteq> None then lit ''turn started'' else lit ''turn continued''),
                    TurnStarted tid];
          checkpoint = core;
          core = append_user_row append_user core
      in case (case tools of Some t \<Rightarrow> Inr t | None \<Rightarrow> list_tools H h) of
           Inl e \<Rightarrow> Some (h, restore_checkpoint checkpoint core, Inl (HostErr e))
         | Inr tools \<Rightarrow>
             (let max_steps = max (max_tool_steps (core_config core)) 1
              in case tool_loop H S invoke_batch tid tools schema checkpoint max_steps max_steps 0 h core
                     \<lparr>ls_events = events, ls_tools_called = [], ls_final_assistant = [],
                      ls_stop_reason = None\<rparr> of
                   None \<Rightarrow> None
                 | Some (h, core, Inl e) \<Rightarrow> Some (h, core, Inl e)
                 | Some (h, core, Inr st) \<Rightarrow> Some (commit_turn H S tid text checkpoint h core st)))"

definition check_terminal_replay :: "('h, 's, 'b, 'json) host \<Rightarrow> core \<Rightarrow> rstr \<Rightarrow> rstr \<Rightarrow> 'h \<Rightarrow>
    core_error + turn_outcome option" where
  "check_terminal_replay H core tid text h =
     (case load_terminal_turn H (session_id core) tid h of
        Inl e \<Rightarrow> Inl (HostErr e)
      | Inr None \<Rightarrow> Inr None
      | Inr (Some t) \<Rightarrow>
          if trim (request_text t) \<noteq> trim text then
            Inl (TurnIdConflict (lit ''turn_id `'' @ tid @
              lit ''` already committed with different request_text''))
          else Inr (Some \<lparr>out_turn_id = tid, out_assistant_text = assistant_text t, replayed = True,
                 tools_called = [],
                 out_events = [TurnStarted tid, AssistantDelta tid (assistant_text t),
                   TurnCommitted tid (stop_reason t) True]\<rparr>))"

definition submit_turn_with_tools :: "('h, 's, 'b, 'json) host \<Rightarrow> ('b, 'json) serde \<Rightarrow>
    'json turn_request \<Rightarrow>
    (rstr \<Rightarrow> 'json host_tool_call list \<Rightarrow> 'h \<Rightarrow> 'h \<times> tool_batch_result) \<Rightarrow> 'h \<Rightarrow> core \<Rightarrow>
    ('h \<times> core \<times> (core_error + turn_outcome)) option" where
  "submit_turn_with_tools H S req invoke_batch h core =
     (let tid = trim (tr_turn_id req); text = trim (tr_text req)
      in if tid = [] then Some (h, core, Inl (Invalid (lit ''turn_id must be non-empty'')))
         else if text = [] then Some (h, core, Inl (Invalid (lit ''text must be non-empty'')))
         else case check_terminal_replay H core tid text h of
             Inl e \<Rightarrow> Some (h, core, Inl e)
           | Inr (Some out) \<Rightarrow> Some (h, core, Inr out)
           | Inr None \<Rightarrow>
               run_model_tool_loop H S tid text (tr_tools req) (tr_json_schema req) (Some text)
                 invoke_batch h core)"

definition continue_turn_with_tools :: "('h, 's, 'b, 'json) host \<Rightarrow> ('b, 'json) serde \<Rightarrow> rstr \<Rightarrow> rstr \<Rightarrow>
    'json tool_definition list option \<Rightarrow> 'json option \<Rightarrow>
    (rstr \<Rightarrow> 'json host_tool_call list \<Rightarrow> 'h \<Rightarrow> 'h \<times> tool_batch_result) \<Rightarrow> 'h \<Rightarrow> core \<Rightarrow>
    ('h \<times> core \<times> (core_error + turn_outcome)) option" where
  "continue_turn_with_tools H S turn_id text tools schema invoke_batch h core =
     (let tid = trim turn_id
      in if tid = [] then Some (h, core, Inl (Invalid (lit ''turn_id must be non-empty'')))
         else case check_terminal_replay H core tid (trim text) h of
             Inl e \<Rightarrow> Some (h, core, Inl e)
           | Inr (Some out) \<Rightarrow> Some (h, core, Inr out)
           | Inr None \<Rightarrow> run_model_tool_loop H S tid text tools schema None invoke_batch h core)"

text \<open>
  \<open>submit_turn\<close>: the batch invoker that calls the host's tools one after the other.  The text of a host
  error comes from its \<open>Display\<close> implementation.
\<close>

fun show_host_error :: "host_error \<Rightarrow> rstr" where
  "show_host_error (Unsupported s) = lit ''unsupported: '' @ s"
| "show_host_error (Io s) = lit ''io: '' @ s"
| "show_host_error (Transport s) = lit ''transport: '' @ s"
| "show_host_error (Auth c m k) = lit ''auth: '' @ m"
| "show_host_error (HostMessage s) = s"

fun invoke_each :: "('h, 's, 'b, 'json) host \<Rightarrow> 'json host_tool_call list \<Rightarrow> 'h \<Rightarrow> 'h \<times> host_tool_result list" where
  "invoke_each H [] h = (h, [])"
| "invoke_each H (call # calls) h =
     (let (h, r) = invoke_tool H call h;
          result = (case r of
              Inr r \<Rightarrow> r
            | Inl e \<Rightarrow> \<lparr>htr_call_id = htc_id call, htr_ok = False,
                       htr_content = lit ''tool error: '' @ show_host_error e\<rparr>);
          (h, out) = invoke_each H calls h
      in (h, result # out))"

definition host_batch :: "('h, 's, 'b, 'json) host \<Rightarrow> rstr \<Rightarrow> 'json host_tool_call list \<Rightarrow> 'h \<Rightarrow>
    'h \<times> tool_batch_result" where
  "host_batch H assistant calls h = (let (h, out) = invoke_each H calls h in (h, Continue out))"

definition submit_turn :: "('h, 's, 'b, 'json) host \<Rightarrow> ('b, 'json) serde \<Rightarrow> 'json turn_request \<Rightarrow> 'h \<Rightarrow> core \<Rightarrow>
    ('h \<times> core \<times> (core_error + turn_outcome)) option" where
  "submit_turn H S req h core = submit_turn_with_tools H S req (host_batch H) h core"

section \<open>Streams that end\<close>

inductive stream_ends :: "('s \<Rightarrow> 's \<times> (host_error + model_chunk option)) \<Rightarrow> 's \<Rightarrow> bool" for nxt where
  fails: "nxt s = (s', Inl e) \<Longrightarrow> stream_ends nxt s"
| closes: "nxt s = (s', Inr None) \<Longrightarrow> stream_ends nxt s"
| finishes: "nxt s = (s', Inr (Some (Done sr))) \<Longrightarrow> stream_ends nxt s"
| text_delta: "nxt s = (s', Inr (Some (TextDelta d))) \<Longrightarrow> stream_ends nxt s' \<Longrightarrow> stream_ends nxt s"
| tool_call: "nxt s = (s', Inr (Some (ToolCallChunk i n a))) \<Longrightarrow> stream_ends nxt s' \<Longrightarrow> stream_ends nxt s"

lemma collect_stream_returns:
  "stream_ends nxt s \<Longrightarrow> \<exists>r. collect_stream nxt tid s a calls events = Some r"
  by (induction arbitrary: a calls events rule: stream_ends.induct)
    (subst collect_stream.simps; simp)+

lemma echo_stream_ends: "stream_ends echo_next_chunk cs"
proof (induction cs)
  case Nil
  then show ?case by (rule stream_ends.closes [of _ _ "[]"]) (simp add: echo_next_chunk_def)
next
  case (Cons c cs)
  then show ?case
    by (cases c) (auto simp: echo_next_chunk_def intro: stream_ends.intros(3-5))
qed

section \<open>What a step leaves alone\<close>

text \<open>The identity and the configuration of a session never change in a turn.\<close>

definition same_session :: "core \<Rightarrow> core \<Rightarrow> bool" where
  "same_session a b \<longleftrightarrow> session_id a = session_id b \<and> core_config a = core_config b"

lemma same_session_simps [simp]:
  "same_session a a" "same_session (core_trim a) b \<longleftrightarrow> same_session a b"
  "same_session (push_item i a) b \<longleftrightarrow> same_session a b"
  "same_session (a\<lparr>items := xs\<rparr>) b \<longleftrightarrow> same_session a b"
  "same_session (a\<lparr>completed_turns := n\<rparr>) b \<longleftrightarrow> same_session a b"
  "same_session (restore_checkpoint c a) b \<longleftrightarrow> same_session a b"
  by (auto simp: same_session_def core_trim_def push_item_def restore_checkpoint_def)

lemma completed_turns_simps [simp]:
  "completed_turns (core_trim a) = completed_turns a" "completed_turns (push_item i a) = completed_turns a"
  "completed_turns (restore_checkpoint c a) = completed_turns c"
  "items (restore_checkpoint c a) = items c" "items (push_item i a) = items a @ [i]"
  "core_config (push_item i a) = core_config a" "core_config (core_trim a) = core_config a"
  "session_id (push_item i a) = session_id a" "session_id (core_trim a) = session_id a"
  "items (core_trim a) = trim_messages (max_messages (core_config a)) (items a)"
  by (auto simp: core_trim_def push_item_def restore_checkpoint_def)

lemma restored_is_checkpoint: "same_session a c \<Longrightarrow> restore_checkpoint c a = c"
  by (cases a; cases c) (simp add: same_session_def restore_checkpoint_def)

fun tool_rows :: "host_tool_result list \<Rightarrow> nat \<Rightarrow> transcript_tool_call list \<Rightarrow> transcript_item list" where
  "tool_rows results idx [] = []"
| "tool_rows results idx (call # calls) =
     tool_row call (result_for results idx call) # tool_rows results (idx + 1) calls"

lemma push_results_core:
  "fst (push_results tid results idx calls core st) =
     core\<lparr>items := items core @ tool_rows results idx calls\<rparr>"
  by (induction tid results idx calls core st rule: push_results.induct) (simp_all add: Let_def)

text \<open>A failing step has restored the checkpoint; any other leaves the count of turns alone.\<close>

definition step_frame :: "core \<Rightarrow> core \<Rightarrow> core \<Rightarrow> step_result \<Rightarrow> bool" where
  "step_frame cp core core' res \<longleftrightarrow> same_session core' core \<and>
     (case res of FailStep e \<Rightarrow> core' = restore_checkpoint cp core'
      | _ \<Rightarrow> completed_turns core' = completed_turns core)"

lemma apply_batch_frame:
  "apply_batch tid cp n step calls sr batch core st = (core', res) \<Longrightarrow> step_frame cp core core' res"
  using push_results_core [of tid _ 0 calls core st]
  by (auto simp: apply_batch_def Let_def restore_checkpoint_def case_prod_beta step_frame_def
      split: tool_batch_result.splits if_splits)

text \<open>The one case analysis of an iteration.\<close>

lemma model_step_cases:
  assumes "model_step H S ib tid tools schema cp n step h core st = Some (h', core', res)"
  obtains (failed) e where "res = FailStep e" and "core' = restore_checkpoint cp core"
    | (answered) assistant events sr where
        "core' = core_trim (push_item (assistant_row assistant []) core)"
        "res = BreakLoop (st\<lparr>ls_events := events, ls_final_assistant := assistant,
           ls_stop_reason := or_end_turn sr\<rparr>)"
    | (called) assistant calls sr batch st1 where "calls \<noteq> []"
        "apply_batch tid cp n step calls sr batch
           (core_trim (push_item (assistant_row assistant calls) core)) st1 = (core', res)"
  using assms unfolding model_step_def after_stream_def
  by (auto simp: Let_def case_prod_beta split: option.splits sum.splits if_splits)

lemma model_step_frame:
  assumes "model_step H S ib tid tools schema cp n step h core st = Some (h', core', res)"
  shows "step_frame cp core core' res"
  using assms
proof (cases rule: model_step_cases)
  case (called assistant calls sr batch st1)
  then show ?thesis using apply_batch_frame [OF called(2)] by (auto simp: step_frame_def same_session_def
      split: step_result.splits)
qed (auto simp: step_frame_def restore_checkpoint_def same_session_def core_trim_def push_item_def)

lemma tool_loop_frame:
  assumes "tool_loop H S ib tid tools schema cp n left step h core st = Some (h', core', res)"
  shows "same_session core' core \<and>
    (case res of Inl e \<Rightarrow> core' = restore_checkpoint cp core' | Inr _ \<Rightarrow> completed_turns core' = completed_turns core)"
  using assms
proof (induction left arbitrary: step h core st)
  case (Suc left)
  then obtain h1 core1 res1 where step: "model_step H S ib tid tools schema cp n step h core st = Some (h1, core1, res1)"
    by (auto split: option.splits)
  note frame = model_step_frame [OF step]
  show ?case
  proof (cases res1)
    case (NextStep st1)
    with Suc step frame show ?thesis
      by (fastforce simp: step_frame_def same_session_def split: sum.splits)
  qed (use Suc step frame in \<open>auto simp: step_frame_def\<close>)
qed auto

lemma append_user_row_frame [simp]:
  "same_session (append_user_row app core) core" "completed_turns (append_user_row app core) = completed_turns core"
  by (simp_all add: append_user_row_def split: option.split)

lemma run_cases:
  assumes "run_model_tool_loop H S tid rt tools schema app ib h core = Some (h', core', res)"
  obtains (no_tools) e where "res = Inl e" and "core' = restore_checkpoint core (append_user_row app core)"
    | (failed) ts n left st e where "res = Inl e"
        and "tool_loop H S ib tid ts schema core n left 0 h (append_user_row app core) st = Some (h', core', Inl e)"
    | (finished) ts n left st st1 h1 core1 where
        "tool_loop H S ib tid ts schema core n left 0 h (append_user_row app core) st = Some (h1, core1, Inr st1)"
        and "commit_turn H S tid rt core h1 core1 st1 = (h', core', res)"
proof (cases "case tools of Some t \<Rightarrow> Inr t | None \<Rightarrow> list_tools H h")
  case (Inl e)
  with assms no_tools show thesis by (auto simp: run_model_tool_loop_def Let_def)
next
  case (Inr ts)
  let ?n = "max (max_tool_steps (core_config (append_user_row app core))) 1"
  let ?st = "\<lparr>ls_events = [Status (if app \<noteq> None then lit ''turn started'' else lit ''turn continued''), TurnStarted tid],
    ls_tools_called = [], ls_final_assistant = [], ls_stop_reason = None\<rparr>"
  obtain h1 core1 res1 where loop: "tool_loop H S ib tid ts schema core ?n ?n 0 h (append_user_row app core) ?st = Some (h1, core1, res1)"
    and rest: "(case res1 of Inl e \<Rightarrow> (h1, core1, Inl e) | Inr st1 \<Rightarrow> commit_turn H S tid rt core h1 core1 st1) = (h', core', res)"
    using assms Inr by (auto simp: run_model_tool_loop_def Let_def split: option.splits sum.splits)
  then show thesis
  proof (cases res1)
    case (Inl e)
    with loop rest show thesis by (intro failed) auto
  next
    case (Inr st1)
    with loop rest show thesis by (intro finished) auto
  qed
qed

lemma commit_failed: "commit_turn H S tid rt cp h core st = (h', core', Inl e) \<Longrightarrow>
    core' = restore_checkpoint cp (core\<lparr>completed_turns := completed_turns core'\<rparr>)"
  by (auto simp: commit_turn_def Let_def restore_checkpoint_def split: sum.splits prod.splits)

lemma run_rolls_back:
  assumes "run_model_tool_loop H S tid rt tools schema app ib h core = Some (h', core', Inl e)"
  shows "core' = core"
  using assms
proof (cases rule: run_cases)
  case no_tools
  then show ?thesis using restored_is_checkpoint by simp
next
  case (failed ts n left st e)
  then have "core' = restore_checkpoint core core'" "same_session core' core"
    using tool_loop_frame [OF failed(2)] append_user_row_frame(1) by (auto simp: same_session_def)
  then show ?thesis using restored_is_checkpoint by metis
next
  case (finished ts n left st st1 h1 core1)
  then have "same_session core1 core"
    using tool_loop_frame [OF finished(1)] append_user_row_frame(1) by (auto simp: same_session_def)
  then show ?thesis using commit_failed [OF finished(2)] restored_is_checkpoint [of _ core] by simp
qed

section \<open>Paired transcripts\<close>

text \<open>
  Every assistant row with tool calls is followed by exactly one tool row per call, in the order of
  the calls and with their ids, and there is no other tool row.
\<close>

fun paired_chunk :: "transcript_item list \<Rightarrow> bool" where
  "paired_chunk [] = False"
| "paired_chunk (x # rows) =
     (if opens_exchange x
      then list_all is_tool rows \<and> map tool_call_id rows = map (Some \<circ> tc_id) (tool_calls x)
      else \<not> is_tool x \<and> rows = [])"

definition paired :: "transcript_item list \<Rightarrow> bool" where
  "paired rows \<longleftrightarrow> list_all paired_chunk (chunks rows)"

lemma paired_chunk_head: "paired_chunk c \<Longrightarrow> c \<noteq> [] \<and> is_chunk c \<and> \<not> is_tool (hd c)"
  by (cases c) (auto split: if_splits dest: role_disjoint)

lemma chunks_of_paired: "list_all paired_chunk gs \<Longrightarrow> chunks (concat gs) = gs"
proof (induction gs)
  case (Cons g gs)
  then have g: "g \<noteq> []" "is_chunk g" "\<not> is_tool (hd g)" by (auto dest: paired_chunk_head)
  have "chunks g = [g]"
  proof (cases g)
    case (Cons x rows)
    with g show ?thesis by (auto simp: list_all_iff takeWhile_eq_all_conv dest: role_disjoint split: if_splits)
  qed (use g in simp)
  moreover have "concat gs = [] \<or> \<not> is_tool (hd (concat gs))"
    using Cons.prems paired_chunk_head [of "hd gs"] by (cases gs) auto
  ultimately show ?case using Cons chunks_append [of "concat gs" g] by simp
qed simp

lemma paired_subseq:
  assumes "subseq gs cs" and "list_all paired_chunk cs"
  shows "list_all paired_chunk gs"
  using assms by (metis list_all_iff set_nths_subset subseq_conv_nths subsetD)

lemma paired_trim: "paired rows \<Longrightarrow> paired (trim_messages m rows)"
  using trim_loop_groups [of rows "max m 2"] paired_subseq chunks_of_paired
  unfolding paired_def trim_messages_def by metis

lemma paired_append_plain: "paired rows \<Longrightarrow> \<not> is_tool x \<Longrightarrow> \<not> opens_exchange x \<Longrightarrow> paired (rows @ [x])"
  using chunks_append [of "[x]" rows] by (simp add: paired_def)

text \<open>An assistant row with calls at the tail is protected from the trim that follows its push.\<close>

lemma deletion_keeps_open_tail:
  assumes "opens_exchange a" and del: "group_to_delete (rows @ [a]) = Some g"
  shows "\<exists>rows'. remove_range (start g) (stop g) (rows @ [a]) = rows' @ [a]"
proof -
  have cs: "chunks (rows @ [a]) = chunks rows @ [[a]]"
    using chunks_append [of "[a]" rows] assms(1) role_disjoint by fastforce
  have "\<exists>pre c post. chunks (rows @ [a]) = pre @ c # post \<and> post \<noteq> [] \<and>
      remove_range (start g) (stop g) (rows @ [a]) = concat (pre @ post)"
    using del
  proof (cases rule: deleted_cases)
    case (dropped pre c post)
    have "post \<noteq> []"
    proof
      assume "post = []"
      then have "c = [a]" "chunks (rows @ [a]) = pre @ [[a]]" using dropped(1) cs by auto
      then show False
        using protected_tail_not_droppable [of "rows @ [a]" pre "[a]"] dropped(3,4) assms(1)
        by (simp add: role_disjoint)
    qed
    with dropped show ?thesis by blast
  next
    case (system pre x post)
    then have "post \<noteq> []" using cs assms(1) by (auto dest: role_disjoint)
    with system show ?thesis by blast
  qed
  then obtain pre c post where post: "chunks (rows @ [a]) = pre @ c # post" "post \<noteq> []"
    and r: "remove_range (start g) (stop g) (rows @ [a]) = concat (pre @ post)" by blast
  then have "last post = [a]" using cs by (metis append_Cons append_is_Nil_conv last_append last_snoc last_ConsR list.distinct(1))
  then have "concat (pre @ post) = concat (pre @ butlast post) @ [a]"
    using post(2) by (metis append_assoc append_butlast_last_id concat.simps concat_append append_Nil2)
  then show ?thesis unfolding r by (intro exI)
qed

lemma trim_keeps_open_tail:
  assumes "opens_exchange a" and "paired rows"
  shows "\<exists>rows'. trim_messages m (rows @ [a]) = rows' @ [a] \<and> paired rows'"
proof -
  have cs: "chunks (rows @ [a]) = chunks rows @ [[a]]"
    using chunks_append [of "[a]" rows] assms(1) role_disjoint by fastforce
  have "\<exists>rows'. trim_loop (max m 2) (rows @ [a]) = rows' @ [a]"
    by (rule trim_loop_invariant [where P = "\<lambda>xs. \<exists>rows'. xs = rows' @ [a]"])
      (use deletion_keeps_open_tail [OF assms(1)] in auto)
  then obtain rows' where rows': "trim_messages m (rows @ [a]) = rows' @ [a]" unfolding trim_messages_def by blast
  obtain gs where gs: "subseq gs (chunks rows @ [[a]])" "trim_messages m (rows @ [a]) = concat gs"
    using trim_loop_groups [of "rows @ [a]" "max m 2"] cs unfolding trim_messages_def by auto
  then obtain g1 g2 where g: "gs = g1 @ g2" "subseq g1 (chunks rows)" "subseq g2 [[a]]"
    by (auto simp: subseq_append_iff)
  have p1: "list_all paired_chunk g1" using g(2) assms(2) paired_subseq unfolding paired_def by blast
  have "g2 \<noteq> []"
  proof
    assume "g2 = []"
    then have c: "concat g1 = rows' @ [a]" using gs(2) g(1) rows' by simp
    then have "chunks (rows' @ [a]) = g1" using chunks_of_paired [OF p1] by simp
    moreover have "chunks (rows' @ [a]) = chunks rows' @ [[a]]"
      using chunks_append [of "[a]" rows'] assms(1) role_disjoint by fastforce
    ultimately have "paired_chunk [a]" using p1 by auto
    then show False using assms(1) by (simp add: opens_exchange_def)
  qed
  then have "g2 = [[a]]" using g(3) by (cases g2) (auto split: if_splits)
  then have "rows' = concat g1" using gs(2) g(1) rows' by simp
  with rows' p1 show ?thesis by (auto simp: paired_def chunks_of_paired)
qed

lemma tool_rows_pair:
  "list_all is_tool (tool_rows results idx calls) \<and>
   map tool_call_id (tool_rows results idx calls) = map (Some \<circ> tc_id) calls"
  by (induction results idx calls rule: tool_rows.induct) (simp_all add: tool_row_def is_tool_def)

lemma paired_exchange:
  assumes "paired rows" and "calls \<noteq> []"
  shows "paired (rows @ [assistant_row c calls] @ tool_rows results 0 calls)"
proof -
  let ?a = "assistant_row c calls" and ?ts = "tool_rows results 0 calls"
  have a: "opens_exchange ?a" "\<not> is_system ?a" "\<not> is_tool ?a"
    using assms(2) by (auto simp: assistant_row_def opens_exchange_def is_system_def is_tool_def)
  then have "chunks (?a # ?ts) = [?a # ?ts]"
    using tool_rows_pair [of results 0 calls] by (auto simp: list_all_iff takeWhile_eq_all_conv)
  then have "chunks (rows @ ?a # ?ts) = chunks rows @ [?a # ?ts]"
    using chunks_append [of "?a # ?ts" rows] a by simp
  then show ?thesis using assms a tool_rows_pair [of results 0 calls] by (simp add: paired_def assistant_row_def)
qed

lemma model_step_paired:
  assumes "model_step H S ib tid tools schema cp n step h core st = Some (h', core', res)"
    and "paired (items core)" and "paired (items cp)"
  shows "paired (items core')"
  using assms(1)
proof (cases rule: model_step_cases)
  case (answered assistant events sr)
  then show ?thesis using assms(2)
    by (auto intro!: paired_trim paired_append_plain
        simp: assistant_row_def opens_exchange_def is_tool_def)
next
  case (called assistant calls sr batch st1)
  have "opens_exchange (assistant_row assistant calls)"
    using called(1) by (simp add: assistant_row_def opens_exchange_def)
  then obtain rows' where "items (core_trim (push_item (assistant_row assistant calls) core)) = rows' @ [assistant_row assistant calls]"
    "paired rows'" using trim_keeps_open_tail [OF _ assms(2)] by auto
  then show ?thesis using called paired_exchange [OF _ called(1)] assms(3)
      push_results_core [of tid _ 0 calls _ st1]
    by (auto simp: apply_batch_def Let_def case_prod_beta intro!: paired_trim
        split: tool_batch_result.splits if_splits)
qed (use assms in simp)

lemma tool_loop_paired:
  assumes "tool_loop H S ib tid tools schema cp n left step h core st = Some (h', core', res)"
    and "paired (items core)" and "paired (items cp)"
  shows "paired (items core')"
  using assms
proof (induction left arbitrary: step h core st)
  case (Suc left)
  then obtain h1 core1 res1 where step: "model_step H S ib tid tools schema cp n step h core st = Some (h1, core1, res1)"
    by (auto split: option.splits)
  have "paired (items core1)" using model_step_paired [OF step] Suc by blast
  with Suc step show ?case by (cases res1) auto
qed auto

section \<open>What a committed turn has done\<close>

lemma commit_succeeded:
  assumes "commit_turn H S tid rt cp h core st = (h', core', Inr out)"
  shows "core' = core\<lparr>completed_turns := saturating_add_u64 (completed_turns core) 1\<rparr> \<and>
    (\<exists>b t. export_snapshot S core' = Inr b \<and> commit_snapshot H (session_id core) b (Some t) h = (h', Inr ()) \<and>
      term_turn_id t = tid \<and> request_text t = rt \<and> assistant_text t = out_assistant_text out \<and>
      out_turn_id out = tid \<and> \<not> replayed out \<and>
      last (out_events out) = TurnCommitted tid (stop_reason t) False)"
  using assms
  by (intro conjI exI [of _ "projr (export_snapshot S core')"]
      exI [of _ "\<lparr>term_turn_id = tid, request_text = rt, assistant_text = ls_final_assistant st,
        stop_reason = ls_stop_reason st\<rparr>"])
    (auto simp: commit_turn_def Let_def split: sum.splits prod.splits)

lemma run_committed:
  assumes "run_model_tool_loop H S tid rt tools schema app ib h core = Some (h', core', Inr out)"
  obtains h1 b t where "export_snapshot S core' = Inr b"
    and "commit_snapshot H (session_id core) b (Some t) h1 = (h', Inr ())"
    and "term_turn_id t = tid" and "request_text t = rt" and "assistant_text t = out_assistant_text out"
    and "session_id core' = session_id core" and "core_config core' = core_config core"
    and "completed_turns core' = saturating_add_u64 (completed_turns core) 1"
proof -
  from assms obtain ts n left st st1 h1 core1 where
    loop: "tool_loop H S ib tid ts schema core n left 0 h (append_user_row app core) st = Some (h1, core1, Inr st1)"
    and commit: "commit_turn H S tid rt core h1 core1 st1 = (h', core', Inr out)"
    by (cases rule: run_cases) auto
  have same: "same_session core1 core" "completed_turns core1 = completed_turns core"
    using tool_loop_frame [OF loop] append_user_row_frame [of app core] by (auto simp: same_session_def)
  obtain b t where "export_snapshot S core' = Inr b" "commit_snapshot H (session_id core1) b (Some t) h1 = (h', Inr ())"
    "term_turn_id t = tid" "request_text t = rt" "assistant_text t = out_assistant_text out"
    "core' = core1\<lparr>completed_turns := saturating_add_u64 (completed_turns core1) 1\<rparr>"
    using commit_succeeded [OF commit] by blast
  with same show thesis by (intro that [of b t h1]) (auto simp: same_session_def)
qed

lemma run_paired:
  assumes "run_model_tool_loop H S tid rt tools schema app ib h core = Some (h', core', res)"
    and "paired (items core)"
  shows "paired (items core')"
proof (cases res)
  case (Inl e)
  with assms(1) have "core' = core" by (auto intro: run_rolls_back)
  with assms(2) show ?thesis by simp
next
  case (Inr out)
  have "paired (items (append_user_row app core))" using assms(2)
    by (auto split: option.split intro!: paired_trim paired_append_plain
        simp: append_user_row_def item_text_def is_tool_def opens_exchange_def)
  moreover from assms(1) Inr obtain ts n left st st1 h1 core1 where
    loop: "tool_loop H S ib tid ts schema core n left 0 h (append_user_row app core) st = Some (h1, core1, Inr st1)"
    and commit: "commit_turn H S tid rt core h1 core1 st1 = (h', core', Inr out)"
    by (cases rule: run_cases) auto
  ultimately have "paired (items core1)" using tool_loop_paired [OF loop] assms(2) by simp
  with commit_succeeded [OF commit] show ?thesis by auto
qed

text \<open>A fresh (not replayed) answer of \<open>submit_turn_with_tools\<close> comes from a run.\<close>

lemma submit_fresh:
  assumes "submit_turn_with_tools H S req ib h core = Some (h', core', Inr out)" and "\<not> replayed out"
  shows "trim (tr_turn_id req) \<noteq> []" and "trim (tr_text req) \<noteq> []"
    and "run_model_tool_loop H S (trim (tr_turn_id req)) (trim (tr_text req)) (tr_tools req)
      (tr_json_schema req) (Some (trim (tr_text req))) ib h core = Some (h', core', Inr out)"
  using assms
  by (auto simp: submit_turn_with_tools_def check_terminal_replay_def Let_def
      split: if_splits sum.splits option.splits)

context durable_host
begin

lemma replay_after_commit:
  assumes "submit_turn_with_tools H S req ib h core = Some (h', core', Inr out)" and "\<not> replayed out"
  shows "\<exists>out'. submit_turn_with_tools H S req ib' h' core' = Some (h', core', Inr out') \<and> replayed out' \<and>
      out_assistant_text out' = out_assistant_text out \<and> tools_called out' = []"
    and "trim (tr_turn_id req') = trim (tr_turn_id req) \<Longrightarrow> trim (tr_text req') \<noteq> [] \<Longrightarrow>
      trim (tr_text req') \<noteq> trim (tr_text req) \<Longrightarrow>
      \<exists>msg. submit_turn_with_tools H S req' ib' h' core' = Some (h', core', Inl (TurnIdConflict msg))"
proof -
  note fresh = submit_fresh [OF assms]
  obtain h1 b t where "export_snapshot S core' = Inr b"
    and commit: "commit_snapshot H (session_id core) b (Some t) h1 = (h', Inr ())"
    and t: "term_turn_id t = trim (tr_turn_id req)" "request_text t = trim (tr_text req)"
      "assistant_text t = out_assistant_text out"
    and sid: "session_id core' = session_id core" and "core_config core' = core_config core"
    and "completed_turns core' = saturating_add_u64 (completed_turns core) 1"
    by (rule run_committed [OF fresh(3)])
  have load: "load_terminal_turn H (session_id core') (trim (tr_turn_id req)) h' = Inr (Some t)"
    using commit_loads_terminal [OF commit] by (simp add: sid t(1))
  then show "\<exists>out'. submit_turn_with_tools H S req ib' h' core' = Some (h', core', Inr out') \<and> replayed out' \<and>
      out_assistant_text out' = out_assistant_text out \<and> tools_called out' = []"
    using fresh(1,2) t by (simp add: submit_turn_with_tools_def check_terminal_replay_def Let_def)
  show "trim (tr_turn_id req') = trim (tr_turn_id req) \<Longrightarrow> trim (tr_text req') \<noteq> [] \<Longrightarrow>
      trim (tr_text req') \<noteq> trim (tr_text req) \<Longrightarrow>
      \<exists>msg. submit_turn_with_tools H S req' ib' h' core' = Some (h', core', Inl (TurnIdConflict msg))"
    using fresh(1,2) t load by (auto simp: submit_turn_with_tools_def check_terminal_replay_def Let_def)
qed

lemma restart_after_commit:
  assumes "submit_turn_with_tools H S req ib h core = Some (h', core', Inr out)" and "\<not> replayed out"
    and roundtrip: "\<And>snap b. to_vec S snap = Inr b \<Longrightarrow> from_slice S b = Inr snap"
    and "trim (session_id core) \<noteq> []"
  shows "restore_or_new H S (session_id core) (core_config core) h' = Inr core'"
proof -
  obtain h1 b t where b: "export_snapshot S core' = Inr b"
    and commit: "commit_snapshot H (session_id core) b (Some t) h1 = (h', Inr ())"
    and "term_turn_id t = trim (tr_turn_id req)" "request_text t = trim (tr_text req)"
      "assistant_text t = out_assistant_text out"
    and same: "session_id core' = session_id core" "core_config core' = core_config core"
    and "completed_turns core' = saturating_add_u64 (completed_turns core) 1"
    by (rule run_committed [OF submit_fresh(3) [OF assms(1,2)]])
  have "load_snapshot H (session_id core) h' = Inr (Some b)" by (rule commit_loads_snapshot [OF commit])
  moreover have "from_slice S b = Inr (snapshot_of core')"
    using b roundtrip by (auto simp: export_snapshot_def split: sum.splits)
  ultimately show ?thesis
    using assms(4) same
    by (simp add: restore_or_new_def decode_snapshot_def snapshot_of_def SNAPSHOT_SCHEMA_VERSION_def)
qed

end

section \<open>Turns that return\<close>

definition hosts_ending_streams :: "('h, 's, 'b, 'json) host \<Rightarrow> bool" where
  "hosts_ending_streams H \<longleftrightarrow> (\<forall>req h. \<exists>h' r. open_model_stream H req h = Some (h', r) \<and>
     (\<forall>s. r = Inr s \<longrightarrow> stream_ends (next_chunk H) s))"

lemma model_step_returns:
  assumes "hosts_ending_streams H"
  shows "model_step H S ib tid tools schema cp n step h core st \<noteq> None"
proof -
  obtain h1 r where opened: "open_model_stream H (stream_request core tid tools schema) h = Some (h1, r)"
    and ends: "\<forall>s. r = Inr s \<longrightarrow> stream_ends (next_chunk H) s"
    using assms unfolding hosts_ending_streams_def by blast
  show ?thesis
  proof (cases r)
    case (Inr s)
    with ends have "stream_ends (next_chunk H) s" by simp
    from collect_stream_returns [OF this] obtain c
      where "collect_stream (next_chunk H) tid s [] [] (ls_events st) = Some c" by metis
    with opened Inr show ?thesis unfolding model_step_def
      by (cases c) (auto simp: case_prod_beta)
  qed (simp add: model_step_def opened)
qed

lemma tool_loop_returns:
  assumes "hosts_ending_streams H"
  shows "\<exists>h' core' res. tool_loop H S ib tid tools schema cp n left step h core st = Some (h', core', res)"
  using assms
proof (induction left arbitrary: step h core st)
  case (Suc left)
  obtain h1 core1 res1 where "model_step H S ib tid tools schema cp n step h core st = Some (h1, core1, res1)"
    using model_step_returns [OF Suc.prems] by fastforce
  with Suc show ?case by (cases res1) auto
qed simp

lemma run_returns:
  assumes "hosts_ending_streams H"
  shows "run_model_tool_loop H S tid rt tools schema app ib h core \<noteq> None"
proof -
  let ?n = "max (max_tool_steps (core_config (append_user_row app core))) 1"
  let ?st = "\<lparr>ls_events = [Status (if app \<noteq> None then lit ''turn started'' else lit ''turn continued''), TurnStarted tid],
    ls_tools_called = [], ls_final_assistant = [], ls_stop_reason = None\<rparr>"
  show ?thesis
  proof (cases "case tools of Some t \<Rightarrow> Inr t | None \<Rightarrow> list_tools H h")
    case (Inr ts)
    obtain h1 core1 res where "tool_loop H S ib tid ts schema core ?n ?n 0 h (append_user_row app core) ?st = Some (h1, core1, res)"
      using tool_loop_returns [OF assms] by blast
    with Inr show ?thesis unfolding run_model_tool_loop_def Let_def by (cases res) simp_all
  qed (simp add: run_model_tool_loop_def Let_def)
qed

lemma submit_returns: "hosts_ending_streams H \<Longrightarrow> submit_turn_with_tools H S req ib h core \<noteq> None"
  using run_returns [of H] unfolding submit_turn_with_tools_def Let_def
  by (auto simp del: not_None_eq split: sum.split option.split)

section \<open>A turn on the in-memory host\<close>

lemma collect_echo [simp]:
  "collect_stream echo_next_chunk tid (TextDelta d # cs) a calls ev =
     (if d = [] then collect_stream echo_next_chunk tid cs a calls ev
      else collect_stream echo_next_chunk tid cs (a @ d) calls (ev @ [AssistantDelta tid d]))"
  "collect_stream echo_next_chunk tid (ToolCallChunk i n x # cs) a calls ev =
     collect_stream echo_next_chunk tid cs a (calls @ [\<lparr>tc_id = i, tc_name = n, tc_arguments = x\<rparr>])
       (ev @ [ToolCallEvent tid i n x])"
  "collect_stream echo_next_chunk tid (Done sr # cs) a calls ev = Some (Inr (a, calls, sr, ev))"
  by (subst collect_stream.simps; simp add: echo_next_chunk_def)+

type_synonym sample_json = rstr

definition sample_serde :: "(sample_json session_snapshot, sample_json) serde" where
  "sample_serde = \<lparr>to_vec = Inr, from_slice = Inr, from_str = Some, empty_object = [], raw_object = id\<rparr>"

definition sample_mock :: "sample_json mock_json" where
  "sample_mock = \<lparr>text_object_string = id, get_text = Some, echo_schema = []\<rparr>"

definition sample_core :: core where
  "sample_core = \<lparr>session_id = lit ''s'', core_config = core_config_default, items = [], completed_turns = 0\<rparr>"

definition sample_request :: "sample_json turn_request" where
  "sample_request = \<lparr>tr_turn_id = lit ''t1'', tr_text = lit ''hi'', tr_json_schema = None, tr_tools = None\<rparr>"

lemma short_trim: "length rows \<le> max m 2 \<Longrightarrow> trim_messages m rows = rows"
  by (subst trim_messages_def, subst trim_loop.simps) auto

lemma sample_texts:
  "trim (lit ''t1'') = lit ''t1''" "trim (lit ''hi'') = lit ''hi''" "trim (lit ''s'') \<noteq> []"
  "trim (lit ''other'') = lit ''other''"
  "split_at 4 (lit ''echo: '' @ lit ''hi'') = Some (lit ''echo'', lit '': hi'')"
  "byte_len (lit ''echo: '') + byte_len (lit ''hi'') = 8"
  by code_simp+

lemmas sample_defs = sample_serde_def sample_mock_def sample_core_def sample_request_def
  submit_turn_with_tools_def check_terminal_replay_def core_config_default_def
  DEFAULT_MAX_TOOL_STEPS_def mock_host_def mock_new_def mock_load_terminal_turn_def

lemma sample_turn:
  obtains h' core' out where
    "submit_turn_with_tools (mock_host sample_mock) sample_serde sample_request ib mock_new sample_core =
       Some (h', core', Inr out)" and "\<not> replayed out"
proof -
  have "\<exists>h' core' out. submit_turn_with_tools (mock_host sample_mock) sample_serde sample_request ib mock_new sample_core =
       Some (h', core', Inr out) \<and> \<not> replayed out"
    by (simp add: sample_defs sample_texts run_model_tool_loop_def append_user_row_def mock_list_tools_def
          Let_def core_trim_def push_item_def short_trim, subst tool_loop.simps)
      (simp add: model_step_def stream_request_def mock_open_model_stream_def last_content_def
        transcript_to_chat_message_def item_text_def Let_def sample_texts after_stream_def core_trim_def
        push_item_def short_trim commit_turn_def export_snapshot_def mock_commit_snapshot_def)
  then show thesis using that by blast
qed

section \<open>Properties\<close>

text \<open>
  C2. Transactional turns: whatever the host, the tool invoker and the point of failure (listing the
  tools, opening or reading the stream, an aborted batch, the step limit, encoding or committing the
  snapshot), a turn that ends in an error leaves the transcript, the number of completed turns and the
  configuration exactly as they were, although trimming may have deleted rows in between.
\<close>

theorem failed_turn_rolls_back:
  "(submit_turn_with_tools H S req ib h core = Some (h1, core1, Inl e1) \<longrightarrow> core1 = core) \<and>
   (continue_turn_with_tools H S turn_id text tools schema ib h core = Some (h2, core2, Inl e2) \<longrightarrow> core2 = core)"
  unfolding submit_turn_with_tools_def continue_turn_with_tools_def Let_def
  by (auto split: if_splits sum.splits option.splits dest: run_rolls_back)

text \<open>A host whose stream breaks after a first delta.\<close>

definition broken_host :: "(unit, nat, unit, sample_json) host" where
  "broken_host = \<lparr>open_model_stream = (\<lambda>req h. Some (h, Inr 0)),
     next_chunk = (\<lambda>n. if n = 0 then (1, Inr (Some (TextDelta (lit ''par''))))
                       else (n, Inl (Transport (lit ''reset'')))),
     commit_snapshot = (\<lambda>sid b t h. (h, Inr ())), load_snapshot = (\<lambda>sid h. Inr None),
     load_terminal_turn = (\<lambda>sid tid h. Inr None), list_tools = default_list_tools,
     invoke_tool = default_invoke_tool\<rparr>"

theorem failed_turn_rolls_back_witness:
  "\<exists>core1. submit_turn_with_tools broken_host
      \<lparr>to_vec = (\<lambda>_. Inr ()), from_slice = (\<lambda>_. Inl []), from_str = Some, empty_object = [], raw_object = id\<rparr>
      sample_request (\<lambda>_ _ h. (h, Abort [])) () sample_core =
     Some ((), core1, Inl (HostErr (Transport (lit ''reset'')))) \<and> core1 = sample_core"
proof -
  let ?S = "\<lparr>to_vec = (\<lambda>_. Inr ()), from_slice = (\<lambda>_. Inl []), from_str = Some, empty_object = [], raw_object = id\<rparr>"
  have c: "collect_stream (next_chunk broken_host) tid 0 [] [] ev = Some (Inl (Transport (lit ''reset'')))" for tid ev
    by (subst collect_stream.simps, simp add: broken_host_def) (subst collect_stream.simps, simp)
  have "\<exists>core1. submit_turn_with_tools broken_host ?S sample_request (\<lambda>_ _ h. (h, Abort [])) () sample_core =
     Some ((), core1, Inl (HostErr (Transport (lit ''reset''))))"
    by (simp add: submit_turn_with_tools_def sample_request_def sample_texts check_terminal_replay_def
          run_model_tool_loop_def Let_def broken_host_def default_list_tools_def, subst tool_loop.simps)
      (use c in \<open>simp add: model_step_def broken_host_def\<close>)
  then show ?thesis using failed_turn_rolls_back [of broken_host ?S sample_request] by blast
qed

text \<open>
  A committed turn survives a restart: on the in-memory host, after a successful turn the count has
  gone up by one (saturating), and restoring the session from the host gives back exactly the
  state the turn left, given that the JSON library decodes what it encoded.
\<close>

theorem committed_turn_survives_restart:
  assumes "submit_turn_with_tools (mock_host J) S req ib h core = Some (h', core', Inr out)" and "\<not> replayed out"
    and "\<And>snap b. to_vec S snap = Inr b \<Longrightarrow> from_slice S b = Inr snap" and "trim (session_id core) \<noteq> []"
  shows "completed_turns core' = saturating_add_u64 (completed_turns core) 1 \<and>
    restore_or_new (mock_host J) S (session_id core) (core_config core) h' = Inr core'"
  using mock.restart_after_commit [OF assms] run_committed [OF submit_fresh(3) [OF assms(1,2)]] by blast

theorem committed_turn_survives_restart_witness:
  "\<exists>h' core' out.
     submit_turn_with_tools (mock_host sample_mock) sample_serde sample_request (host_batch (mock_host sample_mock))
       mock_new sample_core = Some (h', core', Inr out) \<and>
     restore_or_new (mock_host sample_mock) sample_serde (session_id sample_core) (core_config sample_core) h' = Inr core'"
proof -
  obtain h' core' out where t: "submit_turn_with_tools (mock_host sample_mock) sample_serde sample_request
      (host_batch (mock_host sample_mock)) mock_new sample_core = Some (h', core', Inr out)" "\<not> replayed out"
    by (rule sample_turn)
  have "restore_or_new (mock_host sample_mock) sample_serde (session_id sample_core) (core_config sample_core) h' = Inr core'"
    using committed_turn_survives_restart [OF t] by (simp add: sample_serde_def sample_core_def sample_texts)
  with t show ?thesis by blast
qed

text \<open>
  C33. Turn ids are idempotent: on the in-memory host, repeating a committed request replays its answer with the same
  text, without a model call, a tool call, a commit or any change of state; the same turn id with a different text is
  refused as a conflict and changes nothing either.
\<close>

theorem committed_turn_replays:
  assumes "submit_turn_with_tools (mock_host J) S req ib h core = Some (h', core', Inr out)" and "\<not> replayed out"
    and "trim (tr_turn_id req') = trim (tr_turn_id req)" and "trim (tr_text req') \<noteq> []"
  shows "(\<exists>out'. submit_turn_with_tools (mock_host J) S req ib' h' core' = Some (h', core', Inr out') \<and>
      replayed out' \<and> out_assistant_text out' = out_assistant_text out) \<and>
    (trim (tr_text req') = trim (tr_text req) \<or>
     (\<exists>msg. submit_turn_with_tools (mock_host J) S req' ib' h' core' = Some (h', core', Inl (TurnIdConflict msg))))"
  using mock.replay_after_commit [OF assms(1,2)] assms(3,4) by metis

theorem committed_turn_replays_witness:
  "\<exists>h' core' out out'.
     submit_turn_with_tools (mock_host sample_mock) sample_serde sample_request (\<lambda>_ _ h. (h, Continue []))
       mock_new sample_core = Some (h', core', Inr out) \<and>
     submit_turn_with_tools (mock_host sample_mock) sample_serde sample_request (\<lambda>_ _ h. (h, Abort []))
       h' core' = Some (h', core', Inr out') \<and> out_assistant_text out' = out_assistant_text out"
proof -
  obtain h' core' out where t: "submit_turn_with_tools (mock_host sample_mock) sample_serde sample_request
      (\<lambda>_ _ h. (h, Continue [])) mock_new sample_core = Some (h', core', Inr out)" "\<not> replayed out"
    by (rule sample_turn)
  have "trim (tr_text (sample_request\<lparr>tr_text := lit ''other''\<rparr>)) \<noteq> []" by (simp add: sample_texts)
  from committed_turn_replays [OF t _ this, of "\<lambda>_ _ h. (h, Abort [])"] obtain out'
    where "submit_turn_with_tools (mock_host sample_mock) sample_serde sample_request (\<lambda>_ _ h. (h, Abort []))
       h' core' = Some (h', core', Inr out')" "out_assistant_text out' = out_assistant_text out" by auto
  with t(1) show ?thesis by blast
qed

text \<open>
  C15. The transcript stays well paired: if every assistant row with tool calls is followed by exactly one
  tool row per call, in order and with the ids of the calls, and there is no other tool row, then the same
  holds after every turn that returns, whatever results the tool invoker gave (too few, too many or with
  empty ids) and however much was trimmed.
\<close>

theorem transcript_stays_paired:
  assumes "paired (items core)"
    and "submit_turn_with_tools H S req ib h core = Some (h', core', res)"
  shows "paired (items core')"
  using assms unfolding submit_turn_with_tools_def Let_def
  by (auto split: if_splits sum.splits option.splits dest: run_paired)

theorem transcript_stays_paired_witness:
  "\<exists>h' core' res. submit_turn_with_tools (mock_host sample_mock) sample_serde sample_request
      (\<lambda>_ _ h. (h, Continue [])) mock_new sample_core = Some (h', core', res) \<and> paired (items core')"
proof -
  obtain h' core' out where t: "submit_turn_with_tools (mock_host sample_mock) sample_serde sample_request
      (\<lambda>_ _ h. (h, Continue [])) mock_new sample_core = Some (h', core', Inr out)" "\<not> replayed out"
    by (rule sample_turn)
  have "paired (items sample_core)" by (simp add: sample_core_def paired_def)
  from transcript_stays_paired [OF this t(1)] t(1) show ?thesis by blast
qed

text \<open>
  C39. A turn always returns when the host does: if every call to open a model stream returns and every
  stream it opens ends, fails or finishes after finitely many chunks, then the turn returns a result or an error,
  however the tool invoker behaves (the step limit cuts a loop of tool calls).
\<close>

theorem turn_returns:
  assumes "hosts_ending_streams H"
  shows "\<exists>h' core' res. submit_turn_with_tools H S req ib h core = Some (h', core', res)"
  using submit_returns [OF assms, of S req ib h core] by fastforce

theorem turn_returns_witness:
  "\<exists>h' core' res. submit_turn_with_tools broken_host
      \<lparr>to_vec = (\<lambda>_. Inr ()), from_slice = (\<lambda>_. Inl []), from_str = Some, empty_object = [], raw_object = id\<rparr>
      sample_request (\<lambda>_ _ h. (h, Abort [])) () sample_core = Some (h', core', res)"
proof (rule turn_returns)
  have one: "stream_ends (next_chunk broken_host) 1"
    by (rule stream_ends.fails [of _ _ 1 "Transport (lit ''reset'')"]) (simp add: broken_host_def)
  have "stream_ends (next_chunk broken_host) 0"
    by (rule stream_ends.text_delta [OF _ one, of _ "lit ''par''"]) (simp add: broken_host_def)
  then show "hosts_ending_streams broken_host"
    by (simp add: hosts_ending_streams_def) (simp add: broken_host_def)
qed

end
