(* ===== verification/Disk_Store.thy ===== *)
theory Disk_Store
  imports Hyper_Core "HOL-Library.List_Lexorder"
begin

text \<open>
  Durable storage of Hypercore sessions: \<open>packages/agent/xai-hyper-core/src/disk_store.rs\<close> and the
  storage half of the native host (\<open>native.rs\<close>).

  The file system is a function from paths (component lists under the storage root) to entries:
  absent, readable bytes, or a read error.  Everything the operating system may do to a commit is
  an explicit environment: failing to create the directory, to open the lock file or to take the lock, and failing at any of
  the five steps of publishing.  The lock makes one commit a single transformer of the file system; its file, created when it is not
  there, stays.
  Encoding and decoding of the state file and of legacy records is the record \<open>codec\<close>; the sampler
  behind the model stream is a parameter.
\<close>

section \<open>Layout\<close>

definition STATE_FORMAT_VERSION :: nat where
  "STATE_FORMAT_VERSION = 2"

definition STATE_FILE_NAME :: rstr where
  "STATE_FILE_NAME = lit ''state.v2.json''"

definition STATE_LOCK_NAME :: rstr where
  "STATE_LOCK_NAME = lit ''state.v2.lock''"

record session_store =
  root :: rstr
  publish_failpoint :: nat

record 'b session_state_v2 =
  format_version :: nat
  state_snapshot :: 'b
  state_terminals :: "(rstr \<times> terminal_turn_record) list"

text \<open>A \<open>BTreeMap\<close> is the list of its entries in key order.\<close>

fun btree_insert :: "rstr \<Rightarrow> 'v \<Rightarrow> (rstr \<times> 'v) list \<Rightarrow> (rstr \<times> 'v) list" where
  "btree_insert k v [] = [(k, v)]"
| "btree_insert k v ((k', v') # xs) =
     (if k = k' then (k, v) # xs else if k < k' then (k, v) # (k', v') # xs
      else (k', v') # btree_insert k v xs)"

definition sanitize_component :: "rstr \<Rightarrow> rstr" where
  "sanitize_component s =
     map (\<lambda>c. if is_ascii_alphabetic c \<or> is_ascii_digit c \<or> c = ch CHR ''-'' \<or> c = ch CHR ''_'' then c
              else ch CHR ''_'') s"

type_synonym path = "rstr list"

definition session_dir :: "rstr \<Rightarrow> path" where
  "session_dir sid = [sanitize_component sid]"

definition state_path :: "rstr \<Rightarrow> path" where
  "state_path sid = session_dir sid @ [STATE_FILE_NAME]"

definition state_lock_path :: "rstr \<Rightarrow> path" where
  "state_lock_path sid = session_dir sid @ [STATE_LOCK_NAME]"

definition snapshot_path :: "rstr \<Rightarrow> path" where
  "snapshot_path sid = session_dir sid @ [lit ''snapshot.json'']"

definition terminal_path :: "rstr \<Rightarrow> rstr \<Rightarrow> path" where
  "terminal_path sid tid =
     session_dir sid @ [lit ''terminals'', sanitize_component tid @ lit ''.json'']"

definition display :: "session_store \<Rightarrow> path \<Rightarrow> rstr" where
  "display store p = join (lit ''/'') (root store # p)"

section \<open>Reading\<close>

datatype 'b file_entry = Absent | Bytes 'b | ReadError rstr

type_synonym 'b files = "path \<Rightarrow> 'b file_entry"

text \<open>
  The JSON codec: the state file (with the snapshot's bytes inside it), legacy terminal records, and the
  \<open>Debug\<close> form of a string in messages.
\<close>

record 'b codec =
  state_to_vec :: "'b session_state_v2 \<Rightarrow> rstr + 'b"
  state_from_slice :: "'b \<Rightarrow> rstr + 'b session_state_v2"
  terminal_from_slice :: "'b \<Rightarrow> rstr + terminal_turn_record"
  debug_str :: "rstr \<Rightarrow> rstr"
  empty_bytes :: 'b

fun first_key_mismatch :: "(rstr \<times> terminal_turn_record) list \<Rightarrow> (rstr \<times> rstr) option" where
  "first_key_mismatch [] = None"
| "first_key_mismatch ((key, rec) # rest) =
     (if key \<noteq> term_turn_id rec then Some (key, term_turn_id rec) else first_key_mismatch rest)"

definition validate_state :: "'b codec \<Rightarrow> session_store \<Rightarrow> path \<Rightarrow> 'b session_state_v2 \<Rightarrow> host_error + unit" where
  "validate_state C store p state =
     (if format_version state \<noteq> STATE_FORMAT_VERSION then
        Inl (Io (lit ''unsupported state format_version '' @ show_nat (format_version state) @ lit '' in '' @
          display store p @ lit '' (expected '' @ show_nat STATE_FORMAT_VERSION @ lit '')''))
      else case first_key_mismatch (state_terminals state) of
          Some (key, tid) \<Rightarrow>
            Inl (Io (lit ''terminal map key '' @ debug_str C key @ lit '' != record.turn_id '' @
              debug_str C tid @ lit '' in '' @ display store p))
        | None \<Rightarrow> Inr ())"

definition read_state_file :: "'b codec \<Rightarrow> session_store \<Rightarrow> path \<Rightarrow> 'b files \<Rightarrow>
    host_error + 'b session_state_v2 option" where
  "read_state_file C store p fs =
     (case fs p of
        Absent \<Rightarrow> Inr None
      | ReadError e \<Rightarrow> Inl (Io (lit ''read '' @ display store p @ lit '': '' @ e))
      | Bytes bytes \<Rightarrow>
          (case state_from_slice C bytes of
             Inl e \<Rightarrow> Inl (Io (lit ''parse '' @ display store p @
               lit '': corrupt or invalid state.v2.json: '' @ e))
           | Inr state \<Rightarrow>
               (case validate_state C store p state of
                  Inl e \<Rightarrow> Inl e
                | Inr _ \<Rightarrow> Inr (Some state))))"

definition read_legacy_terminal_exact :: "'b codec \<Rightarrow> session_store \<Rightarrow> path \<Rightarrow> rstr \<Rightarrow> 'b files \<Rightarrow>
    host_error + terminal_turn_record option" where
  "read_legacy_terminal_exact C store p tid fs =
     (case fs p of
        Absent \<Rightarrow> Inr None
      | ReadError e \<Rightarrow> Inl (Io (lit ''read '' @ display store p @ lit '': '' @ e))
      | Bytes bytes \<Rightarrow>
          (case terminal_from_slice C bytes of
             Inl e \<Rightarrow> Inl (Io (lit ''parse terminal '' @ display store p @ lit '': '' @ e))
           | Inr rec \<Rightarrow> if term_turn_id rec = tid then Inr (Some rec) else Inr None))"

definition disk_load_snapshot :: "'b codec \<Rightarrow> session_store \<Rightarrow> rstr \<Rightarrow> 'b files \<Rightarrow> host_error + 'b option" where
  "disk_load_snapshot C store sid fs =
     (case read_state_file C store (state_path sid) fs of
        Inl e \<Rightarrow> Inl e
      | Inr (Some s) \<Rightarrow> Inr (Some (state_snapshot s))
      | Inr None \<Rightarrow>
          (case fs (snapshot_path sid) of
             Bytes b \<Rightarrow> Inr (Some b)
           | Absent \<Rightarrow> Inr None
           | ReadError e \<Rightarrow> Inl (Io (lit ''read '' @ display store (snapshot_path sid) @ lit '': '' @ e))))"

definition load_terminal_turn_blocking :: "'b codec \<Rightarrow> session_store \<Rightarrow> rstr \<Rightarrow> rstr \<Rightarrow> 'b files \<Rightarrow>
    host_error + terminal_turn_record option" where
  "load_terminal_turn_blocking C store sid tid fs =
     (case read_state_file C store (state_path sid) fs of
        Inl e \<Rightarrow> Inl e
      | Inr (Some state) \<Rightarrow>
          (case map_of (state_terminals state) tid of
             Some rec \<Rightarrow> Inr (Some rec)
           | None \<Rightarrow> read_legacy_terminal_exact C store (terminal_path sid tid) tid fs)
      | Inr None \<Rightarrow> read_legacy_terminal_exact C store (terminal_path sid tid) tid fs)"

section \<open>Committing\<close>

datatype publish_step = CreateTemp | WriteTemp | SyncTemp | ReplaceFinal | SyncDir

record disk_env =
  mkdir_error :: "rstr option"
  lock_open_error :: "rstr option"
  lock_error :: "rstr option"
  publish_fault :: "(publish_step \<times> rstr) option"
  temp_suffix :: rstr
  cleanup_fails :: bool

definition fails_at :: "disk_env \<Rightarrow> publish_step \<Rightarrow> rstr option" where
  "fails_at env step =
     (case publish_fault env of Some (s, e) \<Rightarrow> if s = step then Some e else None | None \<Rightarrow> None)"

definition unique_temp_path :: "disk_env \<Rightarrow> rstr \<Rightarrow> path" where
  "unique_temp_path env sid = session_dir sid @ [STATE_FILE_NAME @ lit ''.'' @ temp_suffix env @ lit ''.tmp'']"

text \<open>The closure of \<open>durable_publish\<close>: temp file, its contents, sync, atomic replace, directory sync.\<close>

definition write_and_replace :: "session_store \<Rightarrow> disk_env \<Rightarrow> rstr \<Rightarrow> 'b \<Rightarrow> 'b files \<Rightarrow>
    'b files \<times> (host_error + unit)" where
  "write_and_replace store env sid bytes fs =
     (let tmp = unique_temp_path env sid; final_path = state_path sid
      in case (if fs tmp \<noteq> Absent then Some (lit ''exists'') else fails_at env CreateTemp) of
           Some e \<Rightarrow> (fs, Inl (Io (lit ''create temp '' @ display store tmp @ lit '': '' @ e)))
         | None \<Rightarrow>
             (let fs = fs(tmp := Bytes bytes)
              in case fails_at env WriteTemp of
                   Some e \<Rightarrow> (fs, Inl (Io (lit ''write temp '' @ display store tmp @ lit '': '' @ e)))
                 | None \<Rightarrow>
                     (case fails_at env SyncTemp of
                        Some e \<Rightarrow> (fs, Inl (Io (lit ''sync temp '' @ display store tmp @ lit '': '' @ e)))
                      | None \<Rightarrow>
                          if publish_failpoint store = 1 then
                            (fs, Inl (Io (lit ''injected failpoint: before publish of '' @ display store final_path)))
                          else
                            (case fails_at env ReplaceFinal of
                               Some e \<Rightarrow> (fs, Inl (Io (lit ''atomic replace '' @ display store tmp @ lit '' -> '' @
                                 display store final_path @ lit '': '' @ e)))
                             | None \<Rightarrow>
                                 (let fs = (fs(final_path := Bytes bytes))(tmp := Absent)
                                  in if publish_failpoint store = 2 then
                                       (fs, Inl (Io (lit ''injected failpoint: after publish, before dir sync of '' @
                                         display store (session_dir sid))))
                                     else
                                       (case fails_at env SyncDir of
                                          Some e \<Rightarrow> (fs, Inl (Io (lit ''sync dir '' @
                                            display store (session_dir sid) @ lit '': '' @ e)))
                                        | None \<Rightarrow> (fs, Inr ())))))))"

definition durable_publish :: "session_store \<Rightarrow> disk_env \<Rightarrow> rstr \<Rightarrow> 'b \<Rightarrow> 'b files \<Rightarrow>
    'b files \<times> (host_error + unit)" where
  "durable_publish store env sid bytes fs =
     (case write_and_replace store env sid bytes fs of
        (fs, Inr u) \<Rightarrow> (fs, Inr u)
      | (fs, Inl e) \<Rightarrow>
          (if cleanup_fails env then fs else fs(unique_temp_path env sid := Absent), Inl e))"

text \<open>Accepting a terminal record: idempotent, refused on a conflict, or inserted.\<close>

definition accept_terminal :: "'b codec \<Rightarrow> session_store \<Rightarrow> rstr \<Rightarrow> terminal_turn_record option \<Rightarrow>
    'b files \<Rightarrow> 'b session_state_v2 \<Rightarrow> host_error + 'b session_state_v2" where
  "accept_terminal C store sid terminal fs state =
     (case terminal of
        None \<Rightarrow> Inr state
      | Some t \<Rightarrow>
          (case map_of (state_terminals state) (term_turn_id t) of
             Some existing \<Rightarrow>
               if existing = t then Inr state
               else Inl (Io (lit ''terminal turn_id conflict in '' @ display store (state_path sid) @
                 lit '': existing record differs for turn_id '' @ debug_str C (term_turn_id t)))
           | None \<Rightarrow>
               (case read_legacy_terminal_exact C store (terminal_path sid (term_turn_id t)) (term_turn_id t) fs of
                  Inl e \<Rightarrow> Inl e
                | Inr None \<Rightarrow>
                    Inr (state\<lparr>state_terminals := btree_insert (term_turn_id t) t (state_terminals state)\<rparr>)
                | Inr (Some existing) \<Rightarrow>
                    if existing = t
                    then Inr (state\<lparr>state_terminals := btree_insert (term_turn_id t) t (state_terminals state)\<rparr>)
                    else Inl (Io (lit ''terminal turn_id conflict with legacy '' @
                      display store (terminal_path sid (term_turn_id t)) @
                      lit '': existing record differs for turn_id '' @ debug_str C (term_turn_id t))))))"

text \<open>Taking the lock: the lock file is opened, and created empty when it does not exist, before it is locked.\<close>

definition acquire :: "'b codec \<Rightarrow> disk_env \<Rightarrow> path \<Rightarrow> 'b files \<Rightarrow> 'b files \<times> rstr option" where
  "acquire C env lock_path fs =
     (case lock_open_error env of
        Some e \<Rightarrow> (fs, Some e)
      | None \<Rightarrow> (if fs lock_path = Absent then fs(lock_path := Bytes (empty_bytes C)) else fs, lock_error env))"

definition commit_snapshot_blocking :: "'b codec \<Rightarrow> session_store \<Rightarrow> disk_env \<Rightarrow> rstr \<Rightarrow> 'b \<Rightarrow>
    terminal_turn_record option \<Rightarrow> 'b files \<Rightarrow> 'b files \<times> (host_error + unit)" where
  "commit_snapshot_blocking C store env sid snapshot terminal fs =
     (case acquire C env (state_lock_path sid) fs of
        (fs, Some e) \<Rightarrow> (fs, Inl (Io (lit ''lock '' @ display store (state_lock_path sid) @ lit '': '' @ e)))
      | (fs, None) \<Rightarrow>
          (case read_state_file C store (state_path sid) fs of
             Inl e \<Rightarrow> (fs, Inl e)
           | Inr found \<Rightarrow>
               (let state = (case found of
                    Some s \<Rightarrow> s
                  | None \<Rightarrow> \<lparr>format_version = STATE_FORMAT_VERSION, state_snapshot = empty_bytes C,
                             state_terminals = []\<rparr>)
                in case accept_terminal C store sid terminal fs state of
                     Inl e \<Rightarrow> (fs, Inl e)
                   | Inr state \<Rightarrow>
                       (case state_to_vec C (state\<lparr>format_version := STATE_FORMAT_VERSION,
                            state_snapshot := snapshot\<rparr>) of
                          Inl e \<Rightarrow> (fs, Inl (Io (lit ''serialize '' @ display store (state_path sid) @ lit '': '' @ e)))
                        | Inr bytes \<Rightarrow> durable_publish store env sid bytes fs))))"

definition disk_commit_snapshot :: "'b codec \<Rightarrow> session_store \<Rightarrow> disk_env \<Rightarrow> rstr \<Rightarrow> 'b \<Rightarrow>
    terminal_turn_record option \<Rightarrow> 'b files \<Rightarrow> 'b files \<times> (host_error + unit)" where
  "disk_commit_snapshot C store env sid snapshot terminal fs =
     (case mkdir_error env of
        Some e \<Rightarrow> (fs, Inl (Io (lit ''mkdir '' @ display store (session_dir sid) @ lit '': '' @ e)))
      | None \<Rightarrow> commit_snapshot_blocking C store env sid snapshot terminal fs)"

section \<open>The native host\<close>

text \<open>
  The state of the native host as far as storage is concerned: the files and, for every commit, what the operating
  system will do to it.  The model stream comes from the sampler, a parameter.
\<close>

record 'b disk =
  disk_files :: "'b files"
  disk_envs :: "nat \<Rightarrow> disk_env"
  disk_commits :: nat

definition native_commit_snapshot :: "'b codec \<Rightarrow> session_store \<Rightarrow> rstr \<Rightarrow> 'b \<Rightarrow> terminal_turn_record option \<Rightarrow>
    'b disk \<Rightarrow> 'b disk \<times> (host_error + unit)" where
  "native_commit_snapshot C store sid snapshot terminal d =
     (let (fs, r) = disk_commit_snapshot C store (disk_envs d (disk_commits d)) sid snapshot terminal (disk_files d)
      in (d\<lparr>disk_files := fs, disk_commits := disk_commits d + 1\<rparr>, r))"

definition native_host :: "'b codec \<Rightarrow> session_store \<Rightarrow>
    ('json model_stream_request \<Rightarrow> 'b disk \<Rightarrow> ('b disk \<times> (host_error + 's)) option) \<Rightarrow>
    ('s \<Rightarrow> 's \<times> (host_error + model_chunk option)) \<Rightarrow> ('b disk, 's, 'b, 'json) host" where
  "native_host C store sampler_open sampler_next =
     \<lparr>open_model_stream = sampler_open, next_chunk = sampler_next,
      commit_snapshot = native_commit_snapshot C store,
      load_snapshot = (\<lambda>sid d. disk_load_snapshot C store sid (disk_files d)),
      load_terminal_turn = (\<lambda>sid tid d. load_terminal_turn_blocking C store sid tid (disk_files d)),
      list_tools = default_list_tools, invoke_tool = default_invoke_tool\<rparr>"

section \<open>Publishing\<close>

lemma paths_differ [simp]:
  "unique_temp_path env sid \<noteq> state_path sid'" "state_path sid' \<noteq> unique_temp_path env sid"
  "unique_temp_path env sid \<noteq> snapshot_path sid'" "snapshot_path sid' \<noteq> unique_temp_path env sid"
  "terminal_path sid' tid \<noteq> unique_temp_path env sid" "terminal_path sid' tid \<noteq> state_path sid"
  "snapshot_path sid' \<noteq> state_path sid" "state_path sid' \<noteq> state_lock_path sid" "state_lock_path sid \<noteq> state_path sid'" "snapshot_path sid' \<noteq> state_lock_path sid"
  "terminal_path sid' tid \<noteq> state_lock_path sid" "state_lock_path sid \<noteq> unique_temp_path env sid'" "unique_temp_path env sid' \<noteq> state_lock_path sid"
  by (auto simp: unique_temp_path_def state_path_def state_lock_path_def STATE_LOCK_NAME_def snapshot_path_def terminal_path_def session_dir_def
      STATE_FILE_NAME_def lit_def)

text \<open>Whatever fails, the state file is the old one or the complete new one, and only the temp file is touched besides.\<close>

definition published :: "disk_env \<Rightarrow> rstr \<Rightarrow> 'b \<Rightarrow> 'b files \<Rightarrow> 'b files \<Rightarrow> host_error + unit \<Rightarrow> bool" where
  "published env sid bytes fs fs' r \<longleftrightarrow>
     (fs' (state_path sid) = Bytes bytes \<or> fs' (state_path sid) = fs (state_path sid) \<and> r \<noteq> Inr ()) \<and>
     (\<forall>p. p \<noteq> state_path sid \<and> p \<noteq> unique_temp_path env sid \<longrightarrow> fs' p = fs p)"

lemma write_and_replace_published:
  "write_and_replace store env sid bytes fs = (fs', r) \<Longrightarrow> published env sid bytes fs fs' r"
  by (auto simp: write_and_replace_def published_def Let_def split: if_splits option.splits)

lemma durable_publish_published:
  assumes "durable_publish store env sid bytes fs = (fs', r)"
  shows "published env sid bytes fs fs' r"
proof -
  obtain fs1 r1 where w: "write_and_replace store env sid bytes fs = (fs1, r1)" by fastforce
  show ?thesis using write_and_replace_published [OF w] assms w
    by (cases r1) (auto simp: durable_publish_def published_def split: if_splits)
qed

text \<open>What taking the lock does to the files.\<close>

definition lock_kept :: "'b codec \<Rightarrow> rstr \<Rightarrow> 'b files \<Rightarrow> 'b files \<Rightarrow> bool" where
  "lock_kept C sid fs fs' \<longleftrightarrow>
     fs' (state_lock_path sid) = fs (state_lock_path sid) \<or>
     fs (state_lock_path sid) = Absent \<and> fs' (state_lock_path sid) = Bytes (empty_bytes C)"

lemma acquire_files:
  assumes "acquire C env (state_lock_path sid) fs = (fs1, e)"
  shows "p \<noteq> state_lock_path sid \<Longrightarrow> fs1 p = fs p" "lock_kept C sid fs fs1"
  using assms by (auto simp: acquire_def lock_kept_def split: option.splits if_splits)

lemma read_state_file_cong: "fs' p = fs p \<Longrightarrow> read_state_file C store p fs' = read_state_file C store p fs"
  by (simp add: read_state_file_def)

lemma accept_terminal_cong:
  assumes "\<And>tid. fs' (terminal_path sid tid) = fs (terminal_path sid tid)"
  shows "accept_terminal C store sid terminal fs' = accept_terminal C store sid terminal fs"
proof -
  have "read_legacy_terminal_exact C store (terminal_path sid tid) tid fs' = read_legacy_terminal_exact C store (terminal_path sid tid) tid fs" for tid
    by (simp add: read_legacy_terminal_exact_def assms)
  then show ?thesis by (auto simp: fun_eq_iff accept_terminal_def split: option.split)
qed

text \<open>What a commit does to the files: nothing but the lock file, or publish a state accepted from the one that was there.\<close>

definition current_state :: "'b codec \<Rightarrow> 'b session_state_v2 option \<Rightarrow> 'b session_state_v2" where
  "current_state C found = (case found of Some s \<Rightarrow> s
     | None \<Rightarrow> \<lparr>format_version = STATE_FORMAT_VERSION, state_snapshot = empty_bytes C, state_terminals = []\<rparr>)"

definition commit_locked :: "'b codec \<Rightarrow> session_store \<Rightarrow> disk_env \<Rightarrow> rstr \<Rightarrow> 'b \<Rightarrow>
    terminal_turn_record option \<Rightarrow> 'b files \<Rightarrow> 'b files \<times> (host_error + unit)" where
  "commit_locked C store env sid snapshot terminal fs =
     (case read_state_file C store (state_path sid) fs of
        Inl e \<Rightarrow> (fs, Inl e)
      | Inr found \<Rightarrow> case accept_terminal C store sid terminal fs (current_state C found) of
          Inl e \<Rightarrow> (fs, Inl e)
        | Inr st \<Rightarrow> case state_to_vec C (st\<lparr>format_version := STATE_FORMAT_VERSION, state_snapshot := snapshot\<rparr>) of
            Inl e \<Rightarrow> (fs, Inl (Io (lit ''serialize '' @ display store (state_path sid) @ lit '': '' @ e)))
          | Inr bytes \<Rightarrow> durable_publish store env sid bytes fs)"

lemma commit_locked_cases:
  assumes "commit_locked C store env sid snapshot terminal fs = (fs', r)"
  obtains (refused) e where "fs' = fs" and "r = Inl e"
    | (written) found st bytes where "read_state_file C store (state_path sid) fs = Inr found"
        and "accept_terminal C store sid terminal fs (current_state C found) = Inr st"
        and "state_to_vec C (st\<lparr>format_version := STATE_FORMAT_VERSION, state_snapshot := snapshot\<rparr>) = Inr bytes"
        and "published env sid bytes fs fs' r"
proof (cases "read_state_file C store (state_path sid) fs")
  case (Inr found)
  note read = Inr
  show thesis
  proof (cases "accept_terminal C store sid terminal fs (current_state C found)")
    case (Inr st)
    note accept = Inr
    show thesis
    proof (cases "state_to_vec C (st\<lparr>format_version := STATE_FORMAT_VERSION, state_snapshot := snapshot\<rparr>)")
      case (Inr bytes)
      with assms read accept have "durable_publish store env sid bytes fs = (fs', r)" by (simp add: commit_locked_def)
      then show thesis by (intro written [OF read accept Inr] durable_publish_published)
    qed (use assms read accept refused in \<open>auto simp: commit_locked_def\<close>)
  qed (use assms read refused in \<open>auto simp: commit_locked_def\<close>)
qed (use assms refused in \<open>auto simp: commit_locked_def\<close>)

definition untouched_but :: "path set \<Rightarrow> 'b files \<Rightarrow> 'b files \<Rightarrow> bool" where
  "untouched_but ps fs fs' \<longleftrightarrow> {p. fs' p \<noteq> fs p} \<subseteq> ps"

lemma disk_commit_cases:
  assumes "disk_commit_snapshot C store env sid snapshot terminal fs = (fs', r)"
  obtains (refused) e where "untouched_but {state_lock_path sid} fs fs'" and "lock_kept C sid fs fs'" and "r = Inl e"
    | (written) found st bytes where "read_state_file C store (state_path sid) fs = Inr found"
        and "accept_terminal C store sid terminal fs (current_state C found) = Inr st"
        and "state_to_vec C (st\<lparr>format_version := STATE_FORMAT_VERSION, state_snapshot := snapshot\<rparr>) = Inr bytes"
        and "fs' (state_path sid) = Bytes bytes \<or> fs' (state_path sid) = fs (state_path sid) \<and> r \<noteq> Inr ()"
        and "untouched_but {state_path sid, unique_temp_path env sid, state_lock_path sid} fs fs'" and "lock_kept C sid fs fs'"
proof (cases "mkdir_error env")
  case (Some e)
  with assms refused show thesis by (auto simp: disk_commit_snapshot_def untouched_but_def lock_kept_def)
next
  case None
  obtain fs1 e where lock: "acquire C env (state_lock_path sid) fs = (fs1, e)" by fastforce
  note other = acquire_files [OF lock]
  show thesis
  proof (cases e)
    case (Some e)
    with assms None lock have "fs' = fs1" "r = Inl (Io (lit ''lock '' @ display store (state_lock_path sid) @ lit '': '' @ e))"
      by (simp_all add: disk_commit_snapshot_def commit_snapshot_blocking_def)
    then show thesis using refused other by (auto simp: untouched_but_def)
  next
    case unlocked: None
    have same: "read_state_file C store (state_path sid) fs1 = read_state_file C store (state_path sid) fs"
      "accept_terminal C store sid terminal fs1 = accept_terminal C store sid terminal fs"
      by (intro read_state_file_cong accept_terminal_cong; simp add: other)+
    have "commit_locked C store env sid snapshot terminal fs1 = (fs', r)"
      using assms None lock unlocked
      unfolding disk_commit_snapshot_def commit_snapshot_blocking_def commit_locked_def current_state_def Let_def by simp
    then show thesis
    proof (cases rule: commit_locked_cases)
      case refused: (refused e)
      then show thesis using that(1) other by (auto simp: untouched_but_def)
    next
      case (written found st bytes)
      from written(4) have "fs' (state_path sid) = Bytes bytes \<or> fs' (state_path sid) = fs (state_path sid) \<and> r \<noteq> Inr ()"
        "untouched_but {state_path sid, unique_temp_path env sid, state_lock_path sid} fs fs'" "lock_kept C sid fs fs'"
        using other by (auto simp: published_def untouched_but_def lock_kept_def intro: ccontr)
      with written same show thesis using that(2) by metis
    qed
  qed
qed

section \<open>Reading back\<close>

definition codec_roundtrip :: "'b codec \<Rightarrow> bool" where
  "codec_roundtrip C \<longleftrightarrow> (\<forall>st b. state_to_vec C st = Inr b \<longrightarrow> state_from_slice C b = Inr st)"

lemma map_of_btree_insert: "map_of (btree_insert k v xs) = (map_of xs)(k \<mapsto> v)"
  by (induction k v xs rule: btree_insert.induct) auto

lemma btree_insert_keys:
  "first_key_mismatch xs = None \<Longrightarrow> first_key_mismatch (btree_insert (term_turn_id t) t xs) = None"
  by (induction "term_turn_id t" t xs rule: btree_insert.induct) (auto split: if_splits)

lemma validate_state_ok:
  "validate_state C store p st = Inr u \<longleftrightarrow>
     format_version st = STATE_FORMAT_VERSION \<and> first_key_mismatch (state_terminals st) = None"
  by (auto simp: validate_state_def split: option.splits)

lemma read_state_file_valid:
  "read_state_file C store p fs = Inr found \<Longrightarrow> first_key_mismatch (state_terminals (current_state C found)) = None"
  by (auto simp: read_state_file_def current_state_def validate_state_ok
      split: file_entry.splits sum.splits option.splits)

lemma accept_terminal_ok:
  assumes "accept_terminal C store sid terminal fs st0 = Inr st"
  shows "first_key_mismatch (state_terminals st0) = None \<Longrightarrow> first_key_mismatch (state_terminals st) = None"
    and "terminal = Some t \<Longrightarrow> map_of (state_terminals st) (term_turn_id t) = Some t"
    and "map_of (state_terminals st0) tid = Some rec \<Longrightarrow> map_of (state_terminals st) tid = Some rec"
  using assms
  by (auto simp: accept_terminal_def map_of_btree_insert btree_insert_keys
      split: option.splits sum.splits if_splits)

lemma read_published_state:
  assumes "codec_roundtrip C" and "state_to_vec C st = Inr bytes" and "fs' p = Bytes bytes"
    and "format_version st = STATE_FORMAT_VERSION" and "first_key_mismatch (state_terminals st) = None"
  shows "read_state_file C store p fs' = Inr (Some st)"
proof -
  have "validate_state C store p st = Inr ()" using assms(4,5) by (simp add: validate_state_ok)
  with assms(1-3) show ?thesis by (simp add: read_state_file_def codec_roundtrip_def)
qed

text \<open>After a commit the state file reads as before, or as the accepted state with the new snapshot.\<close>

lemma commit_reads:
  assumes rt: "codec_roundtrip C" and commit: "disk_commit_snapshot C store env sid snapshot terminal fs = (fs', r)"
  shows "fs' (state_path sid) = fs (state_path sid) \<and> r \<noteq> Inr () \<or>
    (\<exists>found st. read_state_file C store (state_path sid) fs = Inr found \<and>
       accept_terminal C store sid terminal fs (current_state C found) = Inr st \<and>
       read_state_file C store (state_path sid) fs' =
         Inr (Some (st\<lparr>format_version := STATE_FORMAT_VERSION, state_snapshot := snapshot\<rparr>)))"
  using commit
proof (cases rule: disk_commit_cases)
  case (written found st bytes)
  have "first_key_mismatch (state_terminals st) = None"
    using accept_terminal_ok(1) [OF written(2)] read_state_file_valid [OF written(1)] by blast
  then have "fs' (state_path sid) = Bytes bytes \<Longrightarrow> read_state_file C store (state_path sid) fs' =
      Inr (Some (st\<lparr>format_version := STATE_FORMAT_VERSION, state_snapshot := snapshot\<rparr>))"
    using read_published_state [OF rt written(3)] by simp
  with written show ?thesis by blast
qed (auto simp: untouched_but_def)

lemma commit_other_files:
  assumes "disk_commit_snapshot C store env sid snapshot terminal fs = (fs', r)"
    and "p \<noteq> state_path sid" and "p \<noteq> unique_temp_path env sid" and "p \<noteq> state_lock_path sid"
  shows "fs' p = fs p"
  using assms(1) by (cases rule: disk_commit_cases) (use assms(2-) in \<open>auto simp: untouched_but_def\<close>)

lemma native_durable:
  assumes rt: "codec_roundtrip C"
  shows "durable_host (native_host C store so sn)"
proof
  fix h h' :: "'a disk" and sid b and topt
  assume "commit_snapshot (native_host C store so sn) sid b topt h = (h', Inr ())"
  then have c: "disk_commit_snapshot C store (disk_envs h (disk_commits h)) sid b topt (disk_files h) = (disk_files h', Inr ())"
    by (auto simp: native_host_def native_commit_snapshot_def split: prod.splits)
  show "load_snapshot (native_host C store so sn) sid h' = Inr (Some b)"
    using commit_reads [OF rt c] by (auto simp: native_host_def disk_load_snapshot_def)
next
  fix h h' :: "'a disk" and sid b t
  assume "commit_snapshot (native_host C store so sn) sid b (Some t) h = (h', Inr ())"
  then have c: "disk_commit_snapshot C store (disk_envs h (disk_commits h)) sid b (Some t) (disk_files h) = (disk_files h', Inr ())"
    by (auto simp: native_host_def native_commit_snapshot_def split: prod.splits)
  show "load_terminal_turn (native_host C store so sn) sid (term_turn_id t) h' = Inr (Some t)"
    using commit_reads [OF rt c] accept_terminal_ok(2) [of C store sid "Some t"]
    by (auto simp: native_host_def load_terminal_turn_blocking_def)
qed

section \<open>Sequences of commits\<close>

record 'b commit_request =
  cr_env :: disk_env
  cr_session :: rstr
  cr_snapshot :: 'b
  cr_terminal :: "terminal_turn_record option"

definition apply_commit :: "'b codec \<Rightarrow> session_store \<Rightarrow> 'b commit_request \<Rightarrow> 'b files \<Rightarrow> 'b files" where
  "apply_commit C store c fs =
     fst (disk_commit_snapshot C store (cr_env c) (cr_session c) (cr_snapshot c) (cr_terminal c) fs)"

definition holds_terminal :: "'b codec \<Rightarrow> session_store \<Rightarrow> rstr \<Rightarrow> rstr \<Rightarrow> terminal_turn_record \<Rightarrow> 'b files \<Rightarrow> bool" where
  "holds_terminal C store sid tid rec fs \<longleftrightarrow>
     (\<exists>st. read_state_file C store (state_path sid) fs = Inr (Some st) \<and> map_of (state_terminals st) tid = Some rec)"

lemma apply_commit_holds:
  assumes rt: "codec_roundtrip C" and held: "holds_terminal C store sid tid rec fs"
  shows "holds_terminal C store sid tid rec (apply_commit C store c fs)"
proof -
  obtain fs' r where c: "disk_commit_snapshot C store (cr_env c) (cr_session c) (cr_snapshot c) (cr_terminal c) fs = (fs', r)"
    by fastforce
  obtain st where st: "read_state_file C store (state_path sid) fs = Inr (Some st)"
    "map_of (state_terminals st) tid = Some rec" using held unfolding holds_terminal_def by blast
  show ?thesis
  proof (cases "fs' (state_path sid) = fs (state_path sid)")
    case True
    from read_state_file_cong [of fs' "state_path sid" fs, OF True] st c show ?thesis
      by (simp add: apply_commit_def holds_terminal_def)
  next
    case False
    then have same: "state_path (cr_session c) = state_path sid"
      using commit_other_files [OF c, of "state_path sid"] by force
    from commit_reads [OF rt c] False obtain st' where
      "accept_terminal C store (cr_session c) (cr_terminal c) fs (current_state C (Some st)) = Inr st'"
      and r: "read_state_file C store (state_path sid) fs' =
        Inr (Some (st'\<lparr>format_version := STATE_FORMAT_VERSION, state_snapshot := cr_snapshot c\<rparr>))"
      unfolding same using st(1) by auto
    then have "map_of (state_terminals st') tid = Some rec"
      using accept_terminal_ok(3) st(2) by (simp add: current_state_def)
    with r c show ?thesis by (simp add: apply_commit_def holds_terminal_def)
  qed
qed

lemma fold_commits_hold:
  assumes "codec_roundtrip C"
  shows "holds_terminal C store sid tid rec fs \<Longrightarrow> holds_terminal C store sid tid rec (fold (apply_commit C store) cs fs)"
  using apply_commit_holds [OF assms] by (induction cs arbitrary: fs) simp_all

section \<open>Properties\<close>

lemma accept_terminal_terminals:
  assumes "accept_terminal C store sid terminal fs st0 = Inr st"
  shows "case terminal of
      None \<Rightarrow> map_of (state_terminals st) = map_of (state_terminals st0)
    | Some t \<Rightarrow> map_of (state_terminals st0) (term_turn_id t) \<in> {None, Some t} \<and>
        map_of (state_terminals st) = (map_of (state_terminals st0))(term_turn_id t \<mapsto> t)"
  using assms by (auto simp: accept_terminal_def map_of_btree_insert fun_upd_idem split: option.splits sum.splits if_splits)

text \<open>
  C32. A commit is atomic under every fault of the environment.  Afterwards the state file holds the bytes it held before, and the commit
  has failed, or it holds the complete encoding of the new state: the new snapshot, and the terminal records of the state that was there
  together with the record of the commit, which a different record under the same id excludes.  Only three files can change: that state
  file, the temporary file of the attempt and the lock file, which is created empty when there is none and never written.  The legacy
  files in particular stay as they are.
\<close>

theorem disk_commit_atomic:
  "let (fs', r) = disk_commit_snapshot C store env sid snapshot terminal fs
   in (fs' (state_path sid) = fs (state_path sid) \<and> r \<noteq> Inr () \<or>
       (\<exists>found old st bytes. read_state_file C store (state_path sid) fs = Inr found \<and>
          old = (case found of None \<Rightarrow> Map.empty | Some s \<Rightarrow> map_of (state_terminals s)) \<and>
          fs' (state_path sid) = Bytes bytes \<and> state_to_vec C st = Inr bytes \<and>
          state_snapshot st = snapshot \<and> format_version st = STATE_FORMAT_VERSION \<and>
          (case terminal of
             None \<Rightarrow> map_of (state_terminals st) = old
           | Some t \<Rightarrow> old (term_turn_id t) \<in> {None, Some t} \<and> map_of (state_terminals st) = old(term_turn_id t \<mapsto> t)))) \<and>
      {p. fs' p \<noteq> fs p} \<subseteq> {state_path sid, unique_temp_path env sid, state_lock_path sid} \<and>
      (fs' (state_lock_path sid) = fs (state_lock_path sid) \<or>
       fs (state_lock_path sid) = Absent \<and> fs' (state_lock_path sid) = Bytes (empty_bytes C)) \<and>
      fs' (snapshot_path sid2) = fs (snapshot_path sid2) \<and> fs' (terminal_path sid2 tid2) = fs (terminal_path sid2 tid2)"
proof -
  obtain fs' r where c: "disk_commit_snapshot C store env sid snapshot terminal fs = (fs', r)" by fastforce
  note kept = commit_other_files [OF c]
  show ?thesis
    using c
  proof (cases rule: disk_commit_cases)
    case (refused e)
    then show ?thesis using c by (auto simp: untouched_but_def lock_kept_def)
  next
    case (written found st bytes)
    let ?st = "st\<lparr>format_version := STATE_FORMAT_VERSION, state_snapshot := snapshot\<rparr>"
    let ?old = "case found of None \<Rightarrow> Map.empty | Some s \<Rightarrow> map_of (state_terminals s)"
    have "map_of (state_terminals (current_state C found)) = ?old" by (simp add: current_state_def split: option.split)
    then have "state_snapshot ?st = snapshot \<and> format_version ?st = STATE_FORMAT_VERSION \<and> (case terminal of
        None \<Rightarrow> map_of (state_terminals ?st) = ?old
      | Some t \<Rightarrow> ?old (term_turn_id t) \<in> {None, Some t} \<and> map_of (state_terminals ?st) = ?old(term_turn_id t \<mapsto> t))"
      using accept_terminal_terminals [OF written(2)] by (cases terminal) simp_all
    then have "fs' (state_path sid) = fs (state_path sid) \<and> r \<noteq> Inr () \<or>
       (\<exists>found old st bytes. read_state_file C store (state_path sid) fs = Inr found \<and>
          old = (case found of None \<Rightarrow> Map.empty | Some s \<Rightarrow> map_of (state_terminals s)) \<and>
          fs' (state_path sid) = Bytes bytes \<and> state_to_vec C st = Inr bytes \<and>
          state_snapshot st = snapshot \<and> format_version st = STATE_FORMAT_VERSION \<and>
          (case terminal of
             None \<Rightarrow> map_of (state_terminals st) = old
           | Some t \<Rightarrow> old (term_turn_id t) \<in> {None, Some t} \<and> map_of (state_terminals st) = old(term_turn_id t \<mapsto> t)))"
      using written(1,3,4) by blast
    moreover have "fs' (snapshot_path sid2) = fs (snapshot_path sid2)" "fs' (terminal_path sid2 tid2) = fs (terminal_path sid2 tid2)"
      by (simp_all add: kept)
    ultimately show ?thesis using written(5,6) unfolding c Let_def prod.case untouched_but_def lock_kept_def by blast
  qed
qed

text \<open>
  Corruption fails closed: when the state file cannot be read, parsed or validated, loading the snapshot,
  loading a terminal record and committing all report that error, never fall back to the legacy files, and the commit changes
  no file but the lock file.
\<close>

theorem corrupt_state_fails_closed:
  assumes "read_state_file C store (state_path sid) fs = Inl e" and "mkdir_error env = None" and "lock_open_error env = None"
    and "lock_error env = None"
  shows "disk_load_snapshot C store sid fs = Inl e \<and> load_terminal_turn_blocking C store sid tid fs = Inl e \<and>
    (\<exists>fs'. disk_commit_snapshot C store env sid snapshot terminal fs = (fs', Inl e) \<and> untouched_but {state_lock_path sid} fs fs')"
proof -
  obtain fs1 where lock: "acquire C env (state_lock_path sid) fs = (fs1, None)" using assms(3,4) by (simp add: acquire_def)
  note other = acquire_files [OF lock]
  have "read_state_file C store (state_path sid) fs1 = Inl e"
    using read_state_file_cong [of fs1 "state_path sid" fs] other assms(1) by simp
  then show ?thesis
    using assms(1,2) lock other
    by (auto simp: disk_load_snapshot_def load_terminal_turn_blocking_def disk_commit_snapshot_def commit_snapshot_blocking_def untouched_but_def)
qed

definition sample_codec :: "nat list codec" where
  "sample_codec = \<lparr>state_to_vec = (\<lambda>st. Inl (lit ''io'')), state_from_slice = (\<lambda>_. Inl (lit ''bad'')),
     terminal_from_slice = (\<lambda>_. Inl (lit ''bad'')), debug_str = id, empty_bytes = []\<rparr>"

definition calm_env :: disk_env where
  "calm_env = \<lparr>mkdir_error = None, lock_open_error = None, lock_error = None, publish_fault = None, temp_suffix = lit ''1'', cleanup_fails = False\<rparr>"

theorem corrupt_state_fails_closed_witness:
  "let fs = (\<lambda>_. Bytes [1, 2, 3]); store = \<lparr>root = lit ''/r'', publish_failpoint = 0\<rparr>
   in \<exists>e fs'. disk_commit_snapshot sample_codec store calm_env (lit ''s'') [] None fs = (fs', Inl e)"
proof -
  let ?fs = "\<lambda>_. Bytes [1, 2, 3]" and ?store = "\<lparr>root = lit ''/r'', publish_failpoint = 0\<rparr>"
  obtain e where "read_state_file sample_codec ?store (state_path (lit ''s'')) ?fs = Inl e"
    by (simp add: read_state_file_def sample_codec_def)
  from corrupt_state_fails_closed [OF this, where env = calm_env and snapshot = "[]" and terminal = None] show ?thesis
    unfolding Let_def by (simp add: calm_env_def) blast
qed

text \<open>
  C13. A committed turn is never rewritten: once the valid state file of a session holds a terminal record, every later sequence of
  commits (by any session, with any records and under any faults) leaves exactly that record to be loaded, so a
  turn id keeps its first answer.
\<close>

theorem committed_terminal_is_immutable:
  assumes "codec_roundtrip C" and "read_state_file C store (state_path sid) fs = Inr (Some st)"
    and "map_of (state_terminals st) tid = Some rec"
  shows "load_terminal_turn_blocking C store sid tid (fold (apply_commit C store) cs fs) = Inr (Some rec)"
proof -
  have "holds_terminal C store sid tid rec fs" using assms(2,3) by (auto simp: holds_terminal_def)
  then have "holds_terminal C store sid tid rec (fold (apply_commit C store) cs fs)"
    by (rule fold_commits_hold [OF assms(1)])
  then show ?thesis by (auto simp: holds_terminal_def load_terminal_turn_blocking_def)
qed

text \<open>A codec for examples: the bytes of a state or of a snapshot are that value.\<close>

datatype tagged_bytes = SnapB "sample_json session_snapshot" | StateB nat tagged_bytes "(rstr \<times> terminal_turn_record) list"
  | NoBytes

definition tagged_codec :: "tagged_bytes codec" where
  "tagged_codec = \<lparr>state_to_vec = (\<lambda>st. Inr (StateB (format_version st) (state_snapshot st) (state_terminals st))),
     state_from_slice = (\<lambda>b. case b of
         StateB v s ts \<Rightarrow> Inr \<lparr>format_version = v, state_snapshot = s, state_terminals = ts\<rparr>
       | _ \<Rightarrow> Inl (lit ''bad'')),
     terminal_from_slice = (\<lambda>_. Inl (lit ''bad'')), debug_str = id, empty_bytes = NoBytes\<rparr>"

definition tagged_serde :: "(tagged_bytes, sample_json) serde" where
  "tagged_serde = \<lparr>to_vec = (\<lambda>s. Inr (SnapB s)),
     from_slice = (\<lambda>b. case b of SnapB s \<Rightarrow> Inr s | _ \<Rightarrow> Inl (lit ''bad'')),
     from_str = Some, empty_object = [], raw_object = id\<rparr>"

lemma tagged_roundtrip: "codec_roundtrip tagged_codec"
  by (auto simp: codec_roundtrip_def tagged_codec_def)

theorem committed_terminal_is_immutable_witness:
  "let t = \<lparr>term_turn_id = lit ''t'', request_text = lit ''q'', assistant_text = lit ''a'', stop_reason = None\<rparr>;
       fs = (\<lambda>p. if p = state_path (lit ''s'') then Bytes (StateB 2 NoBytes [(lit ''t'', t)]) else Absent);
       store = \<lparr>root = lit ''/r'', publish_failpoint = 0\<rparr>;
       c = \<lparr>cr_env = calm_env, cr_session = lit ''s'', cr_snapshot = NoBytes,
            cr_terminal = Some (t\<lparr>assistant_text := lit ''b''\<rparr>)\<rparr>
   in load_terminal_turn_blocking tagged_codec store (lit ''s'') (lit ''t'') (fold (apply_commit tagged_codec store) [c, c] fs)
      = Inr (Some t)"
  unfolding Let_def
  by (rule committed_terminal_is_immutable [OF tagged_roundtrip, where st = "\<lparr>format_version = 2,
      state_snapshot = NoBytes, state_terminals = [(lit ''t'', \<lparr>term_turn_id = lit ''t'',
        request_text = lit ''q'', assistant_text = lit ''a'', stop_reason = None\<rparr>)]\<rparr>"])
    (simp_all add: read_state_file_def tagged_codec_def validate_state_def STATE_FORMAT_VERSION_def)

text \<open>
  C14. The engine on the durable store: on the native host, with any sampler and any faults during the turn, a turn that
  reports success is durable; repeating the request replays the same answer without touching the files, and a
  restart restores exactly the state the turn left.
\<close>

theorem native_turn_is_durable:
  assumes "codec_roundtrip C" and "\<And>snap b. to_vec S snap = Inr b \<Longrightarrow> from_slice S b = Inr snap"
    and "submit_turn_with_tools (native_host C store so sn) S req ib d core = Some (d', core', Inr out)"
    and "\<not> replayed out" and "trim (session_id core) \<noteq> []"
  shows "restore_or_new (native_host C store so sn) S (session_id core) (core_config core) d' = Inr core' \<and>
    (\<exists>out'. submit_turn_with_tools (native_host C store so sn) S req ib' d' core' = Some (d', core', Inr out') \<and>
       replayed out' \<and> out_assistant_text out' = out_assistant_text out)"
proof -
  note dh = native_durable [OF assms(1), of store so sn]
  show ?thesis
    using durable_host.restart_after_commit [OF dh assms(3,4,2,5)]
      durable_host.replay_after_commit(1) [OF dh assms(3,4), of ib'] by blast
qed

text \<open>A turn on the native host with a sampler that answers at once.\<close>

definition calm_disk :: "tagged_bytes disk" where
  "calm_disk = \<lparr>disk_files = (\<lambda>_. Absent), disk_envs = (\<lambda>_. calm_env), disk_commits = 0\<rparr>"

definition sample_native :: "(tagged_bytes disk, model_chunk list, tagged_bytes, sample_json) host" where
  "sample_native = native_host tagged_codec \<lparr>root = lit ''/r'', publish_failpoint = 0\<rparr>
     (\<lambda>req d. Some (d, Inr [TextDelta (lit ''ok''), Done None])) echo_next_chunk"

lemma sample_native_turn:
  obtains d' core' out where
    "submit_turn_with_tools sample_native tagged_serde sample_request ib calm_disk sample_core = Some (d', core', Inr out)"
    and "\<not> replayed out"
proof -
  have "\<exists>d' core' out. submit_turn_with_tools sample_native tagged_serde sample_request ib calm_disk sample_core =
       Some (d', core', Inr out) \<and> \<not> replayed out"
    by (simp add: sample_native_def native_host_def tagged_serde_def calm_disk_def sample_core_def sample_request_def
          submit_turn_with_tools_def check_terminal_replay_def core_config_default_def DEFAULT_MAX_TOOL_STEPS_def
          load_terminal_turn_blocking_def read_state_file_def read_legacy_terminal_exact_def default_list_tools_def
          sample_texts run_model_tool_loop_def append_user_row_def Let_def core_trim_def push_item_def short_trim,
        subst tool_loop.simps)
      (simp add: model_step_def after_stream_def core_trim_def push_item_def short_trim commit_turn_def Let_def
        export_snapshot_def native_commit_snapshot_def disk_commit_snapshot_def commit_snapshot_blocking_def
        calm_env_def read_state_file_def accept_terminal_def read_legacy_terminal_exact_def tagged_codec_def
        durable_publish_def write_and_replace_def fails_at_def acquire_def)
  then show thesis using that by blast
qed

theorem native_turn_is_durable_witness:
  "\<exists>d' core' out. submit_turn_with_tools sample_native tagged_serde sample_request (\<lambda>_ _ h. (h, Abort []))
       calm_disk sample_core = Some (d', core', Inr out) \<and>
     restore_or_new sample_native tagged_serde (session_id sample_core) (core_config sample_core) d' = Inr core'"
proof -
  obtain d' core' out where t: "submit_turn_with_tools sample_native tagged_serde sample_request
      (\<lambda>_ _ h. (h, Abort [])) calm_disk sample_core = Some (d', core', Inr out)" "\<not> replayed out"
    by (rule sample_native_turn)
  have "restore_or_new sample_native tagged_serde (session_id sample_core) (core_config sample_core) d' = Inr core'"
    using native_turn_is_durable [OF tagged_roundtrip _ t(1) [unfolded sample_native_def] t(2)]
    by (fastforce simp: tagged_serde_def sample_core_def sample_texts sample_native_def)
  with t(1) show ?thesis by blast
qed

text \<open>
  Session ids that differ only in characters the sanitizer replaces share one directory, and a commit of one is loaded as
  the snapshot of the other: the state file does not record which session it belongs to.
\<close>

lemma sanitized_sessions_collide:
  assumes "codec_roundtrip C" and "disk_commit_snapshot C store env (lit ''a/b'') snapshot terminal fs = (fs', Inr ())"
  shows "disk_load_snapshot C store (lit ''a?b'') fs' = Inr (Some snapshot)"
proof -
  have "sanitize_component (lit ''a/b'') = sanitize_component (lit ''a?b'')"
    by (simp add: sanitize_component_def lit_def is_ascii_alphabetic_def is_ascii_digit_def ch_def)
  then have "state_path (lit ''a/b'') = state_path (lit ''a?b'')" by (simp add: state_path_def session_dir_def)
  with commit_reads [OF assms] show ?thesis by (auto simp: disk_load_snapshot_def)
qed

end
