(* ===== verification/Patch_Parser.thy ===== *)
theory Patch_Parser
  imports Prelude
begin

text \<open>
  The parser of the apply-patch format
  (\<open>packages/tools/xai-grok-tools/src/implementations/codex/apply_patch/parser.rs\<close>, with the error type of
  \<open>errors.rs\<close>).

  The parser works on the lines of the patch and returns, with every hunk and chunk, how many lines it
  consumed.  The two loops that drop consumed lines are recursive functions; that they make
  progress is a law of the interface \<open>line_consumer\<close>, proved for both consumers.  The first property is
  the round trip with a printer of the grammar at the head of \<open>parser.rs\<close>.
\<close>

section \<open>Types and markers\<close>

datatype parse_error = InvalidPatchError rstr | InvalidHunkError rstr nat

definition BEGIN_PATCH_MARKER :: rstr where "BEGIN_PATCH_MARKER = lit ''*** Begin Patch''"
definition END_PATCH_MARKER :: rstr where "END_PATCH_MARKER = lit ''*** End Patch''"
definition ADD_FILE_MARKER :: rstr where "ADD_FILE_MARKER = lit ''*** Add File: ''"
definition DELETE_FILE_MARKER :: rstr where "DELETE_FILE_MARKER = lit ''*** Delete File: ''"
definition UPDATE_FILE_MARKER :: rstr where "UPDATE_FILE_MARKER = lit ''*** Update File: ''"
definition MOVE_TO_MARKER :: rstr where "MOVE_TO_MARKER = lit ''*** Move to: ''"
definition EOF_MARKER :: rstr where "EOF_MARKER = lit ''*** End of File''"
definition CHANGE_CONTEXT_MARKER :: rstr where "CHANGE_CONTEXT_MARKER = lit ''@@ ''"
definition EMPTY_CHANGE_CONTEXT_MARKER :: rstr where "EMPTY_CHANGE_CONTEXT_MARKER = lit ''@@''"

record update_file_chunk =
  change_context :: "rstr option"
  old_lines :: "rstr list"
  new_lines :: "rstr list"
  is_end_of_file :: bool

datatype hunk =
    AddFile rstr rstr
  | DeleteFile rstr
  | UpdateFile rstr "rstr option" "update_file_chunk list"

record parsed_patch =
  hunks :: "hunk list"
  patch :: rstr

datatype parse_mode = Strict | Lenient

section \<open>Chunks of an update\<close>

definition NO_LINES :: rstr where
  "NO_LINES = lit ''Update hunk does not contain any lines''"

text \<open>A single quote, for the messages (Isabelle's string literals cannot hold one).\<close>

abbreviation quote_ch :: uchar where "quote_ch \<equiv> 39"

definition unexpected_line :: "rstr \<Rightarrow> rstr" where
  "unexpected_line line =
     lit ''Unexpected line found in update hunk: '' @ [quote_ch] @ line @ [quote_ch] @
     lit ''. Every line should start with '' @ [quote_ch, 32, quote_ch] @ lit '' (context line), '' @
     [quote_ch] @ lit ''+'' @ [quote_ch] @ lit '' (added line), or '' @
     [quote_ch] @ lit ''-'' @ [quote_ch] @ lit '' (removed line)''"

definition expected_context :: "rstr \<Rightarrow> rstr" where
  "expected_context line =
     lit ''Expected update hunk to start with a @@ context marker, got: '' @ [quote_ch] @ line @ [quote_ch]"

definition invalid_header :: "rstr \<Rightarrow> rstr" where
  "invalid_header line =
     [quote_ch] @ line @ [quote_ch] @ lit '' is not a valid hunk header. Valid hunk headers: '' @
     [quote_ch] @ lit ''*** Add File: {path}'' @ [quote_ch] @ lit '', '' @
     [quote_ch] @ lit ''*** Delete File: {path}'' @ [quote_ch] @ lit '', '' @
     [quote_ch] @ lit ''*** Update File: {path}'' @ [quote_ch]"

definition empty_update :: "rstr \<Rightarrow> rstr" where
  "empty_update path = lit ''Update file hunk for path '' @ [quote_ch] @ path @ [quote_ch] @ lit '' is empty''"

text \<open>The loop over the lines of a chunk, with the chunk so far and the count of parsed lines.\<close>

fun chunk_loop :: "nat \<Rightarrow> rstr list \<Rightarrow> update_file_chunk \<Rightarrow> nat \<Rightarrow> parse_error + update_file_chunk \<times> nat" where
  "chunk_loop line_number [] chunk parsed = Inr (chunk, parsed)"
| "chunk_loop line_number (line # rest) chunk parsed =
     (if line = EOF_MARKER then
        if parsed = 0 then Inl (InvalidHunkError NO_LINES (line_number + 1))
        else Inr (chunk\<lparr>is_end_of_file := True\<rparr>, parsed + 1)
      else case line of
          [] \<Rightarrow> chunk_loop line_number rest
                 (chunk\<lparr>old_lines := old_lines chunk @ [[]], new_lines := new_lines chunk @ [[]]\<rparr>) (parsed + 1)
        | c # contents \<Rightarrow>
            if c = ch CHR '' '' then
              chunk_loop line_number rest
                (chunk\<lparr>old_lines := old_lines chunk @ [contents], new_lines := new_lines chunk @ [contents]\<rparr>)
                (parsed + 1)
            else if c = ch CHR ''+'' then
              chunk_loop line_number rest (chunk\<lparr>new_lines := new_lines chunk @ [contents]\<rparr>) (parsed + 1)
            else if c = ch CHR ''-'' then
              chunk_loop line_number rest (chunk\<lparr>old_lines := old_lines chunk @ [contents]\<rparr>) (parsed + 1)
            else if parsed = 0 then
              Inl (InvalidHunkError (unexpected_line line) (line_number + 1))
            else Inr (chunk, parsed))"

definition empty_chunk :: "rstr option \<Rightarrow> update_file_chunk" where
  "empty_chunk ctx = \<lparr>change_context = ctx, old_lines = [], new_lines = [], is_end_of_file = False\<rparr>"

definition chunk_header :: "rstr \<Rightarrow> nat \<Rightarrow> bool \<Rightarrow> parse_error + rstr option \<times> nat" where
  "chunk_header first line_number allow_missing_context =
     (if first = EMPTY_CHANGE_CONTEXT_MARKER then Inr (None, 1)
      else case strip_prefix first CHANGE_CONTEXT_MARKER of
          Some context \<Rightarrow> Inr (Some context, 1)
        | None \<Rightarrow>
            if \<not> allow_missing_context then Inl (InvalidHunkError (expected_context first) line_number)
            else Inr (None, 0))"

definition parse_update_file_chunk :: "rstr list \<Rightarrow> nat \<Rightarrow> bool \<Rightarrow> parse_error + update_file_chunk \<times> nat" where
  "parse_update_file_chunk lines line_number allow_missing_context =
     (if lines = [] then Inl (InvalidHunkError NO_LINES line_number)
      else case chunk_header (hd lines) line_number allow_missing_context of
          Inl e \<Rightarrow> Inl e
        | Inr (ctx, start_index) \<Rightarrow>
            if start_index \<ge> length lines then Inl (InvalidHunkError NO_LINES (line_number + 1))
            else (case chunk_loop line_number (drop start_index lines) (empty_chunk ctx) 0 of
                    Inl e \<Rightarrow> Inl e
                  | Inr (chunk, parsed) \<Rightarrow> Inr (chunk, parsed + start_index)))"

section \<open>Progress\<close>

text \<open>
  What the loops over hunks and over chunks need of the function they call: on a non-empty input it consumes at
  least one line and no more than there are.
\<close>

locale line_consumer =
  fixes consume :: "rstr list \<Rightarrow> parse_error + 'a \<times> nat"
  assumes consumes: "lines \<noteq> [] \<Longrightarrow> consume lines = Inr (x, k) \<Longrightarrow> 1 \<le> k \<and> k \<le> length lines"
begin

lemma rest_is_shorter: "lines \<noteq> [] \<Longrightarrow> consume lines = Inr (x, k) \<Longrightarrow> length (drop k lines) < length lines"
  using consumes by fastforce

lemma lines_split: "lines \<noteq> [] \<Longrightarrow> consume lines = Inr (x, k) \<Longrightarrow> take k lines \<noteq> [] \<and> length (take k lines) = k"
  using consumes by fastforce

end

lemma chunk_loop_count:
  "chunk_loop ln lines c parsed = Inr (c', n) \<Longrightarrow> parsed \<le> n \<and> n \<le> parsed + length lines \<and> (lines \<noteq> [] \<and> parsed = 0 \<longrightarrow> 1 \<le> n)"
proof (induction ln lines c parsed rule: chunk_loop.induct)
  case (2 ln line rest chunk parsed)
  then show ?case by (fastforce split: if_splits list.splits)
qed simp

interpretation chunk: line_consumer "\<lambda>lines. parse_update_file_chunk lines line_number allow" for line_number allow
proof
  fix lines :: "rstr list" and c k
  assume ne: "lines \<noteq> []" and p: "parse_update_file_chunk lines line_number allow = Inr (c, k)"
  then obtain ctx i where h: "chunk_header (hd lines) line_number allow = Inr (ctx, i)" and i: "i < length lines"
    by (auto simp: parse_update_file_chunk_def split: if_splits sum.splits)
  then obtain n where "k = n + i" and "chunk_loop line_number (drop i lines) (empty_chunk ctx) 0 = Inr (c, n)"
    using p ne by (auto simp: parse_update_file_chunk_def split: sum.splits)
  then show "1 \<le> k \<and> k \<le> length lines"
    using i chunk_loop_count [of line_number "drop i lines" "empty_chunk ctx" 0 c n] by auto
qed

section \<open>Hunks\<close>

text \<open>The loop over the chunks of an update: blank lines are skipped, a line starting with \<open>***\<close> ends it.\<close>

function chunks_loop :: "nat \<Rightarrow> rstr list \<Rightarrow> nat \<Rightarrow> update_file_chunk list \<Rightarrow>
    parse_error + update_file_chunk list \<times> nat" where
  "chunks_loop line_number remaining parsed chunks =
     (if remaining = [] then Inr (chunks, parsed)
      else if trim (hd remaining) = [] then chunks_loop line_number (tl remaining) (parsed + 1) chunks
      else if starts_with (hd remaining) (lit ''***'') then Inr (chunks, parsed)
      else case parse_update_file_chunk remaining (line_number + parsed) (chunks = []) of
          Inl e \<Rightarrow> Inl e
        | Inr (chunk, k) \<Rightarrow> chunks_loop line_number (drop k remaining) (parsed + k) (chunks @ [chunk]))"
  by pat_completeness auto
termination
  by (relation "measure (\<lambda>(ln, remaining, parsed, chunks). length remaining)")
    (auto dest: chunk.rest_is_shorter simp: less_diff_conv)

declare chunks_loop.simps [simp del]

text \<open>The loop over the added lines: their contents, each with its line feed, and how many there are.\<close>

fun add_loop :: "rstr list \<Rightarrow> rstr \<Rightarrow> nat \<Rightarrow> rstr \<times> nat" where
  "add_loop [] contents parsed = (contents, parsed)"
| "add_loop (line # rest) contents parsed =
     (case strip_prefix line (lit ''+'') of
        Some line_to_add \<Rightarrow> add_loop rest (contents @ line_to_add @ [newline_ch]) (parsed + 1)
      | None \<Rightarrow> (contents, parsed))"

text \<open>The update branch of \<open>parse_one_hunk\<close>, after its header.\<close>

definition parse_update :: "rstr \<Rightarrow> rstr list \<Rightarrow> nat \<Rightarrow> parse_error + hunk \<times> nat" where
  "parse_update path remaining line_number =
     (let move_path = (case remaining of [] \<Rightarrow> None | x # _ \<Rightarrow> strip_prefix x MOVE_TO_MARKER);
          remaining = (if move_path \<noteq> None then tl remaining else remaining);
          parsed = (if move_path \<noteq> None then 2 else 1)
      in case chunks_loop line_number remaining parsed [] of
           Inl e \<Rightarrow> Inl e
         | Inr (chunks, parsed) \<Rightarrow>
             if chunks = [] then Inl (InvalidHunkError (empty_update path) line_number)
             else Inr (UpdateFile path move_path chunks, parsed))"

definition parse_one_hunk :: "rstr list \<Rightarrow> nat \<Rightarrow> parse_error + hunk \<times> nat" where
  "parse_one_hunk lines line_number =
     (let first_line = trim (hd lines)
      in case strip_prefix first_line ADD_FILE_MARKER of
           Some path \<Rightarrow> (let (contents, parsed) = add_loop (tl lines) [] 1 in Inr (AddFile path contents, parsed))
         | None \<Rightarrow>
             (case strip_prefix first_line DELETE_FILE_MARKER of
                Some path \<Rightarrow> Inr (DeleteFile path, 1)
              | None \<Rightarrow>
                  (case strip_prefix first_line UPDATE_FILE_MARKER of
                     Some path \<Rightarrow> parse_update path (tl lines) line_number
                   | None \<Rightarrow> Inl (InvalidHunkError (invalid_header first_line) line_number))))"

lemma chunks_loop_count:
  "chunks_loop ln lines parsed cs = Inr (cs', n) \<Longrightarrow> parsed \<le> n \<and> n \<le> parsed + length lines"
proof (induction ln lines parsed cs rule: chunks_loop.induct)
  case (1 ln lines parsed cs)
  note step = 1(3) [unfolded chunks_loop.simps [of ln lines]]
  consider (nil) "lines = []" | (blank) "lines \<noteq> []" "trim (hd lines) = []"
    | (header) "lines \<noteq> []" "trim (hd lines) \<noteq> []" "starts_with (hd lines) (lit ''***'')"
    | (chunk) "lines \<noteq> []" "trim (hd lines) \<noteq> []" "\<not> starts_with (hd lines) (lit ''***'')"
    by blast
  then show ?case
  proof cases
    case blank
    with 1(1) step show ?thesis by (cases lines) auto
  next
    case chunk
    then obtain c k where p: "parse_update_file_chunk lines (ln + parsed) (cs = []) = Inr (c, k)"
      using step by (auto split: sum.splits)
    have "k \<le> length lines" using chunk.consumes [OF chunk(1) p] by simp
    moreover have "parsed + k \<le> n \<and> n \<le> parsed + k + length (drop k lines)"
      by (rule 1(2) [OF chunk p refl]) (use step chunk p in simp)
    ultimately show ?thesis by simp
  qed (use step in simp_all)
qed

lemma add_loop_count: "add_loop lines c parsed = (c', n) \<Longrightarrow> parsed \<le> n \<and> n \<le> parsed + length lines"
  by (induction lines c parsed rule: add_loop.induct) (fastforce split: option.splits)+

lemma parse_update_count: "parse_update path lines ln = Inr (h, k) \<Longrightarrow> 1 \<le> k \<and> k \<le> 1 + length lines"
proof -
  assume p: "parse_update path lines ln = Inr (h, k)"
  let ?m = "case lines of [] \<Rightarrow> None | x # _ \<Rightarrow> strip_prefix x MOVE_TO_MARKER"
  show ?thesis
  proof (cases ?m)
    case None
    then obtain cs where "chunks_loop ln lines 1 [] = Inr (cs, k)"
      using p by (auto simp: parse_update_def Let_def split: sum.splits prod.splits if_splits)
    from chunks_loop_count [OF this] show ?thesis by simp
  next
    case (Some to)
    then obtain cs where "chunks_loop ln (tl lines) 2 [] = Inr (cs, k)" and "lines \<noteq> []"
      using p by (cases lines) (auto simp: parse_update_def Let_def split: sum.splits prod.splits if_splits)
    with chunks_loop_count [OF this(1)] show ?thesis by (cases lines) auto
  qed
qed

interpretation hunk: line_consumer "\<lambda>lines. parse_one_hunk lines line_number" for line_number
proof
  fix lines :: "rstr list" and h k
  assume ne: "lines \<noteq> []" and p: "parse_one_hunk lines line_number = Inr (h, k)"
  then have len: "length lines = Suc (length (tl lines))" by (cases lines) auto
  show "1 \<le> k \<and> k \<le> length lines"
  proof (cases "strip_prefix (trim (hd lines)) ADD_FILE_MARKER")
    case (Some path)
    then obtain c where "add_loop (tl lines) [] 1 = (c, k)"
      using p by (auto simp: parse_one_hunk_def Let_def split: prod.splits)
    then show ?thesis using add_loop_count len by fastforce
  next
    case None
    then have "k = 1 \<or> (\<exists>path. parse_update path (tl lines) line_number = Inr (h, k))"
      using p by (auto simp: parse_one_hunk_def Let_def split: option.splits)
    then show ?thesis using parse_update_count len by fastforce
  qed
qed

section \<open>Patches\<close>

function hunks_loop :: "nat \<Rightarrow> rstr list \<Rightarrow> hunk list \<Rightarrow> parse_error + hunk list" where
  "hunks_loop line_number remaining acc =
     (if remaining = [] then Inr acc
      else case parse_one_hunk remaining line_number of
          Inl e \<Rightarrow> Inl e
        | Inr (hunk, hunk_lines) \<Rightarrow> hunks_loop (line_number + hunk_lines) (drop hunk_lines remaining) (acc @ [hunk]))"
  by pat_completeness auto
termination
  by (relation "measure (\<lambda>(ln, remaining, acc). length remaining)") (auto dest: hunk.rest_is_shorter simp: less_diff_conv)

declare hunks_loop.simps [simp del]

definition FIRST_LINE_MSG :: rstr where
  "FIRST_LINE_MSG = lit ''The first line of the patch must be '' @ [quote_ch] @ BEGIN_PATCH_MARKER @ [quote_ch]"

definition LAST_LINE_MSG :: rstr where
  "LAST_LINE_MSG = lit ''The last line of the patch must be '' @ [quote_ch] @ END_PATCH_MARKER @ [quote_ch]"

definition check_start_and_end_lines_strict :: "rstr option \<Rightarrow> rstr option \<Rightarrow> parse_error + unit" where
  "check_start_and_end_lines_strict first_line last_line =
     (let first_line = map_option trim first_line; last_line = map_option trim last_line
      in if first_line = Some BEGIN_PATCH_MARKER \<and> last_line = Some END_PATCH_MARKER then Inr ()
         else if first_line \<noteq> None \<and> first_line \<noteq> Some BEGIN_PATCH_MARKER then Inl (InvalidPatchError FIRST_LINE_MSG)
         else Inl (InvalidPatchError LAST_LINE_MSG))"

definition check_patch_boundaries_strict :: "rstr list \<Rightarrow> parse_error + unit" where
  "check_patch_boundaries_strict lines =
     (if lines = [] then check_start_and_end_lines_strict None None
      else check_start_and_end_lines_strict (Some (hd lines)) (Some (last lines)))"

definition is_heredoc_start :: "rstr \<Rightarrow> bool" where
  "is_heredoc_start l \<longleftrightarrow>
     l = lit ''<<EOF'' \<or> l = lit ''<<'' @ [quote_ch] @ lit ''EOF'' @ [quote_ch] \<or> l = lit ''<<'' @ [34] @ lit ''EOF'' @ [34]"

definition check_patch_boundaries_lenient :: "rstr list \<Rightarrow> parse_error \<Rightarrow> parse_error + rstr list" where
  "check_patch_boundaries_lenient original_lines original_parse_error =
     (if length original_lines \<ge> 2 then
        if is_heredoc_start (hd original_lines) \<and> ends_with (last original_lines) (lit ''EOF'') \<and> length original_lines \<ge> 4
        then (let inner_lines = butlast (tl original_lines)
              in case check_patch_boundaries_strict inner_lines of Inr _ \<Rightarrow> Inr inner_lines | Inl e \<Rightarrow> Inl e)
        else Inl original_parse_error
      else Inl original_parse_error)"

definition patch_body :: "rstr list \<Rightarrow> parse_mode \<Rightarrow> parse_error + rstr list" where
  "patch_body lines mode =
     (case check_patch_boundaries_strict lines of
        Inr _ \<Rightarrow> Inr lines
      | Inl e \<Rightarrow> (case mode of Strict \<Rightarrow> Inl e | Lenient \<Rightarrow> check_patch_boundaries_lenient lines e))"

definition parse_patch_text :: "rstr \<Rightarrow> parse_mode \<Rightarrow> parse_error + parsed_patch" where
  "parse_patch_text patch_text mode =
     (case patch_body (str_lines (trim patch_text)) mode of
        Inl e \<Rightarrow> Inl e
      | Inr lines \<Rightarrow>
          (case hunks_loop 2 (butlast (tl lines)) [] of
             Inl e \<Rightarrow> Inl e
           | Inr hs \<Rightarrow> Inr \<lparr>hunks = hs, patch = join [newline_ch] lines\<rparr>))"

definition PARSE_IN_STRICT_MODE :: bool where "PARSE_IN_STRICT_MODE = False"

definition parse_patch :: "rstr \<Rightarrow> parse_error + parsed_patch" where
  "parse_patch p = parse_patch_text p (if PARSE_IN_STRICT_MODE then Strict else Lenient)"

section \<open>Printing\<close>

text \<open>The lines of a chunk, a hunk and a patch in the grammar of \<open>parser.rs\<close>.\<close>

definition print_chunk :: "update_file_chunk \<Rightarrow> rstr list" where
  "print_chunk c =
     (case change_context c of None \<Rightarrow> EMPTY_CHANGE_CONTEXT_MARKER | Some ctx \<Rightarrow> CHANGE_CONTEXT_MARKER @ ctx) #
     map (Cons (ch CHR ''-'')) (old_lines c) @ map (Cons (ch CHR ''+'')) (new_lines c) @
     (if is_end_of_file c then [EOF_MARKER] else [])"

definition file_lines :: "rstr \<Rightarrow> rstr list" where
  "file_lines contents = butlast (split_on newline_ch contents)"

fun print_hunk :: "hunk \<Rightarrow> rstr list" where
  "print_hunk (AddFile path contents) = (ADD_FILE_MARKER @ path) # map (Cons (ch CHR ''+'')) (file_lines contents)"
| "print_hunk (DeleteFile path) = [DELETE_FILE_MARKER @ path]"
| "print_hunk (UpdateFile path move_path chunks) =
     (UPDATE_FILE_MARKER @ path) # (case move_path of None \<Rightarrow> [] | Some to \<Rightarrow> [MOVE_TO_MARKER @ to]) @
     concat (map print_chunk chunks)"

definition print_lines :: "hunk list \<Rightarrow> rstr list" where
  "print_lines hs = BEGIN_PATCH_MARKER # concat (map print_hunk hs) @ [END_PATCH_MARKER]"

definition print_patch :: "hunk list \<Rightarrow> rstr" where
  "print_patch hs = join [newline_ch] (print_lines hs)"

text \<open>
  What can be printed: one-line texts that do not end in a carriage return (\<open>lines\<close> would take it for a line
  ending), paths that are not empty and do not end in white space (the header is trimmed), added files that are
  empty or end in a line feed, updates with a chunk and chunks with a line.
\<close>

definition one_line :: "rstr \<Rightarrow> bool" where
  "one_line s \<longleftrightarrow> newline_ch \<notin> set s \<and> strip_cr s = s"

definition path_ok :: "rstr \<Rightarrow> bool" where
  "path_ok s \<longleftrightarrow> s \<noteq> [] \<and> newline_ch \<notin> set s \<and> \<not> is_whitespace (last s)"

definition chunk_ok :: "update_file_chunk \<Rightarrow> bool" where
  "chunk_ok c \<longleftrightarrow>
     old_lines c @ new_lines c \<noteq> [] \<and> list_all one_line (old_lines c @ new_lines c) \<and>
     (case change_context c of None \<Rightarrow> True | Some ctx \<Rightarrow> one_line ctx)"

fun hunk_ok :: "hunk \<Rightarrow> bool" where
  "hunk_ok (AddFile path contents) \<longleftrightarrow>
     path_ok path \<and> list_all one_line (file_lines contents) \<and> (contents = [] \<or> last contents = newline_ch)"
| "hunk_ok (DeleteFile path) \<longleftrightarrow> path_ok path"
| "hunk_ok (UpdateFile path move_path chunks) \<longleftrightarrow>
     path_ok path \<and> (case move_path of None \<Rightarrow> True | Some to \<Rightarrow> one_line to) \<and> chunks \<noteq> [] \<and> list_all chunk_ok chunks"

subsection \<open>Chunks\<close>

lemma marker_chars [simp]:
  "ch CHR ''-'' = 45" "ch CHR ''+'' = 43" "ch CHR '' '' = 32"
  by (simp_all add: ch_def)

lemma markers [text_simps]:
  "EOF_MARKER = 42 # lit ''** End of File''"
  "EMPTY_CHANGE_CONTEXT_MARKER = [64, 64]" "CHANGE_CONTEXT_MARKER = [64, 64, 32]"
  "BEGIN_PATCH_MARKER = 42 # lit ''** Begin Patch''" "END_PATCH_MARKER = 42 # lit ''** End Patch''"
  "ADD_FILE_MARKER = 42 # lit ''** Add File: ''" "DELETE_FILE_MARKER = 42 # lit ''** Delete File: ''"
  "UPDATE_FILE_MARKER = 42 # lit ''** Update File: ''" "MOVE_TO_MARKER = 42 # lit ''** Move to: ''"
  by (simp_all add: EOF_MARKER_def EMPTY_CHANGE_CONTEXT_MARKER_def CHANGE_CONTEXT_MARKER_def BEGIN_PATCH_MARKER_def
      END_PATCH_MARKER_def ADD_FILE_MARKER_def DELETE_FILE_MARKER_def UPDATE_FILE_MARKER_def MOVE_TO_MARKER_def lit_def)

lemma chunk_loop_old:
  "chunk_loop ln (map (Cons 45) ls @ rest) c p = chunk_loop ln rest (c\<lparr>old_lines := old_lines c @ ls\<rparr>) (p + length ls)"
  by (induction ls arbitrary: c p) (simp_all add: text_simps)

lemma chunk_loop_new:
  "chunk_loop ln (map (Cons 43) ls @ rest) c p = chunk_loop ln rest (c\<lparr>new_lines := new_lines c @ ls\<rparr>) (p + length ls)"
  by (induction ls arbitrary: c p) (simp_all add: text_simps)

text \<open>A line that ends a chunk without belonging to it.\<close>

definition stops_chunk :: "rstr list \<Rightarrow> bool" where
  "stops_chunk rest \<longleftrightarrow>
     rest = [] \<or> (\<exists>c l. hd rest = c # l \<and> (c = 64 \<or> (c = 42 \<and> hd rest \<noteq> EOF_MARKER)))"

lemma chunk_loop_stops: "stops_chunk rest \<Longrightarrow> 0 < p \<Longrightarrow> chunk_loop ln rest c p = Inr (c, p)"
  by (cases rest) (auto simp: stops_chunk_def text_simps)

lemma chunk_loop_body:
  assumes "old_lines c @ new_lines c \<noteq> []" and "is_end_of_file c \<or> stops_chunk rest"
  shows "chunk_loop ln (tl (print_chunk c) @ rest) (empty_chunk (change_context c)) 0 =
    Inr (c, length (tl (print_chunk c)))"
proof -
  have "0 < length (old_lines c) + length (new_lines c)" using assms(1) by auto
  with assms(2) show ?thesis
    by (cases "is_end_of_file c") (auto simp: print_chunk_def chunk_loop_old chunk_loop_new chunk_loop_stops empty_chunk_def)
qed

lemma chunk_header_print:
  "chunk_header (hd (print_chunk c)) ln allow = Inr (change_context c, 1)"
  by (cases "change_context c") (simp_all add: chunk_header_def print_chunk_def, simp add: text_simps)

lemma parse_print_chunk:
  assumes "chunk_ok c" and "is_end_of_file c \<or> stops_chunk rest"
  shows "parse_update_file_chunk (print_chunk c @ rest) ln allow = Inr (c, length (print_chunk c))"
proof -
  obtain h b where p: "print_chunk c = h # b" by (simp add: print_chunk_def)
  then have "b \<noteq> []" using assms(1) by (auto simp: print_chunk_def chunk_ok_def)
  moreover have "chunk_header h ln allow = Inr (change_context c, 1)"
    using chunk_header_print [of c] p by simp
  moreover have "chunk_loop ln (b @ rest) (empty_chunk (change_context c)) 0 = Inr (c, length b)"
    using chunk_loop_body [of c rest ln] assms p by (simp add: chunk_ok_def)
  ultimately show ?thesis by (simp add: p parse_update_file_chunk_def)
qed

subsection \<open>Hunks\<close>

text \<open>A line that starts a hunk, or the end of the lines.\<close>

definition at_header :: "rstr list \<Rightarrow> bool" where
  "at_header rest \<longleftrightarrow> rest = [] \<or> (starts_with (hd rest) (lit ''***'') \<and> hd rest \<noteq> EOF_MARKER)"

lemma prefix_stars: "starts_with l (lit ''***'') \<longleftrightarrow> (\<exists>r. l = 42 # 42 # 42 # r)"
  by (auto simp: starts_with_def prefix_def lit_def)

lemma stars_not_blank: "trim (42 # l) \<noteq> []" "trim (64 # l) \<noteq> []"
  using trim_end_append [of "[42]" l] trim_end_append [of "[64]" l]
  by (auto simp: trim_def is_whitespace_def trim_end_singleton split: if_splits)

lemma at_header_stops: "at_header rest \<Longrightarrow> stops_chunk rest"
  by (auto simp: at_header_def stops_chunk_def prefix_stars)

lemma stops_at_context [simp]: "stops_chunk ((64 # l) # r)"
  by (simp add: stops_chunk_def)

lemma print_chunks_stop: "at_header rest \<Longrightarrow> stops_chunk (concat (map print_chunk cs) @ rest)"
  by (cases cs) (auto simp: at_header_stops print_chunk_def text_simps split: option.splits)

lemma chunks_loop_print:
  "list_all chunk_ok cs \<Longrightarrow> at_header rest \<Longrightarrow>
     chunks_loop ln (concat (map print_chunk cs) @ rest) p acc =
       Inr (acc @ cs, p + length (concat (map print_chunk cs)))"
proof (induction cs arbitrary: p acc)
  case Nil
  then show ?case
    by (subst chunks_loop.simps) (auto simp: at_header_def prefix_stars stars_not_blank)
next
  case (Cons c cs)
  let ?rest = "concat (map print_chunk cs) @ rest"
  have parse: "parse_update_file_chunk (print_chunk c @ ?rest) k a = Inr (c, length (print_chunk c))" for k a
    by (rule parse_print_chunk) (use Cons.prems print_chunks_stop in auto)
  obtain h b where p: "print_chunk c = (64 # h) # b"
    by (cases "change_context c") (auto simp: print_chunk_def text_simps)
  have "chunks_loop ln (print_chunk c @ ?rest) p acc = chunks_loop ln ?rest (p + length (print_chunk c)) (acc @ [c])"
    using parse p by (subst chunks_loop.simps) (simp add: stars_not_blank prefix_stars)
  then show ?case using Cons by simp
qed

lemma add_loop_print:
  "rest = [] \<or> hd rest = [] \<or> hd (hd rest) \<noteq> 43 \<Longrightarrow>
     add_loop (map (Cons 43) ls @ rest) acc p = (acc @ concat (map (\<lambda>l. l @ [newline_ch]) ls), p + length ls)"
proof (induction ls arbitrary: acc p)
  case Nil
  then show ?case by (cases rest; cases "hd rest") (auto simp: strip_prefix_def prefix_def lit_def)
next
  case (Cons l ls)
  then show ?case by (simp add: strip_prefix_def lit_def)
qed

lemma split_on_snoc: "split_on c (s @ [c]) = split_on c s @ [[]]"
  by (induction s) (auto split: list.splits)

lemma file_lines_concat:
  "contents = [] \<or> last contents = newline_ch \<Longrightarrow>
     concat (map (\<lambda>l. l @ [newline_ch]) (file_lines contents)) = contents"
proof -
  assume contents: "contents = [] \<or> last contents = newline_ch"
  have join: "join [c] ps = concat (map (\<lambda>l. l @ [c]) (butlast ps)) @ last ps" if "ps \<noteq> []" for c and ps :: "rstr list"
    using that by (induction "[c]" ps rule: join.induct) auto
  have "last (split_on newline_ch contents) = []"
    using contents by (cases contents rule: rev_cases) (auto simp: split_on_snoc)
  then show ?thesis using join [of "split_on newline_ch contents" newline_ch] by (simp add: file_lines_def join_split_on)
qed

lemma trim_header: "path_ok path \<Longrightarrow> trim (42 # m @ path) = 42 # m @ path"
proof -
  assume "path_ok path"
  then have "trim_end path = path" and "path \<noteq> []"
    by (cases path rule: rev_cases; simp add: path_ok_def trim_end_def trim_end_matches_def)+
  then show ?thesis using trim_end_append [of "42 # m" path] by (simp add: trim_def is_whitespace_def)
qed

lemma header_markers [simp]:
  "strip_prefix (DELETE_FILE_MARKER @ path) ADD_FILE_MARKER = None"
  "strip_prefix (UPDATE_FILE_MARKER @ path) ADD_FILE_MARKER = None"
  "strip_prefix (UPDATE_FILE_MARKER @ path) DELETE_FILE_MARKER = None"
  by (simp_all add: strip_prefix_def text_simps lit_def)

lemma trim_markers [simp]:
  "path_ok path \<Longrightarrow> trim (ADD_FILE_MARKER @ path) = ADD_FILE_MARKER @ path"
  "path_ok path \<Longrightarrow> trim (DELETE_FILE_MARKER @ path) = DELETE_FILE_MARKER @ path"
  "path_ok path \<Longrightarrow> trim (UPDATE_FILE_MARKER @ path) = UPDATE_FILE_MARKER @ path"
  by (simp_all add: text_simps trim_header)

lemma chunks_not_moves:
  assumes "cs \<noteq> []"
  shows "\<exists>l r. concat (map print_chunk cs) @ rest = (64 # l) # r"
  using assms by (cases cs) (auto simp: print_chunk_def text_simps split: option.splits)

lemma parse_print_hunk:
  assumes "hunk_ok h" and "at_header rest"
  shows "parse_one_hunk (print_hunk h @ rest) ln = Inr (h, length (print_hunk h))"
proof (cases h)
  case (AddFile path contents)
  have "rest = [] \<or> hd rest = [] \<or> hd (hd rest) \<noteq> 43" using assms(2) by (auto simp: at_header_def prefix_stars)
  with AddFile assms(1) show ?thesis
    by (simp add: parse_one_hunk_def add_loop_print file_lines_concat)
next
  case (DeleteFile path)
  with assms(1) show ?thesis by (simp add: parse_one_hunk_def)
next
  case (UpdateFile path move_path cs)
  then have loop: "chunks_loop ln (concat (map print_chunk cs) @ rest) p [] =
      Inr (cs, p + length (concat (map print_chunk cs)))" for p
    using chunks_loop_print assms by simp
  have cs: "cs \<noteq> []" and path: "path_ok path" using assms(1) UpdateFile by auto
  obtain l r where first: "concat (map print_chunk cs) @ rest = (64 # l) # r" using chunks_not_moves [OF cs] by blast
  have no_move: "strip_prefix (64 # l) MOVE_TO_MARKER = None" by (simp add: strip_prefix_def text_simps)
  show ?thesis
  proof (cases move_path)
    case None
    have "parse_update path (concat (map print_chunk cs) @ rest) ln =
        Inr (UpdateFile path None cs, 1 + length (concat (map print_chunk cs)))"
      using loop [of 1] cs by (simp add: parse_update_def first no_move)
    with None UpdateFile path show ?thesis by (simp add: parse_one_hunk_def)
  next
    case (Some to)
    have "parse_update path ((MOVE_TO_MARKER @ to) # concat (map print_chunk cs) @ rest) ln =
        Inr (UpdateFile path (Some to) cs, 2 + length (concat (map print_chunk cs)))"
      using loop [of 2] cs by (simp add: parse_update_def)
    with Some UpdateFile path show ?thesis by (simp add: parse_one_hunk_def)
  qed
qed

subsection \<open>Patches\<close>

lemma print_hunk_header:
  assumes "hunk_ok h"
  shows "\<exists>l r. print_hunk h = (42 # 42 # 42 # l) # r \<and> 42 # 42 # 42 # l \<noteq> EOF_MARKER"
  by (cases h) (simp_all add: text_simps lit_def)

lemma print_hunks_at_header: "list_all hunk_ok hs \<Longrightarrow> at_header (concat (map print_hunk hs))"
  using print_hunk_header by (cases hs) (fastforce simp: at_header_def prefix_stars)+

lemma hunks_loop_print:
  "list_all hunk_ok hs \<Longrightarrow> hunks_loop ln (concat (map print_hunk hs)) acc = Inr (acc @ hs)"
proof (induction hs arbitrary: ln acc)
  case (Cons h hs)
  let ?rest = "concat (map print_hunk hs)"
  have "parse_one_hunk (print_hunk h @ ?rest) ln = Inr (h, length (print_hunk h))"
    by (rule parse_print_hunk) (use Cons.prems print_hunks_at_header in auto)
  moreover have "print_hunk h \<noteq> []" using print_hunk_header [of h] Cons.prems by auto
  ultimately have "hunks_loop ln (print_hunk h @ ?rest) acc = hunks_loop (ln + length (print_hunk h)) ?rest (acc @ [h])"
    by (subst hunks_loop.simps) simp
  with Cons show ?case by simp
qed (simp add: hunks_loop.simps)

lemma one_line_append: "one_line s \<Longrightarrow> newline_ch \<notin> set m \<Longrightarrow> m \<noteq> [] \<Longrightarrow> last m \<noteq> cr_ch \<Longrightarrow> one_line (m @ s)"
  by (cases s rule: rev_cases) (auto simp: one_line_def strip_cr_def)

lemma one_line_path: "path_ok s \<Longrightarrow> newline_ch \<notin> set m \<Longrightarrow> one_line (m @ s)"
  by (auto simp: path_ok_def one_line_def strip_cr_def is_whitespace_def)

lemma one_line_fixed_markers [simp]:
  "one_line EOF_MARKER" "one_line BEGIN_PATCH_MARKER" "one_line END_PATCH_MARKER" "one_line EMPTY_CHANGE_CONTEXT_MARKER"
  by (simp_all add: one_line_def strip_cr_def text_simps lit_def)

lemma one_line_prefixed [simp]:
  assumes "one_line s"
  shows "one_line (MOVE_TO_MARKER @ s)" "one_line (CHANGE_CONTEXT_MARKER @ s)" "one_line (45 # s)" "one_line (43 # s)"
  using one_line_append [OF assms, of MOVE_TO_MARKER] one_line_append [OF assms, of CHANGE_CONTEXT_MARKER]
    one_line_append [OF assms, of "[45]"] one_line_append [OF assms, of "[43]"]
  by (simp_all add: text_simps lit_def)

lemma one_line_headers [simp]:
  assumes "path_ok s"
  shows "one_line (ADD_FILE_MARKER @ s)" "one_line (DELETE_FILE_MARKER @ s)" "one_line (UPDATE_FILE_MARKER @ s)"
  by (rule one_line_path [OF assms], simp add: text_simps lit_def)+

lemma one_line_chunk: "chunk_ok c \<Longrightarrow> list_all one_line (print_chunk c)"
  by (auto simp: chunk_ok_def print_chunk_def list_all_iff split: option.splits)

lemma one_line_hunk: "hunk_ok h \<Longrightarrow> list_all one_line (print_hunk h)"
  using one_line_chunk by (cases h) (fastforce simp: list_all_iff split: option.splits)+

lemma one_line_patch: "list_all hunk_ok hs \<Longrightarrow> list_all one_line (print_lines hs)"
  using one_line_hunk by (fastforce simp: print_lines_def list_all_iff)

lemma str_lines_join:
  assumes "list_all one_line ls" and "ls \<noteq> []" and "last ls \<noteq> []"
  shows "str_lines (join [newline_ch] ls) = ls"
proof -
  have "split_on newline_ch (join [newline_ch] ls) = ls"
    by (rule split_on_join) (use assms in \<open>auto simp: list_all_iff one_line_def\<close>)
  moreover have "map strip_cr (butlast ls) = butlast ls"
    by (rule map_idI) (use assms(1) in \<open>auto simp: list_all_iff one_line_def dest: in_set_butlastD\<close>)
  ultimately show ?thesis using assms(2, 3) by (simp add: str_lines_def)
qed

lemma join_snoc: "ps \<noteq> [] \<Longrightarrow> join sep (ps @ [q]) = join sep ps @ sep @ q"
  by (induction sep ps rule: join.induct) auto

lemma join_Cons: "ps \<noteq> [] \<Longrightarrow> join sep (p # ps) = p @ sep @ join sep ps"
  by (cases ps) auto

lemma print_patch_trimmed: "trim (print_patch hs) = print_patch hs"
proof -
  have "print_patch hs = join [newline_ch] (BEGIN_PATCH_MARKER # concat (map print_hunk hs)) @ newline_ch # END_PATCH_MARKER"
    using join_snoc [of "BEGIN_PATCH_MARKER # concat (map print_hunk hs)" "[newline_ch]" END_PATCH_MARKER]
    by (simp add: print_patch_def print_lines_def)
  moreover have "\<exists>s. print_patch hs = 42 # s"
    using join_Cons [of "concat (map print_hunk hs) @ [END_PATCH_MARKER]"]
    by (simp add: print_patch_def print_lines_def) (simp add: text_simps)
  moreover have "trim_end END_PATCH_MARKER = END_PATCH_MARKER"
    by (simp add: text_simps lit_def trim_end_def trim_end_matches_def is_whitespace_def)
  ultimately show ?thesis
    using trim_end_append [of "join [newline_ch] (BEGIN_PATCH_MARKER # concat (map print_hunk hs)) @ [newline_ch]" END_PATCH_MARKER]
    by (auto simp: trim_def is_whitespace_def text_simps)
qed

lemma boundaries_print: "check_patch_boundaries_strict (print_lines hs) = Inr ()"
proof -
  have "trim BEGIN_PATCH_MARKER = BEGIN_PATCH_MARKER" "trim END_PATCH_MARKER = END_PATCH_MARKER"
    by (simp_all add: text_simps lit_def trim_def trim_end_def trim_end_matches_def is_whitespace_def)
  then show ?thesis
    by (simp add: check_patch_boundaries_strict_def check_start_and_end_lines_strict_def print_lines_def)
qed

lemma parse_printed:
  assumes "list_all hunk_ok hs"
  shows "parse_patch (print_patch hs) = Inr \<lparr>hunks = hs, patch = print_patch hs\<rparr>"
proof -
  have "str_lines (print_patch hs) = print_lines hs"
    unfolding print_patch_def
    by (rule str_lines_join) (use one_line_patch [OF assms] in \<open>auto simp: print_lines_def text_simps\<close>)
  moreover have "butlast (tl (print_lines hs)) = concat (map print_hunk hs)" by (simp add: print_lines_def)
  ultimately show ?thesis
    using boundaries_print [of hs] hunks_loop_print [OF assms, of 2 "[]"]
    by (simp add: parse_patch_def parse_patch_text_def patch_body_def print_patch_trimmed) (simp add: print_patch_def)
qed

text \<open>
  C36. Parsing what the grammar prints gives back the hunks: for every list of hunks that can be printed, \<open>parse_patch\<close>
  of the printed patch returns exactly those hunks and the patch text itself, so no hunk, chunk, context, line or
  end-of-file mark is lost, merged with its neighbour or attributed to another file.
\<close>

theorem parse_print_round_trip:
  assumes "list_all hunk_ok hs"
  shows "parse_patch (print_patch hs) = Inr \<lparr>hunks = hs, patch = print_patch hs\<rparr>"
  by (rule parse_printed [OF assms])

theorem parse_print_round_trip_witness:
  "parse_patch (print_patch
     [AddFile (lit ''a'') (lit ''x'' @ [newline_ch]), DeleteFile (lit ''b''),
      UpdateFile (lit ''c'') (Some (lit ''d''))
        [\<lparr>change_context = Some (lit ''fn''), old_lines = [lit ''o''], new_lines = [lit ''n'', []], is_end_of_file = True\<rparr>]]) =
   Inr \<lparr>hunks = [AddFile (lit ''a'') (lit ''x'' @ [newline_ch]), DeleteFile (lit ''b''),
      UpdateFile (lit ''c'') (Some (lit ''d''))
        [\<lparr>change_context = Some (lit ''fn''), old_lines = [lit ''o''], new_lines = [lit ''n'', []], is_end_of_file = True\<rparr>]],
     patch = print_patch
     [AddFile (lit ''a'') (lit ''x'' @ [newline_ch]), DeleteFile (lit ''b''),
      UpdateFile (lit ''c'') (Some (lit ''d''))
        [\<lparr>change_context = Some (lit ''fn''), old_lines = [lit ''o''], new_lines = [lit ''n'', []], is_end_of_file = True\<rparr>]]\<rparr>"
  by (rule parse_print_round_trip)
    (simp add: path_ok_def one_line_def strip_cr_def file_lines_def chunk_ok_def is_whitespace_def lit_def)

text \<open>
  The grammar makes the changes of an update optional (\<open>change?\<close>), so a pure rename is a sentence of it; the parser
  refuses it.
\<close>

lemma pure_rename_is_rejected:
  "parse_one_hunk [lit ''*** Update File: a'', lit ''*** Move to: b''] 2 =
     Inl (InvalidHunkError (empty_update (lit ''a'')) 2)"
proof -
  have "path_ok (lit ''a'')" by (simp add: path_ok_def lit_def is_whitespace_def)
  note headers = trim_markers(3) [OF this] header_markers
  have "lit ''*** Update File: a'' = UPDATE_FILE_MARKER @ lit ''a''" "lit ''*** Move to: b'' = MOVE_TO_MARKER @ lit ''b''"
    by (simp_all add: text_simps lit_def)
  then show ?thesis by (simp add: parse_one_hunk_def headers parse_update_def chunks_loop.simps)
qed

end
