(* ===== verification/Patch_Apply.thy ===== *)
theory Patch_Apply
  imports Patch_Parser
begin

text \<open>
  Applying the chunks of an update to the lines of a file
  (\<open>packages/tools/xai-grok-tools/src/implementations/codex/apply_patch/seek_sequence.rs\<close> and \<open>apply.rs\<close>).

  The four passes of \<open>seek_sequence\<close> are one function over the normalisation each pass compares with.
  \<open>Vec::insert\<close> panics past the end, so applying replacements returns an option, \<open>None\<close> being the panic.
  The reverse-order edits of \<open>apply_replacements\<close> are shown equal to one left-to-right splice whenever the
  replacements do not overlap, and the replacements computed for a file are shown not to overlap, with the two
  exceptions the last lemmas exhibit.
\<close>

section \<open>Finding a block of lines\<close>

definition normalise_ch :: "uchar \<Rightarrow> uchar" where
  "normalise_ch c =
     (if c \<in> {8208, 8209, 8210, 8211, 8212, 8213, 8722} then 45
      else if c \<in> {8216, 8217, 8218, 8219} then 39
      else if c \<in> {8220, 8221, 8222, 8223} then 34
      else if c \<in> {160, 8194, 8195, 8196, 8197, 8198, 8199, 8200, 8201, 8202, 8239, 8287, 12288} then 32
      else c)"

definition normalise :: "rstr \<Rightarrow> rstr" where
  "normalise s = map normalise_ch (trim s)"

definition matches_at :: "(rstr \<Rightarrow> rstr) \<Rightarrow> rstr list \<Rightarrow> rstr list \<Rightarrow> nat \<Rightarrow> bool" where
  "matches_at f lines pattern i \<longleftrightarrow>
     list_all2 (\<lambda>l p. f l = f p) (take (length pattern) (drop i lines)) pattern"

definition seek_pass :: "(rstr \<Rightarrow> rstr) \<Rightarrow> rstr list \<Rightarrow> rstr list \<Rightarrow> nat \<Rightarrow> nat option" where
  "seek_pass f lines pattern search_start =
     find (matches_at f lines pattern) [search_start..<Suc (length lines - length pattern)]"

definition search_start :: "rstr list \<Rightarrow> rstr list \<Rightarrow> nat \<Rightarrow> bool \<Rightarrow> nat" where
  "search_start lines pattern start eof =
     (if eof \<and> length lines \<ge> length pattern then length lines - length pattern else start)"

fun first_pass :: "(rstr \<Rightarrow> rstr) list \<Rightarrow> rstr list \<Rightarrow> rstr list \<Rightarrow> nat \<Rightarrow> nat option" where
  "first_pass [] lines pattern from = None"
| "first_pass (f # fs) lines pattern from =
     (case seek_pass f lines pattern from of Some i \<Rightarrow> Some i | None \<Rightarrow> first_pass fs lines pattern from)"

definition seek_levels :: "(rstr \<Rightarrow> rstr) list" where
  "seek_levels = [\<lambda>s. s, trim_end, trim, normalise]"

definition seek_sequence :: "rstr list \<Rightarrow> rstr list \<Rightarrow> nat \<Rightarrow> bool \<Rightarrow> nat option" where
  "seek_sequence lines pattern start eof =
     (if pattern = [] then Some start
      else if length pattern > length lines then None
      else first_pass seek_levels lines pattern (search_start lines pattern start eof))"

section \<open>Computing the replacements\<close>

type_synonym replacement = "nat \<times> nat \<times> rstr list"

datatype apply_error = ComputeReplacements rstr

definition last_is_empty :: "rstr list \<Rightarrow> bool" where
  "last_is_empty ls \<longleftrightarrow> ls \<noteq> [] \<and> last ls = []"

definition context_not_found :: "rstr \<Rightarrow> rstr \<Rightarrow> rstr" where
  "context_not_found ctx path =
     lit ''Failed to find context '' @ [quote_ch] @ ctx @ [quote_ch] @ lit '' in '' @ path"

definition lines_not_found :: "rstr \<Rightarrow> rstr list \<Rightarrow> rstr" where
  "lines_not_found path ls = lit ''Failed to find expected lines in '' @ path @ lit '':'' @ [newline_ch] @ join [newline_ch] ls"

text \<open>The context line of a chunk moves the search position behind it.\<close>

definition after_context :: "rstr list \<Rightarrow> rstr \<Rightarrow> update_file_chunk \<Rightarrow> nat \<Rightarrow> apply_error + nat" where
  "after_context original path chunk line_index =
     (case change_context chunk of
        None \<Rightarrow> Inr line_index
      | Some ctx \<Rightarrow>
          (case seek_sequence original [ctx] line_index False of
             Some idx \<Rightarrow> Inr (idx + 1)
           | None \<Rightarrow> Inl (ComputeReplacements (context_not_found ctx path))))"

text \<open>The place of the old lines, retried without a final empty line, with the block found and the new lines.\<close>

definition locate_chunk :: "rstr list \<Rightarrow> update_file_chunk \<Rightarrow> nat \<Rightarrow> replacement option" where
  "locate_chunk original chunk line_index =
     (case seek_sequence original (old_lines chunk) line_index (is_end_of_file chunk) of
        Some i \<Rightarrow> Some (i, length (old_lines chunk), new_lines chunk)
      | None \<Rightarrow>
          if last_is_empty (old_lines chunk) then
            (let new = (if last_is_empty (new_lines chunk) then butlast (new_lines chunk) else new_lines chunk)
             in case seek_sequence original (butlast (old_lines chunk)) line_index (is_end_of_file chunk) of
                  Some i \<Rightarrow> Some (i, length (old_lines chunk) - 1, new)
                | None \<Rightarrow> None)
          else None)"

definition insertion_idx :: "rstr list \<Rightarrow> nat" where
  "insertion_idx original = (if last_is_empty original then length original - 1 else length original)"

fun replacements_loop :: "rstr list \<Rightarrow> rstr \<Rightarrow> update_file_chunk list \<Rightarrow> nat \<Rightarrow> replacement list \<Rightarrow>
    apply_error + replacement list" where
  "replacements_loop original path [] line_index acc = Inr acc"
| "replacements_loop original path (chunk # chunks) line_index acc =
     (case after_context original path chunk line_index of
        Inl e \<Rightarrow> Inl e
      | Inr line_index \<Rightarrow>
          if old_lines chunk = [] then
            replacements_loop original path chunks line_index (acc @ [(insertion_idx original, 0, new_lines chunk)])
          else (case locate_chunk original chunk line_index of
                  Some (i, n, new) \<Rightarrow> replacements_loop original path chunks (i + n) (acc @ [(i, n, new)])
                | None \<Rightarrow> Inl (ComputeReplacements (lines_not_found path (old_lines chunk)))))"

definition compute_replacements :: "rstr list \<Rightarrow> rstr \<Rightarrow> update_file_chunk list \<Rightarrow> apply_error + replacement list" where
  "compute_replacements original path chunks =
     (case replacements_loop original path chunks 0 [] of Inl e \<Rightarrow> Inl e | Inr reps \<Rightarrow> Inr (sort_key fst reps))"

section \<open>Applying them\<close>

fun remove_lines :: "nat \<Rightarrow> nat \<Rightarrow> rstr list \<Rightarrow> rstr list" where
  "remove_lines n i ls =
     (if n = 0 then ls
      else remove_lines (n - 1) i (if i < length ls then take i ls @ drop (Suc i) ls else ls))"

declare remove_lines.simps [simp del]

definition vec_insert :: "nat \<Rightarrow> rstr \<Rightarrow> rstr list \<Rightarrow> rstr list option" where
  "vec_insert i x ls = (if i \<le> length ls then Some (take i ls @ x # drop i ls) else None)"

fun insert_lines :: "nat \<Rightarrow> rstr list \<Rightarrow> rstr list \<Rightarrow> rstr list option" where
  "insert_lines i [] ls = Some ls"
| "insert_lines i (x # xs) ls = (case vec_insert i x ls of Some ls \<Rightarrow> insert_lines (i + 1) xs ls | None \<Rightarrow> None)"

fun apply_reversed :: "replacement list \<Rightarrow> rstr list \<Rightarrow> rstr list option" where
  "apply_reversed [] ls = Some ls"
| "apply_reversed ((i, n, new) # reps) ls =
     (case insert_lines i new (remove_lines n i ls) of Some ls \<Rightarrow> apply_reversed reps ls | None \<Rightarrow> None)"

definition apply_replacements :: "rstr list \<Rightarrow> replacement list \<Rightarrow> rstr list option" where
  "apply_replacements ls reps = apply_reversed (rev reps) ls"

definition original_lines :: "rstr \<Rightarrow> rstr list" where
  "original_lines content =
     (let ls = split_on newline_ch content in if last_is_empty ls then butlast ls else ls)"

definition with_final_newline :: "rstr list \<Rightarrow> rstr" where
  "with_final_newline ls = join [newline_ch] (if last_is_empty ls then ls else ls @ [[]])"

definition derive_new_contents :: "rstr \<Rightarrow> rstr \<Rightarrow> update_file_chunk list \<Rightarrow> (apply_error + rstr) option" where
  "derive_new_contents content path chunks =
     (let ls = original_lines content
      in case compute_replacements ls path chunks of
           Inl e \<Rightarrow> Some (Inl e)
         | Inr reps \<Rightarrow> map_option (\<lambda>ls. Inr (with_final_newline ls)) (apply_replacements ls reps))"

section \<open>Searching\<close>

lemma normalisation_levels:
  "trim_end l = trim_end p \<Longrightarrow> trim l = trim p" "trim l = trim p \<Longrightarrow> normalise l = normalise p"
  by (metis trim_def trim_start_trim_end) (simp add: normalise_def)

lemma matches_weaken:
  assumes "matches_at f ls pat i" and "\<And>l p. f l = f p \<Longrightarrow> g l = g p"
  shows "matches_at g ls pat i"
  using assms unfolding matches_at_def by (rule list_all2_mono)

lemma matches_normalise:
  assumes "f \<in> set seek_levels" and "matches_at f ls pat i"
  shows "matches_at normalise ls pat i"
proof (rule matches_weaken [OF assms(2)])
  fix l p
  assume "f l = f p"
  with assms(1) show "normalise l = normalise p"
    by (auto simp: seek_levels_def dest: normalisation_levels)
qed

lemma matches_in_range: "matches_at f ls pat i \<Longrightarrow> pat \<noteq> [] \<Longrightarrow> i + length pat \<le> length ls"
proof -
  assume "matches_at f ls pat i" and "pat \<noteq> []"
  then have "length pat \<le> length ls - i" and "0 < length pat"
    unfolding matches_at_def by (auto dest: list_all2_lengthD)
  then show ?thesis by linarith
qed

lemma seek_pass_None:
  "seek_pass f ls pat from = None \<longleftrightarrow> (\<forall>i. from \<le> i \<and> i \<le> length ls - length pat \<longrightarrow> \<not> matches_at f ls pat i)"
  by (auto simp: seek_pass_def find_None_iff less_Suc_eq_le simp del: upt_Suc)

lemma seek_pass_Some:
  "seek_pass f ls pat from = Some i \<longleftrightarrow>
     from \<le> i \<and> i \<le> length ls - length pat \<and> matches_at f ls pat i \<and> (\<forall>j. from \<le> j \<and> j < i \<longrightarrow> \<not> matches_at f ls pat j)"
  unfolding seek_pass_def find_upt_least less_Suc_eq_le ..

lemma first_pass_Some:
  "first_pass fs ls pat from = Some i \<Longrightarrow> \<exists>f\<in>set fs. seek_pass f ls pat from = Some i"
  by (induction fs) (auto split: option.splits)

lemma first_pass_None: "first_pass fs ls pat from = None \<longleftrightarrow> (\<forall>f\<in>set fs. seek_pass f ls pat from = None)"
  by (induction fs) (auto split: option.splits)

text \<open>What every caller needs of a hit: it lies in the file, at or behind the place asked for.\<close>

lemma seek_found:
  assumes "seek_sequence ls pat start eof = Some i" and "pat \<noteq> []"
  shows "i + length pat \<le> length ls" "search_start ls pat start eof \<le> i" "matches_at normalise ls pat i"
proof -
  obtain f where f: "f \<in> set seek_levels"
    and "seek_pass f ls pat (search_start ls pat start eof) = Some i"
    using assms first_pass_Some by (fastforce simp: seek_sequence_def split: if_splits)
  then have m: "matches_at f ls pat i" and "search_start ls pat start eof \<le> i" by (auto simp: seek_pass_Some)
  then show "search_start ls pat start eof \<le> i" by simp
  show "i + length pat \<le> length ls" by (rule matches_in_range [OF m assms(2)])
  show "matches_at normalise ls pat i" by (rule matches_normalise [OF f m])
qed

lemma seek_missed:
  assumes "seek_sequence ls pat start eof = None" and "pat \<noteq> []" and "search_start ls pat start eof \<le> i"
  shows "\<not> matches_at normalise ls pat i"
proof
  assume m: "matches_at normalise ls pat i"
  then have i: "i + length pat \<le> length ls" by (rule matches_in_range) (rule assms(2))
  then have "first_pass seek_levels ls pat (search_start ls pat start eof) = None"
    using assms(1,2) by (simp add: seek_sequence_def)
  then have "seek_pass normalise ls pat (search_start ls pat start eof) = None"
    by (simp add: first_pass_None seek_levels_def del: first_pass.simps)
  then show False using m i assms(3) by (auto simp: seek_pass_None)
qed

lemma matches_exactly: "matches_at (\<lambda>s. s) ls pat i \<longleftrightarrow> take (length pat) (drop i ls) = pat"
  by (simp add: matches_at_def list_all2_eq [symmetric])

lemma seek_exact:
  assumes "pat \<noteq> []" and "search_start ls pat start eof \<le> k" and "matches_at (\<lambda>s. s) ls pat k"
  shows "\<exists>i\<le>k. seek_sequence ls pat start eof = Some i \<and> matches_at (\<lambda>s. s) ls pat i"
proof -
  let ?from = "search_start ls pat start eof"
  have k: "k + length pat \<le> length ls" using matches_in_range assms by blast
  then have "seek_pass (\<lambda>s. s) ls pat ?from \<noteq> None" using assms(2,3) by (auto simp: seek_pass_None)
  then obtain i where i: "seek_pass (\<lambda>s. s) ls pat ?from = Some i" by blast
  then have "matches_at (\<lambda>s. s) ls pat i" "i \<le> k"
    using assms(2,3) by (auto simp: seek_pass_Some)
  moreover have "seek_sequence ls pat start eof = Some i"
    using i k assms(1) by (simp add: seek_sequence_def seek_levels_def)
  ultimately show ?thesis by blast
qed

section \<open>Replacements that do not overlap\<close>

definition before :: "replacement \<Rightarrow> replacement \<Rightarrow> bool" where
  "before a b \<longleftrightarrow> fst a + fst (snd a) \<le> fst b"

definition in_file :: "rstr list \<Rightarrow> replacement \<Rightarrow> bool" where
  "in_file ls r \<longleftrightarrow> fst r + fst (snd r) \<le> length ls"

text \<open>A pair that a stable sort by start brings into order.\<close>

definition separable :: "replacement \<Rightarrow> replacement \<Rightarrow> bool" where
  "separable a b \<longleftrightarrow> before a b \<or> (before b a \<and> fst b < fst a)"

lemma insort_before:
  "sorted_wrt before ys \<Longrightarrow> \<forall>y\<in>set ys. separable x y \<Longrightarrow> sorted_wrt before (insort_key fst x ys)"
proof (induction ys)
  case (Cons y ys)
  show ?case
  proof (cases "fst x \<le> fst y")
    case True
    have "before x z" if "z \<in> set (y # ys)" for z
    proof -
      have "fst x \<le> fst z" using True that Cons.prems(1) by (fastforce simp: before_def)
      then show ?thesis using Cons.prems(2) that by (auto simp: separable_def before_def)
    qed
    with True Cons.prems(1) show ?thesis by simp
  next
    case False
    then have "before y x" using Cons.prems(2) by (auto simp: separable_def before_def)
    with False Cons show ?thesis by (auto simp: set_insort_key)
  qed
qed simp

lemma sort_before: "sorted_wrt separable rs \<Longrightarrow> sorted_wrt before (sort_key fst rs)"
  by (induction rs) (auto intro: insort_before)

text \<open>
  The loop only appends replacements of lines of the file; when no chunk is tied to the end of the file and the
  insertion point is the end, any two of them are separable.
\<close>

definition replacements_ok :: "rstr list \<Rightarrow> nat \<Rightarrow> replacement list \<Rightarrow> bool" where
  "replacements_ok ls k acc \<longleftrightarrow>
     k \<le> length ls \<and> sorted_wrt separable acc \<and>
     (\<forall>r\<in>set acc. in_file ls r \<and> (fst r + fst (snd r) \<le> k \<or> (fst r = length ls \<and> fst (snd r) = 0)))"

lemma after_context_bound:
  "after_context ls path c k = Inr k' \<Longrightarrow> k \<le> length ls \<Longrightarrow> k \<le> k' \<and> k' \<le> length ls"
  using seek_found [of ls "[_]" k False]
  by (auto simp: after_context_def search_start_def Suc_le_eq split: option.splits) fastforce+

lemma locate_chunk_in_file:
  assumes "locate_chunk ls c k = Some r" and "k \<le> length ls"
  shows "in_file ls r" "is_end_of_file c \<or> k \<le> fst r"
proof -
  obtain pat where "seek_sequence ls pat k (is_end_of_file c) = Some (fst r)" and n: "fst (snd r) = length pat"
    using assms(1) by (auto simp: locate_chunk_def Let_def split: option.splits if_splits)
  then have "in_file ls r \<and> (is_end_of_file c \<or> k \<le> fst r)"
    using seek_found [of ls pat k "is_end_of_file c" "fst r"] assms(2)
    by (cases "pat = []") (auto simp: in_file_def search_start_def seek_sequence_def split: if_splits)
  then show "in_file ls r" "is_end_of_file c \<or> k \<le> fst r" by auto
qed

lemma replacements_loop_ok:
  assumes "replacements_loop ls path cs k acc = Inr reps" and "replacements_ok ls k acc"
    and "list_all (\<lambda>c. \<not> is_end_of_file c) cs"
    and "list_all (\<lambda>c. old_lines c \<noteq> []) cs \<or> \<not> last_is_empty ls"
  shows "\<exists>k'. replacements_ok ls k' reps"
  using assms
proof (induction cs arbitrary: k acc)
  case (Cons c cs)
  then obtain k1 where k1: "after_context ls path c k = Inr k1" by (auto split: sum.splits)
  then have k1': "k \<le> k1" "k1 \<le> length ls"
    using after_context_bound Cons.prems(2) by (auto simp: replacements_ok_def)
  show ?case
  proof (cases "old_lines c = []")
    case True
    then have i: "insertion_idx ls = length ls" using Cons.prems(4) by (simp add: insertion_idx_def)
    have "replacements_ok ls k1 (acc @ [(insertion_idx ls, 0, new_lines c)])"
      using Cons.prems(2) k1' unfolding replacements_ok_def i
      by (auto simp: sorted_wrt_append separable_def before_def in_file_def)
    with Cons k1 True show ?thesis by auto
  next
    case False
    then obtain i n new where r: "locate_chunk ls c k1 = Some (i, n, new)"
      using Cons.prems(1) k1 by (auto split: option.splits)
    then have "i + n \<le> length ls" "k1 \<le> i"
      using locate_chunk_in_file [OF r k1'(2)] Cons.prems(3) by (auto simp: in_file_def)
    then have "replacements_ok ls (i + n) (acc @ [(i, n, new)])"
      using Cons.prems(2) k1' unfolding replacements_ok_def
      by (fastforce simp: sorted_wrt_append separable_def before_def in_file_def)
    with Cons k1 False r show ?thesis by auto
  qed
qed auto

lemma replacements_loop_in_file:
  "replacements_loop ls path cs k acc = Inr reps \<Longrightarrow> k \<le> length ls \<Longrightarrow> \<forall>r\<in>set acc. in_file ls r \<Longrightarrow>
     \<forall>r\<in>set reps. in_file ls r"
proof (induction cs arbitrary: k acc)
  case (Cons c cs)
  then obtain k1 where k1: "after_context ls path c k = Inr k1" by (auto split: sum.splits)
  then have k1': "k1 \<le> length ls" using after_context_bound Cons.prems(2) by auto
  show ?case
  proof (cases "old_lines c = []")
    case True
    have "in_file ls (insertion_idx ls, 0, new_lines c)" by (simp add: in_file_def insertion_idx_def)
    then show ?thesis
      using Cons.IH [of k1 "acc @ [(insertion_idx ls, 0, new_lines c)]"] Cons.prems k1 k1' True by simp
  next
    case False
    then obtain i n new where r: "locate_chunk ls c k1 = Some (i, n, new)"
      using Cons.prems(1) k1 by (auto split: option.splits)
    have "in_file ls (i, n, new)" by (rule locate_chunk_in_file(1) [OF r k1'])
    then show ?thesis
      using Cons.IH [of "i + n" "acc @ [(i, n, new)]"] Cons.prems(1,3) k1 False r by (simp add: in_file_def)
  qed
qed simp

lemma computed_in_file:
  "compute_replacements ls path cs = Inr reps \<Longrightarrow> (\<forall>r\<in>set reps. in_file ls r) \<and> sorted (map fst reps)"
  using replacements_loop_in_file by (fastforce simp: compute_replacements_def split: sum.splits)

section \<open>Reverse edits are a splice\<close>

lemma remove_lines_eq: "remove_lines n i ls = take i ls @ drop (i + n) ls"
proof (induction n arbitrary: ls)
  case (Suc n)
  show ?case using Suc by (subst remove_lines.simps) (auto simp: drop_Suc add.commute)
qed (simp add: remove_lines.simps)

lemma insert_lines_eq: "i \<le> length ls \<Longrightarrow> insert_lines i xs ls = Some (take i ls @ xs @ drop i ls)"
  by (induction xs arbitrary: i ls) (auto simp: vec_insert_def)

lemma edit_eq:
  "i \<le> length ls \<Longrightarrow> insert_lines i new (remove_lines n i ls) = Some (take i ls @ new @ drop (i + n) ls)"
  by (simp add: remove_lines_eq insert_lines_eq)

lemma apply_reversed_append:
  "apply_reversed (a @ b) ls = (case apply_reversed a ls of Some ls \<Rightarrow> apply_reversed b ls | None \<Rightarrow> None)"
  by (induction a ls rule: apply_reversed.induct) (auto split: option.splits)

lemma apply_reversed_returns:
  "sorted_wrt (\<lambda>a b. fst b \<le> fst a) reps \<Longrightarrow> \<forall>r\<in>set reps. fst r \<le> length ls \<Longrightarrow> \<exists>ls'. apply_reversed reps ls = Some ls'"
proof (induction reps ls rule: apply_reversed.induct)
  case (2 i n new reps ls)
  have "insert_lines i new (remove_lines n i ls) = Some (take i ls @ new @ drop (i + n) ls)"
    by (rule edit_eq) (use 2 in simp)
  with 2 show ?case by fastforce
qed simp

text \<open>The reference: one pass from the left over the original lines.\<close>

fun splice :: "nat \<Rightarrow> rstr list \<Rightarrow> replacement list \<Rightarrow> rstr list" where
  "splice pos ls [] = drop pos ls"
| "splice pos ls ((i, n, new) # reps) = take (i - pos) (drop pos ls) @ new @ splice (i + n) ls reps"

lemma apply_reversed_splice:
  assumes "sorted_wrt before reps" and "\<forall>r\<in>set reps. in_file ls r \<and> pos \<le> fst r"
  shows "apply_reversed (rev reps) ls = Some (take pos ls @ splice pos ls reps)"
  using assms
proof (induction reps arbitrary: pos)
  case (Cons r reps)
  obtain i n new where r: "r = (i, n, new)" by (cases r)
  then have b: "i + n \<le> length ls" "pos \<le> i" using Cons.prems(2) by (auto simp: in_file_def)
  have IH: "apply_reversed (rev reps) ls = Some (take (i + n) ls @ splice (i + n) ls reps)"
    by (rule Cons.IH) (use Cons.prems r in \<open>auto simp: before_def\<close>)
  have "take i ls = take pos ls @ take (i - pos) (drop pos ls)" using b(2) by (metis le_add_diff_inverse take_add)
  then show ?case using b by (simp add: r apply_reversed_append IH edit_eq min_absorb1)
qed simp

lemma final_newline: "with_final_newline ls = [] \<or> last (with_final_newline ls) = newline_ch"
proof (cases ls rule: rev_cases)
  case (snoc ks l)
  then show ?thesis
    using join_snoc [of "ks @ [l]" "[newline_ch]" "[]"] join_snoc [of ks "[newline_ch]" "[]"]
    by (cases "l = []"; cases "ks = []") (auto simp: with_final_newline_def last_is_empty_def)
qed (simp add: with_final_newline_def last_is_empty_def)

lemma derive_returns:
  "(\<exists>e. derive_new_contents content path cs = Some (Inl e)) \<or>
   (\<exists>ls. derive_new_contents content path cs = Some (Inr (with_final_newline ls)))"
proof (cases "compute_replacements (original_lines content) path cs")
  case (Inr reps)
  have "sorted_wrt (\<lambda>a b. fst b \<le> fst a) (rev reps)" "\<forall>r\<in>set (rev reps). fst r \<le> length (original_lines content)"
    using computed_in_file [OF Inr] by (auto simp: sorted_wrt_rev sorted_map in_file_def)
  then obtain ls where "apply_replacements (original_lines content) reps = Some ls"
    using apply_reversed_returns [of "rev reps"] by (auto simp: apply_replacements_def)
  then show ?thesis using Inr by (auto simp: derive_new_contents_def)
qed (simp add: derive_new_contents_def)

section \<open>Properties\<close>

text \<open>
  \<open>seek_sequence\<close> is sound, complete and prefers exact matches: for a non-empty pattern, a hit lies inside the file, not before
  the place where the search starts, and its lines agree with the pattern up to white space and typographic
  punctuation; a miss means that no place from there on agrees even so loosely; and the first place whose lines are
  exactly the pattern is the answer whenever there is one.
\<close>

theorem seek_sequence_exact_first:
  assumes "pattern \<noteq> []"
  shows "(case seek_sequence lines pattern start eof of
      Some i \<Rightarrow> search_start lines pattern start eof \<le> i \<and> i + length pattern \<le> length lines \<and>
        matches_at normalise lines pattern i
    | None \<Rightarrow> \<forall>i\<ge>search_start lines pattern start eof. \<not> matches_at normalise lines pattern i) \<and>
    (\<forall>k\<ge>search_start lines pattern start eof. take (length pattern) (drop k lines) = pattern \<longrightarrow>
      (\<exists>i\<le>k. seek_sequence lines pattern start eof = Some i \<and> take (length pattern) (drop i lines) = pattern))"
proof (intro conjI allI impI)
  show "case seek_sequence lines pattern start eof of
      Some i \<Rightarrow> search_start lines pattern start eof \<le> i \<and> i + length pattern \<le> length lines \<and>
        matches_at normalise lines pattern i
    | None \<Rightarrow> \<forall>i\<ge>search_start lines pattern start eof. \<not> matches_at normalise lines pattern i"
    using seek_missed [OF _ assms] seek_found [OF _ assms] by (auto split: option.split)
next
  fix k
  assume "search_start lines pattern start eof \<le> k" and "take (length pattern) (drop k lines) = pattern"
  then show "\<exists>i\<le>k. seek_sequence lines pattern start eof = Some i \<and> take (length pattern) (drop i lines) = pattern"
    using seek_exact [OF assms] by (simp add: matches_exactly)
qed

theorem seek_sequence_exact_first_witness:
  "seek_sequence [lit ''a '', lit ''a'', lit ''b''] [lit ''a''] 0 False = Some 1"
proof -
  have "matches_at (\<lambda>s. s) [lit ''a '', lit ''a'', lit ''b''] [lit ''a''] 1" by (simp add: matches_at_def)
  then have "\<exists>i\<le>1. seek_sequence [lit ''a '', lit ''a'', lit ''b''] [lit ''a''] 0 False = Some i \<and>
      take 1 (drop i [lit ''a '', lit ''a'', lit ''b'']) = [lit ''a'']"
    using seek_sequence_exact_first [of "[lit ''a'']" "[lit ''a '', lit ''a'', lit ''b'']" 0 False]
    by (auto simp: search_start_def)
  then show ?thesis by (auto simp: le_Suc_eq)
qed

text \<open>
  Updating a file never panics, whatever the patch and the file (every insertion is within the lines that are
  left, also when replacements overlap), and what it writes is empty or ends in a line feed.
\<close>

theorem derive_never_panics:
  "case derive_new_contents content path cs of
     None \<Rightarrow> False
   | Some (Inl e) \<Rightarrow> True
   | Some (Inr text) \<Rightarrow> text = [] \<or> last text = newline_ch"
  using derive_returns [of content path cs] final_newline by fastforce

text \<open>
  The edits from the end are one splice: when no chunk is tied to the end of the file and the file does not end in
  a blank line (or no chunk is a pure addition), the computed replacements are disjoint and in order, and applying them
  backwards to the growing and shrinking list gives exactly the original lines with every replaced range exchanged, each
  other line kept once and in place.
\<close>

theorem reverse_edits_are_a_splice:
  assumes "compute_replacements lines path cs = Inr reps" and "list_all (\<lambda>c. \<not> is_end_of_file c) cs"
    and "list_all (\<lambda>c. old_lines c \<noteq> []) cs \<or> \<not> last_is_empty lines"
  shows "sorted_wrt before reps \<and> apply_replacements lines reps = Some (splice 0 lines reps)"
proof -
  obtain raw where raw: "replacements_loop lines path cs 0 [] = Inr raw" and reps: "reps = sort_key fst raw"
    using assms(1) by (auto simp: compute_replacements_def split: sum.splits)
  have "replacements_ok lines 0 []" by (simp add: replacements_ok_def)
  from replacements_loop_ok [OF raw this assms(2,3)] have "sorted_wrt separable raw"
    by (auto simp: replacements_ok_def)
  then have s: "sorted_wrt before reps" unfolding reps by (rule sort_before)
  moreover have "apply_reversed (rev reps) lines = Some (take 0 lines @ splice 0 lines reps)"
    by (rule apply_reversed_splice [OF s]) (use computed_in_file [OF assms(1)] in auto)
  ultimately show ?thesis by (simp add: apply_replacements_def)
qed

definition sample_chunks :: "update_file_chunk list" where
  "sample_chunks =
     [\<lparr>change_context = None, old_lines = [], new_lines = [lit ''z''], is_end_of_file = False\<rparr>,
      \<lparr>change_context = Some (lit ''a''), old_lines = [lit ''b'', lit ''c''], new_lines = [lit ''B''], is_end_of_file = False\<rparr>]"

lemmas patch_eval = compute_replacements_def after_context_def locate_chunk_def seek_sequence_def seek_levels_def
  seek_pass_def search_start_def matches_at_def insertion_idx_def last_is_empty_def upt_rec

theorem reverse_edits_are_a_splice_witness:
  "apply_replacements [lit ''a'', lit ''b'', lit ''c'', lit ''d''] [(1, 2, [lit ''B'']), (4, 0, [lit ''z''])] =
     Some [lit ''a'', lit ''B'', lit ''d'', lit ''z'']"
proof -
  have c: "compute_replacements [lit ''a'', lit ''b'', lit ''c'', lit ''d''] (lit ''f'') sample_chunks =
      Inr [(1, 2, [lit ''B'']), (4, 0, [lit ''z''])]"
    by (simp add: sample_chunks_def patch_eval)
  show ?thesis
    using reverse_edits_are_a_splice [OF c] by (simp add: sample_chunks_def last_is_empty_def)
qed

section \<open>Where the edits go wrong\<close>

text \<open>A file that ends in a blank line loses it when any other line is updated.\<close>

lemma update_drops_final_blank_line:
  "derive_new_contents (lit ''a'' @ [newline_ch, newline_ch]) (lit ''f'')
     [\<lparr>change_context = None, old_lines = [lit ''a''], new_lines = [lit ''b''], is_end_of_file = False\<rparr>] =
   Some (Inr (lit ''b'' @ [newline_ch]))"
  by (simp add: derive_new_contents_def original_lines_def patch_eval lit_def apply_replacements_def
      remove_lines.simps vec_insert_def with_final_newline_def)

text \<open>
  A chunk tied to the end of the file is searched at the end, not behind the previous chunk, so two
  chunks can claim the same line; the earlier chunk, applied last, then deletes what the later one wrote.
\<close>

lemma end_of_file_chunk_is_lost:
  "derive_new_contents (lit ''a'' @ [newline_ch]) (lit ''f'')
     [\<lparr>change_context = None, old_lines = [lit ''a''], new_lines = [lit ''b''], is_end_of_file = False\<rparr>,
      \<lparr>change_context = None, old_lines = [lit ''a''], new_lines = [lit ''c''], is_end_of_file = True\<rparr>] =
   Some (Inr (lit ''b'' @ [newline_ch]))"
  by (simp add: derive_new_contents_def original_lines_def patch_eval lit_def apply_replacements_def
      remove_lines.simps vec_insert_def with_final_newline_def)

end
