(* ===== verification/Patch_Tool.thy ===== *)
theory Patch_Tool
  imports Patch_Apply
begin

text \<open>
  The apply-patch tool (\<open>packages/tools/xai-grok-tools/src/implementations/codex/apply_patch/tool.rs\<close>) over the file
  system interface of \<open>computer/types.rs\<close> and its in-memory implementation \<open>computer/local/mock_fs.rs\<close>.

  The tool parses the patch, computes every change in memory, then writes.  The file system is a record of
  operations on a state; what the theorems need of it is the locale \<open>working_fs\<close>, interpreted on the in-memory
  file system.  Paths are an arbitrary type with the operations the tool uses of them (\<open>cwd.join\<close>, \<open>parent\<close>, \<open>display\<close>), bytes
  an arbitrary type with \<open>as_bytes\<close> and \<open>from_utf8_lossy\<close>.
\<close>

section \<open>The file system interface\<close>

datatype io_error_kind = NotFound | PermissionDenied | UnsupportedKind | OtherKind

datatype computer_error = IOError rstr "io_error_kind option" | CommandNotQuoted

fun show_computer_error :: "computer_error \<Rightarrow> rstr" where
  "show_computer_error (IOError m k) = lit ''IO Error: '' @ m"
| "show_computer_error CommandNotQuoted = lit ''UnQuoted command''"

record ('f, 'p, 'b) async_fs =
  read_file :: "'p \<Rightarrow> 'f \<Rightarrow> computer_error + 'b"
  write_file :: "'p \<Rightarrow> 'b \<Rightarrow> 'f \<Rightarrow> 'f \<times> (computer_error + unit)"
  delete_file :: "'p \<Rightarrow> 'f \<Rightarrow> 'f \<times> (computer_error + unit)"
  file_exists :: "'p \<Rightarrow> 'f \<Rightarrow> computer_error + bool"

definition default_file_exists :: "'p \<Rightarrow> 'f \<Rightarrow> computer_error + bool" where
  "default_file_exists p f = Inl (IOError (lit ''file_exists is not supported by this backend'') (Some UnsupportedKind))"

text \<open>
  The contract: reading returns what the state holds, an operation that succeeds changes its own file as told and
  no other.
\<close>

locale working_fs =
  fixes F :: "('f, 'p, 'b) async_fs" and files :: "'f \<Rightarrow> 'p \<rightharpoonup> 'b"
  assumes read_ok: "read_file F p f = Inr b \<Longrightarrow> files f p = Some b"
    and write_ok: "write_file F p b f = (f', Inr ()) \<Longrightarrow> files f' = (files f)(p \<mapsto> b)"
    and delete_ok: "delete_file F p f = (f', Inr ()) \<Longrightarrow> files f' = (files f)(p := None)"

section \<open>The in-memory file system\<close>

record ('p, 'b) mock_fs =
  mock_files :: "('p \<times> 'b) list"

definition mock_fs_new :: "('p, 'b) mock_fs" where
  "mock_fs_new = \<lparr>mock_files = []\<rparr>"

definition set_file :: "'p \<Rightarrow> 'b \<Rightarrow> ('p, 'b) mock_fs \<Rightarrow> ('p, 'b) mock_fs" where
  "set_file p b f = f\<lparr>mock_files := (p, b) # filter (\<lambda>x. fst x \<noteq> p) (mock_files f)\<rparr>"

definition get_file :: "'p \<Rightarrow> ('p, 'b) mock_fs \<Rightarrow> 'b option" where
  "get_file p f = map_of (mock_files f) p"

definition mock_read_file :: "('p \<Rightarrow> rstr) \<Rightarrow> 'p \<Rightarrow> ('p, 'b) mock_fs \<Rightarrow> computer_error + 'b" where
  "mock_read_file show_path p f =
     (case get_file p f of
        Some b \<Rightarrow> Inr b
      | None \<Rightarrow> Inl (IOError (lit ''File not found: '' @ show_path p) (Some NotFound)))"

definition mock_write_file :: "'p \<Rightarrow> 'b \<Rightarrow> ('p, 'b) mock_fs \<Rightarrow> ('p, 'b) mock_fs \<times> (computer_error + unit)" where
  "mock_write_file p b f = (set_file p b f, Inr ())"

definition mock_delete_file :: "'p \<Rightarrow> ('p, 'b) mock_fs \<Rightarrow> ('p, 'b) mock_fs \<times> (computer_error + unit)" where
  "mock_delete_file p f = (f\<lparr>mock_files := filter (\<lambda>x. fst x \<noteq> p) (mock_files f)\<rparr>, Inr ())"

definition mock_file_exists :: "'p \<Rightarrow> ('p, 'b) mock_fs \<Rightarrow> computer_error + bool" where
  "mock_file_exists p f = Inr (get_file p f \<noteq> None)"

definition mock_async_fs :: "('p \<Rightarrow> rstr) \<Rightarrow> (('p, 'b) mock_fs, 'p, 'b) async_fs" where
  "mock_async_fs show_path =
     \<lparr>read_file = mock_read_file show_path, write_file = mock_write_file, delete_file = mock_delete_file,
      file_exists = mock_file_exists\<rparr>"

lemma map_of_filter_neq: "map_of (filter (\<lambda>x. fst x \<noteq> p) xs) = (map_of xs)(p := None)"
  by (induction xs) (auto simp: fun_eq_iff)

interpretation mock_fs: working_fs "mock_async_fs show_path" "\<lambda>f p. get_file p f" for show_path :: "'p \<Rightarrow> rstr"
  by unfold_locales
    (auto simp: mock_async_fs_def mock_read_file_def mock_write_file_def mock_delete_file_def set_file_def get_file_def
      map_of_filter_neq fun_eq_iff split: option.splits)

section \<open>Changes\<close>

datatype 'p file_change =
    Add 'p rstr
  | Delete 'p rstr
  | Update 'p rstr rstr
  | Move 'p 'p rstr rstr

record 'p file_written =
  tool_call_id :: rstr
  absolute_path :: 'p
  fw_content :: rstr
  previous_content :: "rstr option"
  is_new_file :: bool

record 'p file_result =
  fr_path :: 'p
  fr_action :: rstr
  old_text :: "rstr option"
  new_text :: rstr
  move_to :: "'p option"

datatype 'p patch_output = Success "'p file_result list" rstr | ParseErr rstr | ApplicationError rstr | EmptyPatch rstr

text \<open>
  What the tool uses of its surroundings: the id of the call, the working directory's \<open>join\<close>, \<open>Path::display\<close>, the conversions between text
  and bytes, the parent of a path and whether a path is empty, and \<open>tokio::fs::create_dir_all\<close>: parent directories are made by the
  operating system and not through the file system interface.
\<close>

record ('d, 'p, 'b) patch_env =
  call_id :: rstr
  join_cwd :: "rstr \<Rightarrow> 'p"
  show_path :: "'p \<Rightarrow> rstr"
  as_bytes :: "rstr \<Rightarrow> 'b"
  from_utf8_lossy :: "'b \<Rightarrow> rstr"
  parent_path :: "'p \<Rightarrow> 'p option"
  is_empty_path :: "'p \<Rightarrow> bool"
  create_dir_all :: "'p \<Rightarrow> 'd \<Rightarrow> 'd \<times> (rstr + unit)"

definition ensure_parent_dirs :: "('d, 'p, 'b) patch_env \<Rightarrow> 'p \<Rightarrow> 'd \<Rightarrow> 'd \<times> (rstr + unit)" where
  "ensure_parent_dirs E p d =
     (case parent_path E p of
        Some parent \<Rightarrow> if is_empty_path E parent then (d, Inr ()) else create_dir_all E parent d
      | None \<Rightarrow> (d, Inr ()))"

definition read_file_as_string :: "('d, 'p, 'b) patch_env \<Rightarrow> ('f, 'p, 'b) async_fs \<Rightarrow> 'p \<Rightarrow> 'f \<Rightarrow> rstr + rstr" where
  "read_file_as_string E F p f =
     (case read_file F p f of Inl e \<Rightarrow> Inl (show_computer_error e) | Inr b \<Rightarrow> Inr (from_utf8_lossy E b))"

fun show_apply_error :: "apply_error \<Rightarrow> rstr" where
  "show_apply_error (ComputeReplacements m) = m"

definition update_change :: "'p \<Rightarrow> 'p option \<Rightarrow> rstr \<Rightarrow> rstr \<Rightarrow> 'p file_change" where
  "update_change p dest original new = (case dest of Some d \<Rightarrow> Move p d original new | None \<Rightarrow> Update p original new)"

text \<open>The change of one hunk; the outer option is \<open>None\<close> when the computation panics.\<close>

fun hunk_change :: "('d, 'p, 'b) patch_env \<Rightarrow> ('f, 'p, 'b) async_fs \<Rightarrow> hunk \<Rightarrow> 'f \<Rightarrow> (rstr + 'p file_change) option" where
  "hunk_change E F (AddFile path contents) f = Some (Inr (Add (join_cwd E path) contents))"
| "hunk_change E F (DeleteFile path) f =
     (let p = join_cwd E path
      in case read_file_as_string E F p f of
           Inl e \<Rightarrow> Some (Inl (lit ''Failed to read file: '' @ show_path E p @ lit '', '' @ e))
         | Inr original \<Rightarrow> Some (Inr (Delete p original)))"
| "hunk_change E F (UpdateFile path move_path chunks) f =
     (let p = join_cwd E path
      in case read_file_as_string E F p f of
           Inl e \<Rightarrow> Some (Inl (lit ''Failed to read file to update: '' @ show_path E p @ lit '', '' @ e))
         | Inr original \<Rightarrow>
             (case derive_new_contents original (show_path E p) chunks of
                None \<Rightarrow> None
              | Some (Inl e) \<Rightarrow> Some (Inl (show_apply_error e))
              | Some (Inr new) \<Rightarrow> Some (Inr (update_change p (map_option (join_cwd E) move_path) original new))))"

fun compute_all_changes :: "('d, 'p, 'b) patch_env \<Rightarrow> ('f, 'p, 'b) async_fs \<Rightarrow> hunk list \<Rightarrow> 'f \<Rightarrow>
    (rstr + 'p file_change list) option" where
  "compute_all_changes E F [] f = Some (Inr [])"
| "compute_all_changes E F (h # hs) f =
     (case hunk_change E F h f of
        None \<Rightarrow> None
      | Some (Inl e) \<Rightarrow> Some (Inl e)
      | Some (Inr c) \<Rightarrow>
          (case compute_all_changes E F hs f of
             None \<Rightarrow> None
           | Some (Inl e) \<Rightarrow> Some (Inl e)
           | Some (Inr cs) \<Rightarrow> Some (Inr (c # cs))))"

section \<open>Writing\<close>

record ('f, 'd, 'p) tool_state =
  ts_fs :: 'f
  ts_dirs :: 'd
  ts_notes :: "'p file_written list"

definition do_mkdirs :: "('d, 'p, 'b) patch_env \<Rightarrow> 'p \<Rightarrow> ('f, 'd, 'p) tool_state \<Rightarrow> ('f, 'd, 'p) tool_state \<times> (rstr + unit)" where
  "do_mkdirs E p s = (let (d, r) = ensure_parent_dirs E p (ts_dirs s) in (s\<lparr>ts_dirs := d\<rparr>, r))"

definition lift_io :: "computer_error + unit \<Rightarrow> rstr + unit" where
  "lift_io r = (case r of Inl e \<Rightarrow> Inl (show_computer_error e) | Inr _ \<Rightarrow> Inr ())"

definition do_write :: "('d, 'p, 'b) patch_env \<Rightarrow> ('f, 'p, 'b) async_fs \<Rightarrow> 'p \<Rightarrow> rstr \<Rightarrow> ('f, 'd, 'p) tool_state \<Rightarrow>
    ('f, 'd, 'p) tool_state \<times> (rstr + unit)" where
  "do_write E F p s t = (let (f, r) = write_file F p (as_bytes E s) (ts_fs t) in (t\<lparr>ts_fs := f\<rparr>, lift_io r))"

definition do_delete :: "('f, 'p, 'b) async_fs \<Rightarrow> 'p \<Rightarrow> ('f, 'd, 'p) tool_state \<Rightarrow> ('f, 'd, 'p) tool_state \<times> (rstr + unit)" where
  "do_delete F p t = (let (f, r) = delete_file F p (ts_fs t) in (t\<lparr>ts_fs := f\<rparr>, lift_io r))"

text \<open>Sequencing with the \<open>?\<close> operator.\<close>

definition and_then :: "'s \<times> ('e + unit) \<Rightarrow> ('s \<Rightarrow> 's \<times> ('e + 'a)) \<Rightarrow> 's \<times> ('e + 'a)" where
  "and_then m k = (case m of (s, Inl e) \<Rightarrow> (s, Inl e) | (s, Inr _) \<Rightarrow> k s)"

definition notify :: "'p file_written list \<Rightarrow> 'p file_result \<Rightarrow> ('f, 'd, 'p) tool_state \<Rightarrow>
    ('f, 'd, 'p) tool_state \<times> (rstr + 'p file_result)" where
  "notify ns r s = (s\<lparr>ts_notes := ts_notes s @ ns\<rparr>, Inr r)"

fun change_result :: "'p file_change \<Rightarrow> 'p file_result" where
  "change_result (Add p content) =
     \<lparr>fr_path = p, fr_action = lit ''added'', old_text = None, new_text = content, move_to = None\<rparr>"
| "change_result (Delete p original) =
     \<lparr>fr_path = p, fr_action = lit ''deleted'', old_text = Some original, new_text = [], move_to = None\<rparr>"
| "change_result (Update p original new) =
     \<lparr>fr_path = p, fr_action = lit ''modified'', old_text = Some original, new_text = new, move_to = None\<rparr>"
| "change_result (Move src dest original new) =
     \<lparr>fr_path = src, fr_action = lit ''moved'', old_text = Some original, new_text = new, move_to = Some dest\<rparr>"

fun change_notes :: "rstr \<Rightarrow> 'p file_change \<Rightarrow> 'p file_written list" where
  "change_notes cid (Add p content) = [\<lparr>tool_call_id = cid, absolute_path = p, fw_content = content, previous_content = None, is_new_file = True\<rparr>]"
| "change_notes cid (Delete p original) =
     [\<lparr>tool_call_id = cid, absolute_path = p, fw_content = [], previous_content = Some original, is_new_file = False\<rparr>]"
| "change_notes cid (Update p original new) =
     [\<lparr>tool_call_id = cid, absolute_path = p, fw_content = new, previous_content = Some original, is_new_file = False\<rparr>]"
| "change_notes cid (Move src dest original new) =
     [\<lparr>tool_call_id = cid, absolute_path = dest, fw_content = new, previous_content = None, is_new_file = True\<rparr>,
      \<lparr>tool_call_id = cid, absolute_path = src, fw_content = [], previous_content = Some original, is_new_file = False\<rparr>]"

fun write_change :: "('d, 'p, 'b) patch_env \<Rightarrow> ('f, 'p, 'b) async_fs \<Rightarrow> 'p file_change \<Rightarrow> ('f, 'd, 'p) tool_state \<Rightarrow>
    ('f, 'd, 'p) tool_state \<times> (rstr + unit)" where
  "write_change E F (Add p content) s = and_then (do_mkdirs E p s) (do_write E F p content)"
| "write_change E F (Delete p original) s = do_delete F p s"
| "write_change E F (Update p original new) s = do_write E F p new s"
| "write_change E F (Move src dest original new) s =
     and_then (do_mkdirs E dest s) (\<lambda>s. and_then (do_write E F dest new s) (do_delete F src))"

definition apply_change :: "('d, 'p, 'b) patch_env \<Rightarrow> ('f, 'p, 'b) async_fs \<Rightarrow> 'p file_change \<Rightarrow> ('f, 'd, 'p) tool_state \<Rightarrow>
    ('f, 'd, 'p) tool_state \<times> (rstr + 'p file_result)" where
  "apply_change E F c s = and_then (write_change E F c s) (notify (change_notes (call_id E) c) (change_result c))"

fun apply_changes :: "('d, 'p, 'b) patch_env \<Rightarrow> ('f, 'p, 'b) async_fs \<Rightarrow> 'p file_change list \<Rightarrow> ('f, 'd, 'p) tool_state \<Rightarrow>
    ('f, 'd, 'p) tool_state \<times> (rstr + 'p file_result list)" where
  "apply_changes E F [] s = (s, Inr [])"
| "apply_changes E F (c # cs) s =
     (case apply_change E F c s of
        (s, Inl e) \<Rightarrow> (s, Inl e)
      | (s, Inr r) \<Rightarrow>
          (case apply_changes E F cs s of (s, Inl e) \<Rightarrow> (s, Inl e) | (s, Inr rs) \<Rightarrow> (s, Inr (r # rs))))"

definition action_prefix :: "rstr \<Rightarrow> rstr" where
  "action_prefix action =
     (if action = lit ''added'' then lit ''A'' else if action = lit ''deleted'' then lit ''D''
      else if action = lit ''moved'' then lit ''M'' else lit ''M'')"

definition build_summary :: "('p \<Rightarrow> rstr) \<Rightarrow> 'p file_result list \<Rightarrow> rstr" where
  "build_summary show results =
     lit ''Success. Updated the following files:'' @ [newline_ch] @
     concat (map (\<lambda>r. action_prefix (fr_action r) @ lit '' '' @ show (fr_path r) @ [newline_ch]) results)"

fun parse_error_text :: "parse_error \<Rightarrow> rstr" where
  "parse_error_text (InvalidPatchError m) = lit ''Invalid patch: '' @ m"
| "parse_error_text (InvalidHunkError m n) = lit ''Invalid patch hunk on line '' @ show_nat n @ lit '': '' @ m"

text \<open>The tool: \<open>None\<close> is a panic, \<open>Inl\<close> a tool error, \<open>Inr\<close> the output.\<close>

definition run :: "('d, 'p, 'b) patch_env \<Rightarrow> ('f, 'p, 'b) async_fs \<Rightarrow> rstr \<Rightarrow> ('f, 'd, 'p) tool_state \<Rightarrow>
    (('f, 'd, 'p) tool_state \<times> (rstr + 'p patch_output)) option" where
  "run E F patch_text s =
     (case parse_patch patch_text of
        Inl e \<Rightarrow> Some (s, Inr (ParseErr (parse_error_text e)))
      | Inr parsed \<Rightarrow>
          if hunks parsed = [] then Some (s, Inr (EmptyPatch (lit ''No files were modified.'')))
          else (case compute_all_changes E F (hunks parsed) (ts_fs s) of
                  None \<Rightarrow> None
                | Some (Inl msg) \<Rightarrow> Some (s, Inr (ApplicationError msg))
                | Some (Inr changes) \<Rightarrow>
                    (case apply_changes E F changes s of
                       (s, Inl e) \<Rightarrow> Some (s, Inl e)
                     | (s, Inr results) \<Rightarrow> Some (s, Inr (Success results (build_summary (show_path E) results))))))"

section \<open>What a change does to the files\<close>

fun effect :: "('d, 'p, 'b) patch_env \<Rightarrow> 'p file_change \<Rightarrow> ('p \<rightharpoonup> 'b) \<Rightarrow> ('p \<rightharpoonup> 'b)" where
  "effect E (Add p content) m = m(p \<mapsto> as_bytes E content)"
| "effect E (Delete p original) m = m(p := None)"
| "effect E (Update p original new) m = m(p \<mapsto> as_bytes E new)"
| "effect E (Move src dest original new) m = (m(dest \<mapsto> as_bytes E new))(src := None)"

lemma and_then_Inr: "and_then m k = (s', Inr x) \<longleftrightarrow> (\<exists>s u. m = (s, Inr u) \<and> k s = (s', Inr x))"
  by (auto simp: and_then_def split: prod.splits sum.splits)

lemma lift_io_Inr: "lift_io r = Inr u \<longleftrightarrow> r = Inr ()"
  by (auto simp: lift_io_def split: sum.splits)

context working_fs
begin

lemma do_write_files: "do_write E F p c s = (s', Inr u) \<Longrightarrow> files (ts_fs s') = (files (ts_fs s))(p \<mapsto> as_bytes E c) \<and> ts_notes s' = ts_notes s"
  by (auto simp: do_write_def lift_io_Inr dest: write_ok split: prod.splits)

lemma do_delete_files: "do_delete F p s = (s', Inr u) \<Longrightarrow> files (ts_fs s') = (files (ts_fs s))(p := None) \<and> ts_notes s' = ts_notes s"
  by (auto simp: do_delete_def lift_io_Inr dest: delete_ok split: prod.splits)

lemma do_mkdirs_files: "do_mkdirs E p s = (s', r) \<Longrightarrow> ts_fs s' = ts_fs s \<and> ts_notes s' = ts_notes s"
  by (auto simp: do_mkdirs_def split: prod.splits)

lemma write_change_files:
  "write_change E F c s = (s', Inr u) \<Longrightarrow> files (ts_fs s') = effect E c (files (ts_fs s)) \<and> ts_notes s' = ts_notes s"
  by (cases c)
    (auto simp: and_then_Inr dest!: do_write_files do_delete_files do_mkdirs_files)

lemma apply_change_files:
  assumes "apply_change E F c s = (s', Inr r)"
  shows "files (ts_fs s') = effect E c (files (ts_fs s)) \<and> ts_notes s' = ts_notes s @ change_notes (call_id E) c \<and> r = change_result c"
  using assms by (auto simp: apply_change_def and_then_Inr notify_def dest!: write_change_files)

lemma apply_changes_files:
  "apply_changes E F cs s = (s', Inr rs) \<Longrightarrow>
     files (ts_fs s') = fold (effect E) cs (files (ts_fs s)) \<and>
     ts_notes s' = ts_notes s @ concat (map (change_notes (call_id E)) cs) \<and> rs = map change_result cs"
proof (induction cs arbitrary: s s' rs)
  case (Cons c cs)
  then obtain s1 r rs1 where c: "apply_change E F c s = (s1, Inr r)" and cs: "apply_changes E F cs s1 = (s', Inr rs1)"
    and rs: "rs = r # rs1" by (auto split: prod.splits sum.splits)
  show ?case using apply_change_files [OF c] Cons.IH [OF cs] rs by simp
qed simp

end

section \<open>The tool does not panic\<close>

lemma hunk_change_returns: "\<exists>r. hunk_change E F h f = Some r"
proof (cases h)
  case (UpdateFile p m cs)
  then show ?thesis
  proof (cases "read_file_as_string E F (join_cwd E p) f")
    case (Inr original)
    obtain r where "derive_new_contents original (show_path E (join_cwd E p)) cs = Some r" using derive_returns by blast
    with Inr UpdateFile show ?thesis by (cases r) simp_all
  qed simp
next
  case (DeleteFile p)
  then show ?thesis by (cases "read_file_as_string E F (join_cwd E p) f") simp_all
qed simp

lemma compute_all_changes_returns: "\<exists>r. compute_all_changes E F hs f = Some r"
proof (induction hs)
  case (Cons h hs)
  obtain r where "hunk_change E F h f = Some r" using hunk_change_returns [of E F h f] by blast
  with Cons show ?case by (auto split: sum.splits)
qed simp

lemma compute_all_changes_length: "compute_all_changes E F hs f = Some (Inr cs) \<Longrightarrow> length cs = length hs"
  by (induction hs arbitrary: cs) (auto split: option.splits sum.splits)

lemma apply_changes_length: "apply_changes E F cs s = (s', Inr rs) \<Longrightarrow> length rs = length cs"
  by (induction cs arbitrary: s rs) (auto split: prod.splits sum.splits)

text \<open>
  On the in-memory file system only the directories can fail.  The first change whose directory cannot be made, and the error: changes
  that add or move a file make the parent directory of their destination, one after the other.
\<close>

fun destination :: "'p file_change \<Rightarrow> 'p option" where
  "destination (Add p _) = Some p"
| "destination (Move _ dest _ _) = Some dest"
| "destination _ = None"

fun blocked_at :: "('d, 'p, 'b) patch_env \<Rightarrow> 'p file_change list \<Rightarrow> 'd \<Rightarrow> (nat \<times> rstr) option" where
  "blocked_at E [] d = None"
| "blocked_at E (c # cs) d =
     (case destination c of
        None \<Rightarrow> map_option (apfst Suc) (blocked_at E cs d)
      | Some p \<Rightarrow>
          (case ensure_parent_dirs E p d of
             (_, Inl e) \<Rightarrow> Some (0, e)
           | (d, Inr _) \<Rightarrow> map_option (apfst Suc) (blocked_at E cs d)))"

definition changes_done :: "(nat \<times> rstr) option \<Rightarrow> 'c list \<Rightarrow> 'c list" where
  "changes_done blocked cs = (case blocked of None \<Rightarrow> cs | Some (k, e) \<Rightarrow> take k cs)"

lemma mock_write_change:
  "write_change E (mock_async_fs sp) c s =
     (case destination c of
        None \<Rightarrow> (fst (write_change E (mock_async_fs sp) c s), Inr ())
      | Some p \<Rightarrow>
          (case ensure_parent_dirs E p (ts_dirs s) of
             (d, Inl e) \<Rightarrow> (s\<lparr>ts_dirs := d\<rparr>, Inl e)
           | (d, Inr _) \<Rightarrow> (fst (write_change E (mock_async_fs sp) c s), Inr ())))"
  "ts_dirs (fst (write_change E (mock_async_fs sp) c s)) =
     (case destination c of None \<Rightarrow> ts_dirs s | Some p \<Rightarrow> fst (ensure_parent_dirs E p (ts_dirs s)))"
  by (cases c; auto simp: and_then_def do_mkdirs_def do_write_def do_delete_def mock_async_fs_def mock_write_file_def
      mock_delete_file_def lift_io_def split: prod.split sum.split)+

lemma mock_apply_change:
  assumes "write_change E (mock_async_fs sp) c s = (s1, r)"
  shows "apply_change E (mock_async_fs sp) c s =
    (case r of Inl e \<Rightarrow> (s1, Inl e) | Inr _ \<Rightarrow> (s1\<lparr>ts_notes := ts_notes s1 @ change_notes (call_id E) c\<rparr>, Inr (change_result c)))"
  using assms by (auto simp: apply_change_def and_then_def notify_def split: sum.split)

lemma mock_apply_changes:
  "\<exists>s'. apply_changes E (mock_async_fs sp) cs s =
      (s', case blocked_at E cs (ts_dirs s) of None \<Rightarrow> Inr (map change_result cs) | Some (k, e) \<Rightarrow> Inl e) \<and>
    (\<lambda>p. get_file p (ts_fs s')) = fold (effect E) (changes_done (blocked_at E cs (ts_dirs s)) cs) (\<lambda>p. get_file p (ts_fs s)) \<and>
    ts_notes s' = ts_notes s @ concat (map (change_notes (call_id E)) (changes_done (blocked_at E cs (ts_dirs s)) cs))"
proof (induction cs arbitrary: s)
  case (Cons c cs)
  show ?case
  proof (cases "\<exists>p d e. destination c = Some p \<and> ensure_parent_dirs E p (ts_dirs s) = (d, Inl e)")
    case True
    then obtain p d e where "destination c = Some p" "ensure_parent_dirs E p (ts_dirs s) = (d, Inl e)" by blast
    then show ?thesis using mock_write_change(1) [of E sp c s] by (simp add: mock_apply_change changes_done_def)
  next
    case False
    define s1 where "s1 = fst (write_change E (mock_async_fs sp) c s)"
    have w: "write_change E (mock_async_fs sp) c s = (s1, Inr ())"
      using False mock_write_change(1) [of E sp c s] unfolding s1_def by (auto split: option.splits prod.splits sum.splits)
    let ?s = "s1\<lparr>ts_notes := ts_notes s1 @ change_notes (call_id E) c\<rparr>"
    have b: "blocked_at E (c # cs) (ts_dirs s) = map_option (apfst Suc) (blocked_at E cs (ts_dirs ?s))"
      using False mock_write_change(2) [of E sp c s] by (auto simp: s1_def split: option.splits prod.splits sum.splits)
    have "changes_done (map_option (apfst Suc) x) (c # cs) = c # changes_done x cs" for x
      by (auto simp: changes_done_def split: option.split)
    moreover obtain s' where "apply_changes E (mock_async_fs sp) cs ?s =
        (s', case blocked_at E cs (ts_dirs ?s) of None \<Rightarrow> Inr (map change_result cs) | Some (k, e) \<Rightarrow> Inl e)"
      "(\<lambda>p. get_file p (ts_fs s')) = fold (effect E) (changes_done (blocked_at E cs (ts_dirs ?s)) cs) (\<lambda>p. get_file p (ts_fs ?s))"
      "ts_notes s' = ts_notes ?s @ concat (map (change_notes (call_id E)) (changes_done (blocked_at E cs (ts_dirs ?s)) cs))"
      using Cons.IH [of ?s] by blast
    ultimately show ?thesis
      using mock_apply_change [OF w] mock_fs.write_change_files [OF w] unfolding b
      by (auto split: option.split)
  qed
qed (simp add: changes_done_def)

section \<open>Properties\<close>

text \<open>
  C37. Nothing is written before everything is known to apply: on any file system, a patch that does not parse, is
  empty, or has a hunk that cannot be read or located leaves files, directories and notifications as they were and says
  why; the tool never panics; and a success reports exactly one result per hunk.
\<close>

theorem run_plans_before_writing:
  "case run E F patch_text s of
     None \<Rightarrow> False
   | Some (s', Inr (Success results summary)) \<Rightarrow>
       (\<exists>parsed. parse_patch patch_text = Inr parsed \<and> length results = length (hunks parsed) \<and> hunks parsed \<noteq> [])
   | Some (s', Inr output) \<Rightarrow> s' = s
   | Some (s', Inl e) \<Rightarrow> (\<exists>parsed cs. parse_patch patch_text = Inr parsed \<and>
       compute_all_changes E F (hunks parsed) (ts_fs s) = Some (Inr cs))"
proof (cases "parse_patch patch_text")
  case (Inr parsed)
  obtain r where r: "compute_all_changes E F (hunks parsed) (ts_fs s) = Some r"
    using compute_all_changes_returns [of E F "hunks parsed" "ts_fs s"] by blast
  show ?thesis
  proof (cases r)
    case changes: (Inr cs)
    then show ?thesis
      using Inr r apply_changes_length [of E F cs s] compute_all_changes_length [of E F "hunks parsed" "ts_fs s" cs]
      by (cases "apply_changes E F cs s"; cases "snd (apply_changes E F cs s)") (auto simp: run_def)
  qed (use Inr r in \<open>simp add: run_def\<close>)
qed (simp add: run_def)


definition sample_env :: "(unit, rstr, rstr) patch_env" where
  "sample_env = \<lparr>call_id = lit ''1'', join_cwd = id, show_path = id, as_bytes = id, from_utf8_lossy = id,
     parent_path = (\<lambda>p. if p = [] then None else Some (butlast p)), is_empty_path = (\<lambda>p. p = []),
     create_dir_all = (\<lambda>p d. (d, if ch CHR ''/'' \<in> set p then Inr () else Inl (lit ''File exists'')))\<rparr>"

definition sample_state :: "((rstr, rstr) mock_fs, unit, rstr) tool_state" where
  "sample_state = \<lparr>ts_fs = \<lparr>mock_files = [(lit ''f'', lit ''a'' @ [newline_ch])]\<rparr>, ts_dirs = (), ts_notes = []\<rparr>"

abbreviation replace_chunk :: "rstr \<Rightarrow> rstr \<Rightarrow> update_file_chunk" where
  "replace_chunk a b \<equiv> \<lparr>change_context = None, old_lines = [a], new_lines = [b], is_end_of_file = False\<rparr>"

lemmas tool_eval = read_file_as_string_def mock_async_fs_def mock_read_file_def get_file_def sample_env_def sample_state_def
  derive_new_contents_def original_lines_def patch_eval lit_def apply_replacements_def remove_lines.simps vec_insert_def
  with_final_newline_def update_change_def


section \<open>Where the plan goes wrong\<close>

text \<open>
  Every change is computed from the files as they were before the patch, so of two updates of one file only the last
  survives, although both are reported as done.
\<close>

lemma second_update_overwrites_first:
  fixes s :: "((rstr, rstr) mock_fs, unit, rstr) tool_state"
  defines "s \<equiv> \<lparr>ts_fs = \<lparr>mock_files = [(lit ''f'', lit ''a'' @ [newline_ch] @ lit ''b'' @ [newline_ch])]\<rparr>, ts_dirs = (), ts_notes = []\<rparr>"
  shows "\<exists>cs. compute_all_changes sample_env (mock_async_fs id)
      [UpdateFile (lit ''f'') None [replace_chunk (lit ''a'') (lit ''A'')],
       UpdateFile (lit ''f'') None [replace_chunk (lit ''b'') (lit ''B'')]] (ts_fs s) = Some (Inr cs) \<and>
    fold (effect sample_env) cs (\<lambda>p. get_file p (ts_fs s)) (lit ''f'') =
      Some (lit ''a'' @ [newline_ch] @ lit ''B'' @ [newline_ch])"
  unfolding s_def by (simp add: tool_eval)

text \<open>Moving a file onto itself writes it and then deletes it.\<close>

lemma move_onto_itself_deletes: "effect E (Move p p original new) m p = None"
  by simp

text \<open>
  Adding a file does not look whether it exists: the old contents are replaced, and the notification from which
  a rewind restores files says the file is new and had no contents.
\<close>

lemma add_forgets_existing_file:
  "hunk_change E F (AddFile path contents) f = Some (Inr (Add (join_cwd E path) contents))"
  "change_notes cid (Add p contents) =
     [\<lparr>tool_call_id = cid, absolute_path = p, fw_content = contents, previous_content = None, is_new_file = True\<rparr>]"
  by simp_all

text \<open>
  The tool's description tells the model to stack several \<open>@@\<close> lines to reach a place; the parser takes the second
  one for an unexpected line.
\<close>

lemma stacked_contexts_are_rejected:
  "parse_update_file_chunk [lit ''@@ class A'', lit ''@@ def f'', lit ''-x'', lit ''+y''] n True =
     Inl (InvalidHunkError (unexpected_line (lit ''@@ def f'')) (n + 1))"
  by (simp add: parse_update_file_chunk_def chunk_header_def strip_prefix_def text_simps lit_def)

end
