(* ===== verification/Permission_Rules.thy ===== *)
theory Permission_Rules
  imports Prelude
begin

text \<open>
  The vocabulary of the permission system (\<open>packages/tools/xai-grok-workspace/src/permission/types.rs\<close>) and the parser of
  permission rules (\<open>rules.rs\<close>).
\<close>

section \<open>Types\<close>

datatype client_type = Generic | GrokTUI | GrokWeb | Nebula | Extension | GrokPager | Desktop

fun user_agent_label :: "client_type \<Rightarrow> rstr" where
  "user_agent_label Generic = lit ''grok-shell''"
| "user_agent_label GrokTUI = lit ''grok-tui''"
| "user_agent_label GrokWeb = lit ''grok-web''"
| "user_agent_label Nebula = lit ''nebula''"
| "user_agent_label Extension = lit ''grok-code-extension''"
| "user_agent_label GrokPager = lit ''grok-pager''"
| "user_agent_label Desktop = lit ''grok-desktop''"

definition from_client_identifier :: "rstr option \<Rightarrow> client_type" where
  "from_client_identifier cid =
     (if cid = Some (lit ''grok-web'') then GrokWeb
      else if cid = Some (lit ''nebula'') then Nebula
      else if cid = Some (lit ''grok-code-extension'') then Extension
      else if cid = Some (lit ''grok-desktop'') then Desktop
      else if cid = Some (lit ''grok-pager'') then GrokPager
      else Generic)"

fun feedback_label :: "client_type \<Rightarrow> rstr" where
  "feedback_label GrokTUI = lit ''tui''"
| "feedback_label GrokPager = lit ''tui''"
| "feedback_label GrokWeb = lit ''web''"
| "feedback_label Nebula = lit ''nebula''"
| "feedback_label Extension = lit ''extension''"
| "feedback_label Generic = lit ''agent''"
| "feedback_label Desktop = lit ''desktop''"

definition can_present_permission_prompt :: "client_type \<Rightarrow> bool" where
  "can_present_permission_prompt c \<longleftrightarrow> c \<noteq> Generic"

datatype 'json access_kind =
    Read "rstr option"
  | Grep "rstr option" "rstr option"
  | Edit rstr
  | Bash rstr
  | MCPTool rstr 'json
  | WebFetch rstr
  | WebSearch rstr
  | AgentMessage rstr

datatype decision = Allow | Ask | FollowupMessage rstr | Reject rstr | PolicyDeny rstr | Cancelled

datatype edit_policy = EditAsk | EditAllow | EditReject

fun edit_policy_serialize :: "edit_policy \<Rightarrow> rstr" where
  "edit_policy_serialize EditAsk = lit ''ask''"
| "edit_policy_serialize EditAllow = lit ''allow''"
| "edit_policy_serialize EditReject = lit ''reject''"

definition edit_policy_deserialize :: "rstr \<Rightarrow> rstr + edit_policy" where
  "edit_policy_deserialize v =
     (if v = lit ''ask'' then Inr EditAsk else if v = lit ''allow'' then Inr EditAllow
      else if v = lit ''reject'' then Inr EditReject else Inl v)"

record hook_ask =
  hook_name :: rstr
  hook_reason :: "rstr option"

definition HOOK_ASK_SEPARATOR :: rstr where
  "HOOK_ASK_SEPARATOR = [32, 8212, 32]"

definition ask_line :: "hook_ask \<Rightarrow> rstr" where
  "ask_line h =
     (let reason = join [32] (split_whitespace (case hook_reason h of Some r \<Rightarrow> r | None \<Rightarrow> []))
      in if reason = [] then lit ''hook '' @ [39] @ hook_name h @ [39] @ lit '' asks for confirmation''
         else lit ''hook '' @ [39] @ hook_name h @ [39] @ lit '' asks: '' @ reason)"

definition prompt_header :: "hook_ask \<Rightarrow> rstr \<Rightarrow> rstr" where
  "prompt_header h action = action @ HOOK_ASK_SEPARATOR @ ask_line h"

definition strip_prompt_header :: "hook_ask \<Rightarrow> rstr \<Rightarrow> rstr" where
  "strip_prompt_header h title =
     (case strip_suffix title (ask_line h) of
        None \<Rightarrow> title
      | Some action \<Rightarrow> (case strip_suffix action HOOK_ASK_SEPARATOR of Some a \<Rightarrow> a | None \<Rightarrow> title))"

text \<open>The part of a tool input the access kind depends on.\<close>

datatype 'json tool_input =
    ReadFile rstr | ListDir rstr | GrepInput "rstr option" "rstr option"
  | TodoWrite | TaskOutput | WaitTasks | KillTask | Skill
  | Task rstr | SendSubagentMessage rstr | WebSearchInput rstr
  | SearchReplace rstr | ApplyPatch rstr | HashlineEdit rstr | Write rstr
  | BashInput rstr | Monitor rstr | MCPToolInput rstr 'json | UseTool rstr 'json | WebFetchInput rstr
  | Dynamic 'json | OtherInput

text \<open>A JSON object, as far as the dynamic classification looks at it: its members, with the text of the string members.\<close>

type_synonym 'json as_object = "'json \<Rightarrow> (rstr \<times> rstr option) list option"

fun find_string :: "(rstr \<times> rstr option) list \<Rightarrow> rstr list \<Rightarrow> rstr option" where
  "find_string members [] = None"
| "find_string members (k # ks) =
     (case map_of members k of Some (Some s) \<Rightarrow> Some s | _ \<Rightarrow> find_string members ks)"

definition dynamic_string_field :: "'json as_object \<Rightarrow> 'json \<Rightarrow> string list \<Rightarrow> rstr option" where
  "dynamic_string_field obj v keys = (case obj v of None \<Rightarrow> None | Some members \<Rightarrow> find_string members (map lit keys))"

definition dynamic_has_field :: "'json as_object \<Rightarrow> 'json \<Rightarrow> string list \<Rightarrow> bool" where
  "dynamic_has_field obj v keys =
     (case obj v of None \<Rightarrow> False | Some members \<Rightarrow> list_ex (\<lambda>k. map_of members (lit k) \<noteq> None) keys)"

definition access_kind_from_dynamic :: "'json as_object \<Rightarrow> 'json \<Rightarrow> 'json access_kind" where
  "access_kind_from_dynamic obj v =
     (case dynamic_string_field obj v [''filePath'', ''file_path'', ''path''] of
        Some path \<Rightarrow>
          if dynamic_has_field obj v [''oldString'', ''old_string'', ''newString'', ''new_string'', ''content'', ''edits'',
              ''replaceAll'', ''replace_all'']
          then Edit path else Read (Some path)
      | None \<Rightarrow>
          (case dynamic_string_field obj v [''command''] of Some command \<Rightarrow> Bash command | None \<Rightarrow> Read None))"

fun access_kind_of :: "'json as_object \<Rightarrow> 'json tool_input \<Rightarrow> 'json access_kind" where
  "access_kind_of obj (ReadFile p) = Read (Some p)"
| "access_kind_of obj (ListDir d) = Read (Some d)"
| "access_kind_of obj (GrepInput p g) = Grep p g"
| "access_kind_of obj (Task t) = Edit (lit ''task:'' @ t)"
| "access_kind_of obj (SendSubagentMessage i) = AgentMessage i"
| "access_kind_of obj (WebSearchInput q) = WebSearch q"
| "access_kind_of obj (SearchReplace p) = Edit p"
| "access_kind_of obj (ApplyPatch patch) = Edit (lit ''apply_patch'')"
| "access_kind_of obj (HashlineEdit p) = Edit p"
| "access_kind_of obj (Write p) = Edit p"
| "access_kind_of obj (BashInput c) = Bash c"
| "access_kind_of obj (Monitor c) = Bash c"
| "access_kind_of obj (MCPToolInput n i) = MCPTool n i"
| "access_kind_of obj (UseTool n i) = MCPTool n i"
| "access_kind_of obj (WebFetchInput u) = WebFetch u"
| "access_kind_of obj (Dynamic v) = access_kind_from_dynamic obj v"
| "access_kind_of obj _ = Read None"

datatype prompt_policy = PromptAsk | PromptDeny | PromptAuto | PromptAllow
datatype pattern_mode = Glob | Domain
datatype rule_action = RuleAllow | RuleDeny | RuleAsk
datatype tool_filter = FAny | FBash | FEdit | FRead | FGrep | FMcp | FWebFetch | FWebSearch | FAgentMessage

record permission_rule =
  rule_action :: rule_action
  rule_tool :: tool_filter
  rule_pattern :: "rstr option"
  rule_mode :: pattern_mode

record permission_config =
  config_rules :: "permission_rule list"
  config_prompt_policy :: prompt_policy
  default_mode_configured :: bool

definition permission_config_new :: "permission_rule list \<Rightarrow> permission_config" where
  "permission_config_new rules = \<lparr>config_rules = rules, config_prompt_policy = PromptAsk, default_mode_configured = False\<rparr>"

section \<open>Default modes\<close>

datatype default_permission_mode = DefaultMode | AcceptEdits | Plan | AutoMode | DontAsk | BypassPermissions

definition default_mode_from_str :: "rstr \<Rightarrow> rstr + default_permission_mode" where
  "default_mode_from_str s =
     (if s = lit ''default'' then Inr DefaultMode else if s = lit ''acceptEdits'' then Inr AcceptEdits
      else if s = lit ''plan'' then Inr Plan else if s = lit ''auto'' then Inr AutoMode
      else if s = lit ''dontAsk'' then Inr DontAsk else if s = lit ''bypassPermissions'' then Inr BypassPermissions
      else Inl s)"

record default_mode_effects =
  effect_prompt_policy :: prompt_policy
  accept_edits :: bool
  bypass_permissions :: bool

definition no_effects :: default_mode_effects where
  "no_effects = \<lparr>effect_prompt_policy = PromptAsk, accept_edits = False, bypass_permissions = False\<rparr>"

fun effects :: "default_permission_mode \<Rightarrow> default_mode_effects" where
  "effects AcceptEdits = no_effects\<lparr>accept_edits := True\<rparr>"
| "effects BypassPermissions = no_effects\<lparr>bypass_permissions := True\<rparr>"
| "effects DefaultMode = no_effects"
| "effects Plan = no_effects"
| "effects DontAsk = no_effects\<lparr>effect_prompt_policy := PromptDeny\<rparr>"
| "effects AutoMode = no_effects\<lparr>effect_prompt_policy := PromptAuto\<rparr>"

section \<open>Parsing a rule\<close>

datatype rule_parse_error = UnsupportedToolPrefix rstr | UnknownToolPrefix rstr | MalformedRule rstr

fun show_rule_parse_error :: "rule_parse_error \<Rightarrow> rstr" where
  "show_rule_parse_error (UnsupportedToolPrefix p) = lit ''unsupported tool prefix: '' @ p"
| "show_rule_parse_error (UnknownToolPrefix p) = lit ''unknown tool prefix: '' @ p"
| "show_rule_parse_error (MalformedRule d) = lit ''malformed rule: '' @ d"

definition tool_name_to_filter :: "rstr \<Rightarrow> tool_filter option" where
  "tool_name_to_filter name =
     (if name = lit ''Bash'' then Some FBash
      else if name = lit ''Read'' then Some FRead
      else if name = lit ''Edit'' \<or> name = lit ''Write'' then Some FEdit
      else if name = lit ''MCPTool'' then Some FMcp
      else if name = lit ''Grep'' \<or> name = lit ''Glob'' then Some FGrep
      else if name = lit ''WebFetch'' then Some FWebFetch
      else if name = lit ''WebSearch'' then Some FWebSearch
      else if name = lit ''AgentMessage'' \<or> name = lit ''SendSubagentMessage'' \<or> name = lit ''SendAgentMessage'' then
        Some FAgentMessage
      else None)"

text \<open>
  The searches run over bytes for an ASCII character, so an index counts characters here and the same place in bytes in
  the code.
\<close>

definition is_unescaped :: "rstr \<Rightarrow> nat \<Rightarrow> bool" where
  "is_unescaped s pos \<longleftrightarrow> even (length (takeWhile (\<lambda>c. c = 92) (rev (take pos s))))"

definition find_first_unescaped :: "rstr \<Rightarrow> uchar \<Rightarrow> nat option" where
  "find_first_unescaped s target = find (\<lambda>i. s ! i = target \<and> is_unescaped s i) [0..<length s]"

definition find_last_unescaped :: "rstr \<Rightarrow> uchar \<Rightarrow> nat option" where
  "find_last_unescaped s target = find (\<lambda>i. s ! i = target \<and> is_unescaped s i) (rev [0..<length s])"

definition unescape_rule_content :: "rstr \<Rightarrow> rstr" where
  "unescape_rule_content s =
     (if 92 \<notin> set s then s
      else str_replace [92, 92] [92] (str_replace [92, 41] [41] (str_replace [92, 40] [40] s)))"

definition strip_domain_prefix :: "rstr \<Rightarrow> rstr \<times> pattern_mode" where
  "strip_domain_prefix pattern =
     (case strip_prefix pattern (lit ''domain:'') of Some d \<Rightarrow> (d, Domain) | None \<Rightarrow> (pattern, Glob))"

definition strip_bash_colon_wildcard :: "rstr \<Rightarrow> rstr" where
  "strip_bash_colon_wildcard pattern = (case strip_suffix pattern (lit '':*'') of Some p \<Rightarrow> p | None \<Rightarrow> pattern)"

definition unsupported_tool :: "rstr \<Rightarrow> bool" where
  "unsupported_tool name \<longleftrightarrow> name \<in> {lit ''EnterWorktree'', lit ''NotebookEdit'', lit ''NotebookRead''}"

definition nonempty :: "rstr \<Rightarrow> rstr option" where
  "nonempty s = (if s = [] then None else Some s)"

text \<open>A rule with parentheses: the tool before the first unescaped one, the content up to the last.\<close>

definition parse_tool_rule :: "rstr \<Rightarrow> rstr \<Rightarrow> rule_action \<Rightarrow> rule_parse_error + permission_rule" where
  "parse_tool_rule prefix_text content_and_close action =
     (case find_last_unescaped content_and_close 41 of
        None \<Rightarrow> Inl (MalformedRule (lit ''missing closing parenthesis''))
      | Some close \<Rightarrow>
          (let name = trim prefix_text;
               raw_content = trim (take close content_and_close);
               pattern = (if raw_content = [] \<or> raw_content = lit ''*'' then [] else unescape_rule_content raw_content)
           in case tool_name_to_filter name of
                None \<Rightarrow> Inl (if unsupported_tool name then UnsupportedToolPrefix name else UnknownToolPrefix name)
              | Some tool \<Rightarrow>
                  (let pattern = (if tool = FBash then strip_bash_colon_wildcard pattern else pattern);
                       (pattern, mode) = strip_domain_prefix pattern
                   in Inr \<lparr>rule_action = action, rule_tool = tool, rule_pattern = nonempty pattern, rule_mode = mode\<rparr>)))"

definition contains_str :: "rstr \<Rightarrow> rstr \<Rightarrow> bool" where
  "contains_str s p \<longleftrightarrow> list_ex (\<lambda>i. prefix p (drop i s)) [0..<Suc (length s)]"

definition mcp_pattern :: "rstr \<Rightarrow> rstr option" where
  "mcp_pattern rest =
     (if rest = lit ''*'' then None
      else if contains_str rest (lit ''__'') then Some rest
      else Some (rest @ lit ''__*''))"

definition parse_bare_rule :: "rstr \<Rightarrow> rule_action \<Rightarrow> rule_parse_error + permission_rule" where
  "parse_bare_rule rule action =
     (if unsupported_tool rule then Inl (UnsupportedToolPrefix rule)
      else case tool_name_to_filter rule of
          Some tool \<Rightarrow> Inr \<lparr>rule_action = action, rule_tool = tool, rule_pattern = None, rule_mode = Glob\<rparr>
        | None \<Rightarrow>
            (case strip_prefix rule (lit ''mcp__'') of
               Some (c # rest) \<Rightarrow>
                 Inr \<lparr>rule_action = action, rule_tool = FMcp, rule_pattern = mcp_pattern (c # rest), rule_mode = Glob\<rparr>
             | _ \<Rightarrow> Inr \<lparr>rule_action = action, rule_tool = FAny, rule_pattern = nonempty rule, rule_mode = Glob\<rparr>))"

definition parse_permission_rule :: "rstr \<Rightarrow> rule_action \<Rightarrow> rule_parse_error + permission_rule" where
  "parse_permission_rule rule action =
     (let rule = trim rule
      in case find_first_unescaped rule 40 of
           Some open_paren \<Rightarrow> parse_tool_rule (take open_paren rule) (drop (open_paren + 1) rule) action
         | None \<Rightarrow> parse_bare_rule rule action)"

section \<open>Formatting a rule\<close>

fun filter_name :: "tool_filter \<Rightarrow> rstr" where
  "filter_name FAny = []"
| "filter_name FBash = lit ''Bash''"
| "filter_name FEdit = lit ''Edit''"
| "filter_name FRead = lit ''Read''"
| "filter_name FGrep = lit ''Grep''"
| "filter_name FMcp = lit ''MCPTool''"
| "filter_name FWebFetch = lit ''WebFetch''"
| "filter_name FWebSearch = lit ''WebSearch''"
| "filter_name FAgentMessage = lit ''AgentMessage''"

definition format_rule_string :: "permission_rule \<Rightarrow> rstr" where
  "format_rule_string r =
     (case rule_pattern r of
        None \<Rightarrow> if rule_tool r = FAny then lit ''*'' else filter_name (rule_tool r)
      | Some pat \<Rightarrow>
          if rule_tool r = FAny then pat
          else filter_name (rule_tool r) @ lit ''('' @ (if rule_mode r = Domain then lit ''domain:'' @ pat else pat) @ lit '')'')"

section \<open>Reading back what is written\<close>

lemma unescaped_without_backslash: "92 \<notin> set s \<Longrightarrow> is_unescaped s i"
proof -
  assume "92 \<notin> set s"
  then have "92 \<notin> set (rev (take i s))" by (auto dest: in_set_takeD)
  then have "takeWhile (\<lambda>c. c = 92) (rev (take i s)) = []" by (cases "rev (take i s)") auto
  then show ?thesis by (simp add: is_unescaped_def)
qed

lemma find_first_paren:
  assumes "40 \<notin> set a" and "92 \<notin> set a"
  shows "find_first_unescaped (a @ 40 # b) 40 = Some (length a)"
proof -
  have "is_unescaped (a @ 40 # b) (length a)" using unescaped_without_backslash [OF assms(2), of "length a"] by (simp add: is_unescaped_def)
  then show ?thesis
    unfolding find_first_unescaped_def find_upt_least using assms(1) by (auto simp: nth_append dest: nth_mem)
qed

lemma find_last_paren:
  assumes "even (length (takeWhile (\<lambda>c. c = 92) (rev c)))"
  shows "find_last_unescaped (c @ [41]) 41 = Some (length c)"
  using assms by (simp add: find_last_unescaped_def is_unescaped_def)

lemma filter_names:
  assumes "t \<noteq> FAny"
  shows "tool_name_to_filter (filter_name t) = Some t" "trim (filter_name t) = filter_name t"
    "40 \<notin> set (filter_name t)" "92 \<notin> set (filter_name t)" "\<not> unsupported_tool (filter_name t)"
  using assms
  by (cases t; simp add: tool_name_to_filter_def unsupported_tool_def;
      simp add: lit_def trim_def trim_end_def trim_end_matches_def is_whitespace_def)+

lemma trim_tool_rule:
  assumes "trim name = name"
  shows "trim (name @ 40 # (w @ [41])) = name @ 40 # (w @ [41])"
proof -
  have e: "trim_end (x @ [41]) = x @ [41]" for x
    using trim_end_append [of x "[41]"] by (simp add: trim_end_singleton is_whitespace_def)
  have "trim_start (name @ 40 # (w @ [41])) = name @ 40 # (w @ [41])"
  proof (cases name)
    case (Cons c cs)
    have "\<not> is_whitespace c"
    proof
      assume "is_whitespace c"
      then have "length (trim name) \<le> length cs"
        using Cons by (simp add: trim_def trim_start_def trim_end_def trim_end_matches_def)
          (metis length_dropWhile_le length_rev order_trans)
      with assms Cons show False by simp
    qed
    then show ?thesis using Cons by simp
  qed (simp add: is_whitespace_def)
  then show ?thesis using e [of "name @ 40 # w"] by (simp add: trim_def)
qed

subsection \<open>Escaping\<close>

text \<open>The notation that the parser undoes: a backslash before every parenthesis and every backslash of the pattern.\<close>

definition escape_in :: "uchar set \<Rightarrow> rstr \<Rightarrow> rstr" where
  "escape_in special s = concat (map (\<lambda>c. if c \<in> special then [92, c] else [c]) s)"

abbreviation escape_rule_content :: "rstr \<Rightarrow> rstr" where
  "escape_rule_content \<equiv> escape_in {40, 41, 92}"

lemma escape_in_simps [simp]:
  "escape_in A [] = []" "escape_in A (c # s) = (if c \<in> A then 92 # c # escape_in A s else c # escape_in A s)"
  "escape_in A (s @ t) = escape_in A s @ escape_in A t"
  by (simp_all add: escape_in_def)

lemma escape_in_plain: "set s \<inter> A = {} \<Longrightarrow> escape_in A s = s"
  by (induction s) auto

lemma escape_in_head: "c \<in> A \<Longrightarrow> c \<noteq> 92 \<Longrightarrow> escape_in A s \<noteq> c # t"
  by (cases s) auto

lemma str_replace_step:
  "str_replace [x, y] r (c # s) = (if c = x \<and> (\<exists>t. s = y # t) then r @ str_replace [x, y] r (tl s) else c # str_replace [x, y] r s)"
  by (subst str_replace.simps) (cases s; auto)

lemma unescape_paren:
  assumes "c \<in> A" "c \<noteq> 92" "92 \<in> A"
  shows "str_replace [92, c] [c] (escape_in A s) = escape_in (A - {c}) s"
proof (induction s)
  case (Cons d s)
  then show ?case using assms escape_in_head [of c A s] by (auto simp: str_replace_step)
qed simp

lemma unescape_backslash: "str_replace [92, 92] [92] (escape_in {92} s) = s"
  by (induction s) (auto simp: str_replace_step)

lemma unescape_escape: "unescape_rule_content (escape_rule_content s) = s"
proof -
  have plain: "92 \<notin> set (escape_rule_content s) \<Longrightarrow> escape_rule_content s = s" by (induction s) (auto split: if_splits)
  have "escape_in ({40, 41, 92} - {40}) = escape_in {41, 92}" "escape_in ({41, 92} - {41}) = escape_in {92}"
    by (rule arg_cong [of _ _ escape_in]; auto)+
  then have "str_replace [92, 92] [92] (str_replace [92, 41] [41] (str_replace [92, 40] [40] (escape_rule_content s))) = s"
    using unescape_paren [of 40 "{40, 41, 92}" s] unescape_paren [of 41 "{41, 92}" s] unescape_backslash [of s] by simp
  then show ?thesis using plain by (simp add: unescape_rule_content_def)
qed

lemma escaped_end: "even (length (takeWhile (\<lambda>c. c = 92) (rev (escape_rule_content s))))"
  by (induction s rule: rev_induct) auto

lemma trim_fixed: "trim s = s \<longleftrightarrow> s = [] \<or> \<not> is_whitespace (hd s) \<and> \<not> is_whitespace (last s)"
proof (cases "s = []")
  case False
  have "\<not> is_whitespace (hd (trim t))" "\<not> is_whitespace (last (trim t))" if "trim t \<noteq> []" for t
  proof -
    show "\<not> is_whitespace (last (trim t))"
      using that hd_dropWhile [of is_whitespace "rev (trim_start t)"] by (simp add: trim_def trim_end_def trim_end_matches_def last_rev)
    have "trim t = dropWhile is_whitespace (trim_end t)" using trim_start_trim_end [of t] by (simp add: trim_def trim_start_def)
    then show "\<not> is_whitespace (hd (trim t))" using that hd_dropWhile [of is_whitespace "trim_end t"] by (metis dropWhile_eq_Nil_conv)
  qed
  moreover have "trim s = s" if "\<not> is_whitespace (hd s)" "\<not> is_whitespace (last s)"
  proof -
    have "trim_start s = s" using that(1) False by (cases s) simp_all
    moreover have "trim_end s = s" using that(2) False by (cases s rule: rev_cases) (simp_all add: trim_end_append trim_end_singleton)
    ultimately show ?thesis by (simp add: trim_def)
  qed
  ultimately show ?thesis using False by metis
qed simp

lemma escaped_trim: "trim s = s \<Longrightarrow> trim (escape_rule_content s) = escape_rule_content s"
proof -
  assume t: "trim s = s"
  show ?thesis
  proof (cases "s = []")
    case False
    then have "hd (escape_rule_content s) \<in> {92, hd s}" by (cases s) auto
    moreover from False have "last (escape_rule_content s) = last s" by (cases s rule: rev_cases) auto
    moreover have "\<not> is_whitespace (hd s)" "\<not> is_whitespace (last s)" using t False unfolding trim_fixed by simp_all
    moreover have "\<not> is_whitespace 92" by (simp add: is_whitespace_def)
    ultimately show ?thesis unfolding trim_fixed by auto
  qed simp
qed

subsection \<open>The round trip\<close>

text \<open>
  A rule as it is written with escapes, and the rules that have a text at all.  A rule on a tool needs a pattern that does not itself look
  like one of the notations of the rule language (empty, \<open>*\<close>, white space at an end, \<open>:*\<close> at the end of a shell pattern, a \<open>domain:\<close>
  prefix).  A rule on any tool needs a pattern that is not read as a tool, an MCP tool or a pattern in parentheses.
\<close>

definition escaped_rule_string :: "permission_rule \<Rightarrow> rstr" where
  "escaped_rule_string r =
     (case rule_pattern r of
        None \<Rightarrow> filter_name (rule_tool r)
      | Some pat \<Rightarrow>
          if rule_tool r = FAny then pat
          else filter_name (rule_tool r) @ lit ''('' @ (if rule_mode r = Domain then lit ''domain:'' else []) @ escape_rule_content pat @ lit '')'')"

definition plain_pattern :: "permission_rule \<Rightarrow> rstr \<Rightarrow> bool" where
  "plain_pattern r pat \<longleftrightarrow>
     (let written = (if rule_mode r = Domain then lit ''domain:'' @ pat else pat)
      in pat \<noteq> [] \<and> trim written = written \<and> written \<noteq> lit ''*'' \<and>
         \<not> (rule_tool r = FBash \<and> ends_with written (lit '':*'')) \<and>
         \<not> (rule_mode r = Glob \<and> starts_with pat (lit ''domain:'')))"

definition bare_pattern :: "rstr \<Rightarrow> bool" where
  "bare_pattern pat \<longleftrightarrow>
     pat \<noteq> [] \<and> trim pat = pat \<and> 40 \<notin> set pat \<and> tool_name_to_filter pat = None \<and> \<not> unsupported_tool pat \<and> \<not> starts_with pat (lit ''mcp__'')"

definition has_text :: "permission_rule \<Rightarrow> bool" where
  "has_text r \<longleftrightarrow>
     (case rule_pattern r of
        None \<Rightarrow> rule_tool r \<noteq> FAny \<and> rule_mode r = Glob
      | Some pat \<Rightarrow> if rule_tool r = FAny then rule_mode r = Glob \<and> bare_pattern pat else plain_pattern r pat)"

lemma no_paren: "40 \<notin> set s \<Longrightarrow> find_first_unescaped s 40 = None"
  by (auto simp: find_first_unescaped_def find_None_iff in_set_conv_nth)

lemma parse_bare:
  assumes "rule_pattern r = None \<or> rule_tool r = FAny" "has_text r"
  shows "parse_permission_rule (escaped_rule_string r) (rule_action r) = Inr r" "escaped_rule_string r = format_rule_string r"
proof -
  have "find_first_unescaped (escaped_rule_string r) 40 = None \<and> trim (escaped_rule_string r) = escaped_rule_string r"
    using assms filter_names [of "rule_tool r"]
    by (auto simp: has_text_def escaped_rule_string_def bare_pattern_def intro!: no_paren split: option.splits)
  then show "parse_permission_rule (escaped_rule_string r) (rule_action r) = Inr r" "escaped_rule_string r = format_rule_string r"
    using assms filter_names [of "rule_tool r"]
    by (auto simp: has_text_def escaped_rule_string_def format_rule_string_def bare_pattern_def parse_permission_rule_def parse_bare_rule_def
        nonempty_def strip_prefix_def starts_with_def Let_def split: option.splits)
qed

text \<open>A rule in parentheses, whose content \<open>v\<close> is some spelling of the pattern.\<close>

lemma parse_in_parens:
  assumes "rule_tool r \<noteq> FAny" "rule_pattern r = Some pat" "plain_pattern r pat"
    and w: "w = (if rule_mode r = Domain then lit ''domain:'' @ pat else pat)"
    and v: "unescape_rule_content v = w" "trim v = v" "v \<noteq> []" "v \<noteq> lit ''*''" "even (length (takeWhile (\<lambda>c. c = 92) (rev v)))"
  shows "parse_permission_rule (filter_name (rule_tool r) @ 40 # (v @ [41])) (rule_action r) = Inr r"
proof -
  let ?name = "filter_name (rule_tool r)"
  have t: "trim (?name @ 40 # (v @ [41])) = ?name @ 40 # (v @ [41])" using filter_names(2) [OF assms(1)] by (rule trim_tool_rule)
  have first: "find_first_unescaped (?name @ 40 # (v @ [41])) 40 = Some (length ?name)"
    by (rule find_first_paren) (use filter_names [OF assms(1)] in auto)
  note last = find_last_paren [OF v(5)]
  have colon: "(if rule_tool r = FBash then strip_bash_colon_wildcard w else w) = w"
    using assms(3) by (auto simp: w plain_pattern_def strip_bash_colon_wildcard_def strip_suffix_def ends_with_def Let_def)
  have domain: "strip_domain_prefix w = (pat, rule_mode r)"
    using assms(3) by (cases "rule_mode r")
      (auto simp: w plain_pattern_def strip_domain_prefix_def strip_prefix_def starts_with_def Let_def)
  have "nonempty pat = Some pat" using assms(3) by (simp add: nonempty_def plain_pattern_def Let_def)
  then have "parse_tool_rule ?name (v @ [41]) (rule_action r) = Inr r"
    unfolding parse_tool_rule_def last using v filter_names [OF assms(1)] colon domain assms(2) by simp
  then show ?thesis using t unfolding parse_permission_rule_def by (simp add: first)
qed

text \<open>
  C31. Writing a rule and reading it back gives the same rule.  Of every rule that has a text, \<open>parse_permission_rule\<close> reads the text with
  parentheses and backslashes escaped back as that rule.  The text of \<open>format_rule_string\<close>, which does not escape, is read back when the rule
  is on any tool or its pattern has no backslash; unescaped parentheses do no harm, a backslash may (see below).  Rules without a text, such
  as one for any tool without a pattern, or a pattern that looks like a notation of the language, are left out.
\<close>

theorem format_parse_round_trip:
  assumes "has_text r"
  shows "parse_permission_rule (escaped_rule_string r) (rule_action r) = Inr r \<and>
    (case rule_pattern r of
       None \<Rightarrow> parse_permission_rule (format_rule_string r) (rule_action r) = Inr r
     | Some pat \<Rightarrow> rule_tool r = FAny \<or> 92 \<notin> set pat \<longrightarrow> parse_permission_rule (format_rule_string r) (rule_action r) = Inr r)"
proof (cases "rule_pattern r = None \<or> rule_tool r = FAny")
  case True
  then show ?thesis using parse_bare [OF True assms] by (cases "rule_pattern r") auto
next
  case False
  then obtain pat where pat: "rule_pattern r = Some pat" "rule_tool r \<noteq> FAny" "plain_pattern r pat"
    using assms by (auto simp: has_text_def)
  define w where "w = (if rule_mode r = Domain then lit ''domain:'' @ pat else pat)"
  have w: "trim w = w" "w \<noteq> []" "w \<noteq> lit ''*''" using pat(3) by (auto simp: w_def plain_pattern_def Let_def)
  have "set (lit ''domain:'') \<inter> {40, 41, 92} = {}" by (simp add: lit_def)
  then have e: "escaped_rule_string r = filter_name (rule_tool r) @ 40 # (escape_rule_content w @ [41])"
    using pat by (auto simp: escaped_rule_string_def w_def lit_def)
  have "escape_rule_content w \<noteq> []" using w(2) by (cases w) auto
  moreover have "escape_rule_content w \<noteq> lit ''*''"
  proof
    assume "escape_rule_content w = lit ''*''"
    then have "unescape_rule_content (lit ''*'') = w" using unescape_escape [of w] by simp
    then show False using w(3) by (simp add: unescape_rule_content_def lit_def)
  qed
  ultimately have "parse_permission_rule (escaped_rule_string r) (rule_action r) = Inr r"
    unfolding e by (intro parse_in_parens [OF pat(2,1,3) w_def] unescape_escape escaped_trim w escaped_end)
  moreover have "parse_permission_rule (format_rule_string r) (rule_action r) = Inr r" if "92 \<notin> set pat"
  proof -
    have no: "92 \<notin> set w" using that by (simp add: w_def lit_def)
    then have "takeWhile (\<lambda>c. c = 92) (rev w) = []" by (cases "rev w") (auto simp flip: set_rev [of w])
    then have "parse_permission_rule (filter_name (rule_tool r) @ 40 # (w @ [41])) (rule_action r) = Inr r"
      using no by (intro parse_in_parens [OF pat(2,1,3) w_def] w) (simp_all add: unescape_rule_content_def)
    then show ?thesis using pat by (simp add: format_rule_string_def w_def lit_def)
  qed
  ultimately show ?thesis using pat by simp
qed

text \<open>The witness: a shell rule whose pattern has parentheses and a backslash.\<close>

theorem format_parse_round_trip_witness:
  "parse_permission_rule (lit ''Bash(f'' @ [92, 40, 92, 92, 92, 41] @ lit '')'') RuleDeny =
     Inr \<lparr>rule_action = RuleDeny, rule_tool = FBash, rule_pattern = Some (lit ''f('' @ [92] @ lit '')''), rule_mode = Glob\<rparr>"
proof -
  let ?r = "\<lparr>rule_action = RuleDeny, rule_tool = FBash, rule_pattern = Some (lit ''f('' @ [92] @ lit '')''), rule_mode = Glob\<rparr>"
  have "escaped_rule_string ?r = lit ''Bash(f'' @ [92, 40, 92, 92, 92, 41] @ lit '')''" by (simp add: escaped_rule_string_def lit_def)
  moreover have "has_text ?r" by code_simp
  ultimately show ?thesis using format_parse_round_trip [of ?r] by simp
qed

section \<open>Where it does not read back\<close>

text \<open>
  The formatter does not escape: a pattern that ends in a backslash, which the parser reads from a doubled one, is written so that its
  closing parenthesis is escaped, and the written rule does not parse.
\<close>

lemma formatted_backslash_rule_is_lost:
  "parse_permission_rule (lit ''Bash(a'' @ [92, 92] @ lit '')'') RuleDeny =
     Inr \<lparr>rule_action = RuleDeny, rule_tool = FBash, rule_pattern = Some (lit ''a'' @ [92]), rule_mode = Glob\<rparr>"
  "parse_permission_rule (format_rule_string
     \<lparr>rule_action = RuleDeny, rule_tool = FBash, rule_pattern = Some (lit ''a'' @ [92]), rule_mode = Glob\<rparr>) RuleDeny =
     Inl (MalformedRule (lit ''missing closing parenthesis''))"
  by code_simp+

text \<open>A \<open>domain:\<close> prefix is taken off the pattern of every tool, not only of web fetches.\<close>

lemma domain_prefix_on_bash:
  "parse_permission_rule (lit ''Bash(domain:x)'') RuleDeny =
     Inr \<lparr>rule_action = RuleDeny, rule_tool = FBash, rule_pattern = Some (lit ''x''), rule_mode = Domain\<rparr>"
  by code_simp

section \<open>Small round trips\<close>

lemma edit_policy_round_trip: "edit_policy_deserialize (edit_policy_serialize p) = Inr p"
  by (cases p) (simp_all add: edit_policy_deserialize_def)

lemma prompt_header_round_trip: "strip_prompt_header h (prompt_header h action) = action"
proof -
  have "strip_suffix (prompt_header h action) (ask_line h) = Some (action @ HOOK_ASK_SEPARATOR)"
    by (simp add: strip_suffix_Some prompt_header_def)
  moreover have "strip_suffix (action @ HOOK_ASK_SEPARATOR) HOOK_ASK_SEPARATOR = Some action" by (simp add: strip_suffix_Some)
  ultimately show ?thesis by (simp add: strip_prompt_header_def)
qed

lemma apply_patch_hides_its_paths: "access_kind_of obj (ApplyPatch p) = access_kind_of obj (ApplyPatch q)"
  by simp

end
