(* ===== verification/Lexical_Paths.thy ===== *)
theory Lexical_Paths
  imports Prelude
begin

text \<open>
  Paths as the code spells them: a path is its string, and \<open>std::path\<close>'s components of it (on Unix) are computed.
  The lexical normalisation is \<open>packages/platform/xai-grok-paths/src/lib.rs\<close>.
\<close>

section \<open>Components\<close>

datatype component = RootDir | CurDir | ParentDir | Normal rstr

abbreviation slash :: uchar where "slash \<equiv> 47"

fun piece_components :: "rstr list \<Rightarrow> component list" where
  "piece_components [] = []"
| "piece_components (p # ps) =
     (if p = [] \<or> p = [46] then piece_components ps
      else (if p = [46, 46] then ParentDir else Normal p) # piece_components ps)"

definition is_absolute :: "rstr \<Rightarrow> bool" where
  "is_absolute path \<longleftrightarrow> path \<noteq> [] \<and> hd path = slash"

text \<open>\<open>Path::components\<close>: repeated separators and inner dots vanish, a leading dot stays.\<close>

definition components :: "rstr \<Rightarrow> component list" where
  "components path =
     (let ps = split_on slash path
      in if is_absolute path then RootDir # piece_components ps
         else if hd ps = [46] then CurDir # piece_components ps
         else piece_components ps)"

fun component_text :: "component \<Rightarrow> rstr" where
  "component_text RootDir = [slash]"
| "component_text CurDir = [46]"
| "component_text ParentDir = [46, 46]"
| "component_text (Normal s) = s"

text \<open>\<open>PathBuf::push\<close> and \<open>Path::join\<close>: an absolute path replaces, otherwise one separator is put between.\<close>

definition path_join :: "rstr \<Rightarrow> rstr \<Rightarrow> rstr" where
  "path_join base p =
     (if is_absolute p then p
      else if base = [] \<or> last base = slash then base @ p
      else base @ [slash] @ p)"

text \<open>Collecting components into a \<open>PathBuf\<close>.\<close>

definition from_components :: "component list \<Rightarrow> rstr" where
  "from_components cs = foldl path_join [] (map component_text cs)"

section \<open>Normalisation\<close>

text \<open>One component, on the components kept so far.\<close>

definition normalize_push :: "component list \<Rightarrow> component \<Rightarrow> component list" where
  "normalize_push out c =
     (case c of
        CurDir \<Rightarrow> out
      | ParentDir \<Rightarrow>
          (if out = [] then out @ [ParentDir]
           else case last out of
               Normal _ \<Rightarrow> butlast out
             | RootDir \<Rightarrow> out
             | _ \<Rightarrow> out @ [ParentDir])
      | _ \<Rightarrow> out @ [c])"

definition normalize_components :: "component list \<Rightarrow> component list" where
  "normalize_components cs = foldl normalize_push [] cs"

definition normalize_lexically :: "rstr \<Rightarrow> rstr" where
  "normalize_lexically path =
     (let cs = normalize_components (components path) in if cs = [] then [46] else from_components cs)"

section \<open>What normalisation guarantees\<close>

text \<open>
  Normal components only, behind the root, or behind the \<open>..\<close> that lead out of a relative path.
\<close>

definition is_normal :: "component \<Rightarrow> bool" where
  "is_normal c \<longleftrightarrow> (case c of Normal _ \<Rightarrow> True | _ \<Rightarrow> False)"

definition rooted_normal :: "component list \<Rightarrow> bool" where
  "rooted_normal cs \<longleftrightarrow> (\<exists>ns. cs = RootDir # ns \<and> list_all is_normal ns)"

definition relative_normal :: "component list \<Rightarrow> bool" where
  "relative_normal cs \<longleftrightarrow> (\<exists>n ns. cs = replicate n ParentDir @ ns \<and> list_all is_normal ns)"

lemma push_rooted:
  assumes "rooted_normal out" and "c \<noteq> RootDir"
  shows "rooted_normal (normalize_push out c)"
proof -
  obtain ns where o: "out = RootDir # ns" and ns: "list_all is_normal ns" using assms(1) by (auto simp: rooted_normal_def)
  show ?thesis
  proof (cases ns rule: rev_cases)
    case Nil
    then show ?thesis using o assms(2) by (cases c) (auto simp: normalize_push_def rooted_normal_def is_normal_def)
  next
    case (snoc ms m)
    then obtain s where "m = Normal s" using ns by (cases m) (auto simp: is_normal_def)
    then show ?thesis
      using o snoc ns assms(2) by (cases c) (auto simp: normalize_push_def rooted_normal_def is_normal_def)
  qed
qed

lemma push_relative:
  assumes "relative_normal out" and "c \<noteq> RootDir"
  shows "relative_normal (normalize_push out c)"
proof -
  obtain n ns where o: "out = replicate n ParentDir @ ns" and ns: "list_all is_normal ns"
    using assms(1) by (auto simp: relative_normal_def)
  have normal: "relative_normal (out @ [Normal s])" for s
    using o ns by (fastforce simp: relative_normal_def is_normal_def)
  have parent: "relative_normal (normalize_push out ParentDir)"
  proof (cases ns rule: rev_cases)
    case Nil
    then have "normalize_push out ParentDir = replicate (Suc n) ParentDir @ []"
      using o by (cases n) (auto simp: normalize_push_def replicate_append_same)
    moreover have "list_all is_normal []" by simp
    ultimately show ?thesis unfolding relative_normal_def by blast
  next
    case (snoc ms m)
    then obtain s where "m = Normal s" using ns by (cases m) (auto simp: is_normal_def)
    then show ?thesis using o snoc ns by (auto simp: normalize_push_def relative_normal_def butlast_append)
  qed
  show ?thesis using assms normal parent by (cases c) (auto simp: normalize_push_def)
qed

lemma fold_rooted: "rooted_normal out \<Longrightarrow> RootDir \<notin> set cs \<Longrightarrow> rooted_normal (foldl normalize_push out cs)"
  by (induction cs arbitrary: out) (auto simp: push_rooted)

lemma fold_relative: "relative_normal out \<Longrightarrow> RootDir \<notin> set cs \<Longrightarrow> relative_normal (foldl normalize_push out cs)"
  by (induction cs arbitrary: out) (auto simp: push_relative)

lemma piece_components_no_root: "RootDir \<notin> set (piece_components ps)" "CurDir \<notin> set (piece_components ps)"
  by (induction ps) auto

text \<open>An absolute path normalises to the root followed by names only: no \<open>.\<close> and no \<open>..\<close> survives.\<close>

lemma absolute_normalizes: "is_absolute path \<Longrightarrow> rooted_normal (normalize_components (components path))"
  using fold_rooted [of "[RootDir]" "piece_components (split_on slash path)"] piece_components_no_root
  by (simp add: normalize_components_def components_def rooted_normal_def normalize_push_def)

lemma relative_normalizes:
  assumes "\<not> is_absolute path"
  shows "relative_normal (normalize_components (components path))"
proof -
  have "relative_normal []" by (auto simp: relative_normal_def)
  moreover have "RootDir \<notin> set (components path)"
    using piece_components_no_root assms by (auto simp: components_def Let_def)
  ultimately show ?thesis by (simp add: normalize_components_def fold_relative)
qed

end
