(* ===== verification/Bash_Words.thy ===== *)
theory Bash_Words
  imports Prelude
begin

text \<open>
  The words of a shell command: peeling wrappers (\<open>timeout\<close>, \<open>env\<close>, \<open>nice\<close>, ...) and transparent prefixes
  (\<open>exec\<close>, \<open>command\<close>, \<open>builtin\<close>) from an argv, as the permission gates do before they match rules
  (\<open>packages/tools/xai-grok-workspace/src/permission/bash_command_splitting.rs\<close>).

  A slice of the argv is the list of its words; an index into it that a loop advances is kept as a number where the
  code keeps it.  What both kinds of peeling promise, a strictly shorter suffix, is the locale \<open>peeler\<close>.
\<close>

section \<open>Options of \<open>env\<close>\<close>

definition is_ascii_alphanumeric :: "uchar \<Rightarrow> bool" where
  "is_ascii_alphanumeric c \<longleftrightarrow> is_ascii_alphabetic c \<or> is_ascii_digit c"

definition is_env_assignment :: "rstr \<Rightarrow> bool" where
  "is_env_assignment tok \<longleftrightarrow>
     ch CHR ''='' \<in> set tok \<and>
     (let name = takeWhile (\<lambda>c. c \<noteq> ch CHR ''='') tok
      in name \<noteq> [] \<and> (is_ascii_alphabetic (hd name) \<or> hd name = ch CHR ''_'') \<and>
         list_all (\<lambda>c. is_ascii_alphanumeric c \<or> c = ch CHR ''_'') name)"

text \<open>\<open>decode_shell_literal_spelling\<close>: the open quote, the text so far and the rest.\<close>

fun decode_loop :: "uchar option \<Rightarrow> rstr \<Rightarrow> rstr \<Rightarrow> rstr option" where
  "decode_loop quote out [] = (if quote = None then Some out else None)"
| "decode_loop quote out (c # cs) =
     (if quote = None \<and> (c = 39 \<or> c = 34) then decode_loop (Some c) out cs
      else if quote = Some c then decode_loop None out cs
      else if quote = None \<and> c = 92 then
        (case cs of [] \<Rightarrow> None | n # cs \<Rightarrow> decode_loop quote (out @ [n]) cs)
      else if quote = Some 34 \<and> c = 92 then
        (case cs of [] \<Rightarrow> None
         | n # cs \<Rightarrow> if n \<in> {36, 96, 34, 92, 10} then decode_loop quote (out @ [n]) cs
                    else decode_loop quote (out @ [92, n]) cs)
      else decode_loop quote (out @ [c]) cs)"

definition decode_shell_literal_spelling :: "rstr \<Rightarrow> rstr option" where
  "decode_shell_literal_spelling raw = decode_loop None [] raw"

definition decode_env_option_token :: "rstr \<Rightarrow> rstr" where
  "decode_env_option_token raw =
     (if 39 \<notin> set raw \<and> 34 \<notin> set raw then raw
      else case decode_shell_literal_spelling raw of Some decoded \<Rightarrow> decoded | None \<Rightarrow> raw)"

definition is_high_confidence_env_s_payload :: "rstr \<Rightarrow> bool" where
  "is_high_confidence_env_s_payload s \<longleftrightarrow>
     s \<noteq> [] \<and> 0 \<notin> set s \<and> list_all (\<lambda>c. c \<notin> {39, 34, 92, 35, 96, 36, 10, 13}) s"

definition take_high_confidence_payload :: "rstr \<Rightarrow> rstr option" where
  "take_high_confidence_payload raw = (if is_high_confidence_env_s_payload raw then Some raw else None)"

datatype env_short =
    SplitStringNext
  | SplitStringGlued rstr
  | SplitStringDetect
  | NoArg
  | ArgNeedNext uchar
  | ArgGlued uchar
  | Uncertain

fun classify_shorts :: "rstr \<Rightarrow> env_short" where
  "classify_shorts [] = NoArg"
| "classify_shorts (c # cs) =
     (if c = ch CHR ''i'' \<or> c = ch CHR ''v'' \<or> c = ch CHR ''0'' then classify_shorts cs
      else if c = ch CHR ''S'' then SplitStringDetect
      else if c = ch CHR ''u'' \<or> c = ch CHR ''C'' \<or> c = ch CHR ''P'' \<or> c = ch CHR ''a'' then
        (if cs \<noteq> [] then ArgGlued c else ArgNeedNext c)
      else Uncertain)"

definition classify_env_short :: "rstr \<Rightarrow> env_short" where
  "classify_env_short tok =
     (if \<not> starts_with tok (lit ''-'') \<or> starts_with tok (lit ''--'') \<or> tok = lit ''-'' then Uncertain
      else let body = tl tok
           in if body = [] then Uncertain
              else case strip_prefix body (lit ''S'') of
                  Some rest \<Rightarrow> if rest = [] then SplitStringNext else SplitStringGlued rest
                | None \<Rightarrow> classify_shorts body)"

record env_facts =
  scan_chdir :: "rstr option"
  has_split_string :: bool
  options_uncertain :: bool
  split_string_script :: "rstr option"
  command_start :: nat

text \<open>What \<open>env_scan\<close> does with one token.\<close>

datatype env_step =
    EnvBreakAfter
  | EnvBreak
  | EnvSkip
  | EnvSetChdir rstr
  | EnvOperand bool
  | EnvSplitNext
  | EnvSplit "rstr option"
  | EnvUncertain

definition env_long_step :: "rstr \<Rightarrow> env_step" where
  "env_long_step tok =
     (if tok = lit ''--chdir'' then EnvOperand True
      else case strip_prefix tok (lit ''--chdir='') of
          Some dir \<Rightarrow> EnvSetChdir dir
        | None \<Rightarrow>
            if tok \<in> {lit ''--unset'', lit ''--path'', lit ''--argv0''} then EnvOperand False
            else if starts_with tok (lit ''--unset='') \<or> starts_with tok (lit ''--path='') \<or> starts_with tok (lit ''--argv0='')
            then EnvSkip
            else if tok \<in> {lit ''--ignore-environment'', lit ''--null'', lit ''--debug'', lit ''--version'', lit ''--help''}
            then EnvSkip
            else if tok = lit ''--split-string'' then EnvSplitNext
            else case strip_prefix tok (lit ''--split-string='') of
                Some payload \<Rightarrow>
                  EnvSplit (take_high_confidence_payload
                    (case strip_prefix (decode_env_option_token tok) (lit ''--split-string='') of
                       Some p \<Rightarrow> p | None \<Rightarrow> payload))
              | None \<Rightarrow> EnvUncertain)"

definition env_short_step :: "rstr \<Rightarrow> env_step" where
  "env_short_step tok =
     (case classify_env_short (decode_env_option_token tok) of
        SplitStringNext \<Rightarrow> EnvSplitNext
      | SplitStringGlued payload \<Rightarrow> EnvSplit (take_high_confidence_payload payload)
      | SplitStringDetect \<Rightarrow> EnvSplit None
      | NoArg \<Rightarrow> EnvSkip
      | ArgNeedNext k \<Rightarrow> EnvOperand (k = ch CHR ''C'')
      | ArgGlued k \<Rightarrow>
          if k = ch CHR ''C'' then
            EnvSetChdir (case strip_prefix tok (lit ''-C'') of Some d \<Rightarrow> d | None \<Rightarrow> [])
          else EnvSkip
      | Uncertain \<Rightarrow> EnvUncertain)"

definition env_token_step :: "rstr \<Rightarrow> env_step" where
  "env_token_step tok =
     (if tok = lit ''--'' then EnvBreakAfter
      else if tok = lit ''-'' then EnvSkip
      else if \<not> starts_with tok (lit ''-'') then (if is_env_assignment tok then EnvSkip else EnvBreak)
      else if starts_with tok (lit ''--'') then env_long_step tok
      else env_short_step tok)"

definition scan_result :: "rstr option \<Rightarrow> bool \<Rightarrow> bool \<Rightarrow> rstr option \<Rightarrow> nat \<Rightarrow> env_facts" where
  "scan_result chdir split uncertain script i =
     \<lparr>scan_chdir = chdir, has_split_string = split, options_uncertain = uncertain, split_string_script = script,
      command_start = i\<rparr>"

fun env_loop :: "rstr list \<Rightarrow> nat \<Rightarrow> rstr option \<Rightarrow> env_facts" where
  "env_loop [] i chdir = scan_result chdir False False None i"
| "env_loop (tok # rest) i chdir =
     (case env_token_step tok of
        EnvBreakAfter \<Rightarrow> scan_result chdir False False None (i + 1)
      | EnvBreak \<Rightarrow> scan_result chdir False False None i
      | EnvSkip \<Rightarrow> env_loop rest (i + 1) chdir
      | EnvSetChdir dir \<Rightarrow> env_loop rest (i + 1) (Some dir)
      | EnvOperand is_chdir \<Rightarrow>
          (case rest of
             [] \<Rightarrow> scan_result chdir False True None i
           | v # rest \<Rightarrow> env_loop rest (i + 2) (if is_chdir then Some v else chdir))
      | EnvSplitNext \<Rightarrow>
          scan_result chdir True False (case rest of [] \<Rightarrow> None | raw # _ \<Rightarrow> take_high_confidence_payload raw) i
      | EnvSplit script \<Rightarrow> scan_result chdir True False script i
      | EnvUncertain \<Rightarrow> scan_result chdir False True None i)"

definition env_scan :: "rstr list \<Rightarrow> env_facts" where
  "env_scan cmd = env_loop (tl cmd) 1 None"

definition head_is :: "rstr list \<Rightarrow> string \<Rightarrow> bool" where
  "head_is words name \<longleftrightarrow> words \<noteq> [] \<and> basename (hd words) = lit name"

definition env_split_string_script :: "rstr list \<Rightarrow> rstr option" where
  "env_split_string_script words =
     (if \<not> head_is words ''env'' then None
      else let scan = env_scan words in if has_split_string scan then split_string_script scan else None)"

section \<open>Wrappers\<close>

text \<open>The loop over leading options, some of which take the next word as their value.\<close>

function skip_options :: "rstr list \<Rightarrow> rstr list \<Rightarrow> nat \<Rightarrow> nat" where
  "skip_options with_value words i =
     (case words of
        [] \<Rightarrow> i
      | w # rest \<Rightarrow>
          if starts_with w (lit ''-'') then
            if w \<in> set with_value then skip_options with_value (tl rest) (i + 2)
            else skip_options with_value rest (i + 1)
          else i)"
  by pat_completeness auto
termination
  by (relation "measure (\<lambda>(wv, words, i). length words)") auto

declare skip_options.simps [simp del]

definition skip_mandatory :: "rstr list \<Rightarrow> nat \<Rightarrow> nat option" where
  "skip_mandatory cmd i = (if i \<ge> length cmd then None else Some (i + 1))"

definition wrapper_command_start :: "rstr list \<Rightarrow> nat option" where
  "wrapper_command_start cmd =
     (let options = (\<lambda>with_value. skip_options (map lit with_value) (tl cmd) 1)
      in if head_is cmd ''timeout'' then skip_mandatory cmd (options [''-k'', ''-s'', ''--kill-after'', ''--signal''])
         else if head_is cmd ''nice'' then Some (options [''-n'', ''--adjustment''])
         else if head_is cmd ''ionice'' then
           Some (options [''-c'', ''-n'', ''-p'', ''-P'', ''-u'', ''--class'', ''--classdata'', ''--pid'', ''--pgid'', ''--uid''])
         else if head_is cmd ''chrt'' then skip_mandatory cmd (options [])
         else if head_is cmd ''stdbuf'' then Some (options [''-i'', ''-o'', ''-e''])
         else if head_is cmd ''env'' then
           (let scan = env_scan cmd
            in if has_split_string scan \<or> options_uncertain scan then None else Some (command_start scan))
         else None)"

definition strip_wrapper_command :: "rstr list \<Rightarrow> rstr list option" where
  "strip_wrapper_command cmd =
     (case wrapper_command_start cmd of
        None \<Rightarrow> None
      | Some i \<Rightarrow> if i < length cmd then Some (drop i cmd) else None)"

definition is_wrapper_command :: "rstr list \<Rightarrow> bool" where
  "is_wrapper_command words \<longleftrightarrow>
     list_ex (head_is words) [''timeout'', ''nice'', ''ionice'', ''chrt'', ''stdbuf'', ''env'']"

definition MAX_WRAPPER_DEPTH :: nat where "MAX_WRAPPER_DEPTH = 8"
definition MAX_INLINE_SHELL_DEPTH :: nat where "MAX_INLINE_SHELL_DEPTH = 8"

record wrapper_peel =
  peel_words :: "rstr list"
  peel_chdir :: bool
  peel_split_string :: bool
  peel_env_uncertain :: bool
  peel_exhausted :: bool

fun unwrap_loop :: "nat \<Rightarrow> rstr list \<Rightarrow> bool \<Rightarrow> bool \<Rightarrow> bool \<Rightarrow> wrapper_peel" where
  "unwrap_loop n current chdir split uncertain =
     (if n = 0 then
        \<lparr>peel_words = current, peel_chdir = chdir, peel_split_string = split, peel_env_uncertain = uncertain,
         peel_exhausted = (is_wrapper_command current \<and> strip_wrapper_command current \<noteq> None)\<rparr>
      else
        let scan = env_scan current; env = head_is current ''env'';
            chdir = (chdir \<or> (env \<and> scan_chdir scan \<noteq> None));
            split = (split \<or> (env \<and> has_split_string scan));
            uncertain = (uncertain \<or> (env \<and> options_uncertain scan))
        in case strip_wrapper_command current of
             Some inner \<Rightarrow> unwrap_loop (n - 1) inner chdir split uncertain
           | None \<Rightarrow>
               \<lparr>peel_words = current, peel_chdir = chdir, peel_split_string = split, peel_env_uncertain = uncertain,
                peel_exhausted = False\<rparr>)"

declare unwrap_loop.simps [simp del]

definition unwrap_wrappers_checked :: "rstr list \<Rightarrow> wrapper_peel" where
  "unwrap_wrappers_checked words = unwrap_loop MAX_WRAPPER_DEPTH words False False False"

definition unwrap_wrappers :: "rstr list \<Rightarrow> rstr list" where
  "unwrap_wrappers words = peel_words (unwrap_wrappers_checked words)"

section \<open>Transparent prefixes\<close>

datatype transparent_strip = NotPrefix | Peeled "rstr list" | Ambiguous

definition peeled_or_not :: "rstr list \<Rightarrow> transparent_strip" where
  "peeled_or_not inner = (if inner \<noteq> [] then Peeled inner else NotPrefix)"

definition NUL :: rstr where "NUL = [0]"

fun exec_loop :: "rstr list \<Rightarrow> transparent_strip" where
  "exec_loop [] = NotPrefix"
| "exec_loop (tok # rest) =
     (if tok = lit ''--'' then peeled_or_not rest
      else if tok = lit ''-'' \<or> \<not> starts_with tok (lit ''-'') then Peeled (tok # rest)
      else if tok \<in> {lit ''-c'', lit ''-l'', lit ''-cl'', lit ''-lc''} then exec_loop rest
      else if tok = lit ''-a'' then
        (case rest of v # rest \<Rightarrow> if v \<noteq> NUL \<and> v \<noteq> [] then exec_loop rest else Ambiguous | [] \<Rightarrow> Ambiguous)
      else case strip_prefix tok (lit ''-a'') of
          Some r \<Rightarrow> if r = NUL then Ambiguous else exec_loop rest
        | None \<Rightarrow>
            if \<not> starts_with tok (lit ''--'') \<and> list_all (\<lambda>c. c = ch CHR ''c'' \<or> c = ch CHR ''l'') (tl tok)
            then exec_loop rest else Ambiguous)"

fun command_loop :: "rstr list \<Rightarrow> transparent_strip" where
  "command_loop [] = NotPrefix"
| "command_loop (tok # rest) =
     (if tok = lit ''--'' then peeled_or_not rest
      else if tok = lit ''-'' \<or> \<not> starts_with tok (lit ''-'') then Peeled (tok # rest)
      else if tok \<in> {lit ''-v'', lit ''-V'', lit ''--help'', lit ''--version''} \<or>
          (\<not> starts_with tok (lit ''--'') \<and> list_ex (\<lambda>c. c = ch CHR ''v'' \<or> c = ch CHR ''V'') (tl tok)) then NotPrefix
      else if tok = lit ''-p'' \<or> (\<not> starts_with tok (lit ''--'') \<and> list_all (\<lambda>c. c = ch CHR ''p'') (tl tok)) then
        command_loop rest
      else Ambiguous)"

definition strip_builtin_prefix :: "rstr list \<Rightarrow> transparent_strip" where
  "strip_builtin_prefix cmd =
     (case tl cmd of
        [] \<Rightarrow> NotPrefix
      | tok # rest \<Rightarrow> if starts_with tok (lit ''-'') \<and> tok \<noteq> lit ''-'' then Ambiguous else Peeled (tok # rest))"

definition strip_transparent_prefix :: "rstr list \<Rightarrow> transparent_strip" where
  "strip_transparent_prefix cmd =
     (if cmd = [] \<or> hd cmd = [] \<or> hd cmd = NUL then NotPrefix
      else if head_is cmd ''exec'' then exec_loop (tl cmd)
      else if head_is cmd ''command'' then command_loop (tl cmd)
      else if head_is cmd ''builtin'' then strip_builtin_prefix cmd
      else NotPrefix)"

definition MAX_TRANSPARENT_PREFIX_DEPTH :: nat where "MAX_TRANSPARENT_PREFIX_DEPTH = 8"
definition MAX_NORMALIZE_ROUNDS :: nat where "MAX_NORMALIZE_ROUNDS = MAX_WRAPPER_DEPTH + MAX_TRANSPARENT_PREFIX_DEPTH"

text \<open>\<open>Some\<close> is \<open>Ready\<close>, \<open>None\<close> is \<open>Ambiguous\<close>.\<close>

fun peel_loop :: "nat \<Rightarrow> rstr list \<Rightarrow> rstr list option" where
  "peel_loop n current =
     (if n = 0 then (case strip_transparent_prefix current of NotPrefix \<Rightarrow> Some current | _ \<Rightarrow> None)
      else case strip_transparent_prefix current of
          NotPrefix \<Rightarrow> Some current
        | Peeled inner \<Rightarrow> peel_loop (n - 1) inner
        | Ambiguous \<Rightarrow> None)"

declare peel_loop.simps [simp del]

definition peel_transparent_prefixes :: "rstr list \<Rightarrow> rstr list option" where
  "peel_transparent_prefixes words = peel_loop MAX_TRANSPARENT_PREFIX_DEPTH words"

section \<open>The bounded fixed point\<close>

record normalized_peel =
  norm_words :: "rstr list"
  norm_chdir :: bool
  norm_split_string :: bool
  norm_env_uncertain :: bool
  norm_exhausted :: bool
  norm_ambiguous :: bool

text \<open>
  One round less each time.  The code compares the slice after a round with the one before by length and address; both are
  suffixes of the same argv, so equal length is equality.
\<close>

fun normalize_loop :: "nat \<Rightarrow> normalized_peel \<Rightarrow> normalized_peel" where
  "normalize_loop n st =
     (if n = 0 then st
      else
        let wrapped = unwrap_wrappers_checked (norm_words st);
            st' = \<lparr>norm_words = peel_words wrapped, norm_chdir = norm_chdir st \<or> peel_chdir wrapped,
                   norm_split_string = norm_split_string st \<or> peel_split_string wrapped,
                   norm_env_uncertain = norm_env_uncertain st \<or> peel_env_uncertain wrapped,
                   norm_exhausted = norm_exhausted st \<or> peel_exhausted wrapped, norm_ambiguous = norm_ambiguous st\<rparr>
        in if norm_split_string st' \<or> norm_env_uncertain st' then st'
           else case peel_transparent_prefixes (norm_words st') of
               None \<Rightarrow> st'\<lparr>norm_ambiguous := True\<rparr>
             | Some inner \<Rightarrow>
                 if length inner = length (norm_words st) then st'\<lparr>norm_words := inner\<rparr>
                 else normalize_loop (n - 1) (st'\<lparr>norm_words := inner\<rparr>))"

declare normalize_loop.simps [simp del]

definition still_peelable :: "rstr list \<Rightarrow> bool" where
  "still_peelable words \<longleftrightarrow>
     (is_wrapper_command words \<and> strip_wrapper_command words \<noteq> None) \<or> strip_transparent_prefix words \<noteq> NotPrefix"

definition normalize_command_words :: "rstr list \<Rightarrow> normalized_peel" where
  "normalize_command_words words =
     (let st = normalize_loop MAX_NORMALIZE_ROUNDS
           \<lparr>norm_words = words, norm_chdir = False, norm_split_string = False, norm_env_uncertain = False,
            norm_exhausted = False, norm_ambiguous = False\<rparr>
      in if \<not> norm_ambiguous st \<and> \<not> norm_split_string st \<and> \<not> norm_env_uncertain st \<and> still_peelable (norm_words st)
         then st\<lparr>norm_exhausted := True\<rparr> else st)"

section \<open>Peeling\<close>

text \<open>
  What a peeling step promises, and what follows for every way of repeating it: the words left are a suffix of the
  words given, and peeling until nothing more comes off ends and does not depend on where it started.
\<close>

locale peeler =
  fixes peel :: "rstr list \<Rightarrow> rstr list option"
  assumes peels: "peel ws = Some ws' \<Longrightarrow> strict_suffix ws' ws"
begin

lemma peel_suffix: "peel ws = Some ws' \<Longrightarrow> suffix ws' ws"
  using peels by (simp add: strict_suffix_def)

lemma peel_shorter: "peel ws = Some ws' \<Longrightarrow> length ws' < length ws"
  using peels strict_suffix_shorter by blast

end

lemma skip_options_ge: "i \<le> skip_options wv ws i"
proof (induction wv ws i rule: skip_options.induct)
  case (1 wv ws i)
  then show ?case by (subst skip_options.simps) (fastforce split: list.splits if_splits)
qed

lemma env_loop_ge: "i \<le> command_start (env_loop ws i chdir)"
  by (induction ws i chdir rule: env_loop.induct)
    (auto simp: scan_result_def split: env_step.splits list.splits dest: Suc_leD, (blast dest: Suc_leD)+)

lemma strict_suffix_drop: "1 \<le> i \<Longrightarrow> i < length ws \<Longrightarrow> strict_suffix (drop i ws) ws"
proof -
  assume "1 \<le> i" and "i < length ws"
  then have "length (drop i ws) \<noteq> length ws" by simp
  then have "drop i ws \<noteq> ws" by metis
  then show ?thesis by (simp add: strict_suffix_def suffix_drop)
qed

lemma wrapper_command_start_pos: "wrapper_command_start cmd = Some i \<Longrightarrow> 1 \<le> i"
  using skip_options_ge [of 1] env_loop_ge [of 1 "tl cmd" None]
  by (auto simp: wrapper_command_start_def Let_def skip_mandatory_def env_scan_def split: if_splits)

interpretation wrapper: peeler strip_wrapper_command
proof
  fix ws ws'
  assume "strip_wrapper_command ws = Some ws'"
  then obtain i where "wrapper_command_start ws = Some i" "i < length ws" "ws' = drop i ws"
    by (auto simp: strip_wrapper_command_def split: option.splits if_splits)
  then show "strict_suffix ws' ws" using wrapper_command_start_pos [of ws i] strict_suffix_drop [of i ws] by simp
qed

definition transparent_peel :: "rstr list \<Rightarrow> rstr list option" where
  "transparent_peel ws = (case strip_transparent_prefix ws of Peeled inner \<Rightarrow> Some inner | _ \<Rightarrow> None)"

lemma exec_loop_suffix: "exec_loop ws = Peeled inner \<Longrightarrow> suffix inner ws"
  by (induction ws rule: exec_loop.induct)
    (auto simp: peeled_or_not_def suffix_Cons split: if_splits list.splits option.splits)

lemma command_loop_suffix: "command_loop ws = Peeled inner \<Longrightarrow> suffix inner ws"
  by (induction ws rule: command_loop.induct)
    (auto simp: peeled_or_not_def suffix_Cons split: if_splits)

interpretation transparent: peeler transparent_peel
proof
  fix ws ws'
  assume "transparent_peel ws = Some ws'"
  then have p: "strip_transparent_prefix ws = Peeled ws'" by (simp add: transparent_peel_def split: transparent_strip.splits)
  then have ne: "ws \<noteq> []" by (auto simp: strip_transparent_prefix_def)
  have builtin: "strip_builtin_prefix ws = Peeled ws' \<Longrightarrow> suffix ws' (tl ws)"
    by (simp add: strip_builtin_prefix_def split: list.splits if_splits)
  from p have "exec_loop (tl ws) = Peeled ws' \<or> command_loop (tl ws) = Peeled ws' \<or> strip_builtin_prefix ws = Peeled ws'"
    by (simp add: strip_transparent_prefix_def split: if_splits)
  then have "suffix ws' (tl ws)" using exec_loop_suffix command_loop_suffix builtin by blast
  with ne show "strict_suffix ws' ws" by (cases ws) (auto simp: strict_suffix_def suffix_Cons dest: suffix_length_le)
qed

text \<open>The reference: peel whatever comes off, without a bound.\<close>

definition peel_once :: "rstr list \<Rightarrow> rstr list option" where
  "peel_once ws = (case strip_wrapper_command ws of Some inner \<Rightarrow> Some inner | None \<Rightarrow> transparent_peel ws)"

interpretation both: peeler peel_once
  by unfold_locales (auto simp: peel_once_def split: option.splits dest: wrapper.peels transparent.peels)

function peel_all :: "rstr list \<Rightarrow> rstr list" where
  "peel_all ws = (case peel_once ws of Some inner \<Rightarrow> peel_all inner | None \<Rightarrow> ws)"
  by pat_completeness auto
termination
  by (relation "measure length") (auto dest: both.peel_shorter)

declare peel_all.simps [simp del]

lemma peel_all_step: "peel_once ws = Some inner \<Longrightarrow> peel_all ws = peel_all inner"
  by (simp add: peel_all.simps [of ws])

lemma peel_all_done: "peel_once ws = None \<Longrightarrow> peel_all ws = ws"
  by (simp add: peel_all.simps [of ws])

text \<open>Words and the words a peeling loop leaves of them.\<close>

definition peels_to :: "rstr list \<Rightarrow> rstr list \<Rightarrow> bool" where
  "peels_to ws ws' \<longleftrightarrow> suffix ws' ws \<and> peel_all ws' = peel_all ws"

lemma peels_to_refl: "peels_to ws ws"
  by (simp add: peels_to_def)

lemma peels_to_trans: "peels_to a b \<Longrightarrow> peels_to b c \<Longrightarrow> peels_to a c"
  by (auto simp: peels_to_def intro: suffix_order.trans)

lemma heads_differ: "strip_wrapper_command ws = Some inner \<Longrightarrow> strip_transparent_prefix ws = NotPrefix"
  by (auto simp: strip_wrapper_command_def wrapper_command_start_def strip_transparent_prefix_def head_is_def Let_def
      split: if_splits option.splits)

lemma wrapper_peels: "strip_wrapper_command ws = Some inner \<Longrightarrow> peels_to ws inner"
  using wrapper.peel_suffix by (auto simp: peels_to_def peel_once_def intro: peel_all_step [symmetric])

lemma transparent_peels: "strip_transparent_prefix ws = Peeled inner \<Longrightarrow> peels_to ws inner"
proof -
  assume p: "strip_transparent_prefix ws = Peeled inner"
  then have t: "transparent_peel ws = Some inner" by (simp add: transparent_peel_def)
  have "strip_wrapper_command ws = None" using heads_differ [of ws] p by (cases "strip_wrapper_command ws") auto
  then have "peel_once ws = Some inner" using t by (simp add: peel_once_def)
  then show ?thesis using transparent.peel_suffix [OF t] by (simp add: peels_to_def peel_all_step)
qed

lemma unwrap_loop_peels: "peels_to ws (peel_words (unwrap_loop n ws c s u))"
proof (induction n ws c s u rule: unwrap_loop.induct)
  case (1 n ws c s u)
  show ?case
  proof (cases "n = 0 \<or> strip_wrapper_command ws = None")
    case True
    then show ?thesis by (subst unwrap_loop.simps) (auto simp: Let_def peels_to_refl)
  next
    case False
    then obtain inner where w: "strip_wrapper_command ws = Some inner" and n: "n \<noteq> 0" by auto
    show ?thesis
      by (subst unwrap_loop.simps)
        (use 1 [OF n refl refl refl refl refl w] w n in
          \<open>simp add: Let_def peels_to_trans [OF wrapper_peels [OF w]]\<close>)
  qed
qed

lemma peel_loop_peels: "peel_loop n ws = Some ws' \<Longrightarrow> peels_to ws ws'"
proof (induction n ws rule: peel_loop.induct)
  case (1 n ws)
  show ?case
  proof (cases "n = 0 \<or> strip_transparent_prefix ws = NotPrefix")
    case True
    then show ?thesis using 1(2) by (subst (asm) peel_loop.simps) (auto simp: peels_to_refl split: transparent_strip.splits if_splits)
  next
    case False
    then obtain inner where w: "strip_transparent_prefix ws = Peeled inner" and n: "n \<noteq> 0"
      using 1(2) by (subst (asm) peel_loop.simps) (auto split: transparent_strip.splits)
    have "peel_loop (n - 1) inner = Some ws'" using 1(2) w n by (subst (asm) peel_loop.simps) simp
    then show ?thesis using 1(1) [OF n w] peels_to_trans [OF transparent_peels [OF w]] by blast
  qed
qed

lemma normalize_loop_peels: "peels_to (norm_words st) (norm_words (normalize_loop n st))"
proof (induction n st rule: normalize_loop.induct)
  case (1 n st)
  let ?wrapped = "unwrap_wrappers_checked (norm_words st)"
  have w: "peels_to (norm_words st) (peel_words ?wrapped)" by (simp add: unwrap_wrappers_checked_def unwrap_loop_peels)
  show ?case
  proof (cases "n = 0 \<or> norm_split_string st \<or> peel_split_string ?wrapped \<or> norm_env_uncertain st \<or> peel_env_uncertain ?wrapped
      \<or> peel_transparent_prefixes (peel_words ?wrapped) = None")
    case True
    then show ?thesis by (subst normalize_loop.simps) (auto simp: Let_def w peels_to_refl)
  next
    case False
    then obtain inner where t: "peel_transparent_prefixes (peel_words ?wrapped) = Some inner" by blast
    then have i: "peels_to (norm_words st) inner"
      using peels_to_trans [OF w] peel_loop_peels by (simp add: peel_transparent_prefixes_def)
    show ?thesis
    proof (cases "length inner = length (norm_words st)")
      case True
      then show ?thesis using False t i by (subst normalize_loop.simps) (simp add: Let_def)
    next
      case longer: False
      have "peels_to inner (norm_words (normalize_loop (n - 1) \<lparr>norm_words = inner, norm_chdir = norm_chdir st \<or> peel_chdir ?wrapped,
          norm_split_string = norm_split_string st \<or> peel_split_string ?wrapped,
          norm_env_uncertain = norm_env_uncertain st \<or> peel_env_uncertain ?wrapped,
          norm_exhausted = norm_exhausted st \<or> peel_exhausted ?wrapped, norm_ambiguous = norm_ambiguous st\<rparr>))"
        using 1 [OF _ refl refl, of inner] False t longer by simp
      then show ?thesis using False t longer peels_to_trans [OF i] by (subst normalize_loop.simps) (simp add: Let_def)
    qed
  qed
qed

lemma wrapper_is_wrapper: "strip_wrapper_command ws = Some inner \<Longrightarrow> is_wrapper_command ws"
  by (auto simp: strip_wrapper_command_def wrapper_command_start_def is_wrapper_command_def Let_def
      split: if_splits option.splits)

lemma normalize_peels: "peels_to ws (norm_words (normalize_command_words ws))"
  using normalize_loop_peels [of "\<lparr>norm_words = ws, norm_chdir = False, norm_split_string = False, norm_env_uncertain = False,
     norm_exhausted = False, norm_ambiguous = False\<rparr>" MAX_NORMALIZE_ROUNDS]
  by (auto simp: normalize_command_words_def Let_def)

lemma normalize_same_length: "length (norm_words (normalize_command_words ws)) = length ws \<Longrightarrow> norm_words (normalize_command_words ws) = ws"
  using normalize_peels [of ws] by (metis peels_to_def suffix_order.antisym suffix_def append_Nil length_append add_eq_self_zero add.commute length_0_conv)

text \<open>
  C23. The bounded peeling is exact or says so: the words \<open>normalize_command_words\<close> returns are always a suffix of the words it was
  given, and unless it reports an ambiguity, an exhausted budget, a split string or unknown \<open>env\<close> options, they are exactly what
  peeling wrappers and transparent prefixes without any bound leaves; so a command that hides behind more layers than the
  budget is never taken for its wrapper.
\<close>

theorem normalize_exact_or_flagged:
  "suffix (norm_words (normalize_command_words ws)) ws \<and>
   (norm_exhausted (normalize_command_words ws) \<or> norm_ambiguous (normalize_command_words ws) \<or>
    norm_split_string (normalize_command_words ws) \<or> norm_env_uncertain (normalize_command_words ws) \<or>
    norm_words (normalize_command_words ws) = peel_all ws)"
proof -
  define st where "st = normalize_loop MAX_NORMALIZE_ROUNDS
    \<lparr>norm_words = ws, norm_chdir = False, norm_split_string = False, norm_env_uncertain = False,
     norm_exhausted = False, norm_ambiguous = False\<rparr>"
  have n: "normalize_command_words ws =
      (if \<not> norm_ambiguous st \<and> \<not> norm_split_string st \<and> \<not> norm_env_uncertain st \<and> still_peelable (norm_words st)
       then st\<lparr>norm_exhausted := True\<rparr> else st)"
    by (simp add: normalize_command_words_def st_def Let_def)
  have p: "peels_to ws (norm_words st)" using normalize_peels [of ws] by (simp add: n split: if_splits)
  have "\<not> still_peelable (norm_words st) \<Longrightarrow> peel_all (norm_words st) = norm_words st"
    using wrapper_is_wrapper [of "norm_words st"]
    by (intro peel_all_done, cases "strip_wrapper_command (norm_words st)")
      (auto simp: still_peelable_def peel_once_def transparent_peel_def)
  then show ?thesis using p by (auto simp: n peels_to_def)
qed

end
