(* ===== verification/Bash_Syntax.thy ===== *)
theory Bash_Syntax
  imports Bash_Words
begin

text \<open>
  From a syntax tree to plain commands
  (\<open>packages/tools/xai-grok-workspace/src/permission/bash_command_splitting.rs\<close>).

  The tree comes from tree-sitter-bash, so it is data here: a node has a kind, is named or a token, covers a byte range of the
  script, may fill a named field of its parent and has children; the grammar is a parameter \<open>parse\<close> from scripts to trees.  The walk with an explicit stack
  is a recursive function on the stack and is shown equal to a declarative reading of the tree.
\<close>

section \<open>Trees\<close>

datatype ts_node = Node (node_kind: rstr) (is_named: bool) (start_byte: nat) (end_byte: nat) (node_field: "rstr option")
  (node_children: "ts_node list")

record ts_tree =
  root_node :: ts_node
  tree_has_error :: bool

type_synonym shell_grammar = "rstr \<Rightarrow> ts_tree option"

definition named_children :: "ts_node \<Rightarrow> ts_node list" where
  "named_children n = filter is_named (node_children n)"

definition utf8_text :: "ts_node \<Rightarrow> rstr \<Rightarrow> rstr option" where
  "utf8_text n src = byte_slice src (start_byte n) (end_byte n)"

definition kind_is :: "ts_node \<Rightarrow> string \<Rightarrow> bool" where
  "kind_is n k \<longleftrightarrow> node_kind n = lit k"

section \<open>Plain commands\<close>

record plain_command =
  pc_words :: "rstr list"
  span_start :: nat
  span_end :: nat

definition spans_whole_script :: "plain_command \<Rightarrow> rstr \<Rightarrow> bool" where
  "spans_whole_script c script =
     (case (split_at (span_start c) script, split_at (span_end c) script) of
        (Some (before, _), Some (_, after)) \<Rightarrow> trim before = [] \<and> trim after = []
      | _ \<Rightarrow> False)"

text \<open>The text a child adds, \<open>None\<close> where the code gives up on the command; the inner option is \<open>None\<close> for a skipped child.\<close>

definition string_word :: "ts_node \<Rightarrow> rstr \<Rightarrow> rstr option" where
  "string_word child src =
     (case node_children child of
        [a, b, c] \<Rightarrow>
          if kind_is a [CHR 0x22] \<and> kind_is b ''string_content'' \<and> kind_is c [CHR 0x22] then utf8_text b src else None
      | _ \<Rightarrow> None)"

definition raw_string_word :: "ts_node \<Rightarrow> rstr \<Rightarrow> rstr option" where
  "raw_string_word child src =
     (case utf8_text child src of
        None \<Rightarrow> None
      | Some raw \<Rightarrow> (case strip_prefix raw [39] of None \<Rightarrow> None | Some s \<Rightarrow> strip_suffix s [39]))"

definition child_word :: "ts_node \<Rightarrow> rstr \<Rightarrow> (ts_node \<times> rstr) option option" where
  "child_word child src =
     (if kind_is child ''variable_assignment'' then Some None
      else if kind_is child ''command_name'' then
        (case named_children child of
           w # _ \<Rightarrow> if kind_is w ''word'' then map_option (\<lambda>t. Some (w, t)) (utf8_text w src) else None
         | [] \<Rightarrow> None)
      else if kind_is child ''word'' \<or> kind_is child ''number'' \<or> kind_is child ''concatenation'' then
        map_option (\<lambda>t. Some (child, t)) (utf8_text child src)
      else if kind_is child ''string'' then map_option (\<lambda>t. Some (child, t)) (string_word child src)
      else if kind_is child ''raw_string'' then map_option (\<lambda>t. Some (child, t)) (raw_string_word child src)
      else None)"

fun plain_loop :: "ts_node list \<Rightarrow> rstr \<Rightarrow> rstr list \<Rightarrow> nat option \<Rightarrow> nat option \<Rightarrow>
    (rstr list \<times> nat option \<times> nat option) option" where
  "plain_loop [] src words s e = Some (words, s, e)"
| "plain_loop (child # rest) src words s e =
     (case child_word child src of
        None \<Rightarrow> None
      | Some None \<Rightarrow> plain_loop rest src words s e
      | Some (Some (n, t)) \<Rightarrow>
          plain_loop rest src (words @ [t]) (case s of None \<Rightarrow> Some (start_byte n) | Some x \<Rightarrow> Some x) (Some (end_byte n)))"

definition parse_plain_command_from_node :: "ts_node \<Rightarrow> rstr \<Rightarrow> plain_command option" where
  "parse_plain_command_from_node cmd src =
     (if \<not> kind_is cmd ''command'' then None
      else case plain_loop (named_children cmd) src [] None None of
          None \<Rightarrow> None
        | Some (words, s, e) \<Rightarrow>
            Some \<lparr>pc_words = words, span_start = (case s of Some x \<Rightarrow> x | None \<Rightarrow> start_byte cmd),
                  span_end = (case e of Some x \<Rightarrow> x | None \<Rightarrow> end_byte cmd)\<rparr>)"

section \<open>The allowlist\<close>

definition ALLOWED_KINDS :: "rstr list" where
  "ALLOWED_KINDS = map lit
     [''program'', ''list'', ''pipeline'', ''command'', ''command_name'', ''word'', ''string'', ''string_content'', ''raw_string'',
      ''number'', ''concatenation'', ''variable_assignment'', ''variable_name'', ''redirected_statement'', ''file_redirect'',
      ''file_descriptor'', ''comment'', ''heredoc_redirect'', ''heredoc_start'', ''heredoc_body'', ''heredoc_content'',
      ''heredoc_end'']"

definition ALLOWED_PUNCT_TOKENS :: "rstr list" where
  "ALLOWED_PUNCT_TOKENS =
     map lit [''&&'', ''||'', '';'', ''|'', [CHR 0x22]] @ [[39]] @
     map lit [''='', ''>'', ''>>'', ''<'', ''<<'', ''>&'', ''&>'', ''&>>'']"

definition token_allowed :: "rstr \<Rightarrow> bool" where
  "token_allowed kind \<longleftrightarrow>
     \<not> (list_ex (\<lambda>c. c \<in> set (lit ''&;|'')) kind \<and> kind \<notin> set ALLOWED_PUNCT_TOKENS) \<and>
     (kind \<in> set ALLOWED_PUNCT_TOKENS \<or> trim kind = [])"

definition node_allowed :: "ts_node \<Rightarrow> bool" where
  "node_allowed n \<longleftrightarrow> (if is_named n then node_kind n \<in> set ALLOWED_KINDS else token_allowed (node_kind n))"

text \<open>The walk; the head of the list is the top of the stack.\<close>

function walk :: "ts_node list \<Rightarrow> ts_node list \<Rightarrow> ts_node list option" where
  "walk stack acc =
     (case stack of
        [] \<Rightarrow> Some acc
      | node # rest \<Rightarrow>
          if node_allowed node then
            walk (rev (node_children node) @ rest) (if is_named node \<and> kind_is node ''command'' then acc @ [node] else acc)
          else None)"
  by pat_completeness auto
termination
proof (relation "measure (\<lambda>(stack, acc). sum_list (map size stack))", goal_cases)
  case (2 stack acc node rest)
  have "sum_list (map size (node_children node)) < size node" by (cases node) (simp add: size_list_conv_sum_list)
  then show ?case by (simp add: rev_map [symmetric] sum_list_rev 2)
qed simp

declare walk.simps [simp del]

definition try_parse_word_only_commands_sequence :: "ts_tree \<Rightarrow> rstr \<Rightarrow> plain_command list option" where
  "try_parse_word_only_commands_sequence tree src =
     (if tree_has_error tree then None
      else case walk [root_node tree] [] of
          None \<Rightarrow> None
        | Some command_nodes \<Rightarrow> those (map (\<lambda>n. parse_plain_command_from_node n src) (sort_key start_byte command_nodes)))"

definition all_commands_from_script :: "shell_grammar \<Rightarrow> rstr \<Rightarrow> plain_command list option" where
  "all_commands_from_script parse script =
     (case parse script of None \<Rightarrow> None | Some tree \<Rightarrow> try_parse_word_only_commands_sequence tree script)"

section \<open>The declarative reading\<close>

text \<open>All nodes of a tree, in the order of the walk.\<close>

fun subnodes :: "ts_node \<Rightarrow> ts_node list" where
  "subnodes (Node k nm a b f cs) = Node k nm a b f cs # concat (rev (map subnodes cs))"

definition is_command_node :: "ts_node \<Rightarrow> bool" where
  "is_command_node n \<longleftrightarrow> is_named n \<and> kind_is n ''command''"

lemma subnodes_eq: "subnodes n = n # concat (map subnodes (rev (node_children n)))"
  by (cases n) (simp add: rev_map)

lemma walk_reads_tree:
  "walk stack acc =
     (if list_all node_allowed (concat (map subnodes stack))
      then Some (acc @ filter is_command_node (concat (map subnodes stack))) else None)"
proof (induction stack acc rule: walk.induct)
  case (1 stack acc)
  show ?case
  proof (cases stack)
    case Nil
    then show ?thesis by (simp add: walk.simps)
  next
    case (Cons node rest)
    have sub: "subnodes node = node # concat (map subnodes (rev (node_children node)))" by (rule subnodes_eq)
    show ?thesis
    proof (cases "node_allowed node")
      case True
      then show ?thesis
        using 1 [OF Cons True] by (subst walk.simps) (simp add: Cons sub is_command_node_def)
    next
      case False
      then show ?thesis by (subst walk.simps) (simp add: Cons sub)
    qed
  qed
qed

text \<open>
  Only word-only scripts decompose: the script is decomposed exactly when the tree has no error, every node of the
  tree is on the allowlist (so no substitution, subshell, control flow or background operator occurs anywhere in it) and every
  command is a sequence of plain words; the result then has one entry per command node, in source order.
\<close>

theorem decomposes_iff_word_only:
  "try_parse_word_only_commands_sequence tree src =
     (if \<not> tree_has_error tree \<and> list_all node_allowed (subnodes (root_node tree))
      then those (map (\<lambda>n. parse_plain_command_from_node n src)
        (sort_key start_byte (filter is_command_node (subnodes (root_node tree)))))
      else None)"
  by (simp add: try_parse_word_only_commands_sequence_def walk_reads_tree)

end
