(* ===== verification/Exec_Risk.thy ===== *)
theory Exec_Risk
  imports Permission_Policy
begin

text \<open>
  Execution risk of shell commands (\<open>packages/tools/xai-grok-workspace/src/permission/exec_risk.rs\<close>): options that make
  \<open>git\<close> and \<open>sort\<close> run other programs, read-only git queries, and the directories whose git configuration a script uses.

  What libgit2 and the file system say of a directory is the record \<open>git_env\<close>.
\<close>

section \<open>Normalised words\<close>

text \<open>
  One round less each time; \<open>None\<close> is \<open>FailClosed\<close>.  The code compares slices of one argv by address and length, so
  equal length is equality.
\<close>

fun exec_risk_loop :: "nat \<Rightarrow> rstr list \<Rightarrow> rstr list option" where
  "exec_risk_loop n current =
     (if n = 0 then None
      else
        let checked = unwrap_wrappers_checked current; after_wrap = peel_words checked
        in if peel_exhausted checked \<or> peel_split_string checked \<or> peel_chdir checked then None
           else case peel_transparent_prefixes after_wrap of
               None \<Rightarrow> None
             | Some after_trans \<Rightarrow>
                 if length after_trans = length current then Some after_trans
                 else if length after_trans = length after_wrap then Some after_trans
                 else exec_risk_loop (n - 1) after_trans)"

declare exec_risk_loop.simps [simp del]

definition normalize_for_exec_risk :: "rstr list \<Rightarrow> rstr list option" where
  "normalize_for_exec_risk ws = exec_risk_loop MAX_NORMALIZE_ROUNDS ws"

definition is_accepted_long_option_prefix :: "rstr \<Rightarrow> string \<Rightarrow> nat \<Rightarrow> bool" where
  "is_accepted_long_option_prefix flag full min_len \<longleftrightarrow>
     starts_with flag (lit ''--'') \<and> byte_len flag \<ge> min_len \<and> starts_with (lit full) flag \<and>
     list_all (\<lambda>b. is_ascii_alphanumeric b \<or> b = ch CHR ''-'') flag"

definition normalized_token_basename :: "rstr \<Rightarrow> rstr" where
  "normalized_token_basename token = strip_suffix_or (to_ascii_lowercase (basename token)) (lit ''.exe'')"

definition normalized_program_name :: "rstr list \<Rightarrow> rstr option" where
  "normalized_program_name ws =
     (case ws of
        [] \<Rightarrow> None
      | raw # _ \<Rightarrow> if basename raw = [] then None else Some (normalized_token_basename raw))"

definition is_git_program :: "rstr list \<Rightarrow> bool" where
  "is_git_program ws \<longleftrightarrow> normalized_program_name ws = Some (lit ''git'')"

definition is_sort_program :: "rstr list \<Rightarrow> bool" where
  "is_sort_program ws \<longleftrightarrow> normalized_program_name ws = Some (lit ''sort'')"

text \<open>The part of an option before its first equals sign.\<close>

definition before_equals :: "rstr \<Rightarrow> rstr" where
  "before_equals tok = takeWhile (\<lambda>c. c \<noteq> ch CHR ''='') tok"

definition is_compress_program :: "rstr \<Rightarrow> bool" where
  "is_compress_program w \<longleftrightarrow>
     w = lit ''--compress-program'' \<or> starts_with w (lit ''--compress-program='') \<or>
     is_accepted_long_option_prefix (before_equals w) ''--compress-program'' 4"

definition sort_has_compress_program_flag :: "rstr list \<Rightarrow> bool" where
  "sort_has_compress_program_flag ws =
     list_ex is_compress_program (takeWhile (\<lambda>w. w \<noteq> lit ''--'') (drop 1 ws))"

section \<open>Git globals\<close>

definition is_git_config_env_flag :: "rstr \<Rightarrow> bool" where
  "is_git_config_env_flag tok \<longleftrightarrow>
     tok = lit ''--config-env'' \<or> starts_with tok (lit ''--config-env='') \<or>
     is_accepted_long_option_prefix (before_equals tok) ''--config-env'' 4"

definition is_git_repo_retarget_flag :: "rstr \<Rightarrow> bool" where
  "is_git_repo_retarget_flag tok \<longleftrightarrow>
     tok = lit ''--git-dir'' \<or> starts_with tok (lit ''--git-dir='') \<or> tok = lit ''--work-tree'' \<or> starts_with tok (lit ''--work-tree='') \<or>
     is_accepted_long_option_prefix (before_equals tok) ''--git-dir'' 4 \<or>
     is_accepted_long_option_prefix (before_equals tok) ''--work-tree'' 4"

definition is_attached_git_config_c :: "rstr \<Rightarrow> bool" where
  "is_attached_git_config_c tok \<longleftrightarrow> starts_with tok (lit ''-c'') \<and> byte_len tok > 2 \<and> \<not> starts_with tok (lit ''--'')"

definition attached_git_c_path :: "rstr \<Rightarrow> rstr option" where
  "attached_git_c_path tok =
     (case strip_prefix tok (lit ''-C'') of
        Some rest \<Rightarrow> if rest \<noteq> [] \<and> \<not> starts_with tok (lit ''--'') then Some rest else None
      | None \<Rightarrow> None)"

definition git_global_option_takes_value :: "rstr \<Rightarrow> bool" where
  "git_global_option_takes_value tok \<longleftrightarrow>
     tok \<in> set (map lit [''-C'', ''-c'', ''--git-dir'', ''--work-tree'', ''--namespace'', ''--super-prefix'', ''--exec-path'',
       ''--list-cmds'', ''--attr-source'', ''--config-env'']) \<or>
     list_ex (\<lambda>(full, n). is_accepted_long_option_prefix tok full n)
       [(''--config-env'', 4), (''--git-dir'', 4), (''--work-tree'', 4), (''--namespace'', 7), (''--super-prefix'', 8),
        (''--exec-path'', 7), (''--list-cmds'', 7), (''--attr-source'', 8)]"

definition has_option_value :: "rstr list \<Rightarrow> bool" where
  "has_option_value rest = (case rest of n # _ \<Rightarrow> \<not> starts_with n (lit ''-'') \<or> n = lit ''-'' | [] \<Rightarrow> False)"

definition option_skips_value :: "rstr \<Rightarrow> rstr list \<Rightarrow> bool" where
  "option_skips_value tok rest \<longleftrightarrow> ch CHR ''='' \<notin> set tok \<and> git_global_option_takes_value tok \<and> has_option_value rest"

definition is_git_exec_global :: "rstr \<Rightarrow> bool" where
  "is_git_exec_global tok \<longleftrightarrow>
     tok = lit ''-c'' \<or> is_attached_git_config_c tok \<or> is_git_config_env_flag tok \<or> is_git_repo_retarget_flag tok"

text \<open>The list is \<open>words[i..]\<close>.\<close>

fun git_risk_loop :: "rstr list \<Rightarrow> bool" where
  "git_risk_loop [] = False"
| "git_risk_loop (tok # rest) =
     (if tok = lit ''--'' then False
      else if \<not> starts_with tok (lit ''-'') \<or> tok = lit ''-'' then False
      else if is_git_exec_global tok then True
      else if attached_git_c_path tok \<noteq> None then git_risk_loop rest
      else if option_skips_value tok rest then git_risk_loop (drop 1 rest)
      else git_risk_loop rest)"

definition git_has_exec_risk_global :: "rstr list \<Rightarrow> bool" where
  "git_has_exec_risk_global ws = git_risk_loop (drop 1 ws)"

definition segment_has_exec_risk_flag :: "rstr list \<Rightarrow> bool" where
  "segment_has_exec_risk_flag ws =
     (if is_sort_program ws then sort_has_compress_program_flag ws
      else if is_git_program ws then git_has_exec_risk_global ws
      else False)"

record segment_exec_facts =
  facts_exec_risk :: bool
  facts_has_git :: bool

definition segment_exec_facts :: "rstr list \<Rightarrow> segment_exec_facts" where
  "segment_exec_facts ws =
     (case normalize_for_exec_risk ws of
        None \<Rightarrow> \<lparr>facts_exec_risk = True, facts_has_git = False\<rparr>
      | Some inner \<Rightarrow> \<lparr>facts_exec_risk = segment_has_exec_risk_flag inner, facts_has_git = is_git_program inner\<rparr>)"

section \<open>Read-only git queries\<close>

definition SAFE_GIT_SUBCOMMANDS :: "rstr list" where
  "SAFE_GIT_SUBCOMMANDS = map lit
     [''status'', ''branch'', ''log'', ''diff'', ''ls-files'', ''show'', ''rev-parse'', ''blame'', ''grep'', ''describe'',
      ''merge-base'', ''check-ignore'', ''check-attr'', ''cat-file'', ''ls-tree'', ''show-ref'', ''for-each-ref'', ''rev-list'',
      ''name-rev'', ''count-objects'', ''shortlog'']"

definition GIT_QUERY_UNSAFE_OPTIONS :: "rstr list" where
  "GIT_QUERY_UNSAFE_OPTIONS = map lit [''--filters'', ''--textconv'', ''--output'', ''--ext-diff'', ''--open-files-in-pager'']"

definition git_query_option_is_unsafe :: "rstr \<Rightarrow> bool" where
  "git_query_option_is_unsafe word \<longleftrightarrow>
     byte_len (before_equals word) > 2 \<and> list_ex (\<lambda>full. starts_with full (before_equals word)) GIT_QUERY_UNSAFE_OPTIONS"

text \<open>The index of the subcommand; the list is \<open>words[i..]\<close>.\<close>

fun verb_index_loop :: "rstr list \<Rightarrow> nat \<Rightarrow> nat option" where
  "verb_index_loop [] i = None"
| "verb_index_loop (tok # rest) i =
     (if tok = lit ''-'' \<or> tok = lit ''--'' then None
      else if \<not> starts_with tok (lit ''-'') then Some i
      else if tok = lit ''-C'' then verb_index_loop (drop 1 rest) (i + 2)
      else if attached_git_c_path tok \<noteq> None \<or> tok = lit ''--no-pager'' \<or> tok = lit ''-P'' then verb_index_loop rest (i + 1)
      else None)"

definition git_safe_query_verb_index :: "rstr list \<Rightarrow> nat option" where
  "git_safe_query_verb_index ws = verb_index_loop (drop 1 ws) 1"

definition head_is_git :: "rstr list \<Rightarrow> bool" where
  "head_is_git ws = (case ws of w # _ \<Rightarrow> w = lit ''git'' | [] \<Rightarrow> False)"

definition git_words_have_unsafe_query_option :: "rstr list \<Rightarrow> bool" where
  "git_words_have_unsafe_query_option ws \<longleftrightarrow>
     head_is_git ws \<and>
     (list_ex git_query_option_is_unsafe (drop 1 ws) \<or>
      (case git_safe_query_verb_index ws of
         Some i \<Rightarrow> ws ! i = lit ''grep'' \<and> list_ex (\<lambda>w. starts_with w (lit ''-O'')) (drop 1 ws)
       | None \<Rightarrow> False))"

definition git_words_are_read_only_query :: "rstr list \<Rightarrow> bool" where
  "git_words_are_read_only_query ws \<longleftrightarrow>
     head_is_git ws \<and> \<not> git_has_exec_risk_global ws \<and>
     (case git_safe_query_verb_index ws of
        None \<Rightarrow> False
      | Some i \<Rightarrow> ws ! i \<in> set SAFE_GIT_SUBCOMMANDS \<and> \<not> git_words_have_unsafe_query_option ws)"

section \<open>Git configuration of the directories a script uses\<close>

datatype file_probe = ReadableFile | NotRegular | NoSuchFile | OpenFailed
datatype discovery = NoRepository | DiscoveryError | Repository rstr rstr

datatype config_item = ConfigError | ConfigEntry bool "rstr option" "rstr option"

record git_env =
  parses_as_bool :: "rstr \<Rightarrow> bool"
  open_probe :: "rstr \<Rightarrow> file_probe"
  discover :: "rstr \<Rightarrow> discovery"
  config_items :: "rstr \<Rightarrow> config_item list option"

definition local_git_config_entry_is_exec :: "git_env \<Rightarrow> rstr \<Rightarrow> rstr \<Rightarrow> bool" where
  "local_git_config_entry_is_exec G name value =
     (let name = to_ascii_lowercase name; value = trim value
      in if value = [] then False
         else if name = lit ''core.fsmonitor'' then \<not> parses_as_bool G value
         else name = lit ''diff.external'' \<or>
           (case strip_prefix name (lit ''diff.'') of
              Some rest \<Rightarrow> ends_with rest (lit ''.command'') \<or> ends_with rest (lit ''.textconv'') \<or> ends_with rest (lit ''.external'')
            | None \<Rightarrow> False) \<or>
           (case strip_prefix name (lit ''alias.'') of
              Some alias \<Rightarrow> alias \<in> set SAFE_GIT_SUBCOMMANDS \<and> starts_with value (lit ''!'')
            | None \<Rightarrow> False))"

definition path_unreadable :: "git_env \<Rightarrow> rstr \<Rightarrow> bool" where
  "path_unreadable G path = (open_probe G path \<in> {NotRegular, OpenFailed})"

fun config_loop :: "git_env \<Rightarrow> config_item list \<Rightarrow> bool" where
  "config_loop G [] = False"
| "config_loop G (ConfigError # items) = True"
| "config_loop G (ConfigEntry repo_level name value # items) =
     (if \<not> repo_level then config_loop G items
      else if local_git_config_entry_is_exec G (case name of Some n \<Rightarrow> n | None \<Rightarrow> []) (case value of Some v \<Rightarrow> v | None \<Rightarrow> [])
      then True else config_loop G items)"

definition local_repo_config_has_exec_risk :: "git_env \<Rightarrow> rstr \<Rightarrow> bool" where
  "local_repo_config_has_exec_risk G cwd =
     (case discover G cwd of
        NoRepository \<Rightarrow> False
      | DiscoveryError \<Rightarrow> True
      | Repository git_dir common \<Rightarrow>
          if path_unreadable G (path_join common (lit ''config'')) \<or> path_unreadable G (path_join git_dir (lit ''config'')) \<or>
             path_unreadable G (path_join git_dir (lit ''config.worktree'')) then True
          else (case config_items G cwd of None \<Rightarrow> True | Some items \<Rightarrow> config_loop G items))"

definition is_static_path_operand :: "rstr \<Rightarrow> bool" where
  "is_static_path_operand p \<longleftrightarrow>
     p \<noteq> [] \<and> p \<noteq> lit ''-'' \<and> \<not> starts_with p (lit ''-'') \<and> ch CHR ''$'' \<notin> set p \<and> 96 \<notin> set p \<and> \<not> contains_str p (lit ''$('')"

definition join_cwd :: "rstr \<Rightarrow> rstr \<Rightarrow> rstr" where
  "join_cwd base operand = (if is_absolute operand then operand else path_join base operand)"

fun chdir_target :: "rstr list \<Rightarrow> rstr option \<Rightarrow> rstr option option" where
  "chdir_target [] target = Some target"
| "chdir_target (tok # rest) target =
     (if tok = lit ''--'' then Some (case rest of t # _ \<Rightarrow> Some t | [] \<Rightarrow> None)
      else if starts_with tok (lit ''-'') then None
      else if target \<noteq> None then None
      else chdir_target rest (Some tok))"

definition apply_literal_chdir :: "rstr \<Rightarrow> rstr list \<Rightarrow> rstr option" where
  "apply_literal_chdir cwd ws =
     (case chdir_target (drop 1 ws) None of
        Some (Some target) \<Rightarrow> if is_static_path_operand target then Some (join_cwd cwd target) else None
      | _ \<Rightarrow> None)"

fun git_cwd_loop :: "rstr list \<Rightarrow> rstr \<Rightarrow> rstr option" where
  "git_cwd_loop [] cwd = Some cwd"
| "git_cwd_loop (tok # rest) cwd =
     (if tok = lit ''--'' \<or> \<not> starts_with tok (lit ''-'') \<or> tok = lit ''-'' then Some cwd
      else if is_git_repo_retarget_flag tok then None
      else if tok = lit ''-C'' then
        (case rest of
           path # _ \<Rightarrow> if is_static_path_operand path then git_cwd_loop (drop 1 rest) (join_cwd cwd path) else None
         | [] \<Rightarrow> None)
      else case attached_git_c_path tok of
          Some path \<Rightarrow> if is_static_path_operand path then git_cwd_loop rest (join_cwd cwd path) else None
        | None \<Rightarrow> if option_skips_value tok rest then git_cwd_loop (drop 1 rest) cwd else git_cwd_loop rest cwd)"

definition git_effective_cwd :: "rstr list \<Rightarrow> rstr \<Rightarrow> rstr option" where
  "git_effective_cwd ws start_cwd = git_cwd_loop (drop 1 ws) start_cwd"

datatype ambient_scan_plan = PlanFailClosed | CheckDirs "rstr list"

fun ambient_loop :: "rstr list list \<Rightarrow> rstr \<Rightarrow> rstr list \<Rightarrow> rstr list option" where
  "ambient_loop [] cwd git_cwds = Some git_cwds"
| "ambient_loop (raw # segments) cwd git_cwds =
     (case normalize_for_exec_risk raw of
        None \<Rightarrow> None
      | Some ws \<Rightarrow>
          let program = normalized_program_name ws
          in if program = Some (lit ''cd'') \<or> program = Some (lit ''pushd'') then
               (case apply_literal_chdir cwd ws of Some next \<Rightarrow> ambient_loop segments next git_cwds | None \<Rightarrow> None)
             else if program = Some (lit ''popd'') then None
             else if program = Some (lit ''git'') then
               (case git_effective_cwd ws cwd of
                  Some effective \<Rightarrow> ambient_loop segments cwd (git_cwds @ [effective])
                | None \<Rightarrow> None)
             else ambient_loop segments cwd git_cwds)"

definition ambient_scan_plan_from_segments :: "rstr list list \<Rightarrow> rstr \<Rightarrow> ambient_scan_plan" where
  "ambient_scan_plan_from_segments raw_segments session_cwd =
     (case ambient_loop raw_segments session_cwd [] of
        Some dirs \<Rightarrow> if dirs = [] then PlanFailClosed else CheckDirs dirs
      | None \<Rightarrow> PlanFailClosed)"

fun ambient_exec_risk_from_plan :: "git_env \<Rightarrow> ambient_scan_plan \<Rightarrow> bool" where
  "ambient_exec_risk_from_plan G PlanFailClosed = True"
| "ambient_exec_risk_from_plan G (CheckDirs dirs) = list_ex (local_repo_config_has_exec_risk G) dirs"

text \<open>The token probe for scripts that do not decompose.\<close>

fun split_where :: "(uchar \<Rightarrow> bool) \<Rightarrow> rstr \<Rightarrow> rstr list" where
  "split_where P [] = [[]]"
| "split_where P (c # cs) =
     (if P c then [] # split_where P cs else case split_where P cs of w # ws \<Rightarrow> (c # w) # ws | [] \<Rightarrow> [[c]])"

definition token_separator :: "uchar \<Rightarrow> bool" where
  "token_separator c \<longleftrightarrow> is_whitespace c \<or> c \<in> set (lit ''|&;()<>'') \<or> c = 96 \<or> c = 10"

definition is_quote_ch :: "uchar \<Rightarrow> bool" where
  "is_quote_ch c \<longleftrightarrow> c = 39 \<or> c = 34 \<or> c = 96"

definition trim_matches :: "(uchar \<Rightarrow> bool) \<Rightarrow> rstr \<Rightarrow> rstr" where
  "trim_matches P s = trim_end_matches P (dropWhile P s)"

definition script_may_invoke_git :: "rstr \<Rightarrow> bool" where
  "script_may_invoke_git cmd =
     list_ex (\<lambda>token. let trimmed = trim_matches is_quote_ch token
       in trimmed \<noteq> [] \<and> normalized_token_basename trimmed = lit ''git'') (split_where token_separator cmd)"

end
