(* ===== verification/Shell_Operands.thy ===== *)
theory Shell_Operands
  imports Permission_Policy
begin

text \<open>
  What a shell script does to files, read from its syntax tree
  (\<open>packages/tools/xai-grok-workspace/src/permission/shell_access.rs\<close>): redirects, the words of every command, and which of them name
  files that are read, written or created.

  A node knows neither its parent nor its siblings in this model, so the walks carry them: each node comes with the chain
  of its ancestors, each with the sibling that follows below it.
\<close>

section \<open>Walking a tree\<close>

type_synonym ancestors = "(ts_node \<times> ts_node option) list"

function with_context :: "ancestors \<Rightarrow> ts_node \<Rightarrow> (ts_node \<times> ancestors) list" where
  "with_context chain (Node k nm a b f cs) =
     (let n = Node k nm a b f cs
      in (n, chain) #
         concat (rev (map (\<lambda>i. with_context ((n, if i + 1 < length cs then Some (cs ! (i + 1)) else None) # chain) (cs ! i))
           [0..<length cs])))"
  by pat_completeness auto
termination
  by (relation "measure (\<lambda>(chain, n). size n)") (auto simp: size_list_estimation' [OF nth_mem le_refl] less_Suc_eq_le)

declare with_context.simps [simp del]

definition child_by_field_name :: "ts_node \<Rightarrow> string \<Rightarrow> ts_node option" where
  "child_by_field_name n f = find (\<lambda>c. node_field c = Some (lit f)) (node_children n)"

record execution_scope =
  scope_start :: nat
  scope_end :: nat

definition scope_contains :: "execution_scope \<Rightarrow> execution_scope \<Rightarrow> bool" where
  "scope_contains s other \<longleftrightarrow> scope_start s \<le> scope_start other \<and> scope_end s \<ge> scope_end other"

definition node_scope :: "ts_node \<Rightarrow> execution_scope" where
  "node_scope n = \<lparr>scope_start = start_byte n, scope_end = end_byte n\<rparr>"

fun scope_of :: "ts_node \<Rightarrow> ancestors \<Rightarrow> execution_scope" where
  "scope_of current [] = \<lparr>scope_start = 0, scope_end = U64_MAX\<rparr>"
| "scope_of current ((parent, sibling) # chain) =
     (if (case sibling of Some s \<Rightarrow> kind_is s ''&'' | None \<Rightarrow> False) then
        node_scope (if kind_is current ''list'' then current else parent)
      else if kind_is parent ''subshell'' \<or> kind_is parent ''command_substitution'' \<or> kind_is parent ''process_substitution'' then
        node_scope parent
      else if kind_is parent ''pipeline'' then node_scope current
      else scope_of parent chain)"

record cwd_poison =
  poison_at :: nat
  poison_scope :: execution_scope

definition changes_cwd :: "rstr \<Rightarrow> ts_node \<Rightarrow> bool" where
  "changes_cwd src n \<longleftrightarrow>
     kind_is n ''command'' \<and>
     (case child_by_field_name n ''name'' of
        Some name \<Rightarrow>
          (case utf8_text name src of
             Some program \<Rightarrow> basename program \<in> {lit ''cd'', lit ''pushd'', lit ''popd''}
           | None \<Rightarrow> False)
      | None \<Rightarrow> False)"

definition cwd_poison_positions :: "ts_node \<Rightarrow> rstr \<Rightarrow> cwd_poison list" where
  "cwd_poison_positions root src =
     map (\<lambda>(n, chain). \<lparr>poison_at = start_byte n, poison_scope = scope_of n chain\<rparr>)
       (filter (\<lambda>(n, chain). changes_cwd src n) (with_context [] root))"

definition script_has_cwd_change :: "ts_node \<Rightarrow> rstr \<Rightarrow> bool" where
  "script_has_cwd_change root src \<longleftrightarrow> cwd_poison_positions root src \<noteq> []"

definition cwd_unpinned_before :: "cwd_poison list \<Rightarrow> nat \<Rightarrow> execution_scope \<Rightarrow> bool" where
  "cwd_unpinned_before positions at scope =
     list_ex (\<lambda>p. poison_at p < at \<and> (poison_scope p = scope \<or> scope_contains (poison_scope p) scope)) positions"

section \<open>Words\<close>

definition EXPANSION_KINDS :: "rstr list" where
  "EXPANSION_KINDS = map lit
     [''expansion'', ''simple_expansion'', ''command_substitution'', ''arithmetic_expansion'', ''process_substitution'']"

text \<open>The walk looks at the children of every node it visits, so at every node below the first.\<close>

definition node_has_expansion :: "ts_node \<Rightarrow> bool" where
  "node_has_expansion n = list_ex (\<lambda>c. node_kind c \<in> set EXPANSION_KINDS) (tl (subnodes n))"

definition second_byte_is_colon :: "rstr \<Rightarrow> bool" where
  "second_byte_is_colon s = (case s of a # b # _ \<Rightarrow> a < 128 \<and> b = ch CHR '':'' | _ \<Rightarrow> False)"

definition is_windows_path_like :: "rstr \<Rightarrow> bool" where
  "is_windows_path_like raw \<longleftrightarrow>
     starts_with raw [92, 92] \<or> (raw \<noteq> [] \<and> is_ascii_alphabetic (hd raw) \<and> second_byte_is_colon raw)"

fun fold_escapes :: "rstr \<Rightarrow> rstr option" where
  "fold_escapes [] = Some []"
| "fold_escapes (c # cs) =
     (if c = 92 then (case cs of d # ds \<Rightarrow> map_option ((#) d) (fold_escapes ds) | [] \<Rightarrow> None)
      else map_option ((#) c) (fold_escapes cs))"

definition decode_unquoted_word :: "rstr \<Rightarrow> rstr option" where
  "decode_unquoted_word raw =
     (if 92 \<notin> set raw then Some raw else if is_windows_path_like raw then Some raw else fold_escapes raw)"

fun fold_double_escapes :: "rstr \<Rightarrow> rstr option" where
  "fold_double_escapes [] = Some []"
| "fold_double_escapes (c # cs) =
     (if c \<noteq> 92 then map_option ((#) c) (fold_double_escapes cs)
      else case cs of
          n # ns \<Rightarrow>
            if n \<in> {ch CHR ''$'', 96, 34, 92, 10} then map_option ((#) n) (fold_double_escapes ns)
            else map_option (\<lambda>r. 92 # n # r) (fold_double_escapes ns)
        | [] \<Rightarrow> None)"

definition decode_double_quoted_content :: "rstr \<Rightarrow> rstr option" where
  "decode_double_quoted_content content = (if 92 \<notin> set content then Some content else fold_double_escapes content)"

datatype arg_text = ArgLiteral rstr | ArgAmbiguous

definition arg_of :: "rstr option \<Rightarrow> arg_text" where
  "arg_of decoded = (case decoded of Some s \<Rightarrow> ArgLiteral s | None \<Rightarrow> ArgAmbiguous)"

definition strip_quotes :: "uchar \<Rightarrow> rstr \<Rightarrow> rstr" where
  "strip_quotes q raw =
     (case strip_prefix raw [q] of
        Some s \<Rightarrow> (case strip_suffix s [q] of Some t \<Rightarrow> t | None \<Rightarrow> raw)
      | None \<Rightarrow> raw)"

definition shell_node_arg :: "ts_node \<Rightarrow> rstr \<Rightarrow> arg_text option" where
  "shell_node_arg n src =
     (if kind_is n ''variable_assignment'' then None
      else if kind_is n ''word'' \<or> kind_is n ''number'' then
        Some (arg_of (case utf8_text n src of Some raw \<Rightarrow> decode_unquoted_word raw | None \<Rightarrow> None))
      else if kind_is n ''raw_string'' then map_option (\<lambda>raw. ArgLiteral (strip_quotes 39 raw)) (utf8_text n src)
      else if kind_is n ''string'' then
        (if node_has_expansion n then Some ArgAmbiguous
         else map_option (\<lambda>raw. arg_of (decode_double_quoted_content (strip_quotes 34 raw))) (utf8_text n src))
      else if kind_is n ''concatenation'' then
        (if node_has_expansion n then Some ArgAmbiguous
         else Some (arg_of (case utf8_text n src of Some raw \<Rightarrow> decode_shell_literal_spelling raw | None \<Rightarrow> None)))
      else Some ArgAmbiguous)"

section \<open>Commands\<close>

text \<open>An invocation word is a literal or untrusted, as a shell word of the policy is.\<close>

record shell_invocation =
  inv_start :: nat
  inv_scope :: execution_scope
  inv_words :: "shell_word list"
  wrapper_words :: "rstr list"

definition literal_words :: "shell_word list \<Rightarrow> rstr list" where
  "literal_words ws = List.map_filter (\<lambda>w. case w of LiteralWord s \<Rightarrow> Some s | UntrustedWord \<Rightarrow> None) ws"

definition invocation_word :: "rstr \<Rightarrow> ts_node \<Rightarrow> shell_word option" where
  "invocation_word src child =
     (case (if kind_is child ''command_name'' then
              (case named_children child of inner # _ \<Rightarrow> shell_node_arg inner src | [] \<Rightarrow> None)
            else shell_node_arg child src) of
        Some (ArgLiteral s) \<Rightarrow> Some (LiteralWord s)
      | Some ArgAmbiguous \<Rightarrow> Some UntrustedWord
      | None \<Rightarrow> None)"

definition wrapper_word :: "shell_word \<Rightarrow> rstr" where
  "wrapper_word w = (case w of LiteralWord s \<Rightarrow> s | UntrustedWord \<Rightarrow> [0])"

definition command_invocation :: "rstr \<Rightarrow> ts_node \<Rightarrow> ancestors \<Rightarrow> shell_invocation" where
  "command_invocation src n chain =
     (let ws = List.map_filter (invocation_word src) (named_children n)
      in \<lparr>inv_start = start_byte n, inv_scope = scope_of n chain, inv_words = ws, wrapper_words = map wrapper_word ws\<rparr>)"

definition shell_command_invocations :: "ts_node \<Rightarrow> rstr \<Rightarrow> shell_invocation list" where
  "shell_command_invocations root src =
     sort_key inv_start
       (map (\<lambda>(n, chain). command_invocation src n chain)
         (filter (\<lambda>(n, chain). kind_is n ''command'') (with_context [] root)))"

record checked_invocation_peel =
  peel_inv_words :: "shell_word list"
  inv_has_chdir :: bool
  inv_has_split_string :: bool
  inv_env_options_uncertain :: bool
  inv_exhausted :: bool
  transparent_ambiguous :: bool

definition unwrap_invocation_checked :: "shell_invocation \<Rightarrow> checked_invocation_peel" where
  "unwrap_invocation_checked iv =
     (let norm = normalize_command_words (wrapper_words iv);
          peeled_count = length (wrapper_words iv) - length (norm_words norm)
      in \<lparr>peel_inv_words = drop peeled_count (inv_words iv), inv_has_chdir = norm_chdir norm,
          inv_has_split_string = norm_split_string norm, inv_env_options_uncertain = norm_env_uncertain norm,
          inv_exhausted = norm_exhausted norm, transparent_ambiguous = norm_ambiguous norm\<rparr>)"

definition words_are_opaque_shell :: "shell_word list \<Rightarrow> bool" where
  "words_are_opaque_shell ws \<longleftrightarrow>
     is_potential_inline (shell_dash_c_script ws) \<or>
     (case ws of LiteralWord program # _ \<Rightarrow> basename program = lit ''eval'' | _ \<Rightarrow> False)"

definition tree_has_opaque_shell :: "ts_node \<Rightarrow> rstr \<Rightarrow> bool" where
  "tree_has_opaque_shell root src =
     list_ex (\<lambda>iv. words_are_opaque_shell (peel_inv_words (unwrap_invocation_checked iv))) (shell_command_invocations root src)"

section \<open>Redirects\<close>

datatype shell_file_mode = ReadMode | WriteMode | CreateMode

definition shell_arg_is_ambiguous :: "rstr \<Rightarrow> bool" where
  "shell_arg_is_ambiguous token \<longleftrightarrow> ch CHR ''*'' \<in> set token \<or> ch CHR ''?'' \<in> set token \<or> ch CHR ''['' \<in> set token"

text \<open>\<open>None\<close> where the code returns early, the inner option is the operator found.\<close>

fun redirect_operator :: "rstr list \<Rightarrow> rstr option option" where
  "redirect_operator [] = Some None"
| "redirect_operator (kind # kinds) =
     (if contains_str kind (lit ''<<'') then None
      else if ch CHR ''>'' \<in> set kind \<or> ch CHR ''<'' \<in> set kind then Some (Some kind)
      else redirect_operator kinds)"

definition shell_redirect_one :: "ts_node \<Rightarrow> rstr \<Rightarrow> (rstr option \<times> shell_file_mode \<times> bool) option" where
  "shell_redirect_one n src =
     (case redirect_operator (map node_kind (node_children n)) of
        Some (Some redirect) \<Rightarrow>
          let mode = (if ch CHR ''>'' \<in> set redirect then WriteMode else ReadMode);
              duplicates_fd = (redirect = lit ''>&'' \<or> redirect = lit ''<&'')
          in (case child_by_field_name n ''destination'' of
                None \<Rightarrow> None
              | Some dest \<Rightarrow>
                  (case shell_node_arg dest src of
                     None \<Rightarrow> None
                   | Some (ArgLiteral s) \<Rightarrow>
                       if s = [] \<or> starts_with s (lit ''&'') \<or> (duplicates_fd \<and> (s = lit ''-'' \<or> list_all is_ascii_digit s))
                       then None else Some (Some s, mode, shell_arg_is_ambiguous s)
                   | Some ArgAmbiguous \<Rightarrow> Some (None, mode, True)))
      | _ \<Rightarrow> None)"

record shell_redirect_target =
  redirect_path :: "rstr option"
  redirect_mode :: shell_file_mode
  redirect_ambiguous :: bool
  redirect_start :: nat
  redirect_scope :: execution_scope

definition redirect_target :: "rstr \<Rightarrow> ts_node \<times> ancestors \<Rightarrow> shell_redirect_target option" where
  "redirect_target src nc =
     (if kind_is (fst nc) ''file_redirect'' then
        map_option (\<lambda>(path, mode, ambiguous).
          \<lparr>redirect_path = path, redirect_mode = mode, redirect_ambiguous = ambiguous, redirect_start = start_byte (fst nc),
           redirect_scope = scope_of (fst nc) (snd nc)\<rparr>) (shell_redirect_one (fst nc) src)
      else None)"

definition shell_redirect_targets :: "ts_node \<Rightarrow> rstr \<Rightarrow> shell_redirect_target list" where
  "shell_redirect_targets root src = List.map_filter (redirect_target src) (with_context [] root)"

section \<open>Operands that name files\<close>

definition shell_file_mode_of :: "rstr \<Rightarrow> shell_file_mode option" where
  "shell_file_mode_of program =
     (if program \<in> set (map lit
          [''cat'', ''tac'', ''nl'', ''head'', ''tail'', ''grep'', ''egrep'', ''fgrep'', ''rg'', ''sed'', ''awk'', ''less'', ''more'',
           ''bat'', ''strings'', ''xxd'', ''od'', ''hexdump'', ''base64'', ''base32'', ''cut'', ''sort'', ''uniq'', ''wc'', ''type'',
           ''get-content'', ''gc'', ''diff'', ''comm'', ''rev'', ''jq'', ''yq'', ''select-string'', ''sls'', ''ag'', ''ack'', ''zcat'',
           ''zless'', ''zmore'', ''zgrep'', ''zegrep'', ''zfgrep'', ''bzcat'', ''bzgrep'', ''xzcat'', ''xzgrep'', ''zstdcat'', ''lz4cat''])
      then Some ReadMode
      else if program \<in> set (map lit [''tee'', ''set-content'', ''out-file'', ''add-content'', ''tee-object'', ''truncate''])
      then Some WriteMode else None)"

definition shell_sed_in_place :: "rstr list \<Rightarrow> bool" where
  "shell_sed_in_place ws =
     list_ex (\<lambda>w. w = lit ''--in-place'' \<or> starts_with w (lit ''--in-place='') \<or>
       (starts_with w (lit ''-'') \<and> \<not> starts_with w (lit ''--'') \<and> ch CHR ''i'' \<in> set w)) (drop 1 ws)"

definition nonempty_prefix_value :: "rstr \<Rightarrow> rstr \<Rightarrow> rstr option" where
  "nonempty_prefix_value token flag = (case strip_prefix token flag of Some v \<Rightarrow> if v = [] then None else Some v | None \<Rightarrow> None)"

fun shell_output_flag_values :: "rstr list \<Rightarrow> rstr list" where
  "shell_output_flag_values [] = []"
| "shell_output_flag_values (token # rest) =
     (case (case strip_prefix token (lit ''--output='') of
              Some v \<Rightarrow> Some v
            | None \<Rightarrow>
                (case nonempty_prefix_value token (lit ''-o'') of
                   Some v \<Rightarrow> Some v
                 | None \<Rightarrow>
                     if token = lit ''--output'' \<or> token = lit ''-o'' then (case rest of v # _ \<Rightarrow> Some v | [] \<Rightarrow> None) else None)) of
        Some v \<Rightarrow> v # shell_output_flag_values rest
      | None \<Rightarrow> shell_output_flag_values rest)"

fun value_flag_values :: "rstr list \<Rightarrow> rstr \<Rightarrow> rstr list" where
  "value_flag_values [] flag = []"
| "value_flag_values (token # rest) flag =
     (case (case strip_prefix token (flag @ lit ''='') of
              Some v \<Rightarrow> Some v
            | None \<Rightarrow>
                if token = flag then (case rest of v # _ \<Rightarrow> Some v | [] \<Rightarrow> None)
                else if \<not> starts_with flag (lit ''--'') then nonempty_prefix_value token flag
                else None) of
        Some v \<Rightarrow> v # value_flag_values rest flag
      | None \<Rightarrow> value_flag_values rest flag)"

fun candidates_loop :: "rstr list \<Rightarrow> bool \<Rightarrow> rstr list" where
  "candidates_loop [] end_of_options = []"
| "candidates_loop (token # rest) end_of_options =
     (if \<not> end_of_options \<and> token = lit ''--'' then candidates_loop rest True
      else if end_of_options \<or> (token \<noteq> lit ''-'' \<and> \<not> starts_with token (lit ''-'')) then token # candidates_loop rest end_of_options
      else candidates_loop rest end_of_options)"

definition shell_file_candidates :: "rstr list \<Rightarrow> rstr list" where
  "shell_file_candidates ws = candidates_loop (drop 1 ws) False"

definition dd_operand :: "rstr \<Rightarrow> (rstr \<times> shell_file_mode) option" where
  "dd_operand token =
     (case strip_prefix token (lit ''if='') of
        Some p \<Rightarrow> Some (p, ReadMode)
      | None \<Rightarrow> map_option (\<lambda>p. (p, WriteMode)) (strip_prefix token (lit ''of='')))"

definition special_file_operands :: "rstr \<Rightarrow> rstr list \<Rightarrow> (rstr \<times> shell_file_mode) list" where
  "special_file_operands program ws =
     (if program = lit ''dd'' then List.map_filter dd_operand (drop 1 ws)
      else if program \<in> {lit ''sort'', lit ''go'', lit ''git''} then map (\<lambda>p. (p, WriteMode)) (shell_output_flag_values ws)
      else if program = lit ''rustc'' then
        map (\<lambda>p. (p, WriteMode)) (shell_output_flag_values ws @ value_flag_values ws (lit ''--out-dir''))
      else if program = lit ''rustfmt'' then map (\<lambda>p. (p, WriteMode)) (shell_file_candidates ws)
      else [])"

definition is_creation_program :: "rstr \<Rightarrow> bool" where
  "is_creation_program program \<longleftrightarrow> program = lit ''mkdir'' \<or> program = lit ''touch''"

definition shell_path_command_operands :: "rstr \<Rightarrow> rstr list \<Rightarrow> (rstr \<times> shell_file_mode) list option" where
  "shell_path_command_operands program ws =
     (let operands = shell_file_candidates ws
      in if program \<in> {lit ''cp'', lit ''mv'', lit ''ln'', lit ''install''} then
           (if operands = [] then None
            else Some (map (\<lambda>s. (s, ReadMode)) (butlast operands) @ [(last operands, WriteMode)]))
         else if program = lit ''rm'' \<or> program = lit ''rmdir'' then Some (map (\<lambda>c. (c, WriteMode)) operands)
         else if is_creation_program program then Some (map (\<lambda>c. (c, CreateMode)) operands)
         else if program = lit ''uniq'' then
           (case operands of i # out # _ \<Rightarrow> Some [(i, ReadMode), (out, WriteMode)] | _ \<Rightarrow> None)
         else None)"

definition is_directory_operand :: "rstr \<Rightarrow> bool" where
  "is_directory_operand token \<longleftrightarrow> token = lit ''.'' \<or> token = lit ''..'' \<or> ends_with token (lit ''/'')"

definition shell_reader_can_recurse :: "rstr \<Rightarrow> rstr list \<Rightarrow> rstr list \<Rightarrow> bool" where
  "shell_reader_can_recurse program ws candidates \<longleftrightarrow>
     program \<in> {lit ''grep'', lit ''egrep'', lit ''fgrep''} \<and>
       list_ex (\<lambda>w. w = lit ''--recursive'' \<or> w = lit ''--dereference-recursive'' \<or>
         (starts_with w (lit ''-'') \<and> \<not> starts_with w (lit ''--'') \<and> (ch CHR ''r'' \<in> set w \<or> ch CHR ''R'' \<in> set w))) ws \<or>
     program \<in> {lit ''rg'', lit ''ag'', lit ''ack''} \<and>
       (length candidates \<le> 1 \<or> list_ex is_directory_operand (drop 1 candidates))"

section \<open>Paths a script writes\<close>

definition written_operands :: "(rstr \<times> shell_file_mode) list \<Rightarrow> rstr list" where
  "written_operands ops = map fst (filter (\<lambda>(p, mode). mode = WriteMode) ops)"

definition command_words_write_paths :: "rstr list \<Rightarrow> rstr list" where
  "command_words_write_paths ws =
     (case unwrap_wrappers ws of
        [] \<Rightarrow> []
      | w # rest \<Rightarrow>
          let inner = w # rest; program = to_ascii_lowercase (basename w)
          in written_operands (special_file_operands program inner) @
             (case shell_path_command_operands program inner of
                Some operands \<Rightarrow> written_operands operands
              | None \<Rightarrow>
                  if shell_file_mode_of program = Some WriteMode \<or> (program = lit ''sed'' \<and> shell_sed_in_place inner)
                  then shell_file_candidates inner else []))"

definition command_words_creation_paths :: "rstr list \<Rightarrow> rstr list" where
  "command_words_creation_paths ws =
     (case unwrap_wrappers ws of
        [] \<Rightarrow> []
      | w # rest \<Rightarrow>
          (case shell_path_command_operands (to_ascii_lowercase (basename w)) (w # rest) of
             Some operands \<Rightarrow> map fst (filter (\<lambda>(p, mode). mode = CreateMode) operands)
           | None \<Rightarrow> []))"

record write_paths_split =
  redirect_paths :: "rstr list"
  unextracted_write_redirect :: bool
  word_paths :: "rstr list"
  creation_paths :: "rstr list"

definition command_write_paths_split :: "ts_node \<Rightarrow> rstr \<Rightarrow> write_paths_split" where
  "command_write_paths_split root src =
     (let writes = filter (\<lambda>r. redirect_mode r = WriteMode) (shell_redirect_targets root src);
          commands = map (\<lambda>iv. literal_words (inv_words iv)) (shell_command_invocations root src)
      in \<lparr>redirect_paths = List.map_filter redirect_path writes,
          unextracted_write_redirect = list_ex (\<lambda>r. redirect_path r = None) writes,
          word_paths = concat (map command_words_write_paths commands),
          creation_paths = concat (map command_words_creation_paths commands)\<rparr>)"

definition command_write_paths_in_tree :: "ts_node \<Rightarrow> rstr \<Rightarrow> rstr list" where
  "command_write_paths_in_tree root src =
     (let split = command_write_paths_split root src in redirect_paths split @ word_paths split)"

definition is_safe_write_sink :: "rstr \<Rightarrow> bool" where
  "is_safe_write_sink path \<longleftrightarrow> path \<in> {lit ''/dev/null'', lit ''/dev/stdout'', lit ''/dev/stderr''}"

end
