(* ===== verification/Bash_Display.thy ===== *)
theory Bash_Display
  imports Bash_Syntax
begin

text \<open>
  What the permission prompt shows of a script: the primary command with its context, and the places where a long line
  may be broken (\<open>packages/tools/xai-grok-workspace/src/permission/bash_command_splitting.rs\<close>).
\<close>

section \<open>The primary command\<close>

record highlights =
  hl_prefix :: "rstr list"
  highlighted_words :: "rstr list"
  hl_suffix :: "rstr list"

definition is_setup_command :: "rstr list \<Rightarrow> bool" where
  "is_setup_command cmd \<longleftrightarrow>
     cmd = [] \<or>
     hd cmd \<in> set (map lit [''cd'', ''pushd'', ''popd'', ''export'', ''unset'', ''set'', ''sleep'', ''timeout''])"

definition flush :: "rstr \<Rightarrow> rstr list \<Rightarrow> rstr list" where
  "flush current result = (if current \<noteq> [] then result @ [current] else result)"

fun sh_split_loop :: "rstr \<Rightarrow> bool \<Rightarrow> bool \<Rightarrow> rstr \<Rightarrow> rstr list \<Rightarrow> rstr list" where
  "sh_split_loop [] in_single in_double current result = flush current result"
| "sh_split_loop (c # cs) in_single in_double current result =
     (if c = 39 \<and> \<not> in_double then sh_split_loop cs (\<not> in_single) in_double current result
      else if c = 34 \<and> \<not> in_single then sh_split_loop cs in_single (\<not> in_double) current result
      else if c = 92 then
        (case cs of
           [] \<Rightarrow> flush current result
         | n # cs \<Rightarrow> sh_split_loop cs in_single in_double (current @ [n]) result)
      else if is_whitespace c \<and> \<not> in_single \<and> \<not> in_double then
        sh_split_loop cs in_single in_double [] (flush current result)
      else sh_split_loop cs in_single in_double (current @ [c]) result)"

definition sh_split_simple :: "rstr \<Rightarrow> rstr list" where
  "sh_split_simple s = sh_split_loop s False False [] []"

text \<open>The first command that is not a setup command once its wrappers are peeled, with the number of words peeled.\<close>

fun first_primary :: "plain_command list \<Rightarrow> (plain_command \<times> nat) option" where
  "first_primary [] = None"
| "first_primary (c # cs) =
     (let peeled = unwrap_wrappers (pc_words c)
      in if peeled = [] \<or> is_setup_command peeled then first_primary cs
         else Some (c, length (pc_words c) - length peeled))"

text \<open>The span of a command consists of node boundaries, at which the script can be sliced.\<close>

definition primary_command_from_script :: "shell_grammar \<Rightarrow> rstr \<Rightarrow> highlights option" where
  "primary_command_from_script parse script =
     (case all_commands_from_script parse script of
        None \<Rightarrow> None
      | Some commands \<Rightarrow>
          (case first_primary commands of
             None \<Rightarrow> None
           | Some (c, peeled_off) \<Rightarrow>
               (case (split_at (span_start c) script, split_at (span_end c) script) of
                  (Some (prefix_str, _), Some (_, suffix_str)) \<Rightarrow>
                    Some \<lparr>hl_prefix = sh_split_simple prefix_str @ take peeled_off (pc_words c),
                          highlighted_words = drop peeled_off (pc_words c), hl_suffix = sh_split_simple suffix_str\<rparr>
                | _ \<Rightarrow> None)))"

section \<open>Soft breaks\<close>

definition PAYLOAD_NODE_KINDS :: "rstr list" where
  "PAYLOAD_NODE_KINDS = map lit
     [''heredoc_body'', ''simple_heredoc_body'', ''heredoc_content'', ''heredoc_end'', ''string'', ''raw_string'',
      ''string_content'', ''ansi_c_string'', ''translated_string'', ''comment'']"

definition is_soft_break_operator_kind :: "rstr \<Rightarrow> bool" where
  "is_soft_break_operator_kind kind \<longleftrightarrow> kind \<in> {lit ''&&'', lit ''||'', lit ''|'', lit '';''}"

definition is_payload_node_kind :: "rstr \<Rightarrow> bool" where
  "is_payload_node_kind kind \<longleftrightarrow> kind \<in> set PAYLOAD_NODE_KINDS"

text \<open>Both walks visit a node, then its children from the left unless the node is opaque.\<close>

function collect_nodes :: "(ts_node \<Rightarrow> 'a list) \<Rightarrow> (ts_node \<Rightarrow> bool) \<Rightarrow> ts_node list \<Rightarrow> 'a list" where
  "collect_nodes visit opaque stack =
     (case stack of
        [] \<Rightarrow> []
      | node # rest \<Rightarrow> visit node @ collect_nodes visit opaque ((if opaque node then [] else node_children node) @ rest))"
  by pat_completeness auto
termination
proof (relation "measure (\<lambda>(v, opq, stack). sum_list (map size stack))", goal_cases)
  case (2 v opq stack node rest)
  have "sum_list (map size (node_children node)) < size node" by (cases node) (simp add: size_list_conv_sum_list)
  moreover have "0 < size node" by (cases node) simp
  ultimately show ?case by (simp add: 2)
qed simp

declare collect_nodes.simps [simp del]

definition soft_break_at :: "rstr \<Rightarrow> ts_node \<Rightarrow> nat list" where
  "soft_break_at script n =
     (if \<not> is_payload_node_kind (node_kind n) \<and> is_soft_break_operator_kind (node_kind n) \<and>
         0 < end_byte n \<and> end_byte n \<le> byte_len script \<and> is_char_boundary script (end_byte n)
      then [end_byte n] else [])"

definition soft_break_offsets_after_operators :: "shell_grammar \<Rightarrow> rstr \<Rightarrow> nat list" where
  "soft_break_offsets_after_operators parse script =
     (case parse script of
        None \<Rightarrow> []
      | Some tree \<Rightarrow>
          if tree_has_error tree then []
          else remdups_adj (sort (collect_nodes (soft_break_at script) (\<lambda>n. is_payload_node_kind (node_kind n)) [root_node tree])))"

definition is_heredoc_payload :: "ts_node \<Rightarrow> bool" where
  "is_heredoc_payload n \<longleftrightarrow> node_kind n \<in> {lit ''heredoc_body'', lit ''simple_heredoc_body'', lit ''heredoc_content''}"

definition heredoc_range_at :: "rstr \<Rightarrow> ts_node \<Rightarrow> (nat \<times> nat) list" where
  "heredoc_range_at script n =
     (if is_heredoc_payload n \<and> start_byte n < end_byte n \<and> end_byte n \<le> byte_len script
      then [(start_byte n, end_byte n)] else [])"

text \<open>Tuples are sorted lexicographically: by the end first, then stably by the start.\<close>

definition heredoc_payload_byte_ranges :: "shell_grammar \<Rightarrow> rstr \<Rightarrow> (nat \<times> nat) list" where
  "heredoc_payload_byte_ranges parse script =
     (case parse script of
        None \<Rightarrow> []
      | Some tree \<Rightarrow>
          if tree_has_error tree then []
          else remdups_adj (sort_key fst (sort_key snd (collect_nodes (heredoc_range_at script) is_heredoc_payload [root_node tree]))))"

definition range_fully_inside :: "nat \<Rightarrow> nat \<Rightarrow> (nat \<times> nat) list \<Rightarrow> bool" where
  "range_fully_inside s e ranges \<longleftrightarrow> \<not> e < s \<and> list_ex (\<lambda>(rs, re). rs \<le> s \<and> e \<le> re) ranges"

text \<open>
  Cutting a line at offsets; \<open>None\<close> where slicing would panic.  The remaining text starts at byte \<open>start\<close> of the line.
\<close>

fun cut_line :: "rstr \<Rightarrow> nat \<Rightarrow> nat list \<Rightarrow> rstr list option" where
  "cut_line remaining from [] = Some (if remaining \<noteq> [] then [remaining] else [])"
| "cut_line remaining from (b # bs) =
     (if b > from then
        (case split_at (b - from) remaining of
           None \<Rightarrow> None
         | Some (piece, rest) \<Rightarrow> map_option (Cons piece) (cut_line rest b bs))
      else cut_line remaining from bs)"

definition relative_breaks :: "rstr \<Rightarrow> nat \<Rightarrow> nat list \<Rightarrow> nat list" where
  "relative_breaks line line_start breaks =
     remdups_adj (filter (is_char_boundary line)
       (map (\<lambda>b. b - line_start) (filter (\<lambda>b. line_start < b \<and> b < line_start + byte_len line) breaks)))"

definition split_physical_line_at_soft_breaks :: "rstr \<Rightarrow> nat \<Rightarrow> nat list \<Rightarrow> rstr list option" where
  "split_physical_line_at_soft_breaks line line_start breaks =
     (let rel = relative_breaks line line_start breaks
      in if rel = [] then Some [line]
         else map_option (\<lambda>chunks. if chunks = [] then [line] else chunks) (cut_line line 0 rel))"

section \<open>Breaking loses nothing\<close>

lemma split_at_rest:
  "split_at s line = Some (a, r) \<Longrightarrow> split_at b line \<noteq> None \<Longrightarrow> s \<le> b \<Longrightarrow> split_at (b - s) r \<noteq> None"
proof (induction s line arbitrary: a b rule: split_at.induct)
  case (2 n c s)
  show ?case
  proof (cases "n = 0")
    case False
    then obtain a' where s: "split_at (n - len_utf8 c) s = Some (a', r)" and n: "\<not> n < len_utf8 c"
      using 2(2) by (auto split: if_splits)
    have "b \<noteq> 0" "\<not> b < len_utf8 c" using 2(4) False n by auto
    then have "split_at (b - len_utf8 c) s \<noteq> None" using 2(3) by (auto split: if_splits)
    from 2(1) [OF False n s this] 2(4) n show ?thesis by (simp add: diff_diff_left [symmetric] diff_commute)
  qed (use 2 in \<open>auto split: if_splits\<close>)
qed (auto split: if_splits)

lemma cut_line_whole:
  assumes "split_at from line = Some (a, remaining)" and "\<forall>b\<in>set bs. is_char_boundary line b"
  shows "\<exists>ps. cut_line remaining from bs = Some ps \<and> concat ps = remaining \<and> (remaining \<noteq> [] \<longrightarrow> ps \<noteq> [])"
  using assms
proof (induction bs arbitrary: a remaining "from")
  case (Cons b bs)
  show ?case
  proof (cases "b > from")
    case True
    then obtain piece rest where p: "split_at (b - from) remaining = Some (piece, rest)"
      using split_at_rest [OF Cons.prems(1), of b] Cons.prems(2) by (auto simp: is_char_boundary_def)
    have whole: "line = a @ remaining" "byte_len a = from" "remaining = piece @ rest" "byte_len piece = b - from"
      using split_at_parts [OF Cons.prems(1)] split_at_parts [OF p] by auto
    obtain x y where s: "split_at b line = Some (x, y)" using Cons.prems(2) by (auto simp: is_char_boundary_def)
    have "y = rest" using split_at_unique [OF s, of "a @ piece" rest] whole True by auto
    with s have "split_at b line = Some (x, rest)" by simp
    from Cons.IH [OF this] Cons.prems(2) obtain ps where "cut_line rest b bs = Some ps" "concat ps = rest" by auto
    then show ?thesis using True p whole by auto
  qed (use Cons in auto)
qed auto

text \<open>
  The chunks of a line, put together, are the line: breaking never panics and never drops or repeats a character.
\<close>

lemma soft_breaks_lose_nothing:
  "\<exists>chunks. split_physical_line_at_soft_breaks line line_start breaks = Some chunks \<and> concat chunks = line"
proof (cases "relative_breaks line line_start breaks = []")
  case False
  have "split_at 0 line = Some ([], line)" by (cases line) simp_all
  from cut_line_whole [OF this, of "relative_breaks line line_start breaks"]
  obtain ps where "cut_line line 0 (relative_breaks line line_start breaks) = Some ps" "concat ps = line"
    by (auto simp: relative_breaks_def)
  then show ?thesis using False by (auto simp: split_physical_line_at_soft_breaks_def)
qed (simp add: split_physical_line_at_soft_breaks_def)

end
