(* ===== verification/Bash_Safety.thy ===== *)
theory Bash_Safety
  imports Exec_Risk Shell_Operands Bash_Display
begin

text \<open>
  Static findings about a shell command (\<open>auto_mode/security_findings.rs\<close>, the environment checks of \<open>auto_mode/mod.rs\<close>) and
  the lists of safe, dangerous and special commands of \<open>manager/mod.rs\<close>, all under
  \<open>packages/tools/xai-grok-workspace/src/permission\<close>.
\<close>

section \<open>Findings\<close>

datatype security_finding =
    FailClosedPolicy | UnparseableShell | OpaqueShell | ExecOrAmbientGit | EnvInjection | UnvettedEnv | FileWrite
  | DangerousCommand | SpecialExecSurface

definition ALL_FINDINGS :: "security_finding list" where
  "ALL_FINDINGS = [FailClosedPolicy, UnparseableShell, OpaqueShell, ExecOrAmbientGit, EnvInjection, UnvettedEnv, FileWrite,
     DangerousCommand, SpecialExecSurface]"

fun finding_token :: "security_finding \<Rightarrow> rstr" where
  "finding_token FailClosedPolicy = lit ''fail_closed_policy''"
| "finding_token UnparseableShell = lit ''unparseable_shell''"
| "finding_token OpaqueShell = lit ''opaque_shell''"
| "finding_token ExecOrAmbientGit = lit ''exec_or_ambient_git''"
| "finding_token EnvInjection = lit ''env_injection''"
| "finding_token UnvettedEnv = lit ''unvetted_env''"
| "finding_token FileWrite = lit ''file_write''"
| "finding_token DangerousCommand = lit ''dangerous_command''"
| "finding_token SpecialExecSurface = lit ''special_exec_surface''"

fun finding_description :: "security_finding \<Rightarrow> rstr" where
  "finding_description FailClosedPolicy = lit ''permission policy could not determine whether a rule applies''"
| "finding_description UnparseableShell = lit ''shell structure could not be fully parsed''"
| "finding_description OpaqueShell = lit ''invokes a nested or dynamically supplied shell command''"
| "finding_description ExecOrAmbientGit = lit ''may run code via an execution callback or ambient Git configuration''"
| "finding_description EnvInjection = lit ''sets environment variables that can change which code executes''"
| "finding_description UnvettedEnv = lit ''sets environment variables outside the known-safe set''"
| "finding_description FileWrite = lit ''writes to a real file rather than a sink''"
| "finding_description DangerousCommand = lit ''a destructive or high-impact command''"
| "finding_description SpecialExecSurface =
     lit ''options or tools that can write arbitrary output, execute code, override config/identity, or disclose the process environment''"

fun is_grant_floor :: "security_finding \<Rightarrow> bool" where
  "is_grant_floor f \<longleftrightarrow> f \<in> {FileWrite, UnvettedEnv, EnvInjection, OpaqueShell, ExecOrAmbientGit, SpecialExecSurface}"

type_synonym assessment = "security_finding set"

definition constrains_broad_grant :: "assessment \<Rightarrow> bool" where
  "constrains_broad_grant a \<longleftrightarrow> (\<exists>f\<in>a. is_grant_floor f)"

definition is_file_write_only :: "assessment \<Rightarrow> bool" where
  "is_file_write_only a \<longleftrightarrow> a = {FileWrite}"

definition assessment_tokens :: "assessment \<Rightarrow> rstr list" where
  "assessment_tokens a = map finding_token (filter (\<lambda>f. f \<in> a) ALL_FINDINGS)"

definition render_glossary :: "assessment \<Rightarrow> rstr" where
  "render_glossary a =
     join [10] (map (\<lambda>f. lit ''- '' @ finding_token f @ lit '': '' @ finding_description f) (filter (\<lambda>f. f \<in> a) ALL_FINDINGS))"

section \<open>Environment\<close>

datatype env_risk = RiskSafe | RiskUnvetted | RiskInjection

fun risk_rank :: "env_risk \<Rightarrow> nat" where
  "risk_rank RiskSafe = 0"
| "risk_rank RiskUnvetted = 1"
| "risk_rank RiskInjection = 2"

lemma risk_rank_inject: "risk_rank a = risk_rank b \<Longrightarrow> a = b"
  by (cases a; cases b) simp_all

instantiation env_risk :: linorder
begin

definition less_eq_env_risk :: "env_risk \<Rightarrow> env_risk \<Rightarrow> bool" where
  "less_eq_env_risk a b \<longleftrightarrow> risk_rank a \<le> risk_rank b"

definition less_env_risk :: "env_risk \<Rightarrow> env_risk \<Rightarrow> bool" where
  "less_env_risk a b \<longleftrightarrow> risk_rank a < risk_rank b"

instance
  by standard (auto simp: less_eq_env_risk_def less_env_risk_def intro: risk_rank_inject)

end

definition SAFE_ENV_KEYS :: "rstr list" where
  "SAFE_ENV_KEYS = map lit
     [''CARGO_TERM_COLOR'', ''CARGO_TERM_PROGRESS_WHEN'', ''RUST_LOG'', ''RUST_LOG_STYLE'', ''RUST_BACKTRACE'', ''RUST_TEST_THREADS'',
      ''RUST_MIN_STACK'', ''NO_COLOR'', ''CLICOLOR'', ''CLICOLOR_FORCE'', ''FORCE_COLOR'', ''COLORTERM'']"

definition INJECTION_ENV_KEYS :: "rstr list" where
  "INJECTION_ENV_KEYS = map lit
     [''LD_PRELOAD'', ''LD_AUDIT'', ''BASH_ENV'', ''ENV'', ''IFS'', ''PATH'', ''GIT_EXTERNAL_DIFF'', ''GIT_PROXY_COMMAND'',
      ''PROMPT_COMMAND'']"

definition INJECTION_ENV_KEY_PREFIXES :: "rstr list" where
  "INJECTION_ENV_KEY_PREFIXES = map lit [''DYLD_'', ''GIT_CONFIG'']"

definition env_key_risk :: "rstr \<Rightarrow> env_risk" where
  "env_key_risk key =
     (if key \<in> set SAFE_ENV_KEYS then RiskSafe
      else if key \<in> set INJECTION_ENV_KEYS \<or> list_ex (starts_with key) INJECTION_ENV_KEY_PREFIXES then RiskInjection
      else RiskUnvetted)"

text \<open>The arguments of one \<open>env\<close>; \<open>Inl\<close> is an early return.\<close>

fun env_args_risk :: "rstr list \<Rightarrow> bool \<Rightarrow> env_risk \<Rightarrow> env_risk + env_risk" where
  "env_args_risk [] options_done risk = Inr risk"
| "env_args_risk (arg # args) options_done risk =
     (if arg = lit ''--'' then env_args_risk args True risk
      else if \<not> options_done \<and> starts_with arg (lit ''-'') then Inl RiskInjection
      else if ch CHR ''='' \<in> set arg then env_args_risk args options_done (max risk (env_key_risk (before_equals arg)))
      else Inr risk)"

fun command_env_loop :: "nat \<Rightarrow> rstr list \<Rightarrow> env_risk \<Rightarrow> env_risk" where
  "command_env_loop n current risk =
     (if n = 0 then risk
      else case (if head_is current ''env'' then env_args_risk (tl current) False risk else Inr risk) of
          Inl r \<Rightarrow> r
        | Inr risk \<Rightarrow>
            (case strip_wrapper_command current of Some inner \<Rightarrow> command_env_loop (n - 1) inner risk | None \<Rightarrow> risk))"

declare command_env_loop.simps [simp del]

definition command_env_risk :: "rstr list \<Rightarrow> env_risk" where
  "command_env_risk ws = command_env_loop 8 ws RiskSafe"

definition assignment_key :: "ts_node \<Rightarrow> rstr \<Rightarrow> rstr" where
  "assignment_key n src =
     (case List.map_filter (\<lambda>c. if kind_is c ''variable_name'' then utf8_text c src else None) (node_children n) of
        t # _ \<Rightarrow> t
      | [] \<Rightarrow> (case utf8_text n src of Some t \<Rightarrow> before_equals t | None \<Rightarrow> []))"

definition script_env_risk :: "ts_node \<Rightarrow> rstr \<Rightarrow> plain_command list \<Rightarrow> env_risk" where
  "script_env_risk root src cmds =
     (let inline = foldl (\<lambda>risk n. if kind_is n ''variable_assignment'' then max risk (env_key_risk (assignment_key n src)) else risk)
           RiskSafe (subnodes root)
      in foldl (\<lambda>risk c. max risk (command_env_risk (pc_words c))) inline cmds)"

definition env_risk_finding :: "env_risk \<Rightarrow> security_finding option" where
  "env_risk_finding r = (case r of RiskInjection \<Rightarrow> Some EnvInjection | RiskUnvetted \<Rightarrow> Some UnvettedEnv | RiskSafe \<Rightarrow> None)"

section \<open>Special surfaces\<close>

definition KUBECTL_UNSAFE_FLAGS :: "rstr list" where
  "KUBECTL_UNSAFE_FLAGS = map lit
     [''--kubeconfig'', ''--context'', ''--cluster'', ''--server'', ''-s'', ''--token'', ''--user'', ''--as'', ''--as-group'', ''--as-uid'',
      ''--as-user-extra'', ''--username'', ''--password'', ''--client-certificate'', ''--client-key'', ''--certificate-authority'']"

definition command_head_is :: "rstr list \<Rightarrow> string \<Rightarrow> bool" where
  "command_head_is ws name \<longleftrightarrow> normalized_command_head ws = Some (lit name)"

definition rg_has_pre_flag :: "rstr list \<Rightarrow> bool" where
  "rg_has_pre_flag ws \<longleftrightarrow> command_head_is ws ''rg'' \<and> list_ex (\<lambda>w. w = lit ''--pre'' \<or> starts_with w (lit ''--pre='')) ws"

definition kubectl_has_unsafe_flag :: "rstr list \<Rightarrow> bool" where
  "kubectl_has_unsafe_flag ws \<longleftrightarrow>
     command_head_is ws ''kubectl'' \<and> list_ex (\<lambda>w. before_equals w \<in> set KUBECTL_UNSAFE_FLAGS) (drop 1 ws)"

definition PS_VALUE_FLAGS :: "rstr list" where
  "PS_VALUE_FLAGS = map lit
     [''-o'', ''-O'', ''--format'', ''--sort'', ''-p'', ''-q'', ''-t'', ''-u'', ''-U'', ''-g'', ''-G'', ''-C'', ''-s'', ''--pid'', ''--ppid'',
      ''--sid'', ''--tty'', ''--user'', ''--group'', ''--cols'', ''--columns'', ''--width'', ''o'', ''O'']"

definition ps_cluster_dumps :: "rstr \<Rightarrow> bool" where
  "ps_cluster_dumps s \<longleftrightarrow>
     ch CHR ''E'' \<in> set s \<or>
     (ch CHR ''e'' \<in> set s \<and>
      (\<not> starts_with s (lit ''-'') \<or>
       (starts_with s (lit ''-'') \<and> \<not> starts_with s (lit ''--'') \<and> (ch CHR ''a'' \<in> set s \<or> ch CHR ''x'' \<in> set s))))"

definition ps_takes_format :: "rstr \<Rightarrow> bool" where
  "ps_takes_format s \<longleftrightarrow>
     starts_with s (lit ''-'') \<and> \<not> starts_with s (lit ''--'') \<and> (ends_with s (lit ''o'') \<or> ends_with s (lit ''O''))"

fun ps_loop :: "rstr list \<Rightarrow> bool \<Rightarrow> bool" where
  "ps_loop [] skip_next = False"
| "ps_loop (s # rest) skip_next =
     (if skip_next then ps_loop rest False
      else if starts_with s (lit ''--format='') \<or> starts_with s (lit ''--sort='') then ps_loop rest False
      else if s \<in> set PS_VALUE_FLAGS then ps_loop rest True
      else if starts_with s (lit ''-o'') \<or> starts_with s (lit ''-O'') then ps_loop rest False
      else if ps_cluster_dumps s then True
      else ps_loop rest (ps_takes_format s))"

definition ps_dumps_environment :: "rstr list \<Rightarrow> bool" where
  "ps_dumps_environment ws \<longleftrightarrow> command_head_is ws ''ps'' \<and> ps_loop (drop 1 ws) False"

definition special_exec_surface :: "rstr list \<Rightarrow> bool" where
  "special_exec_surface ws \<longleftrightarrow>
     kubectl_has_unsafe_flag ws \<or> rg_has_pre_flag ws \<or> ps_dumps_environment ws \<or> git_words_have_unsafe_query_option ws"

section \<open>Safe and dangerous commands\<close>

definition is_safe_git_query_prefix :: "rstr \<Rightarrow> bool" where
  "is_safe_git_query_prefix cmd =
     (case strip_prefix cmd (lit ''git '') of
        Some rest \<Rightarrow> list_ex (matches_command_prefix rest) SAFE_GIT_SUBCOMMANDS
      | None \<Rightarrow> False)"

definition SAFE_PREFIXES :: "rstr list" where
  "SAFE_PREFIXES = map lit
     [''ls'', ''cat'', ''pwd'', ''date'', ''whoami'', ''hostname'', ''uptime'', ''grep'', ''rg'', ''kubectl get'', ''kubectl logs'',
      ''kubectl describe'', ''ps'', ''bin/explorer ls'', ''head'', ''tail'', ''wc'', ''sort'', ''uniq'', ''tr'', ''cut'', ''echo'', ''printf'']"

definition is_safe_command_words_str :: "rstr \<Rightarrow> bool" where
  "is_safe_command_words_str cmd \<longleftrightarrow> list_ex (matches_command_prefix cmd) SAFE_PREFIXES \<or> is_safe_git_query_prefix cmd"

definition is_safe_command_words :: "rstr list \<Rightarrow> bool" where
  "is_safe_command_words ws =
     (if ws = [] \<or> rg_has_pre_flag ws \<or> kubectl_has_unsafe_flag ws \<or> ps_dumps_environment ws then False
      else if head_is_git ws then git_words_are_read_only_query ws
      else is_safe_command_words_str (join [32] ws))"

definition ALWAYS_SAFE_COMMANDS :: "rstr list" where
  "ALWAYS_SAFE_COMMANDS = map lit
     [''ls'', ''cat'', ''pwd'', ''date'', ''whoami'', ''hostname'', ''uptime'', ''ps'', ''grep'', ''rg'', ''kubectl get'', ''kubectl logs'',
      ''kubectl describe'', ''bin/explorer ls'']"

definition is_safe_creation_command :: "rstr list \<Rightarrow> bool" where
  "is_safe_creation_command ws = (case ws of w # _ \<Rightarrow> is_creation_program w | [] \<Rightarrow> False)"

definition is_always_safe_command_words :: "rstr list \<Rightarrow> bool" where
  "is_always_safe_command_words ws =
     (if ws = [] \<or> rg_has_pre_flag ws \<or> kubectl_has_unsafe_flag ws \<or> ps_dumps_environment ws then False
      else if head_is_git ws then git_words_are_read_only_query ws
      else list_ex (matches_command_prefix (join [32] ws)) ALWAYS_SAFE_COMMANDS)"

definition DANGEROUS_PREFIXES :: "rstr list" where
  "DANGEROUS_PREFIXES = map lit [''rm'', ''chmod'', ''chown'', ''chgrp'', ''chattr'', ''pkill'', ''kill'', ''killall'', ''git push'']"

definition is_dangerous_command_words :: "rstr list \<Rightarrow> bool" where
  "is_dangerous_command_words ws =
     (case normalized_command_head ws of
        None \<Rightarrow> False
      | Some head \<Rightarrow>
          list_ex (matches_command_prefix (if length ws = 1 then head else head @ [32] @ join [32] (drop 1 ws))) DANGEROUS_PREFIXES)"

definition always_allow_scope_pinned :: "rstr list \<Rightarrow> bool" where
  "always_allow_scope_pinned ws \<longleftrightarrow> is_dangerous_command_words ws \<or> head_is_exec_vehicle ws \<or> command_head_is ws ''sed''"

definition gh_always_allow_scope :: "rstr list \<Rightarrow> nat option" where
  "gh_always_allow_scope ws =
     (if \<not> command_head_is ws ''gh'' then None
      else Some (case drop 1 ws of
          grp # verb # _ \<Rightarrow> if \<not> starts_with grp (lit ''-'') \<and> \<not> starts_with verb (lit ''-'') then 3 else length ws
        | _ \<Rightarrow> length ws))"

text \<open>For nonempty words, as the callers have them.\<close>

definition base_scope :: "rstr list \<Rightarrow> nat" where
  "base_scope ws =
     (if is_safe_command_words ws \<and> is_safe_command_words_str (hd ws) then 1
      else if is_safe_command_words ws \<and> length ws \<ge> 2 \<and> is_safe_command_words_str (join [32] (take 2 ws)) then 2
      else min (length ws) 2 + length (takeWhile (\<lambda>w. starts_with w (lit ''-'')) (drop 2 ws)))"

definition default_always_allow_scope :: "rstr list \<Rightarrow> nat" where
  "default_always_allow_scope ws =
     (if ws = [] then 0
      else if always_allow_scope_pinned ws then length ws
      else case gh_always_allow_scope ws of Some n \<Rightarrow> n | None \<Rightarrow> base_scope ws)"

definition default_always_deny_scope :: "rstr list \<Rightarrow> nat" where
  "default_always_deny_scope ws = (if ws = [] then 0 else base_scope ws)"

definition minimum_always_allow_scope :: "rstr list \<Rightarrow> nat" where
  "minimum_always_allow_scope ws =
     (if always_allow_scope_pinned ws then length ws
      else case gh_always_allow_scope ws of Some n \<Rightarrow> n | None \<Rightarrow> 1)"

lemma scopes_bounded:
  assumes "ws \<noteq> []"
  shows "1 \<le> minimum_always_allow_scope ws" "minimum_always_allow_scope ws \<le> default_always_allow_scope ws"
    "default_always_allow_scope ws \<le> length ws"
proof -
  have "gh_always_allow_scope ws = Some n \<Longrightarrow> 1 \<le> n \<and> n \<le> length ws" for n
    using assms by (cases ws) (auto simp: gh_always_allow_scope_def split: if_splits list.splits)
  moreover have "1 \<le> base_scope ws" "base_scope ws \<le> length ws"
    using assms length_takeWhile_le [of "\<lambda>w. starts_with w (lit ''-'')" "drop 2 ws"]
    by (auto simp: base_scope_def Suc_le_eq)
  ultimately show "1 \<le> minimum_always_allow_scope ws" "minimum_always_allow_scope ws \<le> default_always_allow_scope ws"
    "default_always_allow_scope ws \<le> length ws"
    using assms by (auto simp: minimum_always_allow_scope_def default_always_allow_scope_def Suc_le_eq split: option.splits)
qed

end
