(* ===== verification/Permission_Store.thy ===== *)
theory Permission_Store
  imports Permission_Rules Lexical_Paths
begin

text \<open>
  Remembered permissions and their files (\<open>packages/tools/xai-grok-workspace/src/permission/state.rs\<close>).

  A \<open>HashSet\<close> is a list without duplicates whose order stands for the unspecified order of iteration.  The files are a function
  from paths to entries with a modification time; encoding and decoding TOML, and whether a write fails, are the record
  \<open>store_env\<close>.  Discovery of the repository root and of the store directory is the caller's; the functions here start from the
  resolved directories (\<open>StoreDirs\<close>).
\<close>

section \<open>State\<close>

definition VALIDATED_MCP_SERVER_GRANTS_VERSION :: int where "VALIDATED_MCP_SERVER_GRANTS_VERSION = 1"

record permission_state =
  state_edit_policy :: edit_policy
  allow_bash_execute :: bool
  allowed_bash_commands :: "rstr list"
  disallowed_bash_commands :: "rstr list"
  allowed_bash_globs :: "rstr list"
  allowed_web_fetch_domains :: "rstr list"
  allowed_mcp_tools :: "rstr list"
  allowed_mcp_servers :: "rstr list"
  disallowed_mcp_tools :: "rstr list"
  disallowed_web_fetch_domains :: "rstr list"
  validated_mcp_server_grants_version :: int

definition legacy_mcp_server_grants_version :: int where "legacy_mcp_server_grants_version = 0"

text \<open>The argument is the value of the marker if it is an integer.\<close>

definition deserialize_mcp_server_grants_version :: "int option \<Rightarrow> int" where
  "deserialize_mcp_server_grants_version v = (case v of Some n \<Rightarrow> if n \<ge> 0 then n else 0 | None \<Rightarrow> 0)"

definition default_state :: permission_state where
  "default_state =
     \<lparr>state_edit_policy = EditAsk, allow_bash_execute = False, allowed_bash_commands = [], disallowed_bash_commands = [],
      allowed_bash_globs = [], allowed_web_fetch_domains = [], allowed_mcp_tools = [], allowed_mcp_servers = [],
      disallowed_mcp_tools = [], disallowed_web_fetch_domains = [],
      validated_mcp_server_grants_version = VALIDATED_MCP_SERVER_GRANTS_VERSION\<rparr>"

definition hash_insert :: "'a \<Rightarrow> 'a list \<Rightarrow> 'a list" where
  "hash_insert x xs = (if x \<in> set xs then xs else xs @ [x])"

definition hash_extend :: "'a list \<Rightarrow> 'a list \<Rightarrow> 'a list" where
  "hash_extend ys xs = fold hash_insert ys xs"

definition merge_grants_from :: "permission_state \<Rightarrow> permission_state \<Rightarrow> permission_state" where
  "merge_grants_from other self =
     self\<lparr>allow_bash_execute := allow_bash_execute self \<or> allow_bash_execute other,
          allowed_bash_commands := hash_extend (allowed_bash_commands other) (allowed_bash_commands self),
          disallowed_bash_commands := hash_extend (disallowed_bash_commands other) (disallowed_bash_commands self),
          allowed_bash_globs := hash_extend (allowed_bash_globs other) (allowed_bash_globs self),
          allowed_web_fetch_domains := hash_extend (allowed_web_fetch_domains other) (allowed_web_fetch_domains self),
          allowed_mcp_tools := hash_extend (allowed_mcp_tools other) (allowed_mcp_tools self),
          allowed_mcp_servers := hash_extend (allowed_mcp_servers other) (allowed_mcp_servers self),
          disallowed_mcp_tools := hash_extend (disallowed_mcp_tools other) (disallowed_mcp_tools self),
          disallowed_web_fetch_domains := hash_extend (disallowed_web_fetch_domains other) (disallowed_web_fetch_domains self)\<rparr>"

section \<open>Files\<close>

text \<open>An entry that cannot be read may still answer \<open>metadata\<close>; times and lengths are its signature.\<close>

datatype store_file = NoFile | UnreadableFile "(nat \<times> nat) option" | StoreFile rstr nat

type_synonym store_files = "rstr \<Rightarrow> store_file"

record store_env =
  to_toml :: "permission_state \<Rightarrow> rstr option"
  from_toml :: "rstr \<Rightarrow> permission_state option"
  write_fails :: "rstr \<Rightarrow> bool"
  remove_fails :: "rstr \<Rightarrow> bool"

record store_dirs =
  store_dir :: rstr
  legacy_dir :: "rstr option"

definition legacy_state_dir :: "(rstr \<Rightarrow> rstr) \<Rightarrow> rstr \<Rightarrow> rstr \<Rightarrow> rstr option" where
  "legacy_state_dir sessions_cwd_dir cwd dir =
     (let legacy = sessions_cwd_dir cwd in if legacy \<noteq> dir then Some legacy else None)"

definition sanitize_client_id :: "rstr \<Rightarrow> rstr" where
  "sanitize_client_id i = map (\<lambda>c. if is_ascii_digit c \<or> is_ascii_alphabetic c \<or> c = ch CHR ''-'' \<or> c = ch CHR ''_'' then c else ch CHR ''_'') i"

definition state_file_path :: "rstr \<Rightarrow> rstr option \<Rightarrow> rstr" where
  "state_file_path dir client =
     (case client of
        Some i \<Rightarrow> path_join dir (lit ''permission_'' @ sanitize_client_id i @ lit ''.toml'')
      | None \<Rightarrow> path_join dir (lit ''permission.toml''))"

definition persist_state_to_path :: "store_env \<Rightarrow> nat \<Rightarrow> rstr \<Rightarrow> permission_state \<Rightarrow> store_files \<Rightarrow> store_files" where
  "persist_state_to_path E now path st fs =
     (case to_toml E st of
        None \<Rightarrow> fs
      | Some contents \<Rightarrow> if write_fails E path then fs else fs(path := StoreFile contents now))"

text \<open>What reading a file gives: its state, and whether it is of the old format and has to be written back.\<close>

definition read_store :: "store_env \<Rightarrow> rstr \<Rightarrow> store_files \<Rightarrow> (permission_state \<times> bool) option" where
  "read_store E path fs =
     (case fs path of
        StoreFile s _ \<Rightarrow>
          (let st = (case from_toml E s of Some st \<Rightarrow> st | None \<Rightarrow> default_state)
           in if validated_mcp_server_grants_version st < VALIDATED_MCP_SERVER_GRANTS_VERSION then
                Some (st\<lparr>allowed_mcp_servers := [], validated_mcp_server_grants_version := VALIDATED_MCP_SERVER_GRANTS_VERSION\<rparr>, True)
              else Some (st, False))
      | _ \<Rightarrow> None)"

definition try_load_state :: "store_env \<Rightarrow> nat \<Rightarrow> rstr \<Rightarrow> store_files \<Rightarrow> store_files \<times> permission_state option" where
  "try_load_state E now path fs =
     (case read_store E path fs of
        Some (st, stale) \<Rightarrow> (if stale then persist_state_to_path E now path st fs else fs, Some st)
      | None \<Rightarrow> (fs, None))"

definition load_state_from_dir :: "store_env \<Rightarrow> nat \<Rightarrow> rstr \<Rightarrow> rstr option \<Rightarrow> store_files \<Rightarrow> store_files \<times> permission_state" where
  "load_state_from_dir E now dir client fs =
     (case (case client of Some _ \<Rightarrow> try_load_state E now (state_file_path dir client) fs | None \<Rightarrow> (fs, None)) of
        (fs, Some st) \<Rightarrow> (fs, st)
      | (fs, None) \<Rightarrow>
          (case try_load_state E now (state_file_path dir None) fs of
             (fs, Some st) \<Rightarrow> (fs, st)
           | (fs, None) \<Rightarrow> (fs, default_state)))"

definition state_dir_has_store :: "rstr \<Rightarrow> rstr option \<Rightarrow> store_files \<Rightarrow> bool" where
  "state_dir_has_store dir client fs \<longleftrightarrow>
     (client \<noteq> None \<and> fs (state_file_path dir client) \<noteq> NoFile) \<or> fs (state_file_path dir None) \<noteq> NoFile"

definition load_state_with_fallback :: "store_env \<Rightarrow> nat \<Rightarrow> store_dirs \<Rightarrow> rstr option \<Rightarrow> store_files \<Rightarrow> store_files \<times> permission_state" where
  "load_state_with_fallback E now dirs client fs =
     (case legacy_dir dirs of
        Some legacy \<Rightarrow>
          if \<not> state_dir_has_store (store_dir dirs) client fs then load_state_from_dir E now legacy client fs
          else load_state_from_dir E now (store_dir dirs) client fs
      | None \<Rightarrow> load_state_from_dir E now (store_dir dirs) client fs)"

definition persist_state_to_dir :: "store_env \<Rightarrow> nat \<Rightarrow> rstr \<Rightarrow> permission_state \<Rightarrow> rstr option \<Rightarrow> store_files \<Rightarrow> store_files" where
  "persist_state_to_dir E now dir st client fs = persist_state_to_path E now (state_file_path dir client) st fs"

definition persist_state_merging_to_dir :: "store_env \<Rightarrow> nat \<Rightarrow> rstr \<Rightarrow> permission_state \<Rightarrow> rstr option \<Rightarrow> store_files \<Rightarrow> store_files" where
  "persist_state_merging_to_dir E now dir st client fs =
     (case try_load_state E now (state_file_path dir client) fs of
        (fs, Some on_disk) \<Rightarrow> persist_state_to_dir E now dir (merge_grants_from on_disk st) client fs
      | (fs, None) \<Rightarrow> persist_state_to_dir E now dir st client fs)"

definition persist_state :: "store_env \<Rightarrow> nat \<Rightarrow> store_dirs \<Rightarrow> permission_state \<Rightarrow> rstr option \<Rightarrow> store_files \<Rightarrow> store_files" where
  "persist_state E now dirs st client fs = persist_state_merging_to_dir E now (store_dir dirs) st client fs"

definition replace_state_on_disk :: "store_env \<Rightarrow> nat \<Rightarrow> store_dirs \<Rightarrow> permission_state \<Rightarrow> rstr option \<Rightarrow> store_files \<Rightarrow> store_files" where
  "replace_state_on_disk E now dirs st client fs = persist_state_to_dir E now (store_dir dirs) st client fs"

subsection \<open>The cached store\<close>

record cached_state_store =
  cached_dirs :: store_dirs
  cached_client :: "rstr option"
  last_sig :: "(nat \<times> nat) option"

fun file_sig :: "store_file \<Rightarrow> (nat \<times> nat) option" where
  "file_sig NoFile = None"
| "file_sig (UnreadableFile s) = s"
| "file_sig (StoreFile contents mtime) = Some (mtime, byte_len contents)"

definition current_sig :: "cached_state_store \<Rightarrow> store_files \<Rightarrow> (nat \<times> nat) option" where
  "current_sig store fs = file_sig (fs (state_file_path (store_dir (cached_dirs store)) (cached_client store)))"

definition cached_read :: "store_env \<Rightarrow> nat \<Rightarrow> cached_state_store \<Rightarrow> store_files \<Rightarrow> store_files \<times> permission_state" where
  "cached_read E now store fs = load_state_with_fallback E now (cached_dirs store) (cached_client store) fs"

definition resolve_and_load :: "store_env \<Rightarrow> nat \<Rightarrow> store_dirs \<Rightarrow> rstr option \<Rightarrow> store_files \<Rightarrow>
    store_files \<times> cached_state_store \<times> permission_state" where
  "resolve_and_load E now dirs client fs =
     (let store = \<lparr>cached_dirs = dirs, cached_client = client, last_sig = None\<rparr>;
          store = store\<lparr>last_sig := current_sig store fs\<rparr>;
          (fs, st) = cached_read E now store fs
      in (fs, store, st))"

definition reload_if_changed :: "store_env \<Rightarrow> nat \<Rightarrow> cached_state_store \<Rightarrow> store_files \<Rightarrow>
    store_files \<times> cached_state_store \<times> permission_state option" where
  "reload_if_changed E now store fs =
     (let sig = current_sig store fs
      in if sig = last_sig store then (fs, store, None)
         else let store = store\<lparr>last_sig := sig\<rparr>; (fs, st) = cached_read E now store fs
              in (fs, store, Some st))"

subsection \<open>Stale files\<close>

definition is_permission_file :: "rstr \<Rightarrow> bool" where
  "is_permission_file name \<longleftrightarrow> starts_with name (lit ''permission'') \<and> ends_with name (lit ''.toml'')"

text \<open>
  One file of a session directory; \<open>elapsed\<close> fails for a time in the future.
\<close>

definition cleanup_file :: "store_env \<Rightarrow> nat \<Rightarrow> nat \<Rightarrow> rstr \<Rightarrow> rstr \<Rightarrow> store_files \<Rightarrow> store_files" where
  "cleanup_file E now max_age dir name fs =
     (let path = path_join dir name
      in if \<not> is_permission_file name then fs
         else case file_sig (fs path) of
             Some (modified, _) \<Rightarrow>
               if modified \<le> now \<and> now - modified > max_age \<and> \<not> remove_fails E path then fs(path := NoFile) else fs
           | None \<Rightarrow> fs)"

text \<open>The listing gives the session directories that can be read, with their files.\<close>

definition cleanup_stale_permission_state :: "store_env \<Rightarrow> nat \<Rightarrow> nat \<Rightarrow> (rstr \<times> rstr list) list \<Rightarrow> store_files \<Rightarrow> store_files" where
  "cleanup_stale_permission_state E now max_age listing fs =
     foldl (\<lambda>fs (dir, names). foldl (\<lambda>fs name. cleanup_file E now max_age dir name fs) fs names) fs listing"

section \<open>Merging\<close>

lemma set_hash_extend [simp]: "set (hash_extend ys xs) = set xs \<union> set ys"
  unfolding hash_extend_def by (induction ys arbitrary: xs) (auto simp: hash_insert_def)

lemma distinct_hash_extend [simp]: "distinct xs \<Longrightarrow> distinct (hash_extend ys xs)"
  unfolding hash_extend_def by (induction ys arbitrary: xs) (auto simp: hash_insert_def)

text \<open>
  Everything remembered in one state is remembered in another.  The server-wide grants of a state of the old format do not count; the edit
  policy is a setting and not merged.
\<close>

definition remembers :: "permission_state \<Rightarrow> permission_state \<Rightarrow> bool" where
  "remembers a b \<longleftrightarrow>
     (allow_bash_execute b \<longrightarrow> allow_bash_execute a) \<and>
     set (allowed_bash_commands b) \<subseteq> set (allowed_bash_commands a) \<and>
     set (disallowed_bash_commands b) \<subseteq> set (disallowed_bash_commands a) \<and>
     set (allowed_bash_globs b) \<subseteq> set (allowed_bash_globs a) \<and>
     set (allowed_web_fetch_domains b) \<subseteq> set (allowed_web_fetch_domains a) \<and>
     set (allowed_mcp_tools b) \<subseteq> set (allowed_mcp_tools a) \<and>
     set (disallowed_mcp_tools b) \<subseteq> set (disallowed_mcp_tools a) \<and>
     set (disallowed_web_fetch_domains b) \<subseteq> set (disallowed_web_fetch_domains a) \<and>
     (VALIDATED_MCP_SERVER_GRANTS_VERSION \<le> validated_mcp_server_grants_version b \<longrightarrow>
        VALIDATED_MCP_SERVER_GRANTS_VERSION \<le> validated_mcp_server_grants_version a \<and>
        set (allowed_mcp_servers b) \<subseteq> set (allowed_mcp_servers a))"

abbreviation validated :: "permission_state \<Rightarrow> bool" where
  "validated st \<equiv> VALIDATED_MCP_SERVER_GRANTS_VERSION \<le> validated_mcp_server_grants_version st"

lemma remembers_refl [simp]: "remembers a a"
  by (simp add: remembers_def)

lemma remembers_trans: "remembers a b \<Longrightarrow> remembers b c \<Longrightarrow> remembers a c"
  by (auto simp: remembers_def)

lemma merge_remembers:
  "validated self \<Longrightarrow> remembers (merge_grants_from other self) other" "remembers (merge_grants_from other self) self"
  by (auto simp: remembers_def merge_grants_from_def)

lemma merge_validated [simp]: "validated (merge_grants_from other self) \<longleftrightarrow> validated self"
  by (simp add: merge_grants_from_def)

section \<open>Sessions that share a store\<close>

text \<open>The state a file holds.\<close>

definition stored :: "store_env \<Rightarrow> rstr \<Rightarrow> store_files \<Rightarrow> permission_state option" where
  "stored E path fs = (case fs path of StoreFile s _ \<Rightarrow> from_toml E s | _ \<Rightarrow> None)"

text \<open>What the TOML library promises: what it writes of a state with a valid marker, it reads back.\<close>

definition toml_round_trip :: "store_env \<Rightarrow> bool" where
  "toml_round_trip E \<longleftrightarrow>
     (\<forall>st s. to_toml E st = Some s \<longrightarrow> 0 \<le> validated_mcp_server_grants_version st \<longrightarrow> from_toml E s = Some st)"

lemma stored_persist:
  assumes "toml_round_trip E" and "0 \<le> validated_mcp_server_grants_version st"
  shows "stored E p (persist_state_to_path E now path st fs) =
    (if p = path \<and> to_toml E st \<noteq> None \<and> \<not> write_fails E path then Some st else stored E p fs)"
  using assms by (auto simp: persist_state_to_path_def stored_def toml_round_trip_def split: option.splits)

lemma read_store_remembers:
  assumes "read_store E path fs = Some (st, stale)"
  shows "validated st" "stored E path fs = Some old \<Longrightarrow> remembers st old"
  using assms
  by (auto simp: read_store_def stored_def remembers_def default_state_def VALIDATED_MCP_SERVER_GRANTS_VERSION_def Let_def
      split: store_file.splits option.splits if_splits)

lemma read_store_None: "read_store E path fs = None \<Longrightarrow> stored E path fs = None"
  by (auto simp: read_store_def stored_def Let_def split: store_file.splits if_splits)

subsection \<open>Reads and writes interleaved\<close>

text \<open>
  There is no lock, so other sessions can act between the read and the write of a session.  An event is one access to a file: a session looks
  at a file, to load it or to persist a state into it, which settles the writes it will make; or it makes its next write.  Writes are atomic
  (\<open>write_atomically\<close>).  For each session the state the file held when the session last saw it is kept as well.
\<close>

definition pending_writes :: "store_env \<Rightarrow> rstr \<Rightarrow> permission_state option \<Rightarrow> store_files \<Rightarrow> permission_state list" where
  "pending_writes E path own fs =
     (case read_store E path fs of
        Some (on_disk, stale) \<Rightarrow>
          (if stale then [on_disk] else []) @ (case own of Some st \<Rightarrow> [merge_grants_from on_disk st] | None \<Rightarrow> [])
      | None \<Rightarrow> (case own of Some st \<Rightarrow> [st] | None \<Rightarrow> []))"

record session_io =
  io_path :: rstr
  io_writes :: "permission_state list"
  io_seen :: "permission_state option"

record store_config =
  sc_files :: store_files
  sc_session :: "nat \<Rightarrow> session_io"

datatype store_event = Look nat rstr "permission_state option" | Put nat nat

fun store_event_step :: "store_env \<Rightarrow> store_event \<Rightarrow> store_config \<Rightarrow> store_config" where
  "store_event_step E (Look i path own) c =
     (if io_writes (sc_session c i) \<noteq> [] then c
      else c\<lparr>sc_session := (sc_session c)(i := \<lparr>io_path = path, io_writes = pending_writes E path own (sc_files c), io_seen = stored E path (sc_files c)\<rparr>)\<rparr>)"
| "store_event_step E (Put i now) c =
     (let io = sc_session c i
      in case io_writes io of
           [] \<Rightarrow> c
         | w # ws \<Rightarrow>
             let fs = persist_state_to_path E now (io_path io) w (sc_files c)
             in \<lparr>sc_files = fs, sc_session = (sc_session c)(i := \<lparr>io_path = io_path io, io_writes = ws, io_seen = stored E (io_path io) fs\<rparr>)\<rparr>)"

definition run_events :: "store_env \<Rightarrow> store_event list \<Rightarrow> store_config \<Rightarrow> store_config" where
  "run_events E es c = fold (store_event_step E) es c"

lemma run_events_simps [simp]:
  "run_events E [] c = c" "run_events E (e # es) c = run_events E es (store_event_step E e c)"
  "run_events E (es @ es') c = run_events E es' (run_events E es c)"
  by (simp_all add: run_events_def)

definition idle :: "store_files \<Rightarrow> store_config" where
  "idle fs = \<lparr>sc_files = fs, sc_session = (\<lambda>_. \<lparr>io_path = [], io_writes = [], io_seen = None\<rparr>)\<rparr>"

text \<open>The functions of the store are these events without an interruption.\<close>

lemma persist_is_uninterrupted:
  "persist_state E now dirs st client fs =
     fold (persist_state_to_path E now (state_file_path (store_dir dirs) client)) (pending_writes E (state_file_path (store_dir dirs) client) (Some st) fs) fs"
  "fst (try_load_state E now path fs) = fold (persist_state_to_path E now path) (pending_writes E path None fs) fs"
  by (auto simp: persist_state_def persist_state_merging_to_dir_def persist_state_to_dir_def try_load_state_def pending_writes_def split: option.splits)

text \<open>No write to the file \<open>p\<close> finds another state there than its session has seen.\<close>

fun undisturbed :: "store_env \<Rightarrow> rstr \<Rightarrow> store_event list \<Rightarrow> store_config \<Rightarrow> bool" where
  "undisturbed E p [] c \<longleftrightarrow> True"
| "undisturbed E p (e # es) c \<longleftrightarrow>
     (case e of
        Put i now \<Rightarrow> io_writes (sc_session c i) = [] \<or> io_path (sc_session c i) \<noteq> p \<or> stored E p (sc_files c) = io_seen (sc_session c i)
      | Look i path own \<Rightarrow> True) \<and>
     undisturbed E p es (store_event_step E e c)"

fun valid_event :: "store_event \<Rightarrow> bool" where
  "valid_event (Look i path (Some st)) \<longleftrightarrow> validated st"
| "valid_event _ \<longleftrightarrow> True"

text \<open>The writes of a session remember what it has seen, and each one what the one before wrote.\<close>

definition careful :: "session_io \<Rightarrow> bool" where
  "careful io \<longleftrightarrow>
     list_all validated (io_writes io) \<and> sorted_wrt (\<lambda>a b. remembers b a) (io_writes io) \<and>
     (case io_seen io of None \<Rightarrow> True | Some d \<Rightarrow> list_all (\<lambda>w. remembers w d) (io_writes io))"

lemma pending_careful:
  assumes "valid_event (Look i path own)"
  shows "careful \<lparr>io_path = path, io_writes = pending_writes E path own fs, io_seen = stored E path fs\<rparr>"
proof (cases "read_store E path fs")
  case None
  then show ?thesis using assms read_store_None [OF None] by (cases own) (simp_all add: careful_def pending_writes_def)
next
  case (Some x)
  then obtain st stale where x: "read_store E path fs = Some (st, stale)" by (cases x) auto
  note read = read_store_remembers [OF x]
  show ?thesis
  proof (cases own)
    case None
    then show ?thesis using x read by (auto simp: careful_def pending_writes_def split: option.split)
  next
    case (Some o')
    have "remembers (merge_grants_from st o') st" using assms Some merge_remembers(1) by simp
    then have "remembers (merge_grants_from st o') d" if "remembers st d" for d using that remembers_trans by blast
    then show ?thesis
      using x read Some assms \<open>remembers (merge_grants_from st o') st\<close> by (auto simp: careful_def pending_writes_def split: option.split)
  qed
qed

lemma validated_nonneg: "validated st \<Longrightarrow> 0 \<le> validated_mcp_server_grants_version st"
  by (simp add: VALIDATED_MCP_SERVER_GRANTS_VERSION_def)

definition all_careful :: "rstr \<Rightarrow> store_config \<Rightarrow> bool" where
  "all_careful p c \<longleftrightarrow> (\<forall>i. io_path (sc_session c i) = p \<longrightarrow> careful (sc_session c i))"

lemma put_careful:
  assumes "toml_round_trip E" "careful io" "io_writes io = w # ws" "stored E (io_path io) fs = io_seen io"
  shows "careful \<lparr>io_path = io_path io, io_writes = ws, io_seen = stored E (io_path io) (persist_state_to_path E now (io_path io) w fs)\<rparr>"
    "stored E (io_path io) fs = Some old \<Longrightarrow>
      \<exists>st. stored E (io_path io) (persist_state_to_path E now (io_path io) w fs) = Some st \<and> remembers st old"
proof -
  have w: "validated w" "sorted_wrt (\<lambda>a b. remembers b a) (w # ws)" using assms(2,3) by (simp_all add: careful_def)
  have stored: "stored E (io_path io) (persist_state_to_path E now (io_path io) w fs) \<in> {Some w, io_seen io}"
    using stored_persist [OF assms(1) validated_nonneg [OF w(1)], of "io_path io" now "io_path io" fs] assms(4) by simp
  then show "careful \<lparr>io_path = io_path io, io_writes = ws, io_seen = stored E (io_path io) (persist_state_to_path E now (io_path io) w fs)\<rparr>"
    using assms(2,3) w(2) by (auto simp: careful_def list_all_iff split: option.splits)
  show "\<exists>st. stored E (io_path io) (persist_state_to_path E now (io_path io) w fs) = Some st \<and> remembers st old"
    if "stored E (io_path io) fs = Some old"
    using that stored assms(2,3,4) by (auto simp: careful_def)
qed

lemma event_keeps:
  assumes "toml_round_trip E" "valid_event e" "all_careful p c" "undisturbed E p [e] c"
  shows "all_careful p (store_event_step E e c)"
    "stored E p (sc_files c) = Some old \<Longrightarrow> \<exists>st. stored E p (sc_files (store_event_step E e c)) = Some st \<and> remembers st old"
proof -
  have "all_careful p (store_event_step E e c) \<and>
    (stored E p (sc_files c) = Some old \<longrightarrow> (\<exists>st. stored E p (sc_files (store_event_step E e c)) = Some st \<and> remembers st old))"
  proof (cases e)
    case (Look i path own)
    then show ?thesis using assms(2,3) pending_careful [of i path own E "sc_files c"] by (auto simp: all_careful_def)
  next
    case (Put i now)
    let ?io = "sc_session c i"
    show ?thesis
    proof (cases "io_writes ?io")
      case Nil
      then show ?thesis using Put assms(3) by simp
    next
      case (Cons w ws)
      show ?thesis
      proof (cases "io_path ?io = p")
        case True
        then have "careful ?io" "stored E (io_path ?io) (sc_files c) = io_seen ?io" using assms(3,4) Put Cons by (auto simp: all_careful_def)
        from put_careful [OF assms(1) this(1) Cons this(2), where now = now] show ?thesis
          using Put Cons True assms(3) by (auto simp: all_careful_def Let_def)
      next
        case False
        then have "stored E p (persist_state_to_path E now (io_path ?io) w (sc_files c)) = stored E p (sc_files c)"
          by (simp add: stored_def persist_state_to_path_def split: option.split)
        then show ?thesis using Put Cons False assms(3) by (auto simp: all_careful_def Let_def)
      qed
    qed
  qed
  then show "all_careful p (store_event_step E e c)"
    "stored E p (sc_files c) = Some old \<Longrightarrow> \<exists>st. stored E p (sc_files (store_event_step E e c)) = Some st \<and> remembers st old"
    by blast+
qed

lemma undisturbed_append: "undisturbed E p (es @ es') c \<longleftrightarrow> undisturbed E p es c \<and> undisturbed E p es' (run_events E es c)"
  by (induction es arbitrary: c) auto

lemma events_keep:
  assumes "toml_round_trip E" "list_all valid_event es" "all_careful p c" "undisturbed E p es c"
  shows "all_careful p (run_events E es c)"
    "stored E p (sc_files c) = Some old \<Longrightarrow> \<exists>st. stored E p (sc_files (run_events E es c)) = Some st \<and> remembers st old"
proof -
  have "all_careful p (run_events E es c) \<and>
    (stored E p (sc_files c) = Some old \<longrightarrow> (\<exists>st. stored E p (sc_files (run_events E es c)) = Some st \<and> remembers st old))"
    using assms(2-4)
  proof (induction es arbitrary: c old)
    case (Cons e es)
    have e: "undisturbed E p [e] c" "undisturbed E p es (store_event_step E e c)" using Cons.prems(3) by simp_all
    note step = event_keeps [OF assms(1) _ Cons.prems(2) e(1)]
    have valid: "valid_event e" "list_all valid_event es" using Cons.prems(1) by simp_all
    from Cons.IH [OF valid(2) step(1) [OF valid(1)] e(2)] step(2) [OF valid(1)] show ?case
      using remembers_trans by (metis run_events_simps(2))
  qed simp
  then show "all_careful p (run_events E es c)"
    "stored E p (sc_files c) = Some old \<Longrightarrow> \<exists>st. stored E p (sc_files (run_events E es c)) = Some st \<and> remembers st old"
    by blast+
qed

text \<open>While a session does not look again, it works off its writes.\<close>

fun looks :: "nat \<Rightarrow> store_event \<Rightarrow> bool" where
  "looks i (Look j path own) \<longleftrightarrow> i = j"
| "looks i (Put j now) \<longleftrightarrow> False"

lemma writes_suffix:
  "list_all (\<lambda>e. \<not> looks i e) es \<Longrightarrow>
    suffix (io_writes (sc_session (run_events E es c) i)) (io_writes (sc_session c i)) \<and>
    io_path (sc_session (run_events E es c) i) = io_path (sc_session c i)"
proof (induction es arbitrary: c)
  case (Cons e es)
  have "suffix (io_writes (sc_session (store_event_step E e c) i)) (io_writes (sc_session c i)) \<and>
      io_path (sc_session (store_event_step E e c) i) = io_path (sc_session c i)"
    using Cons.prems by (cases e) (auto simp: suffix_Cons Let_def split: list.split)
  then show ?case using Cons.IH [of "store_event_step E e c"] Cons.prems suffix_order.trans by force
qed simp

lemma last_pending: "pending_writes E path (Some st) fs = ws @ [w] \<Longrightarrow> remembers w st"
  by (auto simp: pending_writes_def merge_remembers split: option.splits prod.splits if_splits)

text \<open>
  C21. Remembered permissions are not lost as long as the read and the write of a session are not disturbed.  Take any sequence of reads and
  writes by sessions that load and persist states, from files that no session is in the middle of changing, in which a session \<open>i\<close> looks at the
  file \<open>p\<close> to persist its state and later makes the last write of this; and let every write to \<open>p\<close> find the state that its session has seen
  (the code has no lock: without this the race loses grants, see below).  At the end the file holds every grant and denial of that
  state and every one that it held when session \<open>i\<close> looked; server-wide MCP grants are among them unless they are of the old format.
  Decoding TOML is assumed to invert encoding, and the file to be writable.
\<close>

theorem remembered_stays_remembered:
  assumes "toml_round_trip E" and "events = before @ Look i p (Some st) # mid @ Put i now # after"
    and "list_all valid_event events" and "undisturbed E p events (idle fs)"
    and "io_writes (sc_session (run_events E before (idle fs)) i) = []" and "list_all (\<lambda>e. \<not> looks i e) mid"
    and "io_writes (sc_session (run_events E (before @ Look i p (Some st) # mid) (idle fs)) i) = [w]"
    and "\<not> write_fails E p" and "to_toml E w \<noteq> None"
  shows "\<exists>st'. stored E p (sc_files (run_events E events (idle fs))) = Some st' \<and> remembers st' st \<and>
    (\<forall>old. stored E p (sc_files (run_events E before (idle fs))) = Some old \<longrightarrow> remembers st' old)"
proof -
  let ?c = "run_events E before (idle fs)"
  let ?look = "store_event_step E (Look i p (Some st)) ?c"
  let ?mid = "run_events E mid ?look"
  let ?put = "store_event_step E (Put i now) ?mid"
  have careful: "all_careful p (idle fs)" by (simp add: all_careful_def idle_def careful_def)
  have valid: "list_all valid_event before" "valid_event (Look i p (Some st))" "list_all valid_event mid" "list_all valid_event after"
    using assms(2,3) by auto
  have calm: "undisturbed E p before (idle fs)" "undisturbed E p [Look i p (Some st)] ?c" "undisturbed E p mid ?look"
    "undisturbed E p [Put i now] ?mid" "undisturbed E p after ?put"
    using assms(2,4) by (auto simp: undisturbed_append)
  note c = events_keep [OF assms(1) valid(1) careful calm(1)]
  note look = event_keeps [OF assms(1) valid(2) c(1) calm(2)]
  note mid = events_keep [OF assms(1) valid(3) look(1) calm(3)]
  have put: "all_careful p ?put" using event_keeps(1) [OF assms(1) _ mid(1) calm(4)] by simp
  have io: "io_writes (sc_session ?look i) = pending_writes E p (Some st) (sc_files ?c)" "io_path (sc_session ?look i) = p" using assms(5) by simp_all
  have w: "io_writes (sc_session ?mid i) = [w]" "io_path (sc_session ?mid i) = p" using assms(7) writes_suffix [OF assms(6), of E ?look] io by simp_all
  have "suffix [w] (pending_writes E p (Some st) (sc_files ?c))" using writes_suffix [OF assms(6), of E ?look] w io by simp
  then have st: "remembers w st" using last_pending by (auto simp: suffix_def)
  have "validated w" using mid(1) w by (auto simp: all_careful_def careful_def)
  then have final: "stored E p (sc_files ?put) = Some w"
    using stored_persist [OF assms(1) validated_nonneg] assms(8,9) w by (simp add: Let_def)
  from events_keep(2) [OF assms(1) valid(4) put calm(5) final] obtain st' where
    st': "stored E p (sc_files (run_events E after ?put)) = Some st'" "remembers st' w" by blast
  have "remembers w old" if "stored E p (sc_files ?c) = Some old" for old
  proof -
    from look(2) [OF that] obtain o1 where o1: "stored E p (sc_files ?look) = Some o1" "remembers o1 old" by blast
    from mid(2) [OF o1(1)] obtain o2 where o2: "stored E p (sc_files ?mid) = Some o2" "remembers o2 o1" by blast
    from event_keeps(2) [OF assms(1) _ mid(1) calm(4) o2(1)] final have "remembers w o2" by simp
    then show ?thesis using o1 o2 remembers_trans by blast
  qed
  then show ?thesis using st' st remembers_trans unfolding assms(2) by (auto simp del: store_event_step.simps)
qed

text \<open>A codec that knows two states, and a session that denies a command over a store that allows another.\<close>

definition deny_push :: permission_state where
  "deny_push = default_state\<lparr>disallowed_bash_commands := [lit ''git push'']\<rparr>"

definition allow_test :: permission_state where
  "allow_test = default_state\<lparr>allowed_bash_commands := [lit ''cargo test''], allowed_mcp_servers := [lit ''files'']\<rparr>"

definition both_known :: permission_state where
  "both_known = merge_grants_from allow_test deny_push"

definition small_env :: store_env where
  "small_env = \<lparr>to_toml = (\<lambda>st. if st = both_known then Some [1] else if st = allow_test then Some [2] else if st = deny_push then Some [3] else None),
     from_toml = (\<lambda>s. if s = [1] then Some both_known else if s = [2] then Some allow_test else if s = [3] then Some deny_push else None),
     write_fails = (\<lambda>_. False), remove_fails = (\<lambda>_. False)\<rparr>"

abbreviation small_file :: rstr where
  "small_file \<equiv> lit ''/s/permission.toml''"

definition small_files :: store_files where
  "small_files = (\<lambda>_. NoFile)(small_file := StoreFile [2] 0)"

theorem remembered_stays_remembered_witness:
  "\<exists>st'. stored small_env small_file
      (sc_files (run_events small_env [Look 2 small_file None, Look 1 small_file (Some deny_push), Look 3 (lit ''/t'') None, Put 1 1, Look 2 small_file (Some both_known), Put 2 2]
        (idle small_files))) = Some st' \<and> remembers st' deny_push \<and> remembers st' allow_test"
proof -
  let ?before = "[Look 2 small_file None]" and ?mid = "[Look 3 (lit ''/t'') None]" and ?after = "[Look 2 small_file (Some both_known), Put 2 2]"
  let ?es = "?before @ Look 1 small_file (Some deny_push) # ?mid @ Put 1 1 # ?after"
  have r: "toml_round_trip small_env" by (auto simp: toml_round_trip_def small_env_def)
  have valid: "list_all valid_event ?es" by code_simp
  have calm: "undisturbed small_env small_file ?es (idle small_files)" by code_simp
  have start: "io_writes (sc_session (run_events small_env ?before (idle small_files)) 1) = []" by code_simp
  have others: "list_all (\<lambda>e. \<not> looks 1 e) ?mid" by code_simp
  have last: "io_writes (sc_session (run_events small_env (?before @ Look 1 small_file (Some deny_push) # ?mid) (idle small_files)) 1) = [both_known]"
    by code_simp
  have ok: "\<not> write_fails small_env small_file" "to_toml small_env both_known \<noteq> None" by (simp_all add: small_env_def)
  have old: "stored small_env small_file (sc_files (run_events small_env ?before (idle small_files))) = Some allow_test" by code_simp
  from remembered_stays_remembered [OF r refl valid calm start others last ok] obtain st' where
    "stored small_env small_file (sc_files (run_events small_env ?es (idle small_files))) = Some st'" "remembers st' deny_push" "remembers st' allow_test"
    using old by blast
  then show ?thesis unfolding append_Cons append_Nil by blast
qed

text \<open>The race that the comment in the code admits: of two sessions that both look before either writes, one loses its grant.\<close>

lemma same_instant_write_loses_grant:
  "stored small_env small_file
     (sc_files (run_events small_env [Look 1 small_file (Some deny_push), Look 2 small_file (Some allow_test), Put 1 1, Put 2 2] (idle (\<lambda>_. NoFile)))) = Some allow_test"
  "\<not> remembers allow_test deny_push"
  by code_simp+

text \<open>
  Resetting writes exactly the given state and ends the fallback to an older location for every subdirectory.
\<close>

lemma reset_replaces:
  assumes "toml_round_trip E" and "0 \<le> validated_mcp_server_grants_version st" and "to_toml E st \<noteq> None"
    and "\<not> write_fails E (state_file_path (store_dir dirs) client)"
  shows "stored E (state_file_path (store_dir dirs) client) (replace_state_on_disk E now dirs st client fs) = Some st \<and>
    state_dir_has_store (store_dir dirs) client (replace_state_on_disk E now dirs st client fs)"
proof
  show "stored E (state_file_path (store_dir dirs) client) (replace_state_on_disk E now dirs st client fs) = Some st"
    using assms by (simp add: replace_state_on_disk_def persist_state_to_dir_def stored_persist)
  show "state_dir_has_store (store_dir dirs) client (replace_state_on_disk E now dirs st client fs)"
    using assms(3,4)
    by (cases client) (auto simp: replace_state_on_disk_def persist_state_to_dir_def state_dir_has_store_def persist_state_to_path_def)
qed

text \<open>A state file that does not parse is read as the default state, so the denials in it are gone, and the next write replaces it.\<close>

lemma corrupt_store_forgets_denials:
  "from_toml E s = None \<Longrightarrow> fs path = StoreFile s t \<Longrightarrow> try_load_state E now path fs = (fs, Some default_state)"
  by (simp add: try_load_state_def read_store_def default_state_def VALIDATED_MCP_SERVER_GRANTS_VERSION_def)

end
