(* ===== verification/Tool_Grants.thy ===== *)
theory Tool_Grants
  imports Permission_Store Permission_Policy
begin

text \<open>
  Remembered permissions for MCP tools and for fetching from the web: the lookups of
  \<open>packages/tools/xai-grok-workspace/src/permission/manager/mod.rs\<close>, qualified MCP names
  (\<open>packages/coding-agent/xai-grok-mcp/src/servers.rs\<close>, \<open>packages/tools/xai-tool-protocol/src/ids.rs\<close>) and the
  domain allowlist (\<open>packages/tools/xai-grok-tools/src/implementations/grok_build/web_fetch/domain.rs\<close>).

  A parsed URL is its host, if it has one, and its path; the parser is a parameter.
\<close>

section \<open>Qualified names\<close>

definition is_id_char :: "uchar \<Rightarrow> bool" where
  "is_id_char c \<longleftrightarrow> is_ascii_alphanumeric c \<or> c = ch CHR ''_'' \<or> c = ch CHR ''-''"

definition is_valid_segment :: "rstr \<Rightarrow> bool" where
  "is_valid_segment s \<longleftrightarrow> s \<noteq> [] \<and> list_all is_id_char s"

definition is_well_formed_tool_id :: "rstr \<Rightarrow> bool" where
  "is_well_formed_tool_id s =
     (case split_on (ch CHR '':'') s of
        [name] \<Rightarrow> is_valid_segment name
      | [ns, name] \<Rightarrow> is_valid_segment ns \<and> is_valid_segment name
      | _ \<Rightarrow> False)"

definition tool_id_new :: "rstr \<Rightarrow> rstr option" where
  "tool_id_new value = (if value \<noteq> [] \<and> is_well_formed_tool_id value then Some value else None)"

definition delimiter_positions :: "rstr \<Rightarrow> nat list" where
  "delimiter_positions name = filter (\<lambda>i. prefix (lit ''__'') (drop i name)) [0..<length name]"

definition parse_mcp_qualified_name :: "rstr \<Rightarrow> (rstr \<times> rstr \<times> rstr) option" where
  "parse_mcp_qualified_name name =
     (case delimiter_positions name of
        [boundary] \<Rightarrow>
          let server = take boundary name; tool = drop (boundary + 2) name
          in if server = [] \<or> tool = [] then None else map_option (\<lambda>i. (i, server, tool)) (tool_id_new name)
      | _ \<Rightarrow> None)"

section \<open>MCP tools\<close>

definition mcp_server_prefix_allowed :: "rstr \<Rightarrow> rstr list \<Rightarrow> bool" where
  "mcp_server_prefix_allowed name servers \<longleftrightarrow>
     servers \<noteq> [] \<and> (case parse_mcp_qualified_name name of Some (_, server, _) \<Rightarrow> server \<in> set servers | None \<Rightarrow> False)"

definition previously_rejected :: "rstr \<Rightarrow> rstr" where
  "previously_rejected d = lit ''User previously rejected `'' @ d @ lit ''` in this project''"

definition mcp_pre_decision :: "rstr \<Rightarrow> permission_state \<Rightarrow> bool \<Rightarrow> bool \<Rightarrow> decision option" where
  "mcp_pre_decision name st policy_forced_prompt remember_tool_approvals =
     (if name \<in> set (disallowed_mcp_tools st) then Some (Reject (previously_rejected name))
      else if policy_forced_prompt \<and> \<not> remember_tool_approvals then None
      else if name \<in> set (allowed_mcp_tools st) then Some Allow
      else if mcp_server_prefix_allowed name (allowed_mcp_servers st) then Some Allow
      else None)"

section \<open>Fetching\<close>

type_synonym parsed_url = "rstr option \<times> rstr"

record url_env =
  parse_url :: "rstr \<Rightarrow> parsed_url option"
  lowercase :: "rstr \<Rightarrow> rstr"

definition web_fetch_deny_key :: "url_env \<Rightarrow> rstr \<Rightarrow> rstr" where
  "web_fetch_deny_key U host = lowercase U (trim_end_matches (\<lambda>c. c = 46) (trim host))"

definition web_fetch_deny_key_from_url :: "url_env \<Rightarrow> rstr \<Rightarrow> rstr option" where
  "web_fetch_deny_key_from_url U url =
     (case parse_url U url of
        Some (Some host, _) \<Rightarrow> let key = web_fetch_deny_key U host in if key \<noteq> [] then Some key else None
      | _ \<Rightarrow> None)"

text \<open>
  A suffix of the domain that follows a dot.  The code compares byte lengths and the byte before the suffix, which is the dot exactly
  when the character before it is.
\<close>

definition deny_covers :: "rstr \<Rightarrow> rstr \<Rightarrow> bool" where
  "deny_covers domain denied \<longleftrightarrow>
     denied \<noteq> [] \<and>
     (domain = denied \<or>
      byte_len domain > byte_len denied + 1 \<and> ends_with domain denied \<and> ends_with (take (length domain - length denied) domain) (lit ''.''))"

definition denied_web_fetch_domain :: "url_env \<Rightarrow> rstr \<Rightarrow> rstr list \<Rightarrow> rstr option" where
  "denied_web_fetch_domain U host disallowed =
     (if disallowed = [] then None else find (deny_covers (web_fetch_deny_key U host)) disallowed)"

definition web_fetch_deny_pre_decision :: "url_env \<Rightarrow> parsed_url \<Rightarrow> permission_state \<Rightarrow> decision option" where
  "web_fetch_deny_pre_decision U url st =
     (case fst url of
        None \<Rightarrow> None
      | Some host \<Rightarrow>
          map_option (\<lambda>d. Reject (previously_rejected d)) (denied_web_fetch_domain U host (disallowed_web_fetch_domains st)))"

subsection \<open>The static allowlist\<close>

datatype host_entry = AnyPath | PathPrefixes "rstr list"

type_synonym domain_matcher = "(rstr \<times> host_entry) list"

text \<open>\<open>normalize_domain\<close> with the lower-casing of this environment.\<close>

definition normalize_host :: "url_env \<Rightarrow> rstr \<Rightarrow> rstr" where
  "normalize_host U raw =
     (let s = trim_end_matches (\<lambda>c. c = 46) (trim_end_matches (\<lambda>c. c = 47) (trim raw))
      in lowercase U (case strip_prefix s (lit ''www.'') of Some r \<Rightarrow> r | None \<Rightarrow> s))"

definition set_entry :: "rstr \<Rightarrow> host_entry \<Rightarrow> domain_matcher \<Rightarrow> domain_matcher" where
  "set_entry host e m = (host, e) # filter (\<lambda>(h, _). h \<noteq> host) m"

definition add_raw_entry :: "url_env \<Rightarrow> rstr \<Rightarrow> domain_matcher \<Rightarrow> domain_matcher" where
  "add_raw_entry U raw m =
     (let normalized = normalize_host U raw; host = takeWhile (\<lambda>c. c \<noteq> 47) normalized; path = dropWhile (\<lambda>c. c \<noteq> 47) normalized
      in if normalized = [] then m
         else if path = [] then set_entry host AnyPath m
         else if map_of m host = Some AnyPath then m
         else
           let pre = trim_end_matches (\<lambda>c. c = 47) path
           in if pre = [] then set_entry host AnyPath m
              else case map_of m host of
                  Some (PathPrefixes v) \<Rightarrow> if pre \<in> set v then m else set_entry host (PathPrefixes (v @ [pre])) m
                | _ \<Rightarrow> set_entry host (PathPrefixes [pre]) m)"

definition domain_matcher_new :: "url_env \<Rightarrow> rstr list \<Rightarrow> domain_matcher" where
  "domain_matcher_new U raw_entries = foldl (\<lambda>m raw. add_raw_entry U raw m) [] raw_entries"

text \<open>\<open>None\<close> is permitted; otherwise the domain that is not.\<close>

definition domain_check :: "url_env \<Rightarrow> domain_matcher \<Rightarrow> parsed_url \<Rightarrow> rstr option" where
  "domain_check U m url =
     (case fst url of
        None \<Rightarrow> Some []
      | Some raw_host \<Rightarrow>
          let host = normalize_host U raw_host
          in case map_of m host of
               Some AnyPath \<Rightarrow> None
             | Some (PathPrefixes pres) \<Rightarrow>
                 let url_path = lowercase U (snd url)
                 in if list_ex (\<lambda>p. url_path = p \<or> starts_with url_path (p @ [47])) pres then None else Some host
             | None \<Rightarrow> Some host)"

section \<open>Denials\<close>

text \<open>A denial covers the host it names and every host below it.\<close>

lemma deny_covers_subdomain: "denied \<noteq> [] \<Longrightarrow> deny_covers (sub @ lit ''.'' @ denied) denied \<longleftrightarrow> sub \<noteq> []"
  by (cases sub) (auto simp: deny_covers_def ends_with_def lit_def len_utf8_def suffix_def intro: order.strict_trans2 [OF _ le_add1])

end
