(* ===== verification/Bash_Grants.thy ===== *)
theory Bash_Grants
  imports Bash_Safety Tool_Grants
begin

text \<open>
  Judging a shell command against remembered permissions: \<open>evaluate_bash\<close> and the grant decisions of
  \<open>packages/tools/xai-grok-workspace/src/permission/manager/mod.rs\<close>, and what an answer to the prompt persists
  (\<open>manager/bash_grants.rs\<close>).
\<close>

section \<open>Keys\<close>

definition words_join_unambiguously :: "'g policy_env \<Rightarrow> rstr list \<Rightarrow> bool" where
  "words_join_unambiguously E ws =
     (let joined = join [32] ws
      in case all_commands_from_script (grammar E) joined of
           Some [only] \<Rightarrow> spans_whole_script only joined \<and> pc_words only = ws
         | _ \<Rightarrow> False)"

definition whole_script_grant :: "'g policy_env \<Rightarrow> rstr \<Rightarrow> plain_command list \<Rightarrow> permission_state \<Rightarrow> bool" where
  "whole_script_grant E cmd segments st \<longleftrightarrow>
     cmd \<in> set (allowed_bash_commands st) \<or>
     (case segments of
        [only] \<Rightarrow> spans_whole_script only cmd \<and> words_join_unambiguously E (pc_words only) \<and>
          join [32] (pc_words only) \<in> set (allowed_bash_commands st)
      | _ \<Rightarrow> False)"

section \<open>Evaluating a script\<close>

datatype segment_evaluation = AutoAllow bool | SegReject rstr | NeedsPrompts "rstr list" | Unparseable

record bash_evaluation =
  eval_segments :: segment_evaluation
  exact_grant :: bool
  all_segments_granted :: bool
  eval_assessment :: assessment
  redirect_write :: bool
  ambient_segments :: "rstr list list option"
  eval_creation_paths :: "rstr list"
  eval_has_cwd_change :: bool

definition unparseable_exec_risk :: "rstr \<Rightarrow> bool" where
  "unparseable_exec_risk cmd = script_may_invoke_git cmd"

definition raw_deny_rejection :: "rstr \<Rightarrow> permission_state \<Rightarrow> segment_evaluation option" where
  "raw_deny_rejection cmd st =
     map_option (\<lambda>d. SegReject (previously_rejected d)) (find (matches_command_prefix cmd) (disallowed_bash_commands st))"

definition matches_bash_glob :: "'g policy_env \<Rightarrow> rstr \<Rightarrow> rstr \<Rightarrow> bool" where
  "matches_bash_glob E segment pattern = bash_pattern_matches_command E pattern segment"

definition matched_grant :: "'g policy_env \<Rightarrow> permission_state \<Rightarrow> rstr list \<Rightarrow> bool" where
  "matched_grant E st ws \<longleftrightarrow>
     (let s = join [32] ws
      in (if always_allow_scope_pinned ws then s \<in> set (allowed_bash_commands st)
          else list_ex (matches_command_prefix s) (allowed_bash_commands st)) \<or>
         list_ex (matches_bash_glob E s) (allowed_bash_globs st))"

definition matched_safe :: "bool \<Rightarrow> rstr list \<Rightarrow> bool" where
  "matched_safe honor_safe_lists ws \<longleftrightarrow>
     honor_safe_lists \<and> (is_safe_command_words ws \<or> is_always_safe_command_words ws \<or> is_safe_creation_command ws)"

record segment_state =
  seg_needs_prompt :: "rstr list"
  seg_via_grant :: bool
  seg_all_granted :: bool
  seg_exec_risk :: bool
  seg_has_git :: bool
  seg_ambient_raw :: "rstr list list"
  seg_assessment :: assessment

text \<open>The facts every segment contributes before it is judged.\<close>

definition note_segment :: "rstr list \<Rightarrow> segment_state \<Rightarrow> segment_state" where
  "note_segment raw_words s =
     (let facts = segment_exec_facts raw_words
      in s\<lparr>seg_ambient_raw := seg_ambient_raw s @ [raw_words],
           seg_assessment := seg_assessment s \<union>
             (if words_are_opaque_shell (map LiteralWord (unwrap_wrappers raw_words)) then {OpaqueShell} else {}) \<union>
             (if facts_exec_risk facts then {ExecOrAmbientGit} else {}),
           seg_exec_risk := seg_exec_risk s \<or> facts_exec_risk facts,
           seg_has_git := seg_has_git s \<or> facts_has_git facts\<rparr>)"

text \<open>Judging a segment that no denial matches.\<close>

definition judge_segment :: "'g policy_env \<Rightarrow> permission_state \<Rightarrow> bool \<Rightarrow> rstr list \<Rightarrow> segment_state \<Rightarrow> segment_state" where
  "judge_segment E st honor ws s =
     (let str = join [32] ws; granted = matched_grant E st ws; s = s\<lparr>seg_all_granted := seg_all_granted s \<and> granted\<rparr>;
          prompt = s\<lparr>seg_needs_prompt := seg_needs_prompt s @ [str]\<rparr>
      in if is_dangerous_command_words ws then prompt\<lparr>seg_assessment := insert DangerousCommand (seg_assessment s)\<rparr>
         else if special_exec_surface ws \<and> str \<notin> set (allowed_bash_commands st) then
           prompt\<lparr>seg_assessment := insert SpecialExecSurface (seg_assessment s)\<rparr>
         else if granted \<or> matched_safe honor ws then (if granted then s\<lparr>seg_via_grant := True\<rparr> else s)
         else prompt)"

text \<open>The loop; \<open>Inl\<close> is the early return of a denial, with what was known then.\<close>

fun segments_loop :: "'g policy_env \<Rightarrow> permission_state \<Rightarrow> bool \<Rightarrow> plain_command list \<Rightarrow> segment_state \<Rightarrow>
    (rstr \<times> segment_state) + segment_state" where
  "segments_loop E st honor [] s = Inr s"
| "segments_loop E st honor (parsed # rest) s =
     (let s = note_segment (pc_words parsed) s; ws = unwrap_wrappers (pc_words parsed)
      in if is_setup_command ws then segments_loop E st honor rest s
         else case find (matches_command_prefix (join [32] ws)) (disallowed_bash_commands st) of
             Some d \<Rightarrow> Inl (previously_rejected d, s)
           | None \<Rightarrow> segments_loop E st honor rest (judge_segment E st honor ws s))"

definition initial_segments :: "assessment \<Rightarrow> segment_state" where
  "initial_segments a =
     \<lparr>seg_needs_prompt = [], seg_via_grant = False, seg_all_granted = True, seg_exec_risk = False, seg_has_git = False,
      seg_ambient_raw = [], seg_assessment = a\<rparr>"

definition undecomposed_evaluation :: "rstr \<Rightarrow> permission_state \<Rightarrow> assessment \<Rightarrow> bash_evaluation" where
  "undecomposed_evaluation cmd st a =
     \<lparr>eval_segments = (case raw_deny_rejection cmd st of Some r \<Rightarrow> r | None \<Rightarrow> Unparseable),
      exact_grant = cmd \<in> set (allowed_bash_commands st), all_segments_granted = False,
      eval_assessment = a \<union> {UnparseableShell} \<union> (if unparseable_exec_risk cmd then {ExecOrAmbientGit} else {}),
      redirect_write = True, ambient_segments = None, eval_creation_paths = [], eval_has_cwd_change = False\<rparr>"

definition unsafe_write :: "rstr list \<Rightarrow> bool" where
  "unsafe_write paths = list_ex (\<lambda>p. \<not> is_safe_write_sink p) paths"

definition redirect_writes :: "write_paths_split \<Rightarrow> bool" where
  "redirect_writes w \<longleftrightarrow> unextracted_write_redirect w \<or> unsafe_write (redirect_paths w)"

definition tree_findings :: "ts_tree \<Rightarrow> rstr \<Rightarrow> plain_command list \<Rightarrow> assessment" where
  "tree_findings tree cmd segments =
     (let w = command_write_paths_split (root_node tree) cmd
      in (if redirect_writes w \<or> unsafe_write (word_paths w) then {FileWrite} else {}) \<union>
         set_option (env_risk_finding (script_env_risk (root_node tree) cmd segments)))"

definition evaluate_bash :: "'g policy_env \<Rightarrow> rstr \<Rightarrow> permission_state \<Rightarrow> bool \<Rightarrow> bash_evaluation" where
  "evaluate_bash E cmd st honor =
     (case grammar E cmd of
        None \<Rightarrow> undecomposed_evaluation cmd st {}
      | Some tree \<Rightarrow>
          let w = command_write_paths_split (root_node tree) cmd
          in case try_parse_word_only_commands_sequence tree cmd of
               None \<Rightarrow>
                 undecomposed_evaluation cmd st
                   (tree_findings tree cmd [] \<union> (if tree_has_opaque_shell (root_node tree) cmd then {OpaqueShell} else {}))
             | Some segments \<Rightarrow>
                 (case segments_loop E st honor segments (initial_segments (tree_findings tree cmd segments)) of
                    Inl (reason, s) \<Rightarrow>
                      \<lparr>eval_segments = SegReject reason, exact_grant = whole_script_grant E cmd segments st,
                       all_segments_granted = seg_all_granted s, eval_assessment = seg_assessment s, redirect_write = redirect_writes w,
                       ambient_segments = None, eval_creation_paths = [], eval_has_cwd_change = False\<rparr>
                  | Inr s \<Rightarrow>
                      \<lparr>eval_segments = (if seg_needs_prompt s = [] then AutoAllow (seg_via_grant s) else NeedsPrompts (seg_needs_prompt s)),
                       exact_grant = whole_script_grant E cmd segments st, all_segments_granted = seg_all_granted s,
                       eval_assessment = seg_assessment s, redirect_write = redirect_writes w,
                       ambient_segments = (if seg_has_git s \<and> \<not> seg_exec_risk s then Some (seg_ambient_raw s) else None),
                       eval_creation_paths = creation_paths w,
                       eval_has_cwd_change = script_has_cwd_change (root_node tree) cmd\<rparr>))"

section \<open>Decisions from grants\<close>

definition persisted_bash_auto_allows :: "permission_state \<Rightarrow> rstr \<Rightarrow> rstr option \<Rightarrow> bool" where
  "persisted_bash_auto_allows st cmd yolo_pin \<longleftrightarrow>
     (allow_bash_execute st \<and> yolo_pin = None) \<or> cmd \<in> set (allowed_bash_commands st)"

definition bash_request_floor_requires_prompt :: "bash_evaluation option \<Rightarrow> bool" where
  "bash_request_floor_requires_prompt ev =
     (case ev of Some e \<Rightarrow> \<not> exact_grant e \<and> constrains_broad_grant (eval_assessment e) | None \<Rightarrow> False)"

definition narrow_allow_clears_write_floor :: "'g policy_env \<Rightarrow> bash_evaluation option \<Rightarrow> 'g compiled_policy option \<Rightarrow> 'json access_kind \<Rightarrow> bool" where
  "narrow_allow_clears_write_floor E ev P access \<longleftrightarrow>
     (case ev of Some e \<Rightarrow> is_file_write_only (eval_assessment e) \<and> \<not> redirect_write e | None \<Rightarrow> False) \<and>
     (case P of Some p \<Rightarrow> narrow_allow_authorizes E p access | None \<Rightarrow> False)"

definition bash_assessment_is_clear :: "bash_evaluation option \<Rightarrow> bool" where
  "bash_assessment_is_clear ev = (case ev of Some e \<Rightarrow> eval_assessment e = {} | None \<Rightarrow> True)"

definition classifier_assessment :: "bash_evaluation option \<Rightarrow> bool \<Rightarrow> assessment" where
  "classifier_assessment ev fail_closed_policy =
     (case ev of Some e \<Rightarrow> eval_assessment e | None \<Rightarrow> {}) \<union> (if fail_closed_policy then {FailClosedPolicy} else {})"

definition sandbox_may_auto_allow_bash :: "bash_evaluation option \<Rightarrow> bool \<Rightarrow> bool" where
  "sandbox_may_auto_allow_bash ev sandbox_active \<longleftrightarrow> sandbox_active \<and> \<not> bash_request_floor_requires_prompt ev"

definition clamp_yolo :: "bool \<Rightarrow> rstr option \<Rightarrow> bool" where
  "clamp_yolo requested yolo_pin \<longleftrightarrow> requested \<and> yolo_pin = None"

definition prompted_decision_approved :: "decision \<Rightarrow> rstr \<Rightarrow> bool option" where
  "prompted_decision_approved d outcome_str =
     (case d of Allow \<Rightarrow> Some True | Reject _ \<Rightarrow> if outcome_str \<noteq> lit ''error'' then Some False else None | _ \<Rightarrow> None)"

definition auto_prompt_blocks_allow :: "'json access_kind \<Rightarrow> bool" where
  "auto_prompt_blocks_allow access = (case access of Bash _ \<Rightarrow> False | _ \<Rightarrow> True)"

record bash_grant_opts =
  honor_safe_lists :: bool
  allow_blanket :: bool
  conservative_blanket :: bool

definition PRE_CLASSIFIER :: bash_grant_opts where
  "PRE_CLASSIFIER = \<lparr>honor_safe_lists = True, allow_blanket = True, conservative_blanket = True\<rparr>"

definition ASK_FLOOR_REMEMBER :: bash_grant_opts where
  "ASK_FLOOR_REMEMBER = \<lparr>honor_safe_lists = False, allow_blanket = False, conservative_blanket = False\<rparr>"

definition post_classify :: "bool \<Rightarrow> bash_grant_opts" where
  "post_classify auto_forced_prompt =
     \<lparr>honor_safe_lists = True, allow_blanket = \<not> auto_forced_prompt, conservative_blanket = False\<rparr>"

datatype grant_reason = SESSION_DENY | SESSION_GRANT | SAFE_COMMAND | STATIC_ALLOWLIST

definition grant_if :: "bool \<Rightarrow> (decision \<times> grant_reason) option" where
  "grant_if b = (if b then Some (Allow, SESSION_GRANT) else None)"

definition bash_grant_pre_decision :: "rstr \<Rightarrow> bash_evaluation \<Rightarrow> permission_state \<Rightarrow> rstr option \<Rightarrow> bash_grant_opts \<Rightarrow>
    (decision \<times> grant_reason) option" where
  "bash_grant_pre_decision cmd ev st yolo_pin opts =
     (case eval_segments ev of
        SegReject reason \<Rightarrow> Some (Reject reason, SESSION_DENY)
      | _ \<Rightarrow>
          if bash_request_floor_requires_prompt (Some ev) then None
          else case eval_segments ev of
              AutoAllow via \<Rightarrow>
                if \<not> honor_safe_lists opts \<and> \<not> all_segments_granted ev then None
                else Some (Allow, if via then SESSION_GRANT else SAFE_COMMAND)
            | NeedsPrompts _ \<Rightarrow>
                if \<not> allow_blanket opts then None
                else if conservative_blanket opts \<and> DangerousCommand \<in> eval_assessment ev then grant_if (exact_grant ev)
                else grant_if (persisted_bash_auto_allows st cmd yolo_pin)
            | _ \<Rightarrow>
                if \<not> allow_blanket opts then None
                else grant_if (if conservative_blanket opts then exact_grant ev else persisted_bash_auto_allows st cmd yolo_pin))"

definition session_grant_pre_decision :: "url_env \<Rightarrow> 'json access_kind \<Rightarrow> bash_evaluation option \<Rightarrow> permission_state \<Rightarrow> bool \<Rightarrow>
    domain_matcher \<Rightarrow> bool \<Rightarrow> rstr option \<Rightarrow> (decision \<times> grant_reason) option" where
  "session_grant_pre_decision U access ev st allow_edits matcher honor_static yolo_pin =
     (case access of
        MCPTool name _ \<Rightarrow>
          map_option (\<lambda>d. (d, case d of Reject _ \<Rightarrow> SESSION_DENY | _ \<Rightarrow> SESSION_GRANT)) (mcp_pre_decision name st False False)
      | WebFetch url \<Rightarrow>
          (case parse_url U url of
             None \<Rightarrow> None
           | Some parsed \<Rightarrow>
               (case web_fetch_deny_pre_decision U parsed st of
                  Some reject \<Rightarrow> Some (reject, SESSION_DENY)
                | None \<Rightarrow>
                    if honor_static \<and> domain_check U matcher parsed = None then Some (Allow, STATIC_ALLOWLIST)
                    else case fst parsed of
                        None \<Rightarrow> None
                      | Some host \<Rightarrow> grant_if (normalize_host U host \<in> set (allowed_web_fetch_domains st))))
      | Edit _ \<Rightarrow> grant_if allow_edits
      | Bash cmd \<Rightarrow> (case ev of None \<Rightarrow> None | Some e \<Rightarrow> bash_grant_pre_decision cmd e st yolo_pin PRE_CLASSIFIER)
      | _ \<Rightarrow> None)"

section \<open>What an answer persists\<close>

definition always_allow_scope_persists :: "'g policy_env \<Rightarrow> highlights \<Rightarrow> nat \<Rightarrow> bool" where
  "always_allow_scope_persists E h n =
     (let ws = highlighted_words h
      in if n = 0 \<or> n > length ws \<or> n < minimum_always_allow_scope ws then False
         else words_join_unambiguously E (take n ws) \<or> (n = length ws \<and> hl_prefix h = [] \<and> hl_suffix h = []))"

definition bash_grant_segments :: "'g policy_env \<Rightarrow> rstr \<Rightarrow> rstr list" where
  "bash_grant_segments E cmd =
     (case all_commands_from_script (grammar E) cmd of
        None \<Rightarrow> []
      | Some segments \<Rightarrow>
          let grants = List.map_filter (\<lambda>parsed.
                let ws = unwrap_wrappers (pc_words parsed)
                in if ws \<noteq> [] \<and> \<not> is_setup_command ws \<and> \<not> is_dangerous_command_words ws \<and> \<not> head_is_exec_vehicle ws \<and>
                      words_join_unambiguously E ws
                   then Some (join [32] ws) else None) segments
          in if length grants > 5 then [] else grants)"

definition persist_bash_always_allow :: "'g policy_env \<Rightarrow> rstr \<Rightarrow> rstr \<Rightarrow> permission_state \<Rightarrow> permission_state" where
  "persist_bash_always_allow E cmd pre st =
     (case primary_command_from_script (grammar E) cmd of
        None \<Rightarrow> st
      | Some h \<Rightarrow>
          let ws = highlighted_words h;
              verified = list_ex (\<lambda>n. words_join_unambiguously E (take n ws) \<and> join [32] (take n ws) = pre)
                [minimum_always_allow_scope ws..<Suc (length ws)]
          in if verified then st\<lparr>allowed_bash_commands := hash_insert pre (allowed_bash_commands st)\<rparr>
             else if hl_prefix h = [] \<and> hl_suffix h = [] \<and> join [32] ws = pre then
               st\<lparr>allowed_bash_commands := hash_insert cmd (allowed_bash_commands st)\<rparr>
             else st)"

definition bash_glob_covers_script :: "'g policy_env \<Rightarrow> rstr \<Rightarrow> rstr \<Rightarrow> bool" where
  "bash_glob_covers_script E cmd pattern =
     (if bash_glob_is_catchall E pattern then False
      else case all_commands_from_script (grammar E) cmd of
          None \<Rightarrow> bash_pattern_matches_command E pattern cmd
        | Some segments \<Rightarrow>
            list_ex (\<lambda>seg. let ws = unwrap_wrappers (pc_words seg)
              in ws \<noteq> [] \<and> \<not> is_setup_command ws \<and> bash_pattern_matches_command E pattern (join [32] ws)) segments)"

definition always_allow_row_is_effective :: "'g policy_env \<Rightarrow> rstr \<Rightarrow> bool" where
  "always_allow_row_is_effective E cmd =
     (case primary_command_from_script (grammar E) cmd of
        None \<Rightarrow> False
      | Some h \<Rightarrow>
          let scope = default_always_allow_scope (highlighted_words h)
          in if \<not> always_allow_scope_persists E h scope then False
             else let scratch = persist_bash_always_allow E cmd (join [32] (take scope (highlighted_words h))) default_state
                  in case bash_grant_pre_decision cmd (evaluate_bash E cmd scratch True) scratch None PRE_CLASSIFIER of
                       Some (Allow, _) \<Rightarrow> True
                     | _ \<Rightarrow> False)"

end
