(* ===== verification/Permission_Gates.thy ===== *)
theory Permission_Gates
  imports Permission_Policy
begin

text \<open>
  What the permission policy guarantees: precedence of deny over ask over allow whatever the order of the rules, a
  gate that sees every command of a script, an allow that holds for every command of a script, and a link check that only
  makes decisions stricter.
\<close>

section \<open>Escalation\<close>

text \<open>
  Both ways of combining decisions keep the stricter one.  The level of an optional decision is zero when there is none.
\<close>

locale escalation =
  fixes rank :: "'d \<Rightarrow> nat" and combine :: "'d option \<Rightarrow> 'd option \<Rightarrow> 'd option"
  assumes combine_none: "combine None b = b" "combine a None = a"
    and combine_some: "combine (Some x) (Some y) = Some (if rank x \<ge> rank y then x else y)"
begin

definition level :: "'d option \<Rightarrow> nat" where
  "level d = (case d of None \<Rightarrow> 0 | Some x \<Rightarrow> Suc (rank x))"

lemma level_combine: "level (combine a b) = max (level a) (level b)"
  by (cases a; cases b) (auto simp: combine_none combine_some level_def)

lemma combine_source: "combine a b = Some x \<Longrightarrow> a = Some x \<or> b = Some x"
  by (cases a; cases b) (auto simp: combine_none combine_some split: if_splits)

lemma level_fold:
  "k \<le> level (foldl (\<lambda>d x. combine d (f x)) d xs) \<longleftrightarrow> k \<le> level d \<or> (\<exists>x\<in>set xs. k \<le> level (f x))"
  by (induction xs arbitrary: d) (auto simp: level_combine)

lemma level_none: "level d = 0 \<longleftrightarrow> d = None"
  by (simp add: level_def split: option.splits)

end

interpretation gate: escalation gate_rank combine_gate_decisions
  by unfold_locales (auto simp: combine_gate_decisions_def split: option.splits)

interpretation dec: escalation decision_rank combine_decisions
  by unfold_locales (auto simp: combine_decisions_def split: option.splits)

section \<open>Rules as a set\<close>

definition deny_applies :: "'g policy_env \<Rightarrow> permission_rule list \<Rightarrow> 'json access_kind \<Rightarrow> rstr option \<Rightarrow> bool" where
  "deny_applies E rules access cwd \<longleftrightarrow>
     list_ex (\<lambda>r. rule_action r = RuleDeny \<and> rule_applies E access cwd (r, compile_matcher E r)) rules"

definition ask_applies :: "'g policy_env \<Rightarrow> permission_rule list \<Rightarrow> 'json access_kind \<Rightarrow> rstr option \<Rightarrow> bool" where
  "ask_applies E rules access cwd \<longleftrightarrow>
     list_ex (\<lambda>r. rule_action r = RuleAsk \<and> rule_applies E access cwd (r, compile_matcher E r)) rules"

definition allow_applies :: "'g policy_env \<Rightarrow> permission_rule list \<Rightarrow> 'json access_kind \<Rightarrow> rstr option \<Rightarrow> bool" where
  "allow_applies E rules access cwd \<longleftrightarrow>
     list_ex (\<lambda>r. rule_action r = RuleAllow \<and> rule_applies E access cwd (r, compile_matcher E r)) rules"

lemma zip_matchers: "zip rs (map f rs) = map (\<lambda>r. (r, f r)) rs"
  by (induction rs) auto

lemma rule_loop_result:
  "rule_loop E access cwd (map (\<lambda>r. (r, compile_matcher E r)) rs) ask allow =
     (if deny_applies E rs access cwd
      then Inl (deny_reason (the (find (\<lambda>r. rule_action r = RuleDeny \<and> rule_applies E access cwd (r, compile_matcher E r)) rs)))
      else Inr (ask \<or> ask_applies E rs access cwd, allow \<or> allow_applies E rs access cwd))"
  by (induction rs arbitrary: ask allow)
    (auto simp: deny_applies_def ask_applies_def allow_applies_def split: rule_action.splits)

lemma lexical_result:
  "evaluate_lexical_with_cwd E (policy_new E config) access cwd =
     (let rs = config_rules config
      in if deny_applies E rs access cwd
         then Some (Reject (deny_reason (the (find (\<lambda>r. rule_action r = RuleDeny \<and> rule_applies E access cwd (r, compile_matcher E r)) rs))))
         else if ask_applies E rs access cwd then Some Ask
         else case access of
             Bash cmd \<Rightarrow>
               if has_bash_allow_rules (policy_new E config) \<and>
                  bash_chain_fully_allowed E (policy_new E config) MAX_INLINE_SHELL_DEPTH AnyRule cmd
               then Some Allow else None
           | _ \<Rightarrow> if allow_applies E rs access cwd then Some Allow else None)"
  by (simp add: evaluate_lexical_with_cwd_def policy_new_def zip_matchers rule_loop_result Let_def
      split: access_kind.splits)

text \<open>Two configurations with the same rules, in whatever order and multiplicity.\<close>

lemma list_ex_set_cong: "set xs = set ys \<Longrightarrow> list_ex Q xs = list_ex Q ys"
  by (simp add: list_ex_iff)

lemma words_allowed_set:
  "bash_words_allowed E (policy_new E config) scope ws \<longleftrightarrow>
     ws \<noteq> [] \<and> \<not> (scope = NarrowOnly \<and> head_is_exec_vehicle ws) \<and>
     list_ex (\<lambda>r. \<not> (scope = NarrowOnly \<and> rule_is_catchall E r) \<and> rule_action r = RuleAllow \<and> rule_tool r \<in> {FBash, FAny} \<and>
       bash_allow_pattern_matches E (join [32] ws) r (compile_matcher E r)) (config_rules config)"
proof -
  have z: "zip (zip rs (map f rs)) (map g rs) = map (\<lambda>r. ((r, f r), g r)) rs" for rs :: "permission_rule list" and f g
    by (induction rs) auto
  show ?thesis by (simp add: bash_words_allowed_def policy_new_def z list_ex_iff Let_def)
qed

lemma segment_set:
  assumes "set (config_rules c1) = set (config_rules c2)"
  shows "segment_allowed E (policy_new E c1) = segment_allowed E (policy_new E c2)"
proof -
  have "bash_words_allowed E (policy_new E c1) = bash_words_allowed E (policy_new E c2)"
    using list_ex_set_cong [OF assms] by (intro ext) (simp add: words_allowed_set)
  then show ?thesis by (intro ext) (simp add: segment_allowed_def)
qed

lemma chain_set:
  assumes "set (config_rules c1) = set (config_rules c2)"
  shows "bash_chain_fully_allowed E (policy_new E c1) depth scope cmd = bash_chain_fully_allowed E (policy_new E c2) depth scope cmd"
  by (induction depth arbitrary: cmd; subst (1 2) bash_chain_fully_allowed.simps) (simp_all add: segment_set [OF assms] split: option.splits)

lemma lexical_set:
  assumes "set (config_rules c1) = set (config_rules c2)"
  shows "map_option decision_rank (evaluate_lexical_with_cwd E (policy_new E c1) access cwd) =
    map_option decision_rank (evaluate_lexical_with_cwd E (policy_new E c2) access cwd)"
proof -
  have a: "deny_applies E (config_rules c1) = deny_applies E (config_rules c2)"
    "ask_applies E (config_rules c1) = ask_applies E (config_rules c2)"
    "allow_applies E (config_rules c1) = allow_applies E (config_rules c2)"
    unfolding deny_applies_def [abs_def] ask_applies_def [abs_def] allow_applies_def [abs_def]
    using list_ex_set_cong [OF assms] by auto
  have b: "has_bash_allow_rules (policy_new E c1) = has_bash_allow_rules (policy_new E c2)"
    using list_ex_set_cong [OF assms] by (simp add: policy_new_def)
  show ?thesis
    unfolding lexical_result Let_def a b chain_set [OF assms] by (simp split: access_kind.splits)
qed

text \<open>The check of the link target takes part only as an escalation.\<close>

definition link_check :: "'g policy_env \<Rightarrow> 'g compiled_policy \<Rightarrow> 'json access_kind \<Rightarrow> rstr option \<Rightarrow> decision option" where
  "link_check E P access cwd =
     (case native_file_path access of
        None \<Rightarrow> None
      | Some path \<Rightarrow>
          (case raw_absolute_tool_path path cwd of
             None \<Rightarrow> None
           | Some raw_absolute \<Rightarrow>
               (case follow_absolute_symlink E raw_absolute (path_match_string (absolute_normalized_path path cwd)) of
                  Target resolved \<Rightarrow> escalation_only (evaluate_lexical_with_cwd E P (access_with_path access resolved) cwd)
                | Unresolvable \<Rightarrow> if native_path_restrictions_apply P access then Some Ask else None
                | FollowNone \<Rightarrow> None)))"

lemma evaluate_is_combined:
  "evaluate_with_cwd E P access cwd = combine_decisions (evaluate_lexical_with_cwd E P access cwd) (link_check E P access cwd)"
  by (auto simp: evaluate_with_cwd_def evaluate_with_cwd_details_def link_check_def Let_def dec.combine_none
      split: option.splits symlink_follow.splits)

lemma rank_combine:
  "map_option decision_rank (combine_decisions a b) =
     (case (map_option decision_rank a, map_option decision_rank b) of
        (None, y) \<Rightarrow> y | (x, None) \<Rightarrow> x | (Some x, Some y) \<Rightarrow> Some (max x y))"
  by (auto simp: combine_decisions_def max_def split: option.splits)

lemma lexical_verdicts: "evaluate_lexical_with_cwd E P access cwd = Some d \<Longrightarrow> (\<exists>r. d = Reject r) \<or> d = Ask \<or> d = Allow"
  by (auto simp: evaluate_lexical_with_cwd_def split: sum.splits if_splits access_kind.splits prod.splits)

lemma escalation_rank:
  "map_option decision_rank (escalation_only (evaluate_lexical_with_cwd E P access cwd)) =
     (case map_option decision_rank (evaluate_lexical_with_cwd E P access cwd) of
        Some r \<Rightarrow> if 2 \<le> r then Some r else None | None \<Rightarrow> None)"
  using lexical_verdicts [of E P access cwd]
  by (cases "evaluate_lexical_with_cwd E P access cwd") (auto simp: escalation_only_def)

lemma link_check_set:
  assumes "set (config_rules c1) = set (config_rules c2)"
  shows "map_option decision_rank (link_check E (policy_new E c1) access cwd) =
    map_option decision_rank (link_check E (policy_new E c2) access cwd)"
proof -
  have "native_path_restrictions_apply (policy_new E c1) access = native_path_restrictions_apply (policy_new E c2) access"
    using list_ex_set_cong [OF assms] by (simp add: native_path_restrictions_apply_def policy_new_def)
  then show ?thesis
    by (simp add: link_check_def escalation_rank lexical_set [OF assms] split: option.splits symlink_follow.splits)
qed

text \<open>
  C22. The decision does not depend on the order of the rules: two configurations with the same rules, in whatever order and
  however often repeated, reach decisions of the same severity (reject, ask, allow, or none) for every access and working directory,
  the check of symbolic links and the conjunctive allow of shell scripts included.
\<close>

theorem rule_order_is_irrelevant:
  assumes "set (config_rules c1) = set (config_rules c2)"
  shows "map_option decision_rank (evaluate_with_cwd E (policy_new E c1) access cwd) =
    map_option decision_rank (evaluate_with_cwd E (policy_new E c2) access cwd)"
  by (simp add: evaluate_is_combined rank_combine lexical_set [OF assms] link_check_set [OF assms])

text \<open>Surroundings with no globs, no links and a grammar that understands nothing.\<close>

definition bare_env :: "unit policy_env" where
  "bare_env = \<lparr>glob_new = (\<lambda>_. None), glob_matches_with = (\<lambda>_ _ _. False), url_host = (\<lambda>_. None), to_lowercase = id,
     grammar = (\<lambda>_. None), canonicalize = (\<lambda>_. None), symlink_metadata = (\<lambda>_. NotSymlink), read_link = (\<lambda>_. None)\<rparr>"

definition deny_rm :: permission_rule where
  "deny_rm = \<lparr>rule_action = RuleDeny, rule_tool = FBash, rule_pattern = Some (lit ''rm''), rule_mode = Glob\<rparr>"

definition ask_any :: permission_rule where
  "ask_any = \<lparr>rule_action = RuleAsk, rule_tool = FAny, rule_pattern = None, rule_mode = Glob\<rparr>"

theorem rule_order_is_irrelevant_witness:
  "map_option decision_rank (evaluate_with_cwd bare_env (policy_new bare_env (permission_config_new [ask_any, deny_rm]))
      (Bash (lit ''rm -rf /'') :: unit access_kind) None) = Some 3 \<and>
   map_option decision_rank (evaluate_with_cwd bare_env (policy_new bare_env (permission_config_new [deny_rm, ask_any, deny_rm]))
      (Bash (lit ''rm -rf /'') :: unit access_kind) None) = Some 3"
proof -
  have "set (config_rules (permission_config_new [ask_any, deny_rm])) = set (config_rules (permission_config_new [deny_rm, ask_any, deny_rm]))"
    by (auto simp: permission_config_new_def)
  note rule_order_is_irrelevant [OF this, of bare_env "Bash (lit ''rm -rf /'') :: unit access_kind" None]
  moreover have "map_option decision_rank (evaluate_with_cwd bare_env (policy_new bare_env (permission_config_new [ask_any, deny_rm]))
      (Bash (lit ''rm -rf /'') :: unit access_kind) None) = Some 3"
    by code_simp
  ultimately show ?thesis by simp
qed

section \<open>The commands a script runs\<close>

text \<open>
  The scripts nested in a command, once its wrappers are off: the argument of \<open>sh -c\<close> and the payload of \<open>env -S\<close>.
\<close>

definition peeled :: "rstr list \<Rightarrow> rstr list" where
  "peeled ws = norm_words (normalize_command_words ws)"

definition dash_c_scripts :: "rstr list \<Rightarrow> rstr list" where
  "dash_c_scripts ws = (case shell_dash_c_script (map LiteralWord (peeled ws)) of Literal i \<Rightarrow> [peeled ws ! i] | _ \<Rightarrow> [])"

definition nested_scripts :: "rstr list \<Rightarrow> rstr list" where
  "nested_scripts ws = dash_c_scripts ws @ (case env_split_string_script (peeled ws) of Some s \<Rightarrow> [s] | None \<Rightarrow> [])"

definition unclear :: "rstr list \<Rightarrow> bool" where
  "unclear ws \<longleftrightarrow> \<not> normalized_cleanly (normalize_command_words ws) \<or>
     shell_dash_c_script (map LiteralWord (peeled ws)) \<in> {Untrusted, Unrecognized}"

text \<open>
  The commands of a script and of the scripts nested in them, to a depth, and the scripts that are not understood that far:
  because the grammar does not take them apart, a command is unclear, or the nesting is deeper; a script may also be blank, or
  have a blank one nested in it.
\<close>

inductive runs :: "(rstr list \<Rightarrow> rstr list) \<Rightarrow> 'g policy_env \<Rightarrow> nat \<Rightarrow> rstr \<Rightarrow> rstr list \<Rightarrow> bool" for nest E where
  direct: "all_commands_from_script (grammar E) script = Some segments \<Longrightarrow> c \<in> set segments \<Longrightarrow> runs nest E depth script (pc_words c)"
| nested: "all_commands_from_script (grammar E) script = Some segments \<Longrightarrow> c \<in> set segments \<Longrightarrow> s \<in> set (nest (pc_words c)) \<Longrightarrow>
    runs nest E depth s ws \<Longrightarrow> runs nest E (Suc depth) script ws"

inductive opaque :: "(rstr list \<Rightarrow> rstr list) \<Rightarrow> 'g policy_env \<Rightarrow> nat \<Rightarrow> rstr \<Rightarrow> bool" for nest E where
  undecomposed: "all_commands_from_script (grammar E) script = None \<Longrightarrow> opaque nest E depth script"
| unclear: "all_commands_from_script (grammar E) script = Some segments \<Longrightarrow> c \<in> set segments \<Longrightarrow> unclear (pc_words c) \<Longrightarrow>
    opaque nest E depth script"
| too_deep: "all_commands_from_script (grammar E) script = Some segments \<Longrightarrow> c \<in> set segments \<Longrightarrow> nest (pc_words c) \<noteq> [] \<Longrightarrow>
    opaque nest E 0 script"
| nested_opaque: "all_commands_from_script (grammar E) script = Some segments \<Longrightarrow> c \<in> set segments \<Longrightarrow> s \<in> set (nest (pc_words c)) \<Longrightarrow>
    opaque nest E depth s \<Longrightarrow> opaque nest E (Suc depth) script"

inductive blank :: "(rstr list \<Rightarrow> rstr list) \<Rightarrow> 'g policy_env \<Rightarrow> nat \<Rightarrow> rstr \<Rightarrow> bool" for nest E where
  no_commands: "all_commands_from_script (grammar E) script = Some [] \<Longrightarrow> blank nest E depth script"
| nested_blank: "all_commands_from_script (grammar E) script = Some segments \<Longrightarrow> c \<in> set segments \<Longrightarrow> s \<in> set (nest (pc_words c)) \<Longrightarrow>
    blank nest E depth s \<Longrightarrow> blank nest E (Suc depth) script"

inductive_simps runs_0: "runs nest E 0 script ws"
inductive_simps runs_Suc: "runs nest E (Suc depth) script ws"
inductive_simps opaque_0: "opaque nest E 0 script"
inductive_simps opaque_Suc: "opaque nest E (Suc depth) script"
inductive_simps blank_0: "blank nest E 0 script"
inductive_simps blank_Suc: "blank nest E (Suc depth) script"

lemmas script_simps = runs_0 runs_Suc opaque_0 opaque_Suc blank_0 blank_Suc

section \<open>The gate\<close>

lemma gate_level_simps [simp]:
  "gate.level None = 0" "gate.level (Some AskFailClosed) = 2" "gate.level (fail_closed_if b) = (if b then 2 else 0)"
  by (simp_all add: gate.level_def fail_closed_if_def)

lemma command_words_level:
  assumes "1 \<le> k"
  shows "k \<le> gate.level (evaluate_command_words E P inline ws) \<longleftrightarrow>
    k \<le> 2 \<and> unclear ws \<or>
    k \<le> gate.level (escalate E P (join [32] ws)) \<or> k \<le> gate.level (escalate E P (join [32] (peeled ws))) \<or>
    (\<exists>s\<in>set (nested_scripts ws). k \<le> gate.level (inline s))"
proof -
  let ?norm = "normalize_command_words ws" and ?inline = "shell_dash_c_script (map LiteralWord (peeled ws))"
  have peel: "k \<le> gate.level (if length (peeled ws) \<noteq> length ws then combine_gate_decisions d (escalate E P (join [32] (peeled ws))) else d) \<longleftrightarrow>
      k \<le> gate.level d \<or> k \<le> gate.level (escalate E P (join [32] (peeled ws)))"
    if "k \<le> gate.level (escalate E P (join [32] ws)) \<Longrightarrow> k \<le> gate.level d" for d
    using normalize_same_length [of ws] that by (auto simp: peeled_def gate.level_combine le_max_iff_disj)
  have dash: "k \<le> gate.level (case ?inline of Literal i \<Rightarrow> inline (peeled ws ! i) | NotInline \<Rightarrow> None | _ \<Rightarrow> Some AskFailClosed) \<longleftrightarrow>
      k \<le> 2 \<and> ?inline \<in> {Untrusted, Unrecognized} \<or> (\<exists>s\<in>set (dash_c_scripts ws). k \<le> gate.level (inline s))"
    using assms by (simp add: dash_c_scripts_def split: inline_shell_script.split)
  have env: "k \<le> gate.level (case env_split_string_script (peeled ws) of None \<Rightarrow> d | Some s \<Rightarrow> combine_gate_decisions d (inline s)) \<longleftrightarrow>
      k \<le> gate.level d \<or> (\<exists>s\<in>set (case env_split_string_script (peeled ws) of Some s \<Rightarrow> [s] | None \<Rightarrow> []). k \<le> gate.level (inline s))" for d
    by (simp add: gate.level_combine le_max_iff_disj split: option.split)
  have flags: "k \<le> gate.level (fail_closed_if b) \<longleftrightarrow> k \<le> 2 \<and> b" for b using assms by simp
  have "k \<le> gate.level (evaluate_command_words E P inline ws) \<longleftrightarrow>
      k \<le> 2 \<and> \<not> normalized_cleanly ?norm \<or>
      k \<le> gate.level (escalate E P (join [32] ws)) \<or> k \<le> gate.level (escalate E P (join [32] (peeled ws))) \<or>
      (k \<le> 2 \<and> ?inline \<in> {Untrusted, Unrecognized} \<or> (\<exists>s\<in>set (dash_c_scripts ws). k \<le> gate.level (inline s))) \<or>
      (\<exists>s\<in>set (case env_split_string_script (peeled ws) of Some s \<Rightarrow> [s] | None \<Rightarrow> []). k \<le> gate.level (inline s))"
    unfolding evaluate_command_words_def Let_def peeled_def [symmetric] env
    unfolding gate.level_combine le_max_iff_disj dash
    by (subst peel) (auto simp only: gate.level_combine le_max_iff_disj flags normalized_cleanly_def)
  then show ?thesis unfolding unclear_def nested_scripts_def set_append by blast
qed

text \<open>What the gate says of a script, for every threshold of severity.\<close>

lemma gate_level:
  assumes "1 \<le> k"
  shows "k \<le> gate.level (evaluate_bash_command_segments E P depth script) \<longleftrightarrow>
    k \<le> 2 \<and> opaque nested_scripts E depth script \<or>
    (\<exists>ws. runs nested_scripts E depth script ws \<and>
      (k \<le> gate.level (escalate E P (join [32] ws)) \<or> k \<le> gate.level (escalate E P (join [32] (peeled ws)))))"
proof (induction depth arbitrary: script)
  case 0
  show ?case
  proof (cases "all_commands_from_script (grammar E) script")
    case None
    then show ?thesis using assms by (subst evaluate_bash_command_segments.simps) (simp add: script_simps)
  next
    case (Some segments)
    have "(\<exists>s\<in>set xs. k \<le> gate.level (Some AskFailClosed)) \<longleftrightarrow> k \<le> 2 \<and> xs \<noteq> []" for xs :: "rstr list"
      by (cases xs) auto
    then show ?thesis
      using Some assms
      by (subst evaluate_bash_command_segments.simps) (auto simp: gate.level_fold command_words_level script_simps)
  qed
next
  case (Suc depth)
  show ?case
  proof (cases "all_commands_from_script (grammar E) script")
    case None
    then show ?thesis using assms by (subst evaluate_bash_command_segments.simps) (simp add: script_simps)
  next
    case (Some segments)
    show ?thesis
      using Some assms
      by (subst evaluate_bash_command_segments.simps) (simp add: gate.level_fold command_words_level script_simps Suc, blast)
  qed
qed

lemma bash_has_no_link [simp]: "link_check E P (Bash cmd) cwd = None"
  by (simp add: link_check_def native_file_path_def)

lemma escalate_level:
  "gate.level (escalate E (policy_new E config) cmd) =
     (if deny_applies E (config_rules config) (Bash cmd :: unit access_kind) None then 4
      else if ask_applies E (config_rules config) (Bash cmd :: unit access_kind) None then 3 else 0)"
  by (simp add: escalate_def evaluate_def evaluate_is_combined dec.combine_none lexical_result Let_def gate.level_def)

lemma bash_filters: "tool_filter_matches (Bash cmd) t \<longleftrightarrow> t \<in> {FBash, FAny}"
  by (cases t) (simp_all add: tool_filter_matches_def)

lemma restriction_needed:
  assumes "deny_applies E (config_rules config) (Bash cmd :: unit access_kind) None \<or>
    ask_applies E (config_rules config) (Bash cmd :: unit access_kind) None"
  shows "has_bash_command_restrictions (policy_new E config)"
  using assms
  by (auto simp: deny_applies_def ask_applies_def list_ex_iff rule_applies_def policy_new_def restricts_def bash_filters)

lemma verdict_of_level:
  "map_option decision_rank (map_option into_decision d) =
     (if 4 \<le> gate.level d then Some 3 else if 1 \<le> gate.level d then Some 2 else None)"
  by (cases d rule: option.exhaust; (cases "the d")?) (auto simp: gate.level_def)

text \<open>A script runs a command, wrapped or peeled, of which something holds.\<close>

definition runs_matching :: "'g policy_env \<Rightarrow> rstr \<Rightarrow> (rstr \<Rightarrow> bool) \<Rightarrow> bool" where
  "runs_matching E script hit \<longleftrightarrow>
     (\<exists>ws. runs nested_scripts E MAX_INLINE_SHELL_DEPTH script ws \<and> (hit (join [32] ws) \<or> hit (join [32] (peeled ws))))"

lemma bash_gate_rank:
  "map_option decision_rank (evaluate_bash_command_policy E (policy_new E config) script) =
     (if runs_matching E script (\<lambda>cmd. deny_applies E (config_rules config) (Bash cmd :: unit access_kind) None) then Some 3
      else if runs_matching E script (\<lambda>cmd. ask_applies E (config_rules config) (Bash cmd :: unit access_kind) None) \<or>
        has_bash_command_restrictions (policy_new E config) \<and> opaque nested_scripts E MAX_INLINE_SHELL_DEPTH script then Some 2
      else None)"
proof (cases "has_bash_command_restrictions (policy_new E config)")
  case False
  then have "\<not> deny_applies E (config_rules config) (Bash cmd :: unit access_kind) None"
    "\<not> ask_applies E (config_rules config) (Bash cmd :: unit access_kind) None" for cmd
    using restriction_needed [of E config cmd] by blast+
  then show ?thesis
    using False by (simp add: evaluate_bash_command_policy_def evaluate_bash_command_gate_def runs_matching_def)
next
  case True
  have "4 \<le> gate.level (escalate E (policy_new E config) cmd) \<longleftrightarrow> deny_applies E (config_rules config) (Bash cmd :: unit access_kind) None"
    "1 \<le> gate.level (escalate E (policy_new E config) cmd) \<longleftrightarrow>
       deny_applies E (config_rules config) (Bash cmd :: unit access_kind) None \<or>
       ask_applies E (config_rules config) (Bash cmd :: unit access_kind) None" for cmd
    by (simp_all add: escalate_level)
  moreover have "k \<le> gate.level (evaluate_bash_command_gate E (policy_new E config) script) \<longleftrightarrow>
      k \<le> 2 \<and> opaque nested_scripts E MAX_INLINE_SHELL_DEPTH script \<or>
      runs_matching E script (\<lambda>cmd. k \<le> gate.level (escalate E (policy_new E config) cmd))" if "1 \<le> k" for k
    using gate_level [OF that] True by (simp add: evaluate_bash_command_gate_def runs_matching_def)
  ultimately show ?thesis
    using True unfolding evaluate_bash_command_policy_def verdict_of_level by (auto simp: runs_matching_def)
qed

text \<open>
  C4. The gate sees every command: the policy rejects a shell script exactly when a deny rule applies to some command that the
  script runs, as it is written or with its wrappers peeled off, at any depth of nested \<open>sh -c\<close> and \<open>env -S\<close> scripts up to the
  bound; otherwise it asks exactly when an ask rule applies to such a command or, there being a deny or ask rule for
  shell commands at all, the script is not understood completely; otherwise it is silent.
\<close>

theorem gate_verdict:
  "map_option decision_rank (evaluate_bash_command_policy E (policy_new E config) script) =
     (if runs_matching E script (\<lambda>cmd. deny_applies E (config_rules config) (Bash cmd :: unit access_kind) None) then Some 3
      else if runs_matching E script (\<lambda>cmd. ask_applies E (config_rules config) (Bash cmd :: unit access_kind) None) \<or>
        has_bash_command_restrictions (policy_new E config) \<and> opaque nested_scripts E MAX_INLINE_SHELL_DEPTH script then Some 2
      else None)"
  by (rule bash_gate_rank)

section \<open>The conjunctive allow\<close>

lemma segment_verdict:
  "segment_allowed E P scope inline_ok c \<longleftrightarrow>
     \<not> unclear (pc_words c) \<and> bash_words_allowed E P scope (peeled (pc_words c)) \<and> list_all inline_ok (dash_c_scripts (pc_words c))"
  by (auto simp: segment_allowed_def unclear_def peeled_def dash_c_scripts_def Let_def split: inline_shell_script.splits)

lemma chain_verdict:
  "bash_chain_fully_allowed E P depth scope script \<longleftrightarrow>
     \<not> opaque dash_c_scripts E depth script \<and> \<not> blank dash_c_scripts E depth script \<and>
     (\<forall>ws. runs dash_c_scripts E depth script ws \<longrightarrow> bash_words_allowed E P scope (peeled ws))"
proof (induction depth arbitrary: script)
  case 0
  have none: "list_all (\<lambda>s. False) xs \<longleftrightarrow> xs = []" for xs :: "rstr list" by (cases xs) simp_all
  show ?case
  proof (cases "all_commands_from_script (grammar E) script")
    case None
    then show ?thesis by (subst bash_chain_fully_allowed.simps) (simp add: script_simps)
  next
    case (Some segments)
    then show ?thesis
      by (subst bash_chain_fully_allowed.simps) (auto simp: script_simps list_all_iff segment_verdict)
  qed
next
  case (Suc depth)
  show ?case
  proof (cases "all_commands_from_script (grammar E) script")
    case None
    then show ?thesis by (subst bash_chain_fully_allowed.simps) (simp add: script_simps)
  next
    case (Some segments)
    then show ?thesis
      by (subst bash_chain_fully_allowed.simps) (simp add: script_simps list_all_iff segment_verdict Suc, blast)
  qed
qed

text \<open>An allow rule of the configuration for the words of a command.\<close>

definition allow_rule_for :: "'g policy_env \<Rightarrow> permission_config \<Rightarrow> rstr list \<Rightarrow> bool" where
  "allow_rule_for E config ws \<longleftrightarrow>
     list_ex (\<lambda>r. rule_action r = RuleAllow \<and> rule_tool r \<in> {FBash, FAny} \<and>
       bash_allow_pattern_matches E (join [32] ws) r (compile_matcher E r)) (config_rules config)"

lemma some_command_runs:
  "\<not> opaque nest E depth script \<Longrightarrow> \<not> blank nest E depth script \<Longrightarrow> \<exists>ws. runs nest E depth script ws"
  by (metis blank.no_commands list.set_intros(1) neq_Nil_conv not_None_eq opaque.undecomposed runs.direct)

text \<open>
  C12. Allowing a shell script is conjunctive: the policy allows a script exactly when no deny and no ask rule applies to its text,
  the script and the scripts nested in it are understood completely and none is blank, and every command they run is, with its
  wrappers peeled off, a nonempty command that some allow rule matches; an allow rule for one command never covers another one chained
  to it.
\<close>

theorem bash_allow_is_conjunctive:
  "evaluate_with_cwd E (policy_new E config) (Bash script :: 'json access_kind) cwd = Some Allow \<longleftrightarrow>
     \<not> deny_applies E (config_rules config) (Bash script :: 'json access_kind) cwd \<and>
     \<not> ask_applies E (config_rules config) (Bash script :: 'json access_kind) cwd \<and>
     \<not> opaque dash_c_scripts E MAX_INLINE_SHELL_DEPTH script \<and> \<not> blank dash_c_scripts E MAX_INLINE_SHELL_DEPTH script \<and>
     (\<forall>ws. runs dash_c_scripts E MAX_INLINE_SHELL_DEPTH script ws \<longrightarrow> peeled ws \<noteq> [] \<and> allow_rule_for E config (peeled ws))"
proof -
  have words: "bash_words_allowed E (policy_new E config) AnyRule ws \<longleftrightarrow> ws \<noteq> [] \<and> allow_rule_for E config ws" for ws
    by (simp add: words_allowed_set allow_rule_for_def)
  have some: "allow_rule_for E config ws \<Longrightarrow> has_bash_allow_rules (policy_new E config)" for ws
    by (auto simp: allow_rule_for_def policy_new_def list_ex_iff)
  have needs: "bash_chain_fully_allowed E (policy_new E config) MAX_INLINE_SHELL_DEPTH AnyRule script \<Longrightarrow> has_bash_allow_rules (policy_new E config)"
    using some_command_runs [of dash_c_scripts E MAX_INLINE_SHELL_DEPTH script] some
    unfolding chain_verdict words by blast
  show ?thesis
    using needs unfolding evaluate_is_combined lexical_result Let_def bash_has_no_link dec.combine_none chain_verdict words
    by simp blast
qed

text \<open>A grammar that knows the one script \<open>ls\<close>, and a rule that allows it.\<close>

definition ls_env :: "unit policy_env" where
  "ls_env = bare_env\<lparr>grammar := (\<lambda>s. if s = lit ''ls'' then
     Some \<lparr>root_node = Node (lit ''program'') True 0 2 None
       [Node (lit ''command'') True 0 2 None [Node (lit ''command_name'') True 0 2 (Some (lit ''name'')) [Node (lit ''word'') True 0 2 None []]]], tree_has_error = False\<rparr> else None)\<rparr>"

definition allow_ls :: permission_config where
  "allow_ls = permission_config_new [\<lparr>rule_action = RuleAllow, rule_tool = FBash, rule_pattern = Some (lit ''ls''), rule_mode = Glob\<rparr>]"

theorem bash_allow_is_conjunctive_witness:
  "evaluate_with_cwd ls_env (policy_new ls_env allow_ls) (Bash (lit ''ls'') :: unit access_kind) None = Some Allow \<and>
   runs dash_c_scripts ls_env MAX_INLINE_SHELL_DEPTH (lit ''ls'') [lit ''ls''] \<and> allow_rule_for ls_env allow_ls (peeled [lit ''ls''])"
proof -
  have allow: "evaluate_with_cwd ls_env (policy_new ls_env allow_ls) (Bash (lit ''ls'') :: unit access_kind) None = Some Allow"
    by code_simp
  have "map_option (map pc_words) (all_commands_from_script (grammar ls_env) (lit ''ls'')) = Some [[lit ''ls'']]" by code_simp
  then obtain segments c where "all_commands_from_script (grammar ls_env) (lit ''ls'') = Some segments" "c \<in> set segments" "pc_words c = [lit ''ls'']"
    by auto
  then have runs: "runs dash_c_scripts ls_env MAX_INLINE_SHELL_DEPTH (lit ''ls'') [lit ''ls'']"
    using runs.direct [of ls_env "lit ''ls''" segments c dash_c_scripts MAX_INLINE_SHELL_DEPTH] by simp
  then show ?thesis
    using allow bash_allow_is_conjunctive [of ls_env allow_ls "lit ''ls''" None, where 'json = unit] by blast
qed

section \<open>Symbolic links\<close>

definition decision_level :: "decision option \<Rightarrow> nat" where
  "decision_level d = (case d of None \<Rightarrow> 0 | Some x \<Rightarrow> Suc (decision_rank x))"

lemma decision_level: "decision_level = dec.level"
  by (intro ext) (simp add: decision_level_def dec.level_def)

text \<open>What following the links of the path of an access finds; an access without a path, or without an absolute one, has no links.\<close>

definition link_of :: "'g policy_env \<Rightarrow> 'json access_kind \<Rightarrow> rstr option \<Rightarrow> symlink_follow" where
  "link_of E access cwd =
     (case native_file_path access of
        None \<Rightarrow> FollowNone
      | Some path \<Rightarrow>
          (case raw_absolute_tool_path path cwd of
             None \<Rightarrow> FollowNone
           | Some raw \<Rightarrow> follow_absolute_symlink E raw (path_match_string (absolute_normalized_path path cwd))))"

lemma link_check_of:
  "link_check E P access cwd =
     (case link_of E access cwd of
        FollowNone \<Rightarrow> None
      | Target t \<Rightarrow> escalation_only (evaluate_lexical_with_cwd E P (access_with_path access t) cwd)
      | Unresolvable \<Rightarrow> if native_path_restrictions_apply P access then Some Ask else None)"
  by (simp add: link_check_def link_of_def split: option.split)

lemma escalated_level:
  "decision_level (escalation_only (evaluate_lexical_with_cwd E (policy_new E config) access cwd)) =
     (if deny_applies E (config_rules config) access cwd then 4 else if ask_applies E (config_rules config) access cwd then 3 else 0)"
  by (auto simp: lexical_result escalation_only_def decision_level_def Let_def split: access_kind.split)

text \<open>
  C27. Symbolic links only escalate a decision, and by how much depends on what the links lead to.  Where following them leads to another
  path, the decision is as severe as the stricter of the decision for the path as written and of the deny and ask rules for the target
  (an allow rule for the target counts for nothing).  Where they cannot be followed, the access is asked about at least, provided that the
  policy has some deny or ask rule for this kind of access; without such a rule, and where there is no link, the decision for the path as
  written stands.
\<close>

theorem links_only_escalate:
  "decision_level (evaluate_lexical_with_cwd E (policy_new E config) access cwd) \<le> decision_level (evaluate_with_cwd E (policy_new E config) access cwd) \<and>
   (case link_of E access cwd of
      Target t \<Rightarrow>
        decision_level (evaluate_with_cwd E (policy_new E config) access cwd) =
        max (decision_level (evaluate_lexical_with_cwd E (policy_new E config) access cwd))
          (if deny_applies E (config_rules config) (access_with_path access t) cwd then 4
           else if ask_applies E (config_rules config) (access_with_path access t) cwd then 3 else 0)
    | Unresolvable \<Rightarrow>
        if list_ex (\<lambda>r. rule_action r \<in> {RuleDeny, RuleAsk} \<and> tool_filter_matches access (rule_tool r)) (config_rules config)
        then decision_level (evaluate_with_cwd E (policy_new E config) access cwd) =
          max (decision_level (evaluate_lexical_with_cwd E (policy_new E config) access cwd)) (decision_level (Some Ask))
        else evaluate_with_cwd E (policy_new E config) access cwd = evaluate_lexical_with_cwd E (policy_new E config) access cwd
    | FollowNone \<Rightarrow> evaluate_with_cwd E (policy_new E config) access cwd = evaluate_lexical_with_cwd E (policy_new E config) access cwd)"
proof -
  have "native_path_restrictions_apply (policy_new E config) access \<longleftrightarrow>
      list_ex (\<lambda>r. rule_action r \<in> {RuleDeny, RuleAsk} \<and> tool_filter_matches access (rule_tool r)) (config_rules config)"
    by (auto simp: native_path_restrictions_apply_def policy_new_def restricts_def list_ex_iff)
  then show ?thesis
    by (cases "link_of E access cwd")
      (simp_all add: evaluate_is_combined link_check_of decision_level dec.level_combine escalated_level [unfolded decision_level] dec.combine_none)
qed

end
