(* ===== verification/Grant_Decisions.thy ===== *)
theory Grant_Decisions
  imports Bash_Grants Permission_Gates
begin

text \<open>
  What remembered permissions decide about a shell command: the loop of \<open>evaluate_bash\<close> and the grant gate of \<open>manager/mod.rs\<close>
  against a rule over the commands of the script, and what an answer at a given scope stores (\<open>manager/bash_grants.rs\<close>).
\<close>

section \<open>The loop over the commands\<close>

abbreviation seg_words :: "plain_command \<Rightarrow> rstr list" where
  "seg_words seg \<equiv> unwrap_wrappers (pc_words seg)"

definition denial :: "permission_state \<Rightarrow> rstr \<Rightarrow> bool" where
  "denial st s = list_ex (matches_command_prefix s) (disallowed_bash_commands st)"

definition seg_denied :: "permission_state \<Rightarrow> plain_command \<Rightarrow> bool" where
  "seg_denied st seg \<longleftrightarrow> \<not> is_setup_command (seg_words seg) \<and> denial st (join [32] (seg_words seg))"

definition seg_special :: "permission_state \<Rightarrow> rstr list \<Rightarrow> bool" where
  "seg_special st ws \<longleftrightarrow> special_exec_surface ws \<and> join [32] ws \<notin> set (allowed_bash_commands st)"

definition seg_dangerous :: "plain_command \<Rightarrow> bool" where
  "seg_dangerous seg \<longleftrightarrow> \<not> is_setup_command (seg_words seg) \<and> is_dangerous_command_words (seg_words seg)"

text \<open>A command that needs no prompt.\<close>

definition seg_cleared :: "'g policy_env \<Rightarrow> permission_state \<Rightarrow> bool \<Rightarrow> plain_command \<Rightarrow> bool" where
  "seg_cleared E st honor seg \<longleftrightarrow>
     (let ws = seg_words seg
      in is_setup_command ws \<or>
         \<not> is_dangerous_command_words ws \<and> \<not> seg_special st ws \<and> (matched_grant E st ws \<or> matched_safe honor ws))"

definition seg_findings :: "permission_state \<Rightarrow> plain_command \<Rightarrow> assessment" where
  "seg_findings st seg =
     (let ws = seg_words seg
      in (if words_are_opaque_shell (map LiteralWord ws) then {OpaqueShell} else {}) \<union>
         (if facts_exec_risk (segment_exec_facts (pc_words seg)) then {ExecOrAmbientGit} else {}) \<union>
         (if is_setup_command ws then {}
          else if is_dangerous_command_words ws then {DangerousCommand}
          else if seg_special st ws then {SpecialExecSurface} else {}))"

lemma find_denial: "find (matches_command_prefix s) (disallowed_bash_commands st) = None \<longleftrightarrow> \<not> denial st s"
  by (auto simp: denial_def find_None_iff list_ex_iff)

lemma loop_denied: "(\<exists>r. segments_loop E st honor segs s = Inl r) \<longleftrightarrow> list_ex (seg_denied st) segs"
proof (induction segs arbitrary: s)
  case (Cons seg segs)
  show ?case
    using Cons.IH find_denial [of "join [32] (seg_words seg)" st]
    by (auto simp: Let_def seg_denied_def split: option.splits)
qed simp

lemma note_frame [simp]:
  "seg_needs_prompt (note_segment ws s) = seg_needs_prompt s"
  "seg_via_grant (note_segment ws s) = seg_via_grant s"
  "seg_all_granted (note_segment ws s) = seg_all_granted s"
  by (simp_all add: note_segment_def Let_def)

lemma judge_prompt:
  "\<not> is_setup_command (seg_words seg) \<Longrightarrow>
   (seg_needs_prompt (judge_segment E st honor (seg_words seg) s) = []) \<longleftrightarrow> seg_needs_prompt s = [] \<and> seg_cleared E st honor seg"
  by (simp add: judge_segment_def seg_cleared_def seg_special_def Let_def)

lemma judge_findings:
  "\<not> is_setup_command (seg_words seg) \<Longrightarrow>
   seg_assessment (judge_segment E st honor (seg_words seg) (note_segment (pc_words seg) s)) = seg_assessment s \<union> seg_findings st seg"
  by (auto simp: judge_segment_def note_segment_def seg_findings_def seg_special_def Let_def)

lemma note_findings:
  "is_setup_command (seg_words seg) \<Longrightarrow> seg_assessment (note_segment (pc_words seg) s) = seg_assessment s \<union> seg_findings st seg"
  by (auto simp: note_segment_def seg_findings_def Let_def)

lemma loop_outcome:
  assumes "segments_loop E st honor segs s = Inr t"
  shows "seg_needs_prompt t = [] \<longleftrightarrow> seg_needs_prompt s = [] \<and> list_all (seg_cleared E st honor) segs"
    and "seg_assessment t = seg_assessment s \<union> \<Union> (seg_findings st ` set segs)"
proof -
  have "(seg_needs_prompt t = [] \<longleftrightarrow> seg_needs_prompt s = [] \<and> list_all (seg_cleared E st honor) segs) \<and>
        seg_assessment t = seg_assessment s \<union> \<Union> (seg_findings st ` set segs)"
    using assms
  proof (induction segs arbitrary: s)
    case (Cons seg segs)
    show ?case
    proof (cases "is_setup_command (seg_words seg)")
      case True
      then have "seg_cleared E st honor seg" by (simp add: seg_cleared_def)
      with True Cons.IH Cons.prems show ?thesis by (simp add: note_findings [of _ _ st] Un_assoc)
    next
      case False
      with Cons.prems have
        "segments_loop E st honor segs (judge_segment E st honor (seg_words seg) (note_segment (pc_words seg) s)) = Inr t"
        by (auto simp: Let_def split: option.splits)
      from Cons.IH [OF this] False show ?thesis by (simp add: judge_prompt judge_findings Un_assoc)
    qed
  qed simp
  then show "seg_needs_prompt t = [] \<longleftrightarrow> seg_needs_prompt s = [] \<and> list_all (seg_cleared E st honor) segs"
    and "seg_assessment t = seg_assessment s \<union> \<Union> (seg_findings st ` set segs)" by simp_all
qed

section \<open>The verdict\<close>

definition script_denied :: "'g policy_env \<Rightarrow> rstr \<Rightarrow> permission_state \<Rightarrow> bool" where
  "script_denied E cmd st \<longleftrightarrow>
     (case all_commands_from_script (grammar E) cmd of
        Some segs \<Rightarrow> list_ex (seg_denied st) segs
      | None \<Rightarrow> denial st cmd)"

lemma tree_findings_no_danger [simp]: "DangerousCommand \<notin> tree_findings tree cmd segs"
  by (auto simp: tree_findings_def env_risk_finding_def Let_def split: env_risk.splits)


lemma danger_found: "DangerousCommand \<in> \<Union> (seg_findings st ` set segs) \<longleftrightarrow> list_ex seg_dangerous segs"
  by (auto simp: seg_findings_def seg_dangerous_def list_ex_iff Let_def split: if_splits)

text \<open>
  What keeps a grant for commands from covering a script, whatever the commands: it writes to a file that is no sink, or with a redirect that
  could not be read, it sets environment variables other than known safe ones, or one of its commands is an opaque shell, may execute code
  through its configuration, or is one of the special surfaces that is neither dangerous nor granted word for word.
\<close>

definition has_floor :: "ts_tree \<Rightarrow> rstr \<Rightarrow> permission_state \<Rightarrow> plain_command list \<Rightarrow> bool" where
  "has_floor tree cmd st segs \<longleftrightarrow>
     (let w = command_write_paths_split (root_node tree) cmd
      in unextracted_write_redirect w \<or> list_ex (\<lambda>p. \<not> is_safe_write_sink p) (redirect_paths w @ word_paths w)) \<or>
     script_env_risk (root_node tree) cmd segs \<noteq> RiskSafe \<or>
     list_ex (\<lambda>seg. words_are_opaque_shell (map LiteralWord (seg_words seg)) \<or> facts_exec_risk (segment_exec_facts (pc_words seg)) \<or>
       \<not> is_setup_command (seg_words seg) \<and> \<not> is_dangerous_command_words (seg_words seg) \<and> seg_special st (seg_words seg)) segs"

text \<open>A grant for exactly this script: its text, or the words of its one command if the joined words parse back to them.\<close>

definition granted_whole :: "'g policy_env \<Rightarrow> rstr \<Rightarrow> plain_command list \<Rightarrow> permission_state \<Rightarrow> bool" where
  "granted_whole E cmd segs st \<longleftrightarrow>
     cmd \<in> set (allowed_bash_commands st) \<or>
     (\<exists>only. segs = [only] \<and> spans_whole_script only cmd \<and> words_join_unambiguously E (pc_words only) \<and>
        join [32] (pc_words only) \<in> set (allowed_bash_commands st))"

text \<open>
  What the grants cover before the classifier runs: an undecomposed script only by its exact text; a decomposed one if it has no
  floor or is granted as a whole, and every command is cleared on its own, or the rest is covered by the exact script
  or the blanket grant, the latter only without a pin and without a dangerous command.
\<close>

definition grants_cover :: "'g policy_env \<Rightarrow> rstr \<Rightarrow> permission_state \<Rightarrow> rstr option \<Rightarrow> bool" where
  "grants_cover E cmd st pin =
     (case grammar E cmd of
        None \<Rightarrow> cmd \<in> set (allowed_bash_commands st)
      | Some tree \<Rightarrow>
          (case try_parse_word_only_commands_sequence tree cmd of
             None \<Rightarrow> cmd \<in> set (allowed_bash_commands st)
           | Some segs \<Rightarrow>
               (granted_whole E cmd segs st \<or> \<not> has_floor tree cmd st segs) \<and>
               (list_all (seg_cleared E st True) segs \<or>
                (if list_ex seg_dangerous segs then granted_whole E cmd segs st
                 else allow_bash_execute st \<and> pin = None \<or> cmd \<in> set (allowed_bash_commands st)))))"

lemma whole_grant: "whole_script_grant E cmd segs st \<longleftrightarrow> granted_whole E cmd segs st"
  by (auto simp: whole_script_grant_def granted_whole_def split: list.splits)

lemma tree_floor:
  "constrains_broad_grant (tree_findings tree cmd segs) \<longleftrightarrow>
     (let w = command_write_paths_split (root_node tree) cmd
      in unextracted_write_redirect w \<or> list_ex (\<lambda>p. \<not> is_safe_write_sink p) (redirect_paths w @ word_paths w)) \<or>
     script_env_risk (root_node tree) cmd segs \<noteq> RiskSafe"
  by (auto simp: constrains_broad_grant_def tree_findings_def redirect_writes_def unsafe_write_def env_risk_finding_def Let_def
      split: env_risk.splits)

lemma segment_floor:
  "constrains_broad_grant (seg_findings st seg) \<longleftrightarrow>
     words_are_opaque_shell (map LiteralWord (seg_words seg)) \<or> facts_exec_risk (segment_exec_facts (pc_words seg)) \<or>
     \<not> is_setup_command (seg_words seg) \<and> \<not> is_dangerous_command_words (seg_words seg) \<and> seg_special st (seg_words seg)"
  by (auto simp: constrains_broad_grant_def seg_findings_def Let_def)

lemma script_floor:
  "constrains_broad_grant (tree_findings tree cmd segs \<union> \<Union> (seg_findings st ` set segs)) \<longleftrightarrow> has_floor tree cmd st segs"
proof -
  have "constrains_broad_grant (A \<union> \<Union> (f ` set xs)) \<longleftrightarrow> constrains_broad_grant A \<or> list_ex (\<lambda>x. constrains_broad_grant (f x)) xs"
    for A :: assessment and f :: "plain_command \<Rightarrow> assessment" and xs
    by (auto simp: constrains_broad_grant_def list_ex_iff)
  then show ?thesis by (simp add: tree_floor segment_floor has_floor_def)
qed

lemma undecomposed_segments:
  "(\<exists>r. eval_segments (undecomposed_evaluation cmd st a) = SegReject r) \<longleftrightarrow> denial st cmd"
  "\<not> denial st cmd \<Longrightarrow> eval_segments (undecomposed_evaluation cmd st a) = Unparseable"
  "exact_grant (undecomposed_evaluation cmd st a) \<longleftrightarrow> cmd \<in> set (allowed_bash_commands st)"
  using find_denial [of cmd st]
  by (auto simp: undecomposed_evaluation_def raw_deny_rejection_def split: option.splits)

lemma rejected_iff:
  "(\<exists>r. eval_segments (evaluate_bash E cmd st honor) = SegReject r) \<longleftrightarrow> script_denied E cmd st"
proof (cases "all_commands_from_script (grammar E) cmd")
  case None
  then show ?thesis
    using undecomposed_segments(1) [of cmd st]
    by (auto simp: evaluate_bash_def script_denied_def all_commands_from_script_def Let_def split: option.splits)
next
  case (Some segs)
  then obtain tree where t: "grammar E cmd = Some tree" "try_parse_word_only_commands_sequence tree cmd = Some segs"
    by (auto simp: all_commands_from_script_def split: option.splits)
  let ?l = "segments_loop E st honor segs (initial_segments (tree_findings tree cmd segs))"
  have "(\<exists>r. eval_segments (evaluate_bash E cmd st honor) = SegReject r) \<longleftrightarrow> (\<exists>r. ?l = Inl r)"
    using t by (auto simp: evaluate_bash_def Let_def split: sum.splits)
  then show ?thesis using Some loop_denied [of E st honor segs] by (simp add: script_denied_def)
qed

text \<open>
  A remembered "never allow" is final: whatever is granted, whichever options the gate runs with and whatever the pin, the
  grant gate rejects a script as a session denial exactly when a denied prefix matches one of its commands with the wrappers
  peeled (other than a set-up command), or the raw text of a script that does not decompose into plain commands.
\<close>

theorem remembered_deny_wins:
  "(\<exists>reason. bash_grant_pre_decision cmd (evaluate_bash E cmd st honor) st pin opts = Some (Reject reason, SESSION_DENY)) \<longleftrightarrow>
   script_denied E cmd st"
proof -
  have "(\<exists>reason. bash_grant_pre_decision cmd ev st pin opts = Some (Reject reason, SESSION_DENY)) \<longleftrightarrow>
        (\<exists>r. eval_segments ev = SegReject r)" for ev
    by (cases "eval_segments ev") (auto simp: bash_grant_pre_decision_def grant_if_def)
  then show ?thesis by (simp add: rejected_iff)
qed


section \<open>Scopes\<close>

lemma join_longer: "xs \<noteq> [] \<Longrightarrow> ys \<noteq> [] \<Longrightarrow> length (join [c] xs) < length (join [c] (xs @ ys))"
proof (induction xs rule: induct_list012)
  case (2 x)
  then show ?case by (cases ys) simp_all
qed simp_all

lemma join_take_inject:
  assumes "join [32] (take m ws) = join [32] (take n ws)" "1 \<le> m" "m \<le> length ws" "1 \<le> n" "n \<le> length ws"
  shows "m = n"
proof -
  have longer: "length (join [32] (take i ws)) < length (join [32] (take j ws))" if "1 \<le> i" "i < j" "j \<le> length ws" for i j
  proof -
    have "take j ws = take i ws @ drop i (take j ws)" using that by (metis append_take_drop_id min.absorb1 less_imp_le take_take)
    moreover have "take i ws \<noteq> []" "drop i (take j ws) \<noteq> []" using that by auto
    ultimately show ?thesis using join_longer [of "take i ws" "drop i (take j ws)" 32] by simp
  qed
  show ?thesis using longer [of m n] longer [of n m] assms by (cases m n rule: linorder_cases) auto
qed

text \<open>
  What the prompt offers is what an answer stores.  For a script with a primary command, choosing the scope of its first
  \<open>n\<close> words adds exactly one key, the words joined by blanks if they parse back to themselves and the raw script otherwise, when
  the arrows of the prompt offer that scope, and stores nothing when they skip it; nothing else of the remembered state changes.
\<close>

theorem scope_offered_iff_stored:
  assumes "primary_command_from_script (grammar E) cmd = Some h" "1 \<le> n" "n \<le> length (highlighted_words h)"
  shows "persist_bash_always_allow E cmd (join [32] (take n (highlighted_words h))) st =
    (if always_allow_scope_persists E h n then
       st\<lparr>allowed_bash_commands := hash_insert
            (if words_join_unambiguously E (take n (highlighted_words h)) then join [32] (take n (highlighted_words h)) else cmd)
            (allowed_bash_commands st)\<rparr>
     else st)"
proof -
  let ?ws = "highlighted_words h" and ?min = "minimum_always_allow_scope (highlighted_words h)"
  have ne: "?ws \<noteq> []" using assms by auto
  note b = scopes_bounded [OF ne]
  have same: "join [32] (take m ?ws) = join [32] (take n ?ws) \<longleftrightarrow> m = n" if "?min \<le> m" "m \<le> length ?ws" for m
    using join_take_inject [of m ?ws n] that assms b(1) by auto
  let ?u = "words_join_unambiguously E (take n ?ws)"
  define full where "full \<longleftrightarrow> n = length ?ws \<and> hl_prefix h = [] \<and> hl_suffix h = []"
  have verified: "list_ex (\<lambda>m. words_join_unambiguously E (take m ?ws) \<and> join [32] (take m ?ws) = join [32] (take n ?ws))
      [?min..<Suc (length ?ws)] \<longleftrightarrow> ?min \<le> n \<and> ?u"
    using same assms(3) by (auto simp: list_ex_iff less_Suc_eq_le)
  have whole: "join [32] ?ws = join [32] (take n ?ws) \<longleftrightarrow> n = length ?ws"
    using same [of "length ?ws"] b by (auto simp: eq_commute)
  have stored: "persist_bash_always_allow E cmd (join [32] (take n ?ws)) st =
      (if ?min \<le> n \<and> ?u then st\<lparr>allowed_bash_commands := hash_insert (join [32] (take n ?ws)) (allowed_bash_commands st)\<rparr>
       else if full then st\<lparr>allowed_bash_commands := hash_insert cmd (allowed_bash_commands st)\<rparr> else st)"
    unfolding persist_bash_always_allow_def assms(1) Let_def option.case verified whole full_def by (simp only: conj_comms conj_assoc)
  have offered: "always_allow_scope_persists E h n \<longleftrightarrow> ?min \<le> n \<and> (?u \<or> full)"
    using assms(2,3) by (simp add: always_allow_scope_persists_def full_def Let_def not_le)
  have "full \<Longrightarrow> ?min \<le> n" using b by (simp add: full_def)
  then show ?thesis unfolding stored offered by (cases ?u; cases full; cases "?min \<le> n") simp_all
qed

theorem scope_offered_iff_stored_witness:
  "\<exists>h. primary_command_from_script (grammar ls_env) (lit ''ls'') = Some h \<and> (1::nat) \<le> 1 \<and> 1 \<le> length (highlighted_words h) \<and>
    allowed_bash_commands (persist_bash_always_allow ls_env (lit ''ls'') (join [32] (take 1 (highlighted_words h))) default_state) = [lit ''ls'']"
proof -
  have "map_option highlighted_words (primary_command_from_script (grammar ls_env) (lit ''ls'')) = Some [lit ''ls'']" by code_simp
  then obtain h where h: "primary_command_from_script (grammar ls_env) (lit ''ls'') = Some h" "highlighted_words h = [lit ''ls'']" by auto
  have "always_allow_scope_persists ls_env h 1"
    unfolding always_allow_scope_persists_def h(2) by code_simp
  with h scope_offered_iff_stored [OF h(1), of 1 default_state] show ?thesis
    by (auto simp: default_state_def hash_insert_def)
qed

section \<open>A push behind a global option\<close>

text \<open>
  The check for \<open>git push\<close> looks at the second word.  A global option before the verb hides the push, and the default scope for
  a harmless command with the same option stores a prefix that covers it.
\<close>

lemma push_behind_global_option:
  "is_dangerous_command_words [lit ''git'', lit ''push'', lit ''--force'']"
  "\<not> is_dangerous_command_words [lit ''git'', lit ''--no-pager'', lit ''push'', lit ''--force'']"
  "\<not> always_allow_scope_pinned [lit ''git'', lit ''--no-pager'', lit ''push'', lit ''--force'']"
  "\<not> special_exec_surface [lit ''git'', lit ''--no-pager'', lit ''push'', lit ''--force'']"
  "\<not> facts_exec_risk (segment_exec_facts [lit ''git'', lit ''--no-pager'', lit ''push'', lit ''--force''])"
  "default_always_allow_scope [lit ''git'', lit ''--no-pager'', lit ''commit''] = 2"
  "matches_command_prefix (lit ''git --no-pager push --force'') (lit ''git --no-pager'')"
  by code_simp+

end
