(* ===== verification/Shell_Access.thy ===== *)
theory Shell_Access
  imports Shell_Operands Permission_Gates
begin

text \<open>
  The gate for files that a shell script touches
  (\<open>packages/tools/xai-grok-workspace/src/permission/shell_access.rs\<close>): every redirect and every operand that names a file
  is judged by the rules for the read and edit tools, so that a deny on a file cannot be bypassed through the shell.
\<close>

section \<open>Paths as the shell spells them\<close>

definition is_absolute_shell_path :: "rstr \<Rightarrow> bool" where
  "is_absolute_shell_path path \<longleftrightarrow> starts_with path (lit ''/'') \<or> starts_with path (lit ''~/'') \<or> second_byte_is_colon path"

definition normalize_shell_path_raw :: "rstr \<Rightarrow> rstr" where
  "normalize_shell_path_raw path =
     (let p = map (\<lambda>c. if c = 92 then 47 else c) (trim_end_matches (\<lambda>c. c = 34 \<or> c = 39) (dropWhile (\<lambda>c. c = 34 \<or> c = 39) path))
      in case strip_prefix p (lit ''/c/'') of Some rest \<Rightarrow> lit ''C:/'' @ rest | None \<Rightarrow> p)"

fun normalize_segments :: "bool \<Rightarrow> rstr list \<Rightarrow> rstr list \<Rightarrow> rstr list" where
  "normalize_segments absolute [] out = out"
| "normalize_segments absolute (segment # rest) out =
     (if segment = [] \<or> segment = lit ''.'' then normalize_segments absolute rest out
      else if segment = lit ''..'' then
        (if out \<noteq> [] \<and> last out \<noteq> lit ''..'' then normalize_segments absolute rest (butlast out)
         else if \<not> absolute then normalize_segments absolute rest (out @ [lit ''..''])
         else normalize_segments absolute rest out)
      else normalize_segments absolute rest (out @ [segment]))"

definition lexical_normalize :: "rstr \<Rightarrow> rstr" where
  "lexical_normalize path =
     (let prefix_len = (if second_byte_is_colon path then 2 else 0);
          pre = take prefix_len path; rest = drop prefix_len path;
          absolute = starts_with rest (lit ''/'');
          body = join (lit ''/'') (normalize_segments absolute (split_on 47 rest) [])
      in if absolute then pre @ lit ''/'' @ body else pre @ body)"

definition normalize_shell_path :: "rstr \<Rightarrow> rstr" where
  "normalize_shell_path path = lexical_normalize (normalize_shell_path_raw path)"

section \<open>One path\<close>

definition shell_access :: "shell_file_mode \<Rightarrow> rstr \<Rightarrow> unit access_kind" where
  "shell_access mode path = (case mode of ReadMode \<Rightarrow> Read (Some path) | _ \<Rightarrow> Edit path)"

definition escalate_access :: "'g policy_env \<Rightarrow> 'g compiled_policy \<Rightarrow> rstr option \<Rightarrow> unit access_kind \<Rightarrow> gate_decision option" where
  "escalate_access E P rule_cwd access =
     (case evaluate_lexical_with_cwd E P access rule_cwd of
        Some (Reject reason) \<Rightarrow> Some (GateReject reason)
      | Some Ask \<Rightarrow> Some AskRuleMatch
      | _ \<Rightarrow> None)"

definition rule_cwd_of :: "rstr \<Rightarrow> rstr \<Rightarrow> bool \<Rightarrow> rstr option" where
  "rule_cwd_of token cwd unpinned = (if is_absolute_shell_path (normalize_shell_path token) \<or> \<not> unpinned then Some cwd else None)"

definition shell_absolute :: "rstr \<Rightarrow> rstr \<Rightarrow> rstr" where
  "shell_absolute path cwd = (if is_absolute_shell_path path then path else normalize_shell_path (path_join cwd path))"

definition resolved_decision :: "'g policy_env \<Rightarrow> 'g compiled_policy \<Rightarrow> rstr \<Rightarrow> rstr \<Rightarrow> shell_file_mode \<Rightarrow> bool \<Rightarrow> gate_decision option" where
  "resolved_decision E P token cwd mode unpinned =
     (let path = normalize_shell_path token; raw = normalize_shell_path_raw token
      in case (if is_absolute_shell_path raw then Some raw
               else if unpinned then None
               else Some (normalize_shell_path_raw (path_join cwd raw))) of
           None \<Rightarrow> None
         | Some raw_absolute \<Rightarrow>
             (case follow_absolute_symlink E raw_absolute (shell_absolute path cwd) of
                Target resolved \<Rightarrow> escalate_access E P (rule_cwd_of token cwd unpinned) (shell_access mode resolved)
              | Unresolvable \<Rightarrow> Some AskFailClosed
              | FollowNone \<Rightarrow> None))"

definition evaluate_shell_path :: "'g policy_env \<Rightarrow> 'g compiled_policy \<Rightarrow> rstr \<Rightarrow> rstr \<Rightarrow> shell_file_mode \<Rightarrow> bool \<Rightarrow> gate_decision option" where
  "evaluate_shell_path E P token cwd mode unpinned =
     (let path = normalize_shell_path token; rule_cwd = rule_cwd_of token cwd unpinned;
          relative_unpinned = (unpinned \<and> \<not> is_absolute_shell_path path);
          path_decision = escalate_access E P rule_cwd (shell_access mode path);
          anchored_decision =
            (if relative_unpinned then None
             else combine_gate_decisions (escalate_access E P rule_cwd (shell_access mode (shell_absolute path cwd)))
               (resolved_decision E P token cwd mode unpinned))
      in combine_gate_decisions (combine_gate_decisions path_decision anchored_decision) (fail_closed_if relative_unpinned))"

section \<open>A script\<close>

text \<open>What is judged, in the order of the code: a touched path, or a nested script with whether the directory is known.\<close>

datatype access_item = Touch rstr shell_file_mode bool | Nested rstr bool

definition touch_all :: "bool \<Rightarrow> (rstr \<times> shell_file_mode) list \<Rightarrow> access_item list" where
  "touch_all unpinned ops = map (\<lambda>(p, mode). Touch p mode unpinned) ops"

definition any_ambiguous :: "(rstr \<times> shell_file_mode) list \<Rightarrow> bool" where
  "any_ambiguous ops = list_ex (\<lambda>(p, mode). shell_arg_is_ambiguous p) ops"

definition operand_modes :: "rstr \<Rightarrow> rstr list \<Rightarrow> shell_file_mode list" where
  "operand_modes program ws =
     (case shell_file_mode_of program of
        None \<Rightarrow> []
      | Some mode \<Rightarrow>
          if program = lit ''sed'' \<and> shell_sed_in_place ws then [ReadMode, WriteMode]
          else if mode = CreateMode then [] else [mode])"

text \<open>The operands of one command after its inline script was handled, and whether they force a question.\<close>

definition operand_items :: "bool \<Rightarrow> bool \<Rightarrow> shell_word list \<Rightarrow> access_item list \<times> bool" where
  "operand_items parse_failed unpinned ws =
     (case ws of
        LiteralWord p # _ \<Rightarrow>
          let program = to_ascii_lowercase (basename p); lits = literal_words ws
          in if program \<in> {lit ''cd'', lit ''pushd'', lit ''popd''} then ([], False)
             else
               let candidates = shell_file_candidates lits;
                   path_operands = shell_path_command_operands program lits;
                   known = (program = lit ''dd'' \<or> shell_file_mode_of program \<noteq> None \<or> path_operands \<noteq> None);
                   specials = special_file_operands program lits;
                   forced = (known \<and> (unpinned \<or> UntrustedWord \<in> set ws \<or> parse_failed) \<or> any_ambiguous specials)
               in if program = lit ''dd'' then (touch_all unpinned specials, forced)
                  else case path_operands of
                      Some operands \<Rightarrow> (touch_all unpinned (specials @ operands), forced \<or> any_ambiguous operands)
                    | None \<Rightarrow>
                        if shell_file_mode_of program = None then (touch_all unpinned specials, forced)
                        else
                          let operands = concat (map (\<lambda>t. map (\<lambda>mode. (t, mode)) (operand_modes program lits)) candidates)
                          in (touch_all unpinned (specials @ operands),
                              forced \<or> list_ex shell_arg_is_ambiguous candidates \<or> shell_reader_can_recurse program lits candidates)
      | _ \<Rightarrow> ([], False))"

definition inline_items :: "bool \<Rightarrow> shell_word list \<Rightarrow> access_item list \<times> bool" where
  "inline_items unpinned ws =
     (case shell_dash_c_script ws of
        Literal i \<Rightarrow> (case ws ! i of LiteralWord s \<Rightarrow> ([Nested s unpinned], False) | UntrustedWord \<Rightarrow> ([], False))
      | NotInline \<Rightarrow> ([], False)
      | _ \<Rightarrow> ([], True))"

definition invocation_items :: "bool \<Rightarrow> bool \<Rightarrow> cwd_poison list \<Rightarrow> shell_invocation \<Rightarrow> access_item list \<times> bool" where
  "invocation_items parse_failed cwd_unpinned cwd_changes iv =
     (let peeled = unwrap_invocation_checked iv;
          ws = peel_inv_words peeled;
          unpinned = (cwd_unpinned \<or> cwd_unpinned_before cwd_changes (inv_start iv) (inv_scope iv) \<or> inv_has_chdir peeled);
          (nested, f1) = inline_items unpinned ws;
          (operands, f2) = operand_items parse_failed unpinned ws
      in (nested @ operands,
          inv_exhausted peeled \<or> inv_has_split_string peeled \<or> inv_env_options_uncertain peeled \<or> transparent_ambiguous peeled \<or>
          (parse_failed \<and> shell_dash_c_script ws \<noteq> NotInline) \<or> f1 \<or> f2))"

definition redirect_items :: "bool \<Rightarrow> cwd_poison list \<Rightarrow> shell_redirect_target \<Rightarrow> access_item list" where
  "redirect_items cwd_unpinned cwd_changes r =
     (case redirect_path r of
        Some path \<Rightarrow>
          [Touch path (redirect_mode r) (cwd_unpinned \<or> cwd_unpinned_before cwd_changes (redirect_start r) (redirect_scope r))]
      | None \<Rightarrow> [])"

definition script_items :: "ts_tree \<Rightarrow> rstr \<Rightarrow> bool \<Rightarrow> bool \<Rightarrow> access_item list \<times> bool" where
  "script_items tree cmd cwd_unpinned entered_inline =
     (let root = root_node tree; parse_failed = tree_has_error tree;
          changes = cwd_poison_positions root cmd;
          redirects = shell_redirect_targets root cmd;
          commands = map (invocation_items parse_failed cwd_unpinned changes) (shell_command_invocations root cmd)
      in (concat (map (redirect_items cwd_unpinned changes) redirects) @ concat (map fst commands),
          (entered_inline \<and> parse_failed) \<or> list_ex redirect_ambiguous redirects \<or> list_ex snd commands))"

definition is_nested :: "access_item \<Rightarrow> bool" where
  "is_nested it = (case it of Nested _ _ \<Rightarrow> True | _ \<Rightarrow> False)"

text \<open>\<open>inline\<close> judges a nested script, \<open>None\<close> when the depth is used up.\<close>

definition item_decision :: "'g policy_env \<Rightarrow> 'g compiled_policy \<Rightarrow> rstr \<Rightarrow> (rstr \<Rightarrow> bool \<Rightarrow> gate_decision option) \<Rightarrow> access_item \<Rightarrow>
    gate_decision option" where
  "item_decision E P cwd inline it =
     (case it of Touch path mode unpinned \<Rightarrow> evaluate_shell_path E P path cwd mode unpinned | Nested s unpinned \<Rightarrow> inline s unpinned)"

function evaluate_shell_file_access_inner :: "'g policy_env \<Rightarrow> 'g compiled_policy \<Rightarrow> rstr \<Rightarrow> nat \<Rightarrow> rstr \<Rightarrow> bool \<Rightarrow> bool \<Rightarrow> gate_decision option" where
  "evaluate_shell_file_access_inner E P cwd depth cmd cwd_unpinned entered_inline =
     (case grammar E cmd of
        None \<Rightarrow> fail_closed_if entered_inline
      | Some tree \<Rightarrow>
          let (items, forced) = script_items tree cmd cwd_unpinned entered_inline;
              inline = (\<lambda>s unpinned. if depth = 0 then None else evaluate_shell_file_access_inner E P cwd (depth - 1) s unpinned True)
          in combine_gate_decisions
               (foldl (\<lambda>d it. combine_gate_decisions d (item_decision E P cwd inline it)) None items)
               (fail_closed_if (forced \<or> (depth = 0 \<and> list_ex is_nested items))))"
  by pat_completeness auto
termination
  by (relation "measure (\<lambda>(E, P, cwd, depth, cmd, u, e). depth)") auto

declare evaluate_shell_file_access_inner.simps [simp del]

definition evaluate_shell_file_access_gate :: "'g policy_env \<Rightarrow> 'g compiled_policy \<Rightarrow> rstr \<Rightarrow> rstr \<Rightarrow> gate_decision option" where
  "evaluate_shell_file_access_gate E P cmd cwd =
     (if \<not> has_file_restrictions P then None
      else evaluate_shell_file_access_inner E P cwd MAX_INLINE_SHELL_DEPTH cmd False False)"

definition evaluate_shell_file_access :: "'g policy_env \<Rightarrow> 'g compiled_policy \<Rightarrow> rstr \<Rightarrow> rstr \<Rightarrow> decision option" where
  "evaluate_shell_file_access E P cmd cwd = map_option into_decision (evaluate_shell_file_access_gate E P cmd cwd)"

section \<open>What a script touches\<close>

text \<open>
  The specification of the gate starts from the syntax tree: the redirects of a script and the words of its commands behind their wrappers.  The
  files that a command names, by its literal words: the operands that are special to its program, those of a program that works on paths, and
  the plain operands of a program that reads or writes files (\<open>sed -i\<close> does both).  Programs that change the directory name none.
\<close>

abbreviation program_of :: "rstr \<Rightarrow> rstr" where
  "program_of p \<equiv> to_ascii_lowercase (basename p)"

definition changes_directory :: "rstr \<Rightarrow> bool" where
  "changes_directory p \<longleftrightarrow> program_of p = lit ''cd'' \<or> program_of p = lit ''pushd'' \<or> program_of p = lit ''popd''"

inductive names_file :: "rstr \<Rightarrow> rstr list \<Rightarrow> rstr \<Rightarrow> shell_file_mode \<Rightarrow> bool" for p lits where
  special: "\<not> changes_directory p \<Longrightarrow> (path, mode) \<in> set (special_file_operands (program_of p) lits) \<Longrightarrow> names_file p lits path mode"
| path_operand: "\<not> changes_directory p \<Longrightarrow> program_of p \<noteq> lit ''dd'' \<Longrightarrow> shell_path_command_operands (program_of p) lits = Some operands \<Longrightarrow>
    (path, mode) \<in> set operands \<Longrightarrow> names_file p lits path mode"
| file_operand: "\<not> changes_directory p \<Longrightarrow> program_of p \<noteq> lit ''dd'' \<Longrightarrow> shell_path_command_operands (program_of p) lits = None \<Longrightarrow>
    \<not> (program_of p = lit ''sed'' \<and> shell_sed_in_place lits) \<Longrightarrow> shell_file_mode_of (program_of p) = Some mode \<Longrightarrow> mode \<noteq> CreateMode \<Longrightarrow>
    path \<in> set (shell_file_candidates lits) \<Longrightarrow> names_file p lits path mode"
| edited_in_place: "shell_path_command_operands (program_of p) lits = None \<Longrightarrow> shell_file_mode_of (program_of p) \<noteq> None \<Longrightarrow>
    program_of p = lit ''sed'' \<Longrightarrow> shell_sed_in_place lits \<Longrightarrow> mode \<in> {ReadMode, WriteMode} \<Longrightarrow>
    path \<in> set (shell_file_candidates lits) \<Longrightarrow> names_file p lits path mode"

text \<open>The directory in which a command runs is not known: from outside, by a change of directory before it, or by a wrapper.\<close>

definition runs_elsewhere :: "ts_tree \<Rightarrow> rstr \<Rightarrow> bool \<Rightarrow> shell_invocation \<Rightarrow> bool" where
  "runs_elsewhere tree cmd u iv \<longleftrightarrow>
     u \<or> cwd_unpinned_before (cwd_poison_positions (root_node tree) cmd) (inv_start iv) (inv_scope iv) \<or> inv_has_chdir (unwrap_invocation_checked iv)"

abbreviation inner_words :: "shell_invocation \<Rightarrow> shell_word list" where
  "inner_words iv \<equiv> peel_inv_words (unwrap_invocation_checked iv)"

inductive touches_directly :: "ts_tree \<Rightarrow> rstr \<Rightarrow> bool \<Rightarrow> rstr \<Rightarrow> shell_file_mode \<Rightarrow> bool \<Rightarrow> bool" for tree cmd u where
  redirected: "r \<in> set (shell_redirect_targets (root_node tree) cmd) \<Longrightarrow> redirect_path r = Some path \<Longrightarrow> redirect_mode r = mode \<Longrightarrow>
    u' = (u \<or> cwd_unpinned_before (cwd_poison_positions (root_node tree) cmd) (redirect_start r) (redirect_scope r)) \<Longrightarrow>
    touches_directly tree cmd u path mode u'"
| operand: "iv \<in> set (shell_command_invocations (root_node tree) cmd) \<Longrightarrow> inner_words iv = LiteralWord p # ws \<Longrightarrow>
    names_file p (literal_words (LiteralWord p # ws)) path mode \<Longrightarrow> u' = runs_elsewhere tree cmd u iv \<Longrightarrow>
    touches_directly tree cmd u path mode u'"

inductive runs_script :: "ts_tree \<Rightarrow> rstr \<Rightarrow> bool \<Rightarrow> rstr \<Rightarrow> bool \<Rightarrow> bool" for tree cmd u where
  "iv \<in> set (shell_command_invocations (root_node tree) cmd) \<Longrightarrow> shell_dash_c_script (inner_words iv) = Literal i \<Longrightarrow>
    inner_words iv ! i = LiteralWord s \<Longrightarrow> v = runs_elsewhere tree cmd u iv \<Longrightarrow> runs_script tree cmd u s v"

text \<open>The operands of a command that cannot be read off its words, and the parts of a script that hide what it touches.\<close>

definition works_on_files :: "rstr \<Rightarrow> rstr list \<Rightarrow> bool" where
  "works_on_files p lits \<longleftrightarrow>
     program_of p = lit ''dd'' \<or> shell_file_mode_of (program_of p) \<noteq> None \<or> shell_path_command_operands (program_of p) lits \<noteq> None"

inductive operands_unclear :: "bool \<Rightarrow> bool \<Rightarrow> rstr \<Rightarrow> shell_word list \<Rightarrow> rstr list \<Rightarrow> bool" for broken u p ws lits where
  surroundings: "\<not> changes_directory p \<Longrightarrow> works_on_files p lits \<Longrightarrow> u \<or> UntrustedWord \<in> set ws \<or> broken \<Longrightarrow> operands_unclear broken u p ws lits"
| special: "\<not> changes_directory p \<Longrightarrow> (path, mode) \<in> set (special_file_operands (program_of p) lits) \<Longrightarrow> shell_arg_is_ambiguous path \<Longrightarrow>
    operands_unclear broken u p ws lits"
| path_operand: "\<not> changes_directory p \<Longrightarrow> program_of p \<noteq> lit ''dd'' \<Longrightarrow> shell_path_command_operands (program_of p) lits = Some operands \<Longrightarrow>
    (path, mode) \<in> set operands \<Longrightarrow> shell_arg_is_ambiguous path \<Longrightarrow> operands_unclear broken u p ws lits"
| file_operand: "\<not> changes_directory p \<Longrightarrow> program_of p \<noteq> lit ''dd'' \<Longrightarrow> shell_path_command_operands (program_of p) lits = None \<Longrightarrow>
    shell_file_mode_of (program_of p) \<noteq> None \<Longrightarrow> path \<in> set (shell_file_candidates lits) \<Longrightarrow> shell_arg_is_ambiguous path \<Longrightarrow>
    operands_unclear broken u p ws lits"
| recursive_reader: "\<not> changes_directory p \<Longrightarrow> program_of p \<noteq> lit ''dd'' \<Longrightarrow> shell_path_command_operands (program_of p) lits = None \<Longrightarrow>
    shell_file_mode_of (program_of p) \<noteq> None \<Longrightarrow> shell_reader_can_recurse (program_of p) lits (shell_file_candidates lits) \<Longrightarrow>
    operands_unclear broken u p ws lits"

inductive hides_directly :: "ts_tree \<Rightarrow> rstr \<Rightarrow> bool \<Rightarrow> bool \<Rightarrow> bool" for tree cmd u inline where
  broken_inline: "inline \<Longrightarrow> tree_has_error tree \<Longrightarrow> hides_directly tree cmd u inline"
| redirected: "r \<in> set (shell_redirect_targets (root_node tree) cmd) \<Longrightarrow> redirect_ambiguous r \<Longrightarrow> hides_directly tree cmd u inline"
| wrapped: "iv \<in> set (shell_command_invocations (root_node tree) cmd) \<Longrightarrow>
    inv_exhausted (unwrap_invocation_checked iv) \<or> inv_has_split_string (unwrap_invocation_checked iv) \<or>
      inv_env_options_uncertain (unwrap_invocation_checked iv) \<or> transparent_ambiguous (unwrap_invocation_checked iv) \<Longrightarrow>
    hides_directly tree cmd u inline"
| broken_script: "iv \<in> set (shell_command_invocations (root_node tree) cmd) \<Longrightarrow> tree_has_error tree \<Longrightarrow>
    shell_dash_c_script (inner_words iv) \<noteq> NotInline \<Longrightarrow> hides_directly tree cmd u inline"
| unknown_script: "iv \<in> set (shell_command_invocations (root_node tree) cmd) \<Longrightarrow>
    shell_dash_c_script (inner_words iv) = Untrusted \<or> shell_dash_c_script (inner_words iv) = Unrecognized \<Longrightarrow> hides_directly tree cmd u inline"
| operand: "iv \<in> set (shell_command_invocations (root_node tree) cmd) \<Longrightarrow> inner_words iv = LiteralWord p # ws \<Longrightarrow>
    operands_unclear (tree_has_error tree) (runs_elsewhere tree cmd u iv) p (LiteralWord p # ws) (literal_words (LiteralWord p # ws)) \<Longrightarrow>
    hides_directly tree cmd u inline"

text \<open>Nested scripts, up to the bound.\<close>

inductive touches :: "'g policy_env \<Rightarrow> nat \<Rightarrow> rstr \<Rightarrow> bool \<Rightarrow> rstr \<Rightarrow> shell_file_mode \<Rightarrow> bool \<Rightarrow> bool" for E where
  touch: "grammar E cmd = Some tree \<Longrightarrow> touches_directly tree cmd u path mode u' \<Longrightarrow> touches E depth cmd u path mode u'"
| nested_touch: "grammar E cmd = Some tree \<Longrightarrow> runs_script tree cmd u s v \<Longrightarrow>
    touches E depth s v path mode u' \<Longrightarrow> touches E (Suc depth) cmd u path mode u'"

inductive hides_access :: "'g policy_env \<Rightarrow> nat \<Rightarrow> rstr \<Rightarrow> bool \<Rightarrow> bool \<Rightarrow> bool" for E where
  unparsed: "grammar E cmd = None \<Longrightarrow> hides_access E depth cmd u True"
| hidden: "grammar E cmd = Some tree \<Longrightarrow> hides_directly tree cmd u e \<Longrightarrow> hides_access E depth cmd u e"
| deep: "grammar E cmd = Some tree \<Longrightarrow> runs_script tree cmd u s v \<Longrightarrow> hides_access E 0 cmd u e"
| nested_hides: "grammar E cmd = Some tree \<Longrightarrow> runs_script tree cmd u s v \<Longrightarrow>
    hides_access E depth s v True \<Longrightarrow> hides_access E (Suc depth) cmd u e"

inductive_simps touches_0: "touches E 0 cmd u path mode u'"
inductive_simps touches_Suc: "touches E (Suc depth) cmd u path mode u'"
inductive_simps hides_0: "hides_access E 0 cmd u e"
inductive_simps hides_Suc: "hides_access E (Suc depth) cmd u e"

lemmas access_simps = touches_0 touches_Suc hides_0 hides_Suc

subsection \<open>The items of a script are what it touches\<close>

lemma operand_modes_iff:
  "mode \<in> set (operand_modes program lits) \<longleftrightarrow>
     (if program = lit ''sed'' \<and> shell_sed_in_place lits then shell_file_mode_of program \<noteq> None \<and> mode \<in> {ReadMode, WriteMode}
      else shell_file_mode_of program = Some mode \<and> mode \<noteq> CreateMode)"
proof (cases "shell_file_mode_of program")
  case (Some m)
  then show ?thesis by (cases "program = lit ''sed'' \<and> shell_sed_in_place lits"; cases "m = CreateMode") (auto simp: operand_modes_def)
qed (auto simp: operand_modes_def)

lemma touch_all_items [simp]: "Touch path mode v \<in> set (touch_all u ops) \<longleftrightarrow> v = u \<and> (path, mode) \<in> set ops" "Nested s v \<notin> set (touch_all u ops)"
  by (auto simp: touch_all_def)

definition named_files :: "rstr \<Rightarrow> rstr list \<Rightarrow> (rstr \<times> shell_file_mode) list" where
  "named_files program lits =
     special_file_operands program lits @
     (if program = lit ''dd'' then []
      else case shell_path_command_operands program lits of
          Some operands \<Rightarrow> operands
        | None \<Rightarrow> concat (map (\<lambda>t. map (Pair t) (operand_modes program lits)) (shell_file_candidates lits)))"

lemma operand_items_files:
  "fst (operand_items broken u (LiteralWord p # ws)) =
     (if changes_directory p then [] else touch_all u (named_files (program_of p) (literal_words (LiteralWord p # ws))))"
proof -
  have none: "operand_modes program lits = []" if "shell_file_mode_of program = None" for program lits using that by (simp add: operand_modes_def)
  have "concat (map (\<lambda>t. []) xs) = []" for xs :: "rstr list" by simp
  then show ?thesis
    unfolding operand_items_def Let_def named_files_def changes_directory_def
    by (auto simp: none touch_all_def split: option.split)
qed

lemma named_files_iff: "\<not> changes_directory p \<Longrightarrow> (path, mode) \<in> set (named_files (program_of p) lits) \<longleftrightarrow> names_file p lits path mode"
proof -
  assume p: "\<not> changes_directory p"
  have dd: "lit ''sed'' \<noteq> lit ''dd''" by (simp add: lit_def)
  have pairs: "(path, mode) \<in> set (concat (map (\<lambda>t. map (Pair t) ms) ts)) \<longleftrightarrow> path \<in> set ts \<and> mode \<in> set ms" for ms ts by auto
  show ?thesis
    unfolding named_files_def names_file.simps set_append Un_iff using p dd
    by (cases "program_of p = lit ''dd''"; cases "shell_path_command_operands (program_of p) lits"; cases "program_of p = lit ''sed'' \<and> shell_sed_in_place lits")
      (auto simp: pairs operand_modes_iff simp del: set_concat)
qed

lemma operand_touch:
  "Touch path mode v \<in> set (fst (operand_items broken u (LiteralWord p # ws))) \<longleftrightarrow>
     v = u \<and> names_file p (literal_words (LiteralWord p # ws)) path mode"
proof -
  have "names_file p lits path mode \<Longrightarrow> \<not> changes_directory p" for lits
    by (cases rule: names_file.cases) (auto simp: changes_directory_def lit_def)
  then show ?thesis using named_files_iff by (auto simp: operand_items_files)
qed

lemma operand_forced:
  "snd (operand_items broken u (LiteralWord p # ws)) \<longleftrightarrow> operands_unclear broken u p (LiteralWord p # ws) (literal_words (LiteralWord p # ws))"
proof -
  let ?lits = "literal_words (LiteralWord p # ws)"
  have amb: "any_ambiguous ops \<longleftrightarrow> (\<exists>path mode. (path, mode) \<in> set ops \<and> shell_arg_is_ambiguous path)" for ops
    by (auto simp: any_ambiguous_def list_ex_iff)
  show ?thesis
    unfolding operands_unclear.simps operand_items_def Let_def changes_directory_def works_on_files_def
    by (cases "program_of p = lit ''dd''"; cases "shell_path_command_operands (program_of p) ?lits"; cases "shell_file_mode_of (program_of p) = None")
      (auto simp: amb list_ex_iff)
qed

lemma operand_other: "\<nexists>p vs. ws = LiteralWord p # vs \<Longrightarrow> operand_items broken u ws = ([], False)"
  by (auto simp: operand_items_def split: list.split shell_word.split)

lemma operand_nested: "Nested s v \<notin> set (fst (operand_items broken u ws))"
proof (cases "\<exists>p vs. ws = LiteralWord p # vs")
  case True
  then obtain p vs where "ws = LiteralWord p # vs" by blast
  then show ?thesis by (simp add: operand_items_files)
qed (simp add: operand_other)

lemma inline_script:
  "Touch path mode v \<notin> set (fst (inline_items u ws))"
  "Nested s v \<in> set (fst (inline_items u ws)) \<longleftrightarrow> v = u \<and> (\<exists>i. shell_dash_c_script ws = Literal i \<and> ws ! i = LiteralWord s)"
  "snd (inline_items u ws) \<longleftrightarrow> shell_dash_c_script ws = Untrusted \<or> shell_dash_c_script ws = Unrecognized"
  by (auto simp: inline_items_def split: inline_shell_script.split shell_word.split)

lemma invocation_parts:
  assumes "changes = cwd_poison_positions (root_node tree) cmd"
  shows "fst (invocation_items broken u changes iv) =
      fst (inline_items (runs_elsewhere tree cmd u iv) (inner_words iv)) @ fst (operand_items broken (runs_elsewhere tree cmd u iv) (inner_words iv))"
    "snd (invocation_items broken u changes iv) \<longleftrightarrow>
      (inv_exhausted (unwrap_invocation_checked iv) \<or> inv_has_split_string (unwrap_invocation_checked iv) \<or>
       inv_env_options_uncertain (unwrap_invocation_checked iv) \<or> transparent_ambiguous (unwrap_invocation_checked iv)) \<or>
      (broken \<and> shell_dash_c_script (inner_words iv) \<noteq> NotInline) \<or>
      snd (inline_items (runs_elsewhere tree cmd u iv) (inner_words iv)) \<or> snd (operand_items broken (runs_elsewhere tree cmd u iv) (inner_words iv))"
  using assms by (simp_all add: invocation_items_def runs_elsewhere_def Let_def split: prod.split)

lemma invocation_touch:
  "Touch path mode v \<in> set (fst (operand_items broken u ws)) \<longleftrightarrow>
     v = u \<and> (\<exists>p vs. ws = LiteralWord p # vs \<and> names_file p (literal_words (LiteralWord p # vs)) path mode)"
proof (cases "\<exists>p vs. ws = LiteralWord p # vs")
  case True
  then obtain p vs where "ws = LiteralWord p # vs" by blast
  then show ?thesis by (simp add: operand_touch)
qed (simp add: operand_other)

lemma invocation_forced:
  "snd (operand_items broken u ws) \<longleftrightarrow>
     (\<exists>p vs. ws = LiteralWord p # vs \<and> operands_unclear broken u p (LiteralWord p # vs) (literal_words (LiteralWord p # vs)))"
proof (cases "\<exists>p vs. ws = LiteralWord p # vs")
  case True
  then obtain p vs where "ws = LiteralWord p # vs" by blast
  then show ?thesis by (simp add: operand_forced)
qed (simp add: operand_other)

lemma redirect_touch:
  "Touch path mode v \<in> set (redirect_items u changes r) \<longleftrightarrow>
     redirect_path r = Some path \<and> redirect_mode r = mode \<and> v = (u \<or> cwd_unpinned_before changes (redirect_start r) (redirect_scope r))"
  "Nested s v \<notin> set (redirect_items u changes r)"
  by (auto simp: redirect_items_def split: option.split)

lemma script_touch: "Touch path mode v \<in> set (fst (script_items tree cmd u e)) \<longleftrightarrow> touches_directly tree cmd u path mode v"
  unfolding touches_directly.simps script_items_def Let_def fst_conv set_append set_concat set_map image_image Un_iff UN_iff
  by (simp add: invocation_parts [OF refl] redirect_touch inline_script invocation_touch) blast

lemma script_nested: "Nested s v \<in> set (fst (script_items tree cmd u e)) \<longleftrightarrow> runs_script tree cmd u s v"
  unfolding runs_script.simps script_items_def Let_def fst_conv set_append set_concat set_map image_image Un_iff UN_iff
  by (simp add: invocation_parts [OF refl] redirect_touch inline_script operand_nested) blast

lemma script_forced: "snd (script_items tree cmd u e) \<longleftrightarrow> hides_directly tree cmd u e"
  unfolding hides_directly.simps script_items_def Let_def snd_conv list_ex_iff set_map bex_simps
  by (simp add: invocation_parts [OF refl] inline_script invocation_forced) blast

lemmas script_simps = script_touch script_nested script_forced

lemma nested_exists: "list_ex is_nested items \<longleftrightarrow> (\<exists>s v. Nested s v \<in> set items)"
proof -
  have "is_nested it \<longleftrightarrow> (\<exists>s v. it = Nested s v)" for it by (cases it) (simp_all add: is_nested_def)
  then show ?thesis by (auto simp: list_ex_iff)
qed

lemma items_level:
  assumes "1 \<le> k"
  shows "(\<exists>it\<in>set items. k \<le> gate.level (item_decision E P cwd inline it)) \<longleftrightarrow>
    (\<exists>path mode u. Touch path mode u \<in> set items \<and> k \<le> gate.level (evaluate_shell_path E P path cwd mode u)) \<or>
    (\<exists>s v. Nested s v \<in> set items \<and> k \<le> gate.level (inline s v))"
proof
  assume "\<exists>it\<in>set items. k \<le> gate.level (item_decision E P cwd inline it)"
  then obtain it where it: "it \<in> set items" "k \<le> gate.level (item_decision E P cwd inline it)" by blast
  show "(\<exists>path mode u. Touch path mode u \<in> set items \<and> k \<le> gate.level (evaluate_shell_path E P path cwd mode u)) \<or>
    (\<exists>s v. Nested s v \<in> set items \<and> k \<le> gate.level (inline s v))"
    by (rule access_item.exhaust [of it]) (use it in \<open>auto simp: item_decision_def\<close>)
qed (force simp: item_decision_def)

lemma inner_level:
  assumes "1 \<le> k" and "grammar E cmd = Some tree"
  shows "k \<le> gate.level (evaluate_shell_file_access_inner E P cwd depth cmd u e) \<longleftrightarrow>
    k \<le> 2 \<and> (hides_directly tree cmd u e \<or> depth = 0 \<and> (\<exists>s v. runs_script tree cmd u s v)) \<or>
    (\<exists>path mode u'. touches_directly tree cmd u path mode u' \<and> k \<le> gate.level (evaluate_shell_path E P path cwd mode u')) \<or>
    (\<exists>s v. runs_script tree cmd u s v \<and> depth \<noteq> 0 \<and>
      k \<le> gate.level (evaluate_shell_file_access_inner E P cwd (depth - 1) s v True))"
proof -
  obtain items forced where i: "script_items tree cmd u e = (items, forced)" by fastforce
  have l: "k \<le> gate.level (fail_closed_if b) \<longleftrightarrow> k \<le> 2 \<and> b" for b using assms(1) by simp
  show ?thesis
    using assms(1) unfolding script_touch [symmetric, where e = e] script_nested [symmetric, where e = e] script_forced [symmetric]
    by (subst evaluate_shell_file_access_inner.simps)
      (auto simp: assms(2) i gate.level_combine le_max_iff_disj gate.level_fold items_level [OF assms(1)] nested_exists l
        simp del: gate_level_simps(3) split: if_splits)
qed

lemma access_level:
  assumes "1 \<le> k"
  shows "k \<le> gate.level (evaluate_shell_file_access_inner E P cwd depth cmd u e) \<longleftrightarrow>
    k \<le> 2 \<and> hides_access E depth cmd u e \<or>
    (\<exists>path mode u'. touches E depth cmd u path mode u' \<and> k \<le> gate.level (evaluate_shell_path E P path cwd mode u'))"
proof (induction depth arbitrary: cmd u e)
  case 0
  show ?case
  proof (cases "grammar E cmd")
    case None
    then show ?thesis using assms by (subst evaluate_shell_file_access_inner.simps) (auto simp: access_simps)
  next
    case (Some tree)
    then show ?thesis unfolding inner_level [OF assms Some] access_simps by auto
  qed
next
  case (Suc depth)
  show ?case
  proof (cases "grammar E cmd")
    case None
    then show ?thesis using assms by (subst evaluate_shell_file_access_inner.simps) (auto simp: access_simps)
  next
    case (Some tree)
    have n: "Suc depth - 1 = depth" "Suc depth \<noteq> 0" by simp_all
    show ?thesis unfolding inner_level [OF assms Some] access_simps n Suc option.inject Some by blast
  qed
qed

section \<open>The verdict\<close>

text \<open>The link check of a touched path, and the accesses that the rules are asked about for it.\<close>

definition shell_link :: "'g policy_env \<Rightarrow> rstr \<Rightarrow> rstr \<Rightarrow> bool \<Rightarrow> symlink_follow" where
  "shell_link E token cwd unpinned =
     (let path = normalize_shell_path token; raw = normalize_shell_path_raw token
      in if unpinned \<and> \<not> is_absolute_shell_path path then FollowNone
         else case (if is_absolute_shell_path raw then Some raw
               else if unpinned then None
               else Some (normalize_shell_path_raw (path_join cwd raw))) of
             None \<Rightarrow> FollowNone
           | Some raw_absolute \<Rightarrow> follow_absolute_symlink E raw_absolute (shell_absolute path cwd))"

definition path_readings :: "'g policy_env \<Rightarrow> rstr \<Rightarrow> rstr \<Rightarrow> shell_file_mode \<Rightarrow> bool \<Rightarrow> unit access_kind list" where
  "path_readings E token cwd mode unpinned =
     (let path = normalize_shell_path token
      in shell_access mode path #
         (if unpinned \<and> \<not> is_absolute_shell_path path then []
          else shell_access mode (shell_absolute path cwd) #
            (case shell_link E token cwd unpinned of Target resolved \<Rightarrow> [shell_access mode resolved] | _ \<Rightarrow> [])))"

definition path_unclear :: "'g policy_env \<Rightarrow> rstr \<Rightarrow> rstr \<Rightarrow> bool \<Rightarrow> bool" where
  "path_unclear E token cwd unpinned \<longleftrightarrow>
     unpinned \<and> \<not> is_absolute_shell_path (normalize_shell_path token) \<or> shell_link E token cwd unpinned = Unresolvable"

lemma shell_path_level:
  assumes "1 \<le> k"
  shows "k \<le> gate.level (evaluate_shell_path E P token cwd mode u) \<longleftrightarrow>
    k \<le> 2 \<and> path_unclear E token cwd u \<or>
    (\<exists>a\<in>set (path_readings E token cwd mode u). k \<le> gate.level (escalate_access E P (rule_cwd_of token cwd u) a))"
proof (cases "u \<and> \<not> is_absolute_shell_path (normalize_shell_path token)")
  case True
  then show ?thesis
    using assms by (auto simp: evaluate_shell_path_def Let_def gate.level_combine le_max_iff_disj path_unclear_def path_readings_def)
next
  case False
  then have r: "resolved_decision E P token cwd mode u =
      (case shell_link E token cwd u of
         Target resolved \<Rightarrow> escalate_access E P (rule_cwd_of token cwd u) (shell_access mode resolved)
       | Unresolvable \<Rightarrow> Some AskFailClosed
       | FollowNone \<Rightarrow> None)"
    unfolding resolved_decision_def shell_link_def Let_def by (simp split: option.split)
  have "evaluate_shell_path E P token cwd mode u =
      combine_gate_decisions (combine_gate_decisions (escalate_access E P (rule_cwd_of token cwd u) (shell_access mode (normalize_shell_path token)))
        (combine_gate_decisions (escalate_access E P (rule_cwd_of token cwd u) (shell_access mode (shell_absolute (normalize_shell_path token) cwd)))
          (resolved_decision E P token cwd mode u))) None"
    using False by (auto simp: evaluate_shell_path_def Let_def fail_closed_if_def)
  moreover have "path_readings E token cwd mode u =
      shell_access mode (normalize_shell_path token) # shell_access mode (shell_absolute (normalize_shell_path token) cwd) #
        (case shell_link E token cwd u of Target resolved \<Rightarrow> [shell_access mode resolved] | _ \<Rightarrow> [])"
    using False by (auto simp: path_readings_def Let_def)
  moreover have "path_unclear E token cwd u \<longleftrightarrow> shell_link E token cwd u = Unresolvable" using False by (auto simp: path_unclear_def)
  ultimately show ?thesis
    using assms by (cases "shell_link E token cwd u") (simp_all add: r gate.level_combine le_max_iff_disj disj_ac)
qed

lemma escalate_access_level:
  "gate.level (escalate_access E (policy_new E config) rc (shell_access mode p)) =
     (if deny_applies E (config_rules config) (shell_access mode p) rc then 4
      else if ask_applies E (config_rules config) (shell_access mode p) rc then 3 else 0)"
  by (cases mode) (simp_all add: escalate_access_def lexical_result Let_def gate.level_def shell_access_def)

lemma readings_are_accesses: "a \<in> set (path_readings E token cwd mode u) \<Longrightarrow> \<exists>p. a = shell_access mode p"
  by (auto simp: path_readings_def Let_def split: if_splits symlink_follow.splits)

lemma file_restriction_needed:
  assumes "deny_applies E (config_rules config) (shell_access mode p) rc \<or> ask_applies E (config_rules config) (shell_access mode p) rc"
  shows "has_file_restrictions (policy_new E config)"
proof -
  have "tool_filter_matches (shell_access mode p) t \<Longrightarrow> t \<in> {FRead, FEdit, FAny}" for t
    by (cases mode; cases t) (simp_all add: shell_access_def tool_filter_matches_def)
  then show ?thesis
    using assms unfolding deny_applies_def ask_applies_def list_ex_iff rule_applies_def policy_new_def restricts_def by auto
qed

text \<open>A script touches a path of which something holds, in one of the ways it can be read.\<close>

definition touches_matching :: "'g policy_env \<Rightarrow> rstr \<Rightarrow> rstr \<Rightarrow> (unit access_kind \<Rightarrow> rstr option \<Rightarrow> bool) \<Rightarrow> bool" where
  "touches_matching E cmd cwd hit \<longleftrightarrow>
     (\<exists>path mode u. touches E MAX_INLINE_SHELL_DEPTH cmd False path mode u \<and>
       (\<exists>a\<in>set (path_readings E path cwd mode u). hit a (rule_cwd_of path cwd u)))"

definition touches_unclear :: "'g policy_env \<Rightarrow> rstr \<Rightarrow> rstr \<Rightarrow> bool" where
  "touches_unclear E cmd cwd \<longleftrightarrow>
     (\<exists>path mode u. touches E MAX_INLINE_SHELL_DEPTH cmd False path mode u \<and> path_unclear E path cwd u)"

lemma shell_gate_rank:
  "map_option decision_rank (evaluate_shell_file_access E (policy_new E config) cmd cwd) =
     (if touches_matching E cmd cwd (deny_applies E (config_rules config)) then Some 3
      else if touches_matching E cmd cwd (ask_applies E (config_rules config)) \<or>
        has_file_restrictions (policy_new E config) \<and>
          (touches_unclear E cmd cwd \<or> hides_access E MAX_INLINE_SHELL_DEPTH cmd False False) then Some 2
      else None)"
proof (cases "has_file_restrictions (policy_new E config)")
  case False
  then have "\<not> touches_matching E cmd cwd (deny_applies E (config_rules config))" "\<not> touches_matching E cmd cwd (ask_applies E (config_rules config))"
    using file_restriction_needed readings_are_accesses unfolding touches_matching_def by fast+
  then show ?thesis
    using False by (simp add: evaluate_shell_file_access_def evaluate_shell_file_access_gate_def)
next
  case True
  have lv: "k \<le> gate.level (evaluate_shell_file_access_gate E (policy_new E config) cmd cwd) \<longleftrightarrow>
      k \<le> 2 \<and> (touches_unclear E cmd cwd \<or> hides_access E MAX_INLINE_SHELL_DEPTH cmd False False) \<or>
      touches_matching E cmd cwd (\<lambda>a rc. k \<le> gate.level (escalate_access E (policy_new E config) rc a))" if "1 \<le> k" for k
    using True that
    by (auto simp: evaluate_shell_file_access_gate_def access_level shell_path_level touches_unclear_def touches_matching_def)
  have d: "4 \<le> gate.level (escalate_access E (policy_new E config) rc a) \<longleftrightarrow> deny_applies E (config_rules config) a rc"
    "1 \<le> gate.level (escalate_access E (policy_new E config) rc a) \<longleftrightarrow>
       deny_applies E (config_rules config) a rc \<or> ask_applies E (config_rules config) a rc"
    if "a \<in> set (path_readings E p cwd m u)" for a p m u rc
    using readings_are_accesses [OF that] by (auto simp: escalate_access_level split: if_splits)
  have "touches_matching E cmd cwd (\<lambda>a rc. 4 \<le> gate.level (escalate_access E (policy_new E config) rc a)) \<longleftrightarrow>
      touches_matching E cmd cwd (deny_applies E (config_rules config))"
    by (simp add: touches_matching_def d cong: bex_cong)
  moreover have "touches_matching E cmd cwd (\<lambda>a rc. 1 \<le> gate.level (escalate_access E (policy_new E config) rc a)) \<longleftrightarrow>
      touches_matching E cmd cwd (deny_applies E (config_rules config)) \<or> touches_matching E cmd cwd (ask_applies E (config_rules config))"
    unfolding touches_matching_def using d(2) by blast
  ultimately show ?thesis
    using True lv [of 4] lv [of 1] unfolding evaluate_shell_file_access_def verdict_of_level by auto
qed


section \<open>Two scripts\<close>

text \<open>
  The tree of \<open>command cd e && cat s\<close>.  The change of directory behind \<open>command\<close> is not noticed, so the operand of \<open>cat\<close> counts as
  pinned to the old directory and nothing forces a question.
\<close>

definition word_node :: "nat \<Rightarrow> nat \<Rightarrow> ts_node" where
  "word_node a b = Node (lit ''word'') True a b None []"

definition name_node :: "nat \<Rightarrow> nat \<Rightarrow> ts_node" where
  "name_node a b = Node (lit ''command_name'') True a b (Some (lit ''name'')) [word_node a b]"

definition hidden_cd_tree :: ts_tree where
  "hidden_cd_tree = \<lparr>root_node = Node (lit ''program'') True 0 21 None
     [Node (lit ''list'') True 0 21 None
       [Node (lit ''command'') True 0 12 None [name_node 0 7, word_node 8 10, word_node 11 12],
        Node (lit ''&&'') False 13 15 None [],
        Node (lit ''command'') True 16 21 None [name_node 16 19, word_node 20 21]]],
     tree_has_error = False\<rparr>"

lemma hidden_cd_is_missed:
  "script_items hidden_cd_tree (lit ''command cd e && cat s'') False False = ([Touch (lit ''s'') ReadMode False], False)"
  by code_simp

text \<open>The tree of \<open>echo x > s\<close>: the redirect touches its target, and nothing else does.\<close>

definition redirect_tree :: ts_tree where
  "redirect_tree = \<lparr>root_node = Node (lit ''program'') True 0 10 None
     [Node (lit ''redirected_statement'') True 0 10 None
       [Node (lit ''command'') True 0 6 (Some (lit ''body'')) [name_node 0 4, word_node 5 6],
        Node (lit ''file_redirect'') True 7 10 (Some (lit ''redirect''))
          [Node (lit ''>'') False 7 8 None [], Node (lit ''word'') True 9 10 (Some (lit ''destination'')) []]]],
     tree_has_error = False\<rparr>"

lemma redirect_touches_target:
  "touches_directly redirect_tree (lit ''echo x > s'') False path mode u \<longleftrightarrow> path = lit ''s'' \<and> mode = WriteMode \<and> \<not> u"
proof -
  have "script_items redirect_tree (lit ''echo x > s'') False False = ([Touch (lit ''s'') WriteMode False], False)" by code_simp
  then show ?thesis by (simp flip: script_touch [where e = False])
qed

end
