(* ===== verification/Protected_Edits.thy ===== *)
theory Protected_Edits
  imports Permission_Policy
begin

text \<open>
  Edit targets that need confirmation even when edits are accepted
  (\<open>packages/tools/xai-grok-workspace/src/permission/shell_access.rs\<close>), and how a path that the model wrote becomes a
  target (\<open>resolve_model_path\<close> of \<open>packages/tools/xai-grok-tools/src/types/resources.rs\<close>).

  The home directory of the agent (\<open>user_grok_home\<close>, from the environment) and the expansion of a tilde (the \<open>shellexpand\<close>
  package) are arguments.
\<close>

section \<open>Paths by components\<close>

text \<open>\<open>Path::starts_with\<close>, \<open>Path::strip_prefix\<close> and equality of paths go by components.\<close>

definition path_starts_with :: "rstr \<Rightarrow> rstr \<Rightarrow> bool" where
  "path_starts_with path base \<longleftrightarrow> take (length (components base)) (components path) = components base"

definition path_strip_prefix :: "rstr \<Rightarrow> rstr \<Rightarrow> rstr option" where
  "path_strip_prefix path base =
     (if path_starts_with path base then Some (from_components (drop (length (components base)) (components path))) else None)"

definition path_equal :: "rstr \<Rightarrow> rstr \<Rightarrow> bool" where
  "path_equal p q \<longleftrightarrow> components p = components q"

definition list_ends_with :: "'a list \<Rightarrow> 'a list \<Rightarrow> bool" where
  "list_ends_with xs ys \<longleftrightarrow> length ys \<le> length xs \<and> drop (length xs - length ys) xs = ys"

definition has_window :: "'a \<Rightarrow> 'a \<Rightarrow> 'a list \<Rightarrow> bool" where
  "has_window a b xs = list_ex (\<lambda>p. p = (a, b)) (zip xs (tl xs))"

section \<open>Paths the model writes\<close>

text \<open>The loop that drops literal escapes at the end.\<close>

function strip_escapes :: "rstr \<Rightarrow> rstr" where
  "strip_escapes s =
     (case (case strip_suffix s (92 # lit ''n'') of
              Some t \<Rightarrow> Some t
            | None \<Rightarrow> (case strip_suffix s (92 # lit ''r'') of Some t \<Rightarrow> Some t | None \<Rightarrow> strip_suffix s (92 # lit ''t''))) of
        Some t \<Rightarrow> strip_escapes (trim_end t)
      | None \<Rightarrow> s)"
  by pat_completeness auto

lemma strip_suffix_shorter: "strip_suffix s x = Some t \<Longrightarrow> x \<noteq> [] \<Longrightarrow> length t < length s"
  by (auto simp: strip_suffix_def ends_with_def suffix_def split: if_splits)

lemma trim_end_length: "length (trim_end s) \<le> length s"
  by (simp add: trim_end_def trim_end_matches_def) (metis length_dropWhile_le length_rev)

termination strip_escapes
proof (relation "measure length", goal_cases)
  case (2 s t)
  then have "length t < length s"
    by (auto split: option.splits dest!: strip_suffix_shorter)
  then show ?case using trim_end_length [of t] by simp
qed simp

declare strip_escapes.simps [simp del]

definition is_quote :: "uchar \<Rightarrow> bool" where
  "is_quote c \<longleftrightarrow> c = 34 \<or> c = 39"

definition sanitize_model_path_arg :: "rstr \<Rightarrow> rstr" where
  "sanitize_model_path_arg input =
     (let trimmed = trim input;
          quote_wrapped = (byte_len trimmed \<ge> 2 \<and> is_quote (hd trimmed) \<and> is_quote (last trimmed));
          unquoted = trim (trim_end_matches is_quote (dropWhile is_quote trimmed))
      in if quote_wrapped then strip_escapes unquoted else unquoted)"

definition resolve_model_path :: "(rstr \<Rightarrow> rstr) \<Rightarrow> rstr \<Rightarrow> rstr option \<Rightarrow> rstr \<Rightarrow> rstr" where
  "resolve_model_path tilde cwd display_cwd input =
     (let expanded = tilde (sanitize_model_path_arg input);
          relative =
            (let as_absolute = slash # expanded; base = (case display_cwd of Some d \<Rightarrow> d | None \<Rightarrow> cwd)
             in if \<not> is_absolute expanded \<and> expanded \<noteq> [] \<and> path_starts_with as_absolute base then
                  (case path_strip_prefix as_absolute base of Some rest \<Rightarrow> path_join cwd rest | None \<Rightarrow> path_join cwd expanded)
                else path_join cwd expanded)
      in case display_cwd of
           Some display \<Rightarrow>
             if is_absolute expanded then
               (case path_strip_prefix expanded display of Some rest \<Rightarrow> path_join cwd rest | None \<Rightarrow> expanded)
             else relative
         | None \<Rightarrow> relative)"

section \<open>Protected targets\<close>

datatype protected_edit_reason =
    HookRoot | GitHooks | Ssh | StartupFile | Etc | GrokConfig | GrokSandbox | ClaudeSettings | CursorHooks | Sensitive

fun reason_kind :: "protected_edit_reason \<Rightarrow> rstr" where
  "reason_kind HookRoot = lit ''hook_root''"
| "reason_kind GitHooks = lit ''git_hooks''"
| "reason_kind Ssh = lit ''ssh''"
| "reason_kind StartupFile = lit ''startup_file''"
| "reason_kind Etc = lit ''etc''"
| "reason_kind GrokConfig = lit ''grok_config''"
| "reason_kind GrokSandbox = lit ''grok_sandbox''"
| "reason_kind ClaudeSettings = lit ''claude_settings''"
| "reason_kind CursorHooks = lit ''cursor_hooks''"
| "reason_kind Sensitive = lit ''sensitive''"

definition STARTUP_FILES :: "rstr list" where
  "STARTUP_FILES = map lit
     [''.bashrc'', ''.bash_profile'', ''.bash_login'', ''.bash_logout'', ''.profile'', ''.zshrc'', ''.zshenv'', ''.zprofile'',
      ''.zlogin'', ''.zlogout'', ''.kshrc'', ''.cshrc'', ''.tcshrc'', ''.login'', ''.logout'', ''.inputrc'', ''.xprofile'']"

definition grok_home_matches :: "'g policy_env \<Rightarrow> rstr option \<Rightarrow> (rstr \<Rightarrow> bool) \<Rightarrow> bool" where
  "grok_home_matches E home pred =
     (case home of
        None \<Rightarrow> False
      | Some h \<Rightarrow>
          let lexical = normalize_lexically h
          in pred lexical \<or> (case resolve_following_symlinks E lexical of Some resolved \<Rightarrow> pred resolved | None \<Rightarrow> False))"

definition path_is_under_user_grok_hook_root :: "rstr \<Rightarrow> rstr \<Rightarrow> bool" where
  "path_is_under_user_grok_hook_root path grok_home \<longleftrightarrow>
     path_starts_with path (path_join grok_home (lit ''hooks'')) \<or> path_equal path (path_join grok_home (lit ''hooks-paths''))"

definition protected_grok_hook_root :: "'g policy_env \<Rightarrow> rstr option \<Rightarrow> rstr \<Rightarrow> rstr list \<Rightarrow> bool" where
  "protected_grok_hook_root E home path cs \<longleftrightarrow>
     has_window (lit ''.grok'') (lit ''hooks'') cs \<or>
     list_ends_with cs [lit ''.grok'', lit ''hooks-paths''] \<or>
     grok_home_matches E home (path_is_under_user_grok_hook_root path)"

fun submodule_hooks :: "rstr list \<Rightarrow> bool" where
  "submodule_hooks [] = False"
| "submodule_hooks (c # cs) \<longleftrightarrow>
     (c = lit ''.git'' \<and> cs \<noteq> [] \<and> hd cs = lit ''modules'' \<and> lit ''hooks'' \<in> set (drop 2 cs)) \<or> submodule_hooks cs"

definition protected_git_hooks_path :: "rstr list \<Rightarrow> bool" where
  "protected_git_hooks_path cs \<longleftrightarrow> has_window (lit ''.git'') (lit ''hooks'') cs \<or> submodule_hooks cs"

definition protected_grok_config_file_with_home :: "'g policy_env \<Rightarrow> rstr \<Rightarrow> rstr list \<Rightarrow> rstr option \<Rightarrow> protected_edit_reason option" where
  "protected_grok_config_file_with_home E path cs home =
     (let file = (if cs = [] then None else Some (last cs));
          in_dot_grok = (length cs \<ge> 2 \<and> cs ! (length cs - 2) = lit ''.grok'');
          guarded = (\<lambda>r. if in_dot_grok \<or>
            grok_home_matches E home (\<lambda>h. case path_parent path of Some p \<Rightarrow> path_equal p h | None \<Rightarrow> False) then Some r else None)
      in if file \<in> {Some (lit ''config.toml''), Some (lit ''managed_config.toml''), Some (lit ''requirements.toml'')} then guarded GrokConfig
         else if file = Some (lit ''sandbox.toml'') then guarded GrokSandbox
         else None)"

definition normal_names :: "rstr \<Rightarrow> rstr list" where
  "normal_names path = List.map_filter (\<lambda>c. case c of Normal s \<Rightarrow> Some (to_ascii_lowercase s) | _ \<Rightarrow> None) (components path)"

definition protected_edit_reason_of :: "'g policy_env \<Rightarrow> rstr option \<Rightarrow> rstr \<Rightarrow> protected_edit_reason option" where
  "protected_edit_reason_of E home path =
     (let cs = normal_names path; file = (if cs = [] then [] else last cs)
      in if protected_grok_hook_root E home path cs then Some HookRoot
         else if list_ends_with cs [lit ''.claude'', lit ''settings.json''] \<or> list_ends_with cs [lit ''.claude'', lit ''settings.local.json'']
         then Some ClaudeSettings
         else if list_ends_with cs [lit ''.cursor'', lit ''hooks.json''] then Some CursorHooks
         else if protected_git_hooks_path cs then Some GitHooks
         else if lit ''.ssh'' \<in> set cs then Some Ssh
         else if file \<in> set STARTUP_FILES then Some StartupFile
         else case protected_grok_config_file_with_home E path cs home of
             Some reason \<Rightarrow> Some reason
           | None \<Rightarrow> if path_equal path (lit ''/etc'') \<or> path_starts_with path (lit ''/etc'') then Some Etc else None)"

definition resolved_path_is_within_root :: "'g policy_env \<Rightarrow> rstr \<Rightarrow> rstr \<Rightarrow> bool" where
  "resolved_path_is_within_root E resolved root =
     (case resolve_following_symlinks E root of Some r \<Rightarrow> path_starts_with resolved r | None \<Rightarrow> True)"

definition edit_target_protection :: "'g policy_env \<Rightarrow> rstr option \<Rightarrow> rstr \<Rightarrow> protected_edit_reason option" where
  "edit_target_protection E home path =
     (if \<not> is_absolute path then Some Sensitive
      else case protected_edit_reason_of E home (normalize_lexically path) of
          Some reason \<Rightarrow> Some reason
        | None \<Rightarrow>
            (case resolve_following_symlinks E path of
               None \<Rightarrow> Some Sensitive
             | Some resolved \<Rightarrow>
                 (case protected_edit_reason_of E home resolved of
                    Some reason \<Rightarrow> Some reason
                  | None \<Rightarrow> if resolved_path_is_within_root E resolved (lit ''/etc'') then Some Sensitive else None)))"

section \<open>Nothing below a protected directory is unprotected\<close>

lemma has_window_append: "has_window a b xs \<Longrightarrow> has_window a b (xs @ ys)"
proof (induction xs)
  case (Cons x xs)
  then show ?case by (cases xs) (auto simp: has_window_def)
qed (simp add: has_window_def)

lemma submodule_hooks_append: "submodule_hooks xs \<Longrightarrow> submodule_hooks (xs @ ys)"
  by (induction xs) auto

lemma protected_git_hooks_append: "protected_git_hooks_path xs \<Longrightarrow> protected_git_hooks_path (xs @ ys)"
  by (auto simp: protected_git_hooks_path_def has_window_append submodule_hooks_append)

lemma path_starts_with_trans: "path_starts_with q p \<Longrightarrow> path_starts_with p b \<Longrightarrow> path_starts_with q b"
  unfolding path_starts_with_def by (metis le_cases take_all_iff take_take min.absorb_iff1 min.absorb2)

lemma starts_with_names: "path_starts_with q p \<Longrightarrow> \<exists>ys. normal_names q = normal_names p @ ys"
proof -
  assume "path_starts_with q p"
  then have "components q = components p @ drop (length (components p)) (components q)"
    by (metis append_take_drop_id path_starts_with_def)
  then show ?thesis by (metis filter_append map_append map_filter_def normal_names_def)
qed

text \<open>
  Protection of the hooks of a repository, of \<open>.ssh\<close> and of \<open>/etc\<close> is inherited: every path below such a directory is
  protected too, whichever reason is then reported.
\<close>

theorem protection_is_inherited:
  assumes "protected_edit_reason_of E home p \<in> {Some GitHooks, Some Ssh, Some Etc}" and "path_starts_with q p"
  shows "protected_edit_reason_of E home q \<noteq> None"
proof -
  obtain ys where ys: "normal_names q = normal_names p @ ys" using starts_with_names [OF assms(2)] by blast
  from assms(1) consider "protected_git_hooks_path (normal_names p)" | "lit ''.ssh'' \<in> set (normal_names p)"
    | "path_equal p (lit ''/etc'') \<or> path_starts_with p (lit ''/etc'')"
    by (auto simp: protected_edit_reason_of_def protected_grok_config_file_with_home_def Let_def split: if_splits option.splits)
  then show ?thesis
  proof cases
    case 1
    then have "protected_git_hooks_path (normal_names q)" by (simp add: ys protected_git_hooks_append)
    then show ?thesis by (simp add: protected_edit_reason_of_def Let_def split: option.splits)
  next
    case 2
    then have "lit ''.ssh'' \<in> set (normal_names q)" by (simp add: ys)
    then show ?thesis by (simp add: protected_edit_reason_of_def Let_def split: option.splits)
  next
    case 3
    then have "path_starts_with p (lit ''/etc'')" by (auto simp: path_equal_def path_starts_with_def)
    then have "path_starts_with q (lit ''/etc'')" by (rule path_starts_with_trans [OF assms(2)])
    then show ?thesis by (simp add: protected_edit_reason_of_def Let_def split: option.splits)
  qed
qed

theorem protection_is_inherited_witness:
  "\<exists>E :: unit policy_env. protected_edit_reason_of E None (lit ''/etc'') = Some Etc \<and> path_starts_with (lit ''/etc/ssh/x'') (lit ''/etc'') \<and>
    protected_edit_reason_of E None (lit ''/etc/ssh/x'') \<noteq> None"
proof -
  define E :: "unit policy_env" where
    "E = \<lparr>glob_new = (\<lambda>_. None), glob_matches_with = (\<lambda>_ _ _. False), url_host = (\<lambda>_. None), to_lowercase = id,
      grammar = (\<lambda>_. None), canonicalize = (\<lambda>_. None), symlink_metadata = (\<lambda>_. NotSymlink), read_link = (\<lambda>_. None)\<rparr>"
  have e: "protected_edit_reason_of E None (lit ''/etc'') = Some Etc" unfolding E_def by code_simp
  have s: "path_starts_with (lit ''/etc/ssh/x'') (lit ''/etc'')" by code_simp
  show ?thesis using protection_is_inherited [of E None "lit ''/etc''" "lit ''/etc/ssh/x''"] e s by blast
qed

end
