(* ===== verification/Permission_Manager.thy ===== *)
theory Permission_Manager
  imports Grant_Decisions Shell_Access Auto_Classifier Protected_Edits
begin

text \<open>
  The permission manager (\<open>packages/tools/xai-grok-workspace/src/permission/manager/mod.rs\<close>,
  \<open>manager/request_classification.rs\<close>, \<open>manager/reasons.rs\<close>, \<open>gate_preflight.rs\<close>): the actor that decides every request for a
  tool, from the managed policy over remembered grants, auto mode and the sandbox to the prompt.

  The actor handles one command at a time, so a command is a function on its state.  What happens while a request is
  handled, the answer of the user, whether the requester is still there, whether the scan of the repositories
  finished, is the record \<open>request_env\<close>.  An event carries what was decided; times, queue depth and the identifiers copied
  from the request are left out.
\<close>

section \<open>Preflight\<close>

record gate_preflight =
  pf_direct :: "decision option"
  pf_bash_command :: "gate_decision option"
  pf_shell_file :: "gate_decision option"
  native_symlink_fail_closed :: bool
  defers_gate_ask :: bool

definition preflight_evaluate :: "'g policy_env \<Rightarrow> 'g compiled_policy option \<Rightarrow> 'json access_kind \<Rightarrow> rstr \<Rightarrow> bool \<Rightarrow> gate_preflight" where
  "preflight_evaluate E P access cwd auto =
     (let (dir, native) = (case P of Some p \<Rightarrow> evaluate_with_cwd_details E p access (Some cwd) | None \<Rightarrow> (None, False));
          (bash, file) =
            (case (P, access) of
               (Some p, Bash cmd) \<Rightarrow> (evaluate_bash_command_gate E p cmd, evaluate_shell_file_access_gate E p cmd cwd)
             | _ \<Rightarrow> (None, None));
          rule_match_ask = (dir = Some Ask \<or> bash = Some AskRuleMatch \<or> file = Some AskRuleMatch);
          fail_closed_ask = (bash = Some AskFailClosed \<or> file = Some AskFailClosed)
      in \<lparr>pf_direct = dir, pf_bash_command = bash, pf_shell_file = file, native_symlink_fail_closed = native,
          defers_gate_ask = (auto \<and> fail_closed_ask \<and> \<not> rule_match_ask)\<rparr>)"

definition policy_decision :: "gate_preflight \<Rightarrow> decision option" where
  "policy_decision pf =
     combine_decisions (combine_decisions (pf_direct pf) (map_option into_decision (pf_bash_command pf)))
       (map_option into_decision (pf_shell_file pf))"

definition policy_forced_prompt :: "gate_preflight \<Rightarrow> bool" where
  "policy_forced_prompt pf \<longleftrightarrow> policy_decision pf = Some Ask"

definition gate_asks :: "gate_decision option \<Rightarrow> bool" where
  "gate_asks d = (case d of Some g \<Rightarrow> gate_is_ask g | None \<Rightarrow> False)"

definition shell_file_forced_prompt :: "gate_preflight \<Rightarrow> bool" where
  "shell_file_forced_prompt pf = gate_asks (pf_shell_file pf)"

definition shell_forced_prompt :: "gate_preflight \<Rightarrow> bool" where
  "shell_forced_prompt pf \<longleftrightarrow> gate_asks (pf_bash_command pf) \<or> shell_file_forced_prompt pf \<or> native_symlink_fail_closed pf"

definition admits_auto_classifier :: "gate_preflight \<Rightarrow> bool" where
  "admits_auto_classifier pf \<longleftrightarrow> \<not> policy_forced_prompt pf \<or> defers_gate_ask pf"

section \<open>Reasons and events\<close>

datatype manager_reason =
    GrantReason grant_reason | YOLO | POLICY_ALLOW | POLICY_DENY | POLICY_ASK | BASH_COMMAND_GATE_ASK | SHELL_FILE_GATE_ASK
  | AUTO_FAST_PATH | AUTO_CLASSIFIER_ALLOW | AUTO_CLASSIFIER_DENY | AUTO_CLASSIFIER_TIMEOUT | AUTO_CLASSIFIER_UNAVAILABLE
  | AUTO_DENIAL_LIMIT | SANDBOX_AUTO | PERSISTED_GRANT | PROMPT_DENY | PROMPT_ALLOW | NEEDS_USER | BASH_REQUEST_FLOOR
  | OPAQUE_SHELL | HOOK_ASK | REQUESTER_GONE

definition prompt_trigger :: "gate_preflight \<Rightarrow> manager_reason option \<Rightarrow> manager_reason option" where
  "prompt_trigger pf auto_reason =
     (if pf_direct pf = Some Ask then Some POLICY_ASK
      else if defers_gate_ask pf then auto_reason
      else if gate_asks (pf_bash_command pf) then Some BASH_COMMAND_GATE_ASK
      else if shell_file_forced_prompt pf then Some SHELL_FILE_GATE_ASK
      else auto_reason)"

datatype classification_source = FromClassifier classifier_source | NotWired

definition classification_kind :: "classification_source \<Rightarrow> classifier_source_kind" where
  "classification_kind s = (case s of FromClassifier c \<Rightarrow> source_kind c | NotWired \<Rightarrow> KindNotWired)"

datatype request_classification =
    NotClassified | FastPathed | Classified assessment "(classifier_verdict \<times> classification_source) option"

definition classifier_source_of :: "request_classification \<Rightarrow> classifier_source_kind option" where
  "classifier_source_of c =
     (case c of NotClassified \<Rightarrow> None | FastPathed \<Rightarrow> Some KindFastPath
      | Classified _ outcome \<Rightarrow> map_option (\<lambda>(v, s). classification_kind s) outcome)"

definition classifier_verdict_of :: "request_classification \<Rightarrow> classifier_verdict option" where
  "classifier_verdict_of c = (case c of Classified _ outcome \<Rightarrow> map_option fst outcome | _ \<Rightarrow> None)"

definition security_findings_tokens :: "request_classification \<Rightarrow> rstr list option" where
  "security_findings_tokens c = (case c of Classified a _ \<Rightarrow> Some (assessment_tokens a) | _ \<Rightarrow> None)"

record permission_event =
  ev_tool_name :: rstr
  ev_access_kind :: rstr
  ev_access_detail :: "rstr option"
  ev_yolo_mode :: bool
  ev_auto_approved :: bool
  ev_user_prompted :: bool
  ev_decision :: rstr
  ev_prompt_outcome :: "rstr option"
  ev_reject_reason :: "rstr option"
  ev_permission_mode :: rstr
  ev_decision_reason :: "manager_reason option"
  ev_classifier_source :: "rstr option"
  ev_auto_denials :: "(nat \<times> nat) option"
  ev_security_findings :: "rstr list option"
  ev_classifier_verdict :: "rstr option"
  ev_remember_tool_approvals :: bool

section \<open>State\<close>

type_synonym 'json classifier = "rstr \<Rightarrow> 'json access_kind \<Rightarrow> rstr option \<Rightarrow> classifier_context \<Rightarrow> classifier_outcome"

record ('g, 'json) manager_env =
  m_policy_env :: "'g policy_env"
  m_url_env :: url_env
  m_git_env :: git_env
  m_json_env :: "'json json_env"
  m_store_env :: store_env
  m_tilde :: "rstr \<Rightarrow> rstr"
  m_grok_home :: "rstr option"
  m_sandbox_auto_allow :: bool

record 'g manager_config =
  m_cwd :: rstr
  m_client_type :: client_type
  m_client :: "rstr option"
  m_policy :: "'g compiled_policy option"
  m_prompt_policy :: prompt_policy
  m_static_domains :: domain_matcher
  m_allowlist_is_default :: bool
  m_remember :: bool
  m_yolo_pin :: "rstr option"

record 'json manager_state =
  m_state :: permission_state
  m_store :: cached_state_store
  m_files :: store_files
  m_yolo :: bool
  m_auto :: bool
  m_classifier :: "'json classifier option"
  m_consecutive :: nat
  m_total :: nat
  m_turns :: "classifier_turn list"
  m_recorded :: "classifier_turn list"
  m_instructions :: "rstr option"
  m_pin_refusal_logged :: bool
  m_allow_edits :: bool

definition AUTO_DENY_CONSECUTIVE_LIMIT :: nat where "AUTO_DENY_CONSECUTIVE_LIMIT = 3"
definition AUTO_DENY_TOTAL_LIMIT :: nat where "AUTO_DENY_TOTAL_LIMIT = 20"
definition MAX_RECORDED_PERMISSION_DECISIONS :: nat where "MAX_RECORDED_PERMISSION_DECISIONS = 12"

definition AUTO_DENY_GUIDANCE :: rstr where
  "AUTO_DENY_GUIDANCE = lit ''Take a safer approach that stays within what the user asked for; do not retry this exact action or attempt to work around the denial. If no safer alternative exists, ask the user how to proceed.''"

definition default_auto_mode_classifier :: "('g, 'json) manager_env \<Rightarrow> 'json classifier" where
  "default_auto_mode_classifier M = llm_classify (m_json_env M) (grammar (m_policy_env M)) production_default"

definition manager_persist :: "('g, 'json) manager_env \<Rightarrow> 'g manager_config \<Rightarrow> nat \<Rightarrow> 'json manager_state \<Rightarrow> 'json manager_state" where
  "manager_persist M cfg now s =
     s\<lparr>m_files := persist_state (m_store_env M) now (cached_dirs (m_store s)) (m_state s) (m_client cfg) (m_files s)\<rparr>"

text \<open>The start of the actor; \<open>initial\<close> is the request for always-approve, clamped by the pin.\<close>

definition manager_start :: "('g, 'json) manager_env \<Rightarrow> 'g manager_config \<Rightarrow> store_dirs \<Rightarrow> nat \<Rightarrow> bool \<Rightarrow> bool \<Rightarrow> store_files \<Rightarrow> 'json manager_state" where
  "manager_start M cfg dirs now initial config_given fs =
     (let yolo = clamp_yolo initial (m_yolo_pin cfg);
          (fs, store, st) = resolve_and_load (m_store_env M) now dirs (m_client cfg) fs;
          s = \<lparr>m_state = st, m_store = store, m_files = fs, m_yolo = yolo,
               m_auto = (\<not> yolo \<and> config_given \<and> m_prompt_policy cfg = PromptAuto),
               m_classifier = Some (default_auto_mode_classifier M), m_consecutive = 0, m_total = 0, m_turns = [], m_recorded = [],
               m_instructions = None, m_pin_refusal_logged = False, m_allow_edits = False\<rparr>
      in if state_edit_policy st = EditAllow then
           manager_persist M cfg now (s\<lparr>m_state := st\<lparr>state_edit_policy := EditAsk\<rparr>\<rparr>)
         else s)"

section \<open>A request\<close>

datatype prompt_outcome =
    AllowOnce | AllowAlways | AllowEditsForSession | AllowAlwaysBashCommand rstr | AllowAlwaysBashGlob rstr
  | AllowAlwaysDomain rstr | AllowAlwaysMcpTool rstr | AllowAlwaysMcpServer rstr | RejectOnce | RejectAlwaysBashCommand rstr
  | RejectAlwaysMcpTool rstr | RejectAlwaysDomain rstr | PromptCancelled | PromptFollowup rstr | PromptError rstr

fun outcome_kind_str :: "prompt_outcome \<Rightarrow> rstr" where
  "outcome_kind_str AllowOnce = lit ''allow_once''"
| "outcome_kind_str AllowAlways = lit ''allow_always''"
| "outcome_kind_str AllowEditsForSession = lit ''allow_edits_for_session''"
| "outcome_kind_str (AllowAlwaysBashCommand _) = lit ''allow_always_bash''"
| "outcome_kind_str (AllowAlwaysBashGlob _) = lit ''allow_always_bash_glob''"
| "outcome_kind_str (AllowAlwaysDomain _) = lit ''allow_always_domain''"
| "outcome_kind_str (AllowAlwaysMcpTool _) = lit ''allow_always_mcp_tool''"
| "outcome_kind_str (AllowAlwaysMcpServer _) = lit ''allow_always_mcp_server''"
| "outcome_kind_str RejectOnce = lit ''reject_once''"
| "outcome_kind_str (RejectAlwaysBashCommand _) = lit ''reject_always_bash''"
| "outcome_kind_str (RejectAlwaysMcpTool _) = lit ''reject_always_mcp_tool''"
| "outcome_kind_str (RejectAlwaysDomain _) = lit ''reject_always_domain''"
| "outcome_kind_str PromptCancelled = lit ''cancelled''"
| "outcome_kind_str (PromptFollowup _) = lit ''followup''"
| "outcome_kind_str (PromptError _) = lit ''error''"

record request_path_context =
  real_cwd :: rstr
  display_cwd :: "rstr option"

record 'json permission_request =
  rq_access :: "'json access_kind"
  rq_path_context :: "request_path_context option"
  rq_hook_ask :: "hook_ask option"

record request_env =
  re_now :: nat
  gone_at_dequeue :: bool
  scan_failed :: bool
  gone_after_scan :: bool
  gone_during_classify :: bool
  gone_before_prompt :: bool
  gone_during_prompt :: bool
  re_answer :: prompt_outcome
  gone_after_prompt :: bool

text \<open>What is known of a request before anything is decided.\<close>

record request_facts =
  rf_evaluation :: "bash_evaluation option"
  rf_protected :: "protected_edit_reason option"
  rf_preflight :: gate_preflight
  rf_hook :: bool

fun tool_name_for_access :: "'json access_kind \<Rightarrow> rstr" where
  "tool_name_for_access (Read _) = lit ''read_file''"
| "tool_name_for_access (Grep _ _) = lit ''grep''"
| "tool_name_for_access (Edit _) = lit ''search_replace''"
| "tool_name_for_access (Bash _) = lit ''run_terminal_command''"
| "tool_name_for_access (MCPTool name _) = lit ''mcp:'' @ name"
| "tool_name_for_access (WebFetch _) = lit ''web_fetch''"
| "tool_name_for_access (WebSearch _) = lit ''web_search''"
| "tool_name_for_access (AgentMessage _) = lit ''send_subagent_message''"

fun access_detail :: "'json json_env \<Rightarrow> 'json access_kind \<Rightarrow> rstr option" where
  "access_detail J (Read _) = None"
| "access_detail J (Grep path _) = path"
| "access_detail J (Edit path) = Some path"
| "access_detail J (Bash cmd) = Some cmd"
| "access_detail J (MCPTool name input) = Some (mcp_access_detail J name input)"
| "access_detail J (WebFetch url) = Some url"
| "access_detail J (WebSearch query) = Some query"
| "access_detail J (AgentMessage i) = Some i"

definition decision_str :: "decision \<Rightarrow> rstr \<times> rstr option" where
  "decision_str d =
     (case d of Allow \<Rightarrow> (lit ''allow'', None) | Ask \<Rightarrow> (lit ''ask'', None) | Reject r \<Rightarrow> (lit ''reject'', Some r)
      | PolicyDeny r \<Rightarrow> (lit ''reject'', Some r) | FollowupMessage _ \<Rightarrow> (lit ''followup'', None) | Cancelled \<Rightarrow> (lit ''cancelled'', None))"

definition permission_mode_artifact_str :: "bool \<Rightarrow> bool \<Rightarrow> rstr" where
  "permission_mode_artifact_str yolo auto = (if yolo then lit ''always-approve'' else if auto then lit ''auto'' else lit ''ask'')"

definition emit_event :: "('g, 'json) manager_env \<Rightarrow> 'g manager_config \<Rightarrow> 'json manager_state \<Rightarrow> 'json permission_request \<Rightarrow>
    request_classification \<Rightarrow> nat \<times> nat \<Rightarrow> decision \<Rightarrow> bool \<Rightarrow> bool \<Rightarrow> rstr option \<Rightarrow> manager_reason option \<Rightarrow> permission_event" where
  "emit_event M cfg s rq cls denials d auto_approved user_prompted outcome reason =
     \<lparr>ev_tool_name = tool_name_for_access (rq_access rq), ev_access_kind = access_kind_name (rq_access rq),
      ev_access_detail = access_detail (m_json_env M) (rq_access rq), ev_yolo_mode = m_yolo s, ev_auto_approved = auto_approved,
      ev_user_prompted = user_prompted, ev_decision = fst (decision_str d), ev_prompt_outcome = outcome,
      ev_reject_reason = snd (decision_str d), ev_permission_mode = permission_mode_artifact_str (m_yolo s) (m_auto s),
      ev_decision_reason = reason, ev_classifier_source = map_option source_wire_str (classifier_source_of cls),
      ev_auto_denials = (if m_auto s then Some denials else None), ev_security_findings = security_findings_tokens cls,
      ev_classifier_verdict = map_option verdict_wire_str (classifier_verdict_of cls), ev_remember_tool_approvals = m_remember cfg\<rparr>"

section \<open>Facts of a request\<close>

definition request_cwd :: "'g manager_config \<Rightarrow> 'json permission_request \<Rightarrow> rstr" where
  "request_cwd cfg rq = (case rq_path_context rq of Some c \<Rightarrow> real_cwd c | None \<Rightarrow> m_cwd cfg)"

definition reloads_state :: "'json access_kind \<Rightarrow> bool" where
  "reloads_state access = (case access of Bash _ \<Rightarrow> True | MCPTool _ _ \<Rightarrow> True | WebFetch _ \<Rightarrow> True | _ \<Rightarrow> False)"

definition refresh_state :: "('g, 'json) manager_env \<Rightarrow> nat \<Rightarrow> 'json access_kind \<Rightarrow> 'json manager_state \<Rightarrow> 'json manager_state" where
  "refresh_state M now access s =
     (if reloads_state access then
        (case reload_if_changed (m_store_env M) now (m_store s) (m_files s) of
           (fs, store, Some fresh) \<Rightarrow> s\<lparr>m_files := fs, m_store := store, m_state := merge_grants_from fresh (m_state s)\<rparr>
         | (fs, store, None) \<Rightarrow> s\<lparr>m_files := fs, m_store := store\<rparr>)
      else s)"

definition ambient_risk :: "git_env \<Rightarrow> bool \<Rightarrow> rstr list list \<Rightarrow> rstr \<Rightarrow> bool" where
  "ambient_risk G failed raw cwd =
     (case ambient_scan_plan_from_segments raw cwd of
        PlanFailClosed \<Rightarrow> True
      | plan \<Rightarrow> failed \<or> ambient_exec_risk_from_plan G plan)"

text \<open>\<open>None\<close> when the requester left during the scan of the repositories.\<close>

definition request_evaluation :: "('g, 'json) manager_env \<Rightarrow> 'g manager_config \<Rightarrow> 'json permission_request \<Rightarrow> request_env \<Rightarrow>
    permission_state \<Rightarrow> bash_evaluation option option" where
  "request_evaluation M cfg rq env st =
     (case rq_access rq of
        Bash cmd \<Rightarrow>
          let ev = evaluate_bash (m_policy_env M) cmd st True
          in (case ambient_segments ev of
                None \<Rightarrow> Some (Some ev)
              | Some raw \<Rightarrow>
                  if gone_after_scan env then None
                  else Some (Some (ev\<lparr>ambient_segments := None,
                    eval_assessment := eval_assessment ev \<union>
                      (if ambient_risk (m_git_env M) (scan_failed env) raw (request_cwd cfg rq) then {ExecOrAmbientGit} else {})\<rparr>)))
      | _ \<Rightarrow> Some None)"

definition target_protection :: "('g, 'json) manager_env \<Rightarrow> 'g manager_config \<Rightarrow> 'json permission_request \<Rightarrow> rstr \<Rightarrow> protected_edit_reason option" where
  "target_protection M cfg rq path =
     edit_target_protection (m_policy_env M) (m_grok_home M)
       (case rq_path_context rq of
          Some c \<Rightarrow> resolve_model_path (m_tilde M) (real_cwd c) (display_cwd c) path
        | None \<Rightarrow> resolve_model_path (m_tilde M) (m_cwd cfg) None path)"

fun find_map :: "('a \<Rightarrow> 'b option) \<Rightarrow> 'a list \<Rightarrow> 'b option" where
  "find_map f [] = None"
| "find_map f (x # xs) = (case f x of Some y \<Rightarrow> Some y | None \<Rightarrow> find_map f xs)"

definition protected_edit :: "('g, 'json) manager_env \<Rightarrow> 'g manager_config \<Rightarrow> 'json permission_request \<Rightarrow> bash_evaluation option \<Rightarrow>
    protected_edit_reason option" where
  "protected_edit M cfg rq ev =
     (case rq_access rq of
        Edit path \<Rightarrow> target_protection M cfg rq path
      | Bash _ \<Rightarrow>
          (case ev of
             None \<Rightarrow> None
           | Some e \<Rightarrow>
               if eval_has_cwd_change e \<and> list_ex (\<lambda>p. \<not> is_absolute p) (eval_creation_paths e) then Some Sensitive
               else find_map (target_protection M cfg rq) (eval_creation_paths e))
      | _ \<Rightarrow> None)"

definition request_facts_of :: "('g, 'json) manager_env \<Rightarrow> 'g manager_config \<Rightarrow> 'json permission_request \<Rightarrow> bool \<Rightarrow> bash_evaluation option \<Rightarrow> request_facts" where
  "request_facts_of M cfg rq auto ev =
     \<lparr>rf_evaluation = ev, rf_protected = protected_edit M cfg rq ev,
      rf_preflight = preflight_evaluate (m_policy_env M) (m_policy cfg) (rq_access rq) (request_cwd cfg rq) auto,
      rf_hook = (rq_hook_ask rq \<noteq> None)\<rparr>"

section \<open>Before the classifier\<close>

type_synonym answer = "decision \<times> bool \<times> manager_reason"

definition pre_classifier_forced_prompt :: "request_facts \<Rightarrow> bool" where
  "pre_classifier_forced_prompt f \<longleftrightarrow>
     policy_forced_prompt (rf_preflight f) \<or> shell_forced_prompt (rf_preflight f) \<or> rf_hook f"

definition policy_allow_before_classifier :: "('g, 'json) manager_env \<Rightarrow> 'g manager_config \<Rightarrow> 'json access_kind \<Rightarrow> request_facts \<Rightarrow> bool" where
  "policy_allow_before_classifier M cfg access f \<longleftrightarrow>
     bash_assessment_is_clear (rf_evaluation f) \<or>
     (\<not> bash_request_floor_requires_prompt (rf_evaluation f) \<and>
      (case m_policy cfg of Some p \<Rightarrow> narrow_allow_authorizes (m_policy_env M) p access | None \<Rightarrow> False))"

definition early_answer :: "('g, 'json) manager_env \<Rightarrow> 'g manager_config \<Rightarrow> 'json manager_state \<Rightarrow> 'json access_kind \<Rightarrow> request_facts \<Rightarrow> answer option" where
  "early_answer M cfg s access f =
     (case policy_decision (rf_preflight f) of
        Some (Reject reason) \<Rightarrow> Some (PolicyDeny reason, False, POLICY_DENY)
      | policy \<Rightarrow>
          if m_yolo s \<and> \<not> shell_forced_prompt (rf_preflight f) \<and> \<not> rf_hook f then Some (Allow, True, YOLO)
          else case (if \<not> pre_classifier_forced_prompt f \<and> rf_protected f = None then
                       session_grant_pre_decision (m_url_env M) access (rf_evaluation f) (m_state s) (m_allow_edits s) (m_static_domains cfg)
                         (\<not> (m_auto s \<and> m_allowlist_is_default cfg)) (m_yolo_pin cfg)
                     else None) of
              Some (d, reason) \<Rightarrow> Some (d, True, GrantReason reason)
            | None \<Rightarrow>
                if m_auto s \<and> \<not> pre_classifier_forced_prompt f \<and> rf_protected f = None \<and> policy = Some Allow \<and>
                   policy_allow_before_classifier M cfg access f
                then Some (Allow, True, POLICY_ALLOW) else None)"

section \<open>Auto mode\<close>

text \<open>What the route through auto mode leaves: an answer, a requester who left, or a reason to prompt.\<close>

datatype auto_result = AutoAnswer answer | AutoAbandoned | AutoContinue "manager_reason option"

record auto_route =
  ar_result :: auto_result
  ar_classification :: request_classification
  ar_denials :: "nat \<times> nat"

definition classifier_route :: "'json manager_state \<Rightarrow> request_env \<Rightarrow> rstr \<Rightarrow> 'json access_kind \<Rightarrow> rstr option \<Rightarrow> assessment \<Rightarrow>
    classifier_outcome option option" where
  "classifier_route s env tool access detail a =
     (case m_classifier s of
        Some clf \<Rightarrow>
          if gone_during_classify env then None
          else Some (Some (clf tool access detail
            \<lparr>ctx_turns = m_turns s @ m_recorded s, ctx_instructions = m_instructions s, ctx_findings = a\<rparr>))
      | None \<Rightarrow>
          (case access of AgentMessage _ \<Rightarrow> Some (Some (outcome_heuristic VerdictBlock)) | _ \<Rightarrow> Some None))"

definition auto_deny_reason :: "classifier_outcome option \<Rightarrow> rstr" where
  "auto_deny_reason out =
     (case (case out of Some x \<Rightarrow> outcome_reason x | None \<Rightarrow> None) of
        Some r \<Rightarrow> lit ''Auto mode blocked this action ('' @ trim_end_matches (\<lambda>c. c = 46) r @ lit ''). '' @ AUTO_DENY_GUIDANCE
      | None \<Rightarrow> lit ''Auto mode blocked this action. '' @ AUTO_DENY_GUIDANCE)"

definition verdict_result :: "'g manager_config \<Rightarrow> 'json manager_state \<Rightarrow> bool \<Rightarrow> classifier_outcome option \<Rightarrow> auto_result \<times> (nat \<times> nat)" where
  "verdict_result cfg s hook out =
     (case (case out of Some x \<Rightarrow> verdict x | None \<Rightarrow> VerdictUnavailable) of
        VerdictAllow \<Rightarrow>
          (if hook then AutoContinue None else AutoAnswer (Allow, True, AUTO_CLASSIFIER_ALLOW), (0, m_total s))
      | VerdictBlock \<Rightarrow>
          if can_present_permission_prompt (m_client_type cfg) then (AutoContinue (Some AUTO_CLASSIFIER_DENY), (m_consecutive s, m_total s))
          else if m_consecutive s < AUTO_DENY_CONSECUTIVE_LIMIT \<and> m_total s < AUTO_DENY_TOTAL_LIMIT then
            (AutoAnswer (PolicyDeny (auto_deny_reason out), False, AUTO_CLASSIFIER_DENY), (m_consecutive s + 1, m_total s + 1))
          else (AutoContinue (Some AUTO_DENIAL_LIMIT), (m_consecutive s, m_total s))
      | VerdictUnavailable \<Rightarrow>
          (AutoContinue (Some (if (case out of Some x \<Rightarrow> is_timeout x | None \<Rightarrow> False) then AUTO_CLASSIFIER_TIMEOUT else AUTO_CLASSIFIER_UNAVAILABLE)),
           (m_consecutive s, m_total s)))"

definition auto_section :: "('g, 'json) manager_env \<Rightarrow> 'g manager_config \<Rightarrow> 'json manager_state \<Rightarrow> 'json permission_request \<Rightarrow> request_env \<Rightarrow>
    request_facts \<Rightarrow> auto_route" where
  "auto_section M cfg s rq env f =
     (let access = rq_access rq; tool = tool_name_for_access access; counters = (m_consecutive s, m_total s);
          keep = \<lparr>ar_result = AutoContinue None, ar_classification = NotClassified, ar_denials = counters\<rparr>
      in if \<not> m_auto s \<or> \<not> admits_auto_classifier (rf_preflight f) then keep
         else case auto_mode_fast_path access tool (rf_protected f \<noteq> None \<or> access_requires_user_interaction tool access) of
             FastAllow \<Rightarrow>
               if rf_hook f then keep
               else keep\<lparr>ar_result := AutoAnswer (Allow, True, AUTO_FAST_PATH), ar_classification := FastPathed\<rparr>
           | FastPromptUser \<Rightarrow> keep\<lparr>ar_result := AutoContinue (Some NEEDS_USER)\<rparr>
           | FastClassify \<Rightarrow>
               (let a = classifier_assessment (rf_evaluation f) (defers_gate_ask (rf_preflight f))
                in case classifier_route s env tool access (access_detail (m_json_env M) access) a of
                     None \<Rightarrow> keep\<lparr>ar_result := AutoAbandoned, ar_classification := Classified a None\<rparr>
                   | Some out \<Rightarrow>
                       (let (result, denials) = verdict_result cfg s (rf_hook f) out
                        in \<lparr>ar_result = result,
                            ar_classification = Classified a (Some (case out of
                               Some x \<Rightarrow> (verdict x, FromClassifier (provenance_source (provenance x)))
                             | None \<Rightarrow> (VerdictUnavailable, NotWired))),
                            ar_denials = denials\<rparr>)))"

section \<open>After the classifier\<close>

definition sandbox_allows :: "('g, 'json) manager_env \<Rightarrow> 'json access_kind \<Rightarrow> request_facts \<Rightarrow> bool \<Rightarrow> bool" where
  "sandbox_allows M access f auto_forced \<longleftrightarrow>
     (case access of Bash _ \<Rightarrow> True | _ \<Rightarrow> False) \<and>
     sandbox_may_auto_allow_bash (rf_evaluation f) (m_sandbox_auto_allow M) \<and>
     \<not> policy_forced_prompt (rf_preflight f) \<and> \<not> auto_forced \<and> \<not> rf_hook f \<and> rf_protected f = None"

definition policy_allow_deferred :: "('g, 'json) manager_env \<Rightarrow> 'g manager_config \<Rightarrow> 'json access_kind \<Rightarrow> request_facts \<Rightarrow> bool \<Rightarrow> bool" where
  "policy_allow_deferred M cfg access f auto_forced \<longleftrightarrow>
     rf_protected f \<noteq> None \<or> auto_forced \<or> rf_hook f \<or>
     (bash_request_floor_requires_prompt (rf_evaluation f) \<and>
      \<not> narrow_allow_clears_write_floor (m_policy_env M) (rf_evaluation f) (m_policy cfg) access)"

definition web_fetch_decision :: "('g, 'json) manager_env \<Rightarrow> 'g manager_config \<Rightarrow> 'json manager_state \<Rightarrow> rstr \<Rightarrow> (decision \<times> manager_reason) option" where
  "web_fetch_decision M cfg s url =
     (case parse_url (m_url_env M) url of
        None \<Rightarrow> None
      | Some parsed \<Rightarrow>
          (case web_fetch_deny_pre_decision (m_url_env M) parsed (m_state s) of
             Some reject \<Rightarrow> Some (reject, GrantReason SESSION_DENY)
           | None \<Rightarrow>
               if domain_check (m_url_env M) (m_static_domains cfg) parsed = None then Some (Allow, GrantReason STATIC_ALLOWLIST)
               else case fst parsed of
                   None \<Rightarrow> None
                 | Some host \<Rightarrow>
                     if normalize_host (m_url_env M) host \<in> set (allowed_web_fetch_domains (m_state s))
                     then Some (Allow, PERSISTED_GRANT) else None))"

definition raw_pre_decision :: "('g, 'json) manager_env \<Rightarrow> 'g manager_config \<Rightarrow> 'json manager_state \<Rightarrow> 'json access_kind \<Rightarrow> request_facts \<Rightarrow> bool \<Rightarrow>
    (decision \<times> manager_reason) option" where
  "raw_pre_decision M cfg s access f auto_forced =
     (let forced = policy_forced_prompt (rf_preflight f)
      in case access of
           Read _ \<Rightarrow> if forced then None else Some (Allow, GrantReason SAFE_COMMAND)
         | Grep _ _ \<Rightarrow> if forced then None else Some (Allow, GrantReason SAFE_COMMAND)
         | WebSearch _ \<Rightarrow> Some (Allow, GrantReason SAFE_COMMAND)
         | MCPTool name _ \<Rightarrow>
             map_option (\<lambda>d. (d, case d of Reject _ \<Rightarrow> GrantReason SESSION_DENY | _ \<Rightarrow> PERSISTED_GRANT))
               (mcp_pre_decision name (m_state s) forced (m_remember cfg))
         | Edit _ \<Rightarrow>
             if m_allow_edits s \<and> rf_protected f = None then Some (Allow, PERSISTED_GRANT)
             else if state_edit_policy (m_state s) = EditReject then Some (Reject (lit ''edits prohibited''), GrantReason SESSION_DENY)
             else None
         | Bash cmd \<Rightarrow>
             (case rf_evaluation f of
                None \<Rightarrow> None
              | Some e \<Rightarrow>
                  if rf_protected f \<noteq> None \<or> bash_request_floor_requires_prompt (Some e) then None
                  else if forced then
                    (if m_remember cfg \<and> \<not> auto_forced \<and> \<not> shell_file_forced_prompt (rf_preflight f) then
                       map_option (\<lambda>(d, r). (d, GrantReason r)) (bash_grant_pre_decision cmd e (m_state s) (m_yolo_pin cfg) ASK_FLOOR_REMEMBER)
                     else None)
                  else map_option (\<lambda>(d, r). (d, GrantReason r))
                    (bash_grant_pre_decision cmd e (m_state s) (m_yolo_pin cfg) (post_classify auto_forced)))
         | AgentMessage _ \<Rightarrow> None
         | WebFetch url \<Rightarrow> web_fetch_decision M cfg s url)"

definition is_allow :: "(decision \<times> manager_reason) option \<Rightarrow> bool" where
  "is_allow d = (case d of Some (Allow, _) \<Rightarrow> True | _ \<Rightarrow> False)"

definition webfetch_static_fallback :: "'json access_kind \<Rightarrow> manager_reason option \<Rightarrow> (decision \<times> manager_reason) option \<Rightarrow> bool" where
  "webfetch_static_fallback access auto_reason pre \<longleftrightarrow>
     auto_reason \<in> {Some AUTO_CLASSIFIER_TIMEOUT, Some AUTO_CLASSIFIER_UNAVAILABLE} \<and>
     (case access of WebFetch _ \<Rightarrow> True | _ \<Rightarrow> False) \<and>
     pre \<in> {Some (Allow, GrantReason STATIC_ALLOWLIST), Some (Allow, PERSISTED_GRANT)}"

definition pre_decision :: "('g, 'json) manager_env \<Rightarrow> 'g manager_config \<Rightarrow> 'json manager_state \<Rightarrow> 'json access_kind \<Rightarrow> request_facts \<Rightarrow>
    manager_reason option \<Rightarrow> (decision \<times> manager_reason) option" where
  "pre_decision M cfg s access f auto_reason =
     (let auto_forced = (auto_reason \<noteq> None); pre = raw_pre_decision M cfg s access f auto_forced;
          pre = (if auto_forced \<and> auto_prompt_blocks_allow access \<and> is_allow pre \<and> \<not> webfetch_static_fallback access auto_reason pre
                 then None else pre)
      in if rf_hook f \<and> is_allow pre then None else pre)"

definition late_answer :: "('g, 'json) manager_env \<Rightarrow> 'g manager_config \<Rightarrow> 'json manager_state \<Rightarrow> 'json access_kind \<Rightarrow> request_facts \<Rightarrow>
    manager_reason option \<Rightarrow> answer option" where
  "late_answer M cfg s access f auto_reason =
     (let auto_forced = (auto_reason \<noteq> None); policy = policy_decision (rf_preflight f)
      in if sandbox_allows M access f auto_forced then Some (Allow, True, SANDBOX_AUTO)
         else if policy \<noteq> None \<and> policy \<noteq> Some Ask \<and> \<not> (policy = Some Allow \<and> policy_allow_deferred M cfg access f auto_forced)
         then Some (the policy, True, POLICY_ALLOW)
         else case pre_decision M cfg s access f auto_reason of
             Some (d, reason) \<Rightarrow> Some (d, True, reason)
           | None \<Rightarrow>
               if m_prompt_policy cfg = PromptDeny then
                 Some (PolicyDeny (lit ''denied by prompt policy (tool not pre-approved)''), False, PROMPT_DENY)
               else if m_prompt_policy cfg = PromptAllow \<and> \<not> rf_hook f then Some (Allow, True, PROMPT_ALLOW)
               else None)"

section \<open>The prompt\<close>

definition fallback_trigger :: "request_facts \<Rightarrow> manager_reason" where
  "fallback_trigger f =
     (if rf_hook f then HOOK_ASK
      else if (case rf_evaluation f of Some e \<Rightarrow> \<not> exact_grant e \<and> OpaqueShell \<in> eval_assessment e | None \<Rightarrow> False) then OPAQUE_SHELL
      else if bash_request_floor_requires_prompt (rf_evaluation f) then BASH_REQUEST_FLOOR
      else NEEDS_USER)"

definition rejected_text :: rstr where
  "rejected_text = lit ''User rejected the execution''"

definition excluded_text :: "rstr \<Rightarrow> rstr" where
  "excluded_text key = lit ''User rejected the execution and excluded '' @ [96] @ key @ [96] @ lit '' from future runs in this project''"

definition error_text :: "rstr \<Rightarrow> rstr" where
  "error_text e = lit ''Failed to request permission from user: '' @ e"

text \<open>The new remembered state, whether it is written, the decision, and the reported outcome.\<close>

type_synonym prompt_effect = "permission_state \<times> bool \<times> decision \<times> rstr"

definition bash_prompt_effect :: "('g, 'json) manager_env \<Rightarrow> permission_state \<Rightarrow> rstr \<Rightarrow> prompt_outcome \<Rightarrow> prompt_effect" where
  "bash_prompt_effect M st cmd out =
     (case out of
        AllowOnce \<Rightarrow> (st, False, Allow, outcome_kind_str out)
      | AllowAlways \<Rightarrow>
          (st\<lparr>allowed_bash_commands := hash_extend (bash_grant_segments (m_policy_env M) cmd) (hash_insert cmd (allowed_bash_commands st))\<rparr>,
           True, Allow, outcome_kind_str out)
      | AllowAlwaysBashCommand pre \<Rightarrow> (persist_bash_always_allow (m_policy_env M) cmd pre st, True, Allow, outcome_kind_str out)
      | AllowAlwaysBashGlob pattern \<Rightarrow>
          if bash_glob_covers_script (m_policy_env M) cmd pattern then
            (st\<lparr>allowed_bash_globs := hash_insert pattern (allowed_bash_globs st)\<rparr>, True, Allow, outcome_kind_str out)
          else (st, False, Allow, outcome_kind_str out)
      | RejectOnce \<Rightarrow> (st, False, Reject rejected_text, outcome_kind_str out)
      | RejectAlwaysBashCommand pre \<Rightarrow>
          (st\<lparr>disallowed_bash_commands := hash_insert pre (disallowed_bash_commands st)\<rparr>, True, Reject (excluded_text pre), outcome_kind_str out)
      | RejectAlwaysMcpTool _ \<Rightarrow> (st, False, Reject rejected_text, outcome_kind_str RejectOnce)
      | RejectAlwaysDomain _ \<Rightarrow> (st, False, Reject rejected_text, outcome_kind_str RejectOnce)
      | PromptCancelled \<Rightarrow> (st, False, Cancelled, outcome_kind_str out)
      | PromptFollowup msg \<Rightarrow> (st, False, FollowupMessage msg, outcome_kind_str out)
      | PromptError e \<Rightarrow> (st, False, Reject (error_text e), outcome_kind_str out)
      | _ \<Rightarrow> (st, False, Allow, outcome_kind_str AllowOnce))"

fun agent_message_outcome :: "prompt_outcome \<Rightarrow> prompt_outcome" where
  "agent_message_outcome AllowOnce = AllowOnce"
| "agent_message_outcome AllowAlways = AllowOnce"
| "agent_message_outcome AllowEditsForSession = AllowOnce"
| "agent_message_outcome (AllowAlwaysBashCommand _) = AllowOnce"
| "agent_message_outcome (AllowAlwaysBashGlob _) = AllowOnce"
| "agent_message_outcome (AllowAlwaysDomain _) = AllowOnce"
| "agent_message_outcome (AllowAlwaysMcpTool _) = AllowOnce"
| "agent_message_outcome (AllowAlwaysMcpServer _) = AllowOnce"
| "agent_message_outcome RejectOnce = RejectOnce"
| "agent_message_outcome (RejectAlwaysBashCommand _) = RejectOnce"
| "agent_message_outcome (RejectAlwaysMcpTool _) = RejectOnce"
| "agent_message_outcome (RejectAlwaysDomain _) = RejectOnce"
| "agent_message_outcome out = out"

definition other_prompt_effect :: "('g, 'json) manager_env \<Rightarrow> permission_state \<Rightarrow> 'json access_kind \<Rightarrow> prompt_outcome \<Rightarrow> prompt_effect" where
  "other_prompt_effect M st access answered =
     (let out = (case access of AgentMessage _ \<Rightarrow> agent_message_outcome answered | _ \<Rightarrow> answered);
          mcp = (case access of MCPTool name _ \<Rightarrow> Some name | _ \<Rightarrow> None);
          kind = outcome_kind_str out
      in case out of
           AllowOnce \<Rightarrow> (st, False, Allow, kind)
         | AllowEditsForSession \<Rightarrow> (st, False, Allow, kind)
         | AllowAlways \<Rightarrow>
             (case mcp of Some name \<Rightarrow> st\<lparr>allowed_mcp_tools := hash_insert name (allowed_mcp_tools st)\<rparr> | None \<Rightarrow> st, True, Allow, kind)
         | AllowAlwaysBashCommand _ \<Rightarrow> (st, False, Allow, lit ''allow_always_bash'')
         | AllowAlwaysBashGlob _ \<Rightarrow> (st, False, Allow, lit ''allow_always_bash'')
         | AllowAlwaysDomain _ \<Rightarrow>
             (case access of
                WebFetch url \<Rightarrow>
                  (case parse_url (m_url_env M) url of
                     Some (Some host, _) \<Rightarrow>
                       (st\<lparr>allowed_web_fetch_domains := hash_insert (normalize_host (m_url_env M) host) (allowed_web_fetch_domains st)\<rparr>,
                        True, Allow, kind)
                   | _ \<Rightarrow> (st, False, Allow, kind))
              | _ \<Rightarrow> (st, False, Allow, kind))
         | AllowAlwaysMcpTool _ \<Rightarrow>
             (case mcp of
                Some name \<Rightarrow> (st\<lparr>allowed_mcp_tools := hash_insert name (allowed_mcp_tools st)\<rparr>, True, Allow, kind)
              | None \<Rightarrow> (st, False, Allow, kind))
         | AllowAlwaysMcpServer server_prefix \<Rightarrow>
             (case mcp of
                Some name \<Rightarrow>
                  (if map_option (\<lambda>(_, server, _). server) (parse_mcp_qualified_name name) = Some server_prefix then
                     st\<lparr>allowed_mcp_servers := hash_insert server_prefix (allowed_mcp_servers st)\<rparr>
                   else st\<lparr>allowed_mcp_tools := hash_insert name (allowed_mcp_tools st)\<rparr>, True, Allow, kind)
              | None \<Rightarrow> (st, False, Allow, kind))
         | RejectAlwaysBashCommand _ \<Rightarrow> (st, False, Reject rejected_text, kind)
         | RejectAlwaysMcpTool _ \<Rightarrow>
             (case mcp of
                Some name \<Rightarrow>
                  (st\<lparr>disallowed_mcp_tools := hash_insert name (disallowed_mcp_tools st)\<rparr>, True, Reject (excluded_text name), kind)
              | None \<Rightarrow> (st, False, Reject rejected_text, outcome_kind_str RejectOnce))
         | RejectAlwaysDomain _ \<Rightarrow>
             (case (case access of WebFetch url \<Rightarrow> web_fetch_deny_key_from_url (m_url_env M) url | _ \<Rightarrow> None) of
                Some domain \<Rightarrow>
                  (st\<lparr>disallowed_web_fetch_domains := hash_insert domain (disallowed_web_fetch_domains st)\<rparr>, True,
                   Reject (excluded_text domain), kind)
              | None \<Rightarrow> (st, False, Reject rejected_text, outcome_kind_str RejectOnce))
         | RejectOnce \<Rightarrow> (st, False, Reject rejected_text, kind)
         | PromptCancelled \<Rightarrow> (st, False, Cancelled, kind)
         | PromptFollowup msg \<Rightarrow> (st, False, FollowupMessage msg, kind)
         | PromptError e \<Rightarrow> (st, False, Reject (error_text e), kind))"

definition prompt_effect_of :: "('g, 'json) manager_env \<Rightarrow> permission_state \<Rightarrow> 'json access_kind \<Rightarrow> prompt_outcome \<Rightarrow> prompt_effect" where
  "prompt_effect_of M st access out =
     (case access of Bash cmd \<Rightarrow> bash_prompt_effect M st cmd out | _ \<Rightarrow> other_prompt_effect M st access out)"

definition allows_edits :: "'json access_kind \<Rightarrow> prompt_outcome \<Rightarrow> bool" where
  "allows_edits access out \<longleftrightarrow> out = AllowEditsForSession \<and> (case access of Bash _ \<Rightarrow> False | AgentMessage _ \<Rightarrow> False | _ \<Rightarrow> True)"

definition record_decision :: "('g, 'json) manager_env \<Rightarrow> 'json access_kind \<Rightarrow> decision \<Rightarrow> rstr \<Rightarrow> classifier_turn list \<Rightarrow> classifier_turn list" where
  "record_decision M access d outcome recorded =
     (case prompted_decision_approved d outcome of
        None \<Rightarrow> recorded
      | Some approved \<Rightarrow>
          let all = recorded @ [PermissionDecision (tool_name_for_access access)
                (permission_decision_args (m_json_env M) access (access_detail (m_json_env M) access)) approved]
          in drop (length all - MAX_RECORDED_PERMISSION_DECISIONS) all)"

text \<open>The part of the handler that asks the user; the state is the one with the counters of auto mode.\<close>

definition prompt_user :: "('g, 'json) manager_env \<Rightarrow> 'g manager_config \<Rightarrow> 'json manager_state \<Rightarrow> 'json permission_request \<Rightarrow> request_env \<Rightarrow>
    request_facts \<Rightarrow> request_classification \<Rightarrow> nat \<times> nat \<Rightarrow> manager_reason option \<Rightarrow>
    'json manager_state \<times> permission_event \<times> decision option" where
  "prompt_user M cfg s rq env f cls denials auto_reason =
     (if gone_before_prompt env then
        (s, emit_event M cfg s rq cls denials Cancelled False False None (Some REQUESTER_GONE), None)
      else
        let out = (if gone_during_prompt env then PromptCancelled else re_answer env);
            (st, written, d, outcome) = prompt_effect_of M (m_state s) (rq_access rq) out;
            t = s\<lparr>m_state := st, m_allow_edits := m_allow_edits s \<or> allows_edits (rq_access rq) out\<rparr>;
            t = (if written then manager_persist M cfg (re_now env) t else t);
            t = t\<lparr>m_recorded := record_decision M (rq_access rq) d outcome (m_recorded s)\<rparr>;
            requester_gone = (d = Cancelled \<and> gone_after_prompt env);
            trigger = (if requester_gone then REQUESTER_GONE
                       else case prompt_trigger (rf_preflight f) auto_reason of Some r \<Rightarrow> r | None \<Rightarrow> fallback_trigger f);
            event = emit_event M cfg s rq cls denials d False True (Some outcome) (Some trigger);
            t = (if outcome \<noteq> lit ''error'' \<and> \<not> requester_gone then t\<lparr>m_consecutive := 0, m_total := 0\<rparr> else t)
        in (t, event, Some d))"

section \<open>Commands\<close>

definition answer_request :: "('g, 'json) manager_env \<Rightarrow> 'g manager_config \<Rightarrow> 'json manager_state \<Rightarrow> 'json permission_request \<Rightarrow>
    request_classification \<Rightarrow> nat \<times> nat \<Rightarrow> answer \<Rightarrow> 'json manager_state \<times> permission_event \<times> decision option" where
  "answer_request M cfg s rq cls denials a =
     (let (d, auto_approved, reason) = a
      in (s, emit_event M cfg s rq cls denials d auto_approved False None (Some reason), Some d))"

definition decide_request :: "('g, 'json) manager_env \<Rightarrow> 'g manager_config \<Rightarrow> 'json manager_state \<Rightarrow> 'json permission_request \<Rightarrow> request_env \<Rightarrow>
    request_facts \<Rightarrow> 'json manager_state \<times> permission_event \<times> decision option" where
  "decide_request M cfg s rq env f =
     (let access = rq_access rq; counters = (m_consecutive s, m_total s)
      in case early_answer M cfg s access f of
           Some a \<Rightarrow> answer_request M cfg s rq NotClassified counters a
         | None \<Rightarrow>
             (let route = auto_section M cfg s rq env f; cls = ar_classification route; denials = ar_denials route;
                  t = s\<lparr>m_consecutive := fst denials, m_total := snd denials\<rparr>
              in case ar_result route of
                   AutoAnswer a \<Rightarrow> answer_request M cfg t rq cls denials a
                 | AutoAbandoned \<Rightarrow> (t, emit_event M cfg t rq cls denials Cancelled False False None (Some REQUESTER_GONE), None)
                 | AutoContinue auto_reason \<Rightarrow>
                     (case late_answer M cfg t access f auto_reason of
                        Some a \<Rightarrow> answer_request M cfg t rq cls denials a
                      | None \<Rightarrow> prompt_user M cfg t rq env f cls denials auto_reason)))"

definition handle_request :: "('g, 'json) manager_env \<Rightarrow> 'g manager_config \<Rightarrow> 'json permission_request \<Rightarrow> request_env \<Rightarrow> 'json manager_state \<Rightarrow>
    'json manager_state \<times> permission_event \<times> decision option" where
  "handle_request M cfg rq env s =
     (let gone = (\<lambda>s. (s, emit_event M cfg s rq NotClassified (m_consecutive s, m_total s) Cancelled False False None (Some REQUESTER_GONE), None))
      in if gone_at_dequeue env then gone s
         else let t = refresh_state M (re_now env) (rq_access rq) s
              in case request_evaluation M cfg rq env (m_state t) of
                   None \<Rightarrow> gone t
                 | Some ev \<Rightarrow> decide_request M cfg t rq env (request_facts_of M cfg rq (m_auto t) ev))"

datatype 'json permission_command =
    Request "'json permission_request" request_env | SetYoloMode bool | SetAutoMode bool | SetClassifier "'json classifier option"
  | SetClassifierTranscript "classifier_turn list" | SetProjectInstructions "rstr option" | ResetState nat

fun handle_command :: "('g, 'json) manager_env \<Rightarrow> 'g manager_config \<Rightarrow> 'json permission_command \<Rightarrow> 'json manager_state \<Rightarrow> 'json manager_state" where
  "handle_command M cfg (SetYoloMode enabled) s =
     (let clamped = clamp_yolo enabled (m_yolo_pin cfg);
          t = s\<lparr>m_pin_refusal_logged := m_pin_refusal_logged s \<or> (enabled \<and> \<not> clamped), m_yolo := clamped\<rparr>
      in if clamped then t\<lparr>m_auto := False\<rparr> else t)"
| "handle_command M cfg (SetAutoMode enabled) s =
     (let t = s\<lparr>m_auto := enabled\<rparr>
      in if enabled then t\<lparr>m_yolo := False, m_classifier :=
           (case m_classifier s of None \<Rightarrow> Some (default_auto_mode_classifier M) | some \<Rightarrow> some)\<rparr> else t)"
| "handle_command M cfg (SetClassifier c) s = s\<lparr>m_classifier := c\<rparr>"
| "handle_command M cfg (SetClassifierTranscript turns) s = s\<lparr>m_turns := turns\<rparr>"
| "handle_command M cfg (SetProjectInstructions i) s = s\<lparr>m_instructions := i\<rparr>"
| "handle_command M cfg (ResetState now) s =
     s\<lparr>m_state := default_state, m_allow_edits := False,
       m_files := replace_state_on_disk (m_store_env M) now (cached_dirs (m_store s)) default_state (m_client cfg) (m_files s)\<rparr>"
| "handle_command M cfg (Request rq env) s = fst (handle_request M cfg rq env s)"

end
