(* ===== verification/Manager_Safety.thy ===== *)
theory Manager_Safety
  imports Permission_Manager
begin

text \<open>
  What the permission manager guarantees about every request, whatever the user, the classifier, the files and the remembered
  state are, and the invariant of its state over all sequences of commands.
\<close>

section \<open>The shape of a result\<close>

lemma answer_request_result [simp]:
  "answer_request M cfg s rq cls denials (d, a, r) =
     (s, emit_event M cfg s rq cls denials d a False None (Some r), Some d)"
  by (simp add: answer_request_def)

lemma emit_event_fields [simp]:
  "ev_user_prompted (emit_event M cfg s rq cls denials d a u out r) = u"
  "ev_classifier_verdict (emit_event M cfg s rq cls denials d a u out r) = map_option verdict_wire_str (classifier_verdict_of cls)"
  "ev_decision_reason (emit_event M cfg s rq cls denials d a u out r) = r"
  by (simp_all add: emit_event_def)

text \<open>The routes to an answer.\<close>

lemma decide_request_cases:
  assumes "decide_request M cfg s rq env f = (t, ev, Some d)"
  obtains (early) a r where "early_answer M cfg s (rq_access rq) f = Some (d, a, r)" "t = s" "\<not> ev_user_prompted ev"
      "ev_classifier_verdict ev = None"
  | (auto) a r where "early_answer M cfg s (rq_access rq) f = None" "ar_result (auto_section M cfg s rq env f) = AutoAnswer (d, a, r)"
      "ev_classifier_verdict ev = map_option verdict_wire_str (classifier_verdict_of (ar_classification (auto_section M cfg s rq env f)))"
  | (late) a r u auto_reason where "early_answer M cfg s (rq_access rq) f = None"
      "ar_result (auto_section M cfg s rq env f) = AutoContinue auto_reason"
      "late_answer M cfg (s\<lparr>m_consecutive := fst u, m_total := snd u\<rparr>) (rq_access rq) f auto_reason = Some (d, a, r)"
      "ev_classifier_verdict ev = map_option verdict_wire_str (classifier_verdict_of (ar_classification (auto_section M cfg s rq env f)))"
  | (prompted) "ev_user_prompted ev"
proof -
  note split = assms [unfolded decide_request_def Let_def]
  show thesis
  proof (cases "early_answer M cfg s (rq_access rq) f")
    case (Some x)
    obtain d' a r where x: "x = (d', a, r)" by (cases x)
    show thesis using split Some x by (intro early [of a r]) (auto simp: classifier_verdict_of_def)
  next
    case None
    show thesis
    proof (cases "ar_result (auto_section M cfg s rq env f)")
      case (AutoAnswer x)
      obtain d' a r where "x = (d', a, r)" by (cases x)
      with split None AutoAnswer show thesis by (intro auto [of a r]) auto
    next
      case AutoAbandoned
      with split None show thesis by simp
    next
      case (AutoContinue auto_reason)
      let ?u = "ar_denials (auto_section M cfg s rq env f)"
      show thesis
      proof (cases "late_answer M cfg (s\<lparr>m_consecutive := fst ?u, m_total := snd ?u\<rparr>) (rq_access rq) f auto_reason")
        case None': None
        with split None AutoContinue show thesis
          by (intro prompted) (auto simp: prompt_user_def Let_def split: if_splits prod.splits)
      next
        case (Some x)
        obtain d' a r where "x = (d', a, r)" by (cases x)
        with split None AutoContinue Some show thesis by (intro late [of auto_reason ?u a r]) auto
      qed
    qed
  qed
qed

section \<open>The policy of a request\<close>

definition link_denied :: "'g policy_env \<Rightarrow> permission_rule list \<Rightarrow> 'json access_kind \<Rightarrow> rstr \<Rightarrow> bool" where
  "link_denied E rules access cwd \<longleftrightarrow>
     (\<exists>path raw resolved. native_file_path access = Some path \<and> raw_absolute_tool_path path (Some cwd) = Some raw \<and>
        follow_absolute_symlink E raw (path_match_string (absolute_normalized_path path (Some cwd))) = Target resolved \<and>
        deny_applies E rules (access_with_path access resolved) (Some cwd))"

text \<open>The rules of the configuration forbid a request: itself, through a link, or by a command it runs or a file it touches.\<close>

definition policy_forbids :: "'g policy_env \<Rightarrow> permission_rule list \<Rightarrow> 'json access_kind \<Rightarrow> rstr \<Rightarrow> bool" where
  "policy_forbids E rules access cwd \<longleftrightarrow>
     deny_applies E rules access (Some cwd) \<or> link_denied E rules access cwd \<or>
     (\<exists>cmd. access = Bash cmd \<and>
        (runs_matching E cmd (\<lambda>c. deny_applies E rules (Bash c :: unit access_kind) None) \<or>
         touches_matching E cmd cwd (deny_applies E rules)))"

lemma combine_decisions_cases: "combine_decisions a b = Some d \<Longrightarrow> a = Some d \<or> b = Some d"
  by (rule dec.combine_source)

lemma direct_verdicts:
  assumes "evaluate_with_cwd E P access cwd = Some d"
  shows "(\<exists>r. d = Reject r) \<or> d = Ask \<or> d = Allow"
proof -
  have "link_check E P access cwd = Some x \<Longrightarrow> (\<exists>r. x = Reject r) \<or> x = Ask \<or> x = Allow" for x
    using lexical_verdicts [of E P _ cwd]
    by (auto simp: link_check_def escalation_only_def split: option.splits symlink_follow.splits if_splits decision.splits)
  then show ?thesis
    using assms lexical_verdicts [of E P access cwd] combine_decisions_cases unfolding evaluate_is_combined by blast
qed

lemma gate_verdicts: "map_option into_decision g = Some d \<Longrightarrow> (\<exists>r. d = Reject r) \<or> d = Ask"
  by (cases g; cases "the g") auto

lemma preflight_parts:
  "pf_direct (preflight_evaluate E (Some P) access cwd auto) = evaluate_with_cwd E P access (Some cwd)"
  "map_option into_decision (pf_bash_command (preflight_evaluate E (Some P) access cwd auto)) =
     (case access of Bash cmd \<Rightarrow> evaluate_bash_command_policy E P cmd | _ \<Rightarrow> None)"
  "map_option into_decision (pf_shell_file (preflight_evaluate E (Some P) access cwd auto)) =
     (case access of Bash cmd \<Rightarrow> evaluate_shell_file_access E P cmd cwd | _ \<Rightarrow> None)"
  by (simp_all add: preflight_evaluate_def evaluate_with_cwd_def evaluate_bash_command_policy_def evaluate_shell_file_access_def
      split: access_kind.splits prod.splits)

lemma policy_verdicts:
  assumes "policy_decision (preflight_evaluate E P access cwd auto) = Some d"
  shows "(\<exists>r. d = Reject r) \<or> d = Ask \<or> d = Allow"
proof (cases P)
  case None
  with assms show ?thesis
    by (simp add: preflight_evaluate_def policy_decision_def combine_decisions_def)
next
  case (Some p)
  let ?pf = "preflight_evaluate E P access cwd auto"
  consider "pf_direct ?pf = Some d" | "map_option into_decision (pf_bash_command ?pf) = Some d"
    | "map_option into_decision (pf_shell_file ?pf) = Some d"
    using combine_decisions_cases [OF assms [unfolded policy_decision_def]] combine_decisions_cases by blast
  then show ?thesis
  proof cases
    case 1
    then show ?thesis using direct_verdicts unfolding Some preflight_parts by blast
  qed (use gate_verdicts in blast)+
qed

lemma reject_is_rank_3:
  assumes "\<And>d. x = Some d \<Longrightarrow> (\<exists>r. d = Reject r) \<or> d = Ask \<or> d = Allow"
  shows "(\<exists>r. x = Some (Reject r)) \<longleftrightarrow> map_option decision_rank x = Some 3"
  using assms by (cases x) auto

lemma rank_3_combine:
  assumes "\<And>d. a = Some d \<Longrightarrow> decision_rank d \<le> 3" "\<And>d. b = Some d \<Longrightarrow> decision_rank d \<le> 3"
  shows "map_option decision_rank (combine_decisions a b) = Some 3 \<longleftrightarrow>
     map_option decision_rank a = Some 3 \<or> map_option decision_rank b = Some 3"
  using assms by (cases a; cases b) (auto simp: combine_decisions_def max_def)

lemma decision_rank_le: "decision_rank d \<le> 3"
  by (cases d) auto

lemma lexical_rank_3:
  "map_option decision_rank (evaluate_lexical_with_cwd E (policy_new E config) access cwd) = Some 3 \<longleftrightarrow>
     deny_applies E (config_rules config) access cwd"
  by (simp add: lexical_result Let_def split: access_kind.splits)

lemma link_rank_3:
  "map_option decision_rank (link_check E (policy_new E config) access (Some cwd)) = Some 3 \<longleftrightarrow>
     link_denied E (config_rules config) access cwd"
proof -
  have "map_option decision_rank (escalation_only (evaluate_lexical_with_cwd E (policy_new E config) a (Some cwd))) = Some 3 \<longleftrightarrow>
      deny_applies E (config_rules config) a (Some cwd)" for a
    unfolding escalation_rank lexical_rank_3 [symmetric] by (auto split: option.splits)
  then show ?thesis
    by (auto simp: link_check_def link_denied_def split: option.splits symlink_follow.splits)
qed

lemma forbidden_iff_rejected:
  "policy_forbids E (config_rules config) access cwd \<longleftrightarrow>
     (\<exists>r. policy_decision (preflight_evaluate E (Some (policy_new E config)) access cwd auto) = Some (Reject r))"
  (is "_ \<longleftrightarrow> (\<exists>r. policy_decision ?pf = Some (Reject r))")
proof -
  have "(\<exists>r. policy_decision ?pf = Some (Reject r)) \<longleftrightarrow> map_option decision_rank (policy_decision ?pf) = Some 3"
    by (rule reject_is_rank_3) (rule policy_verdicts)
  also have "\<dots> \<longleftrightarrow> map_option decision_rank (evaluate_with_cwd E (policy_new E config) access (Some cwd)) = Some 3 \<or>
      map_option decision_rank (case access of Bash cmd \<Rightarrow> evaluate_bash_command_policy E (policy_new E config) cmd | _ \<Rightarrow> None) = Some 3 \<or>
      map_option decision_rank (case access of Bash cmd \<Rightarrow> evaluate_shell_file_access E (policy_new E config) cmd cwd | _ \<Rightarrow> None) = Some 3"
    unfolding policy_decision_def rank_3_combine [OF decision_rank_le decision_rank_le] preflight_parts by blast
  also have "\<dots> \<longleftrightarrow> policy_forbids E (config_rules config) access cwd"
    unfolding evaluate_is_combined rank_3_combine [OF decision_rank_le decision_rank_le] lexical_rank_3 link_rank_3 policy_forbids_def
    by (cases access) (simp_all add: bash_gate_rank shell_gate_rank)
  finally show ?thesis by blast
qed

section \<open>Requests that are answered\<close>

lemma answered_request:
  assumes "handle_request M cfg rq env s = (t, ev, Some d)"
  obtains r e where "r = refresh_state M (re_now env) (rq_access rq) s" "request_evaluation M cfg rq env (m_state r) = Some e"
    "decide_request M cfg r rq env (request_facts_of M cfg rq (m_auto r) e) = (t, ev, Some d)"
  using assms by (auto simp: handle_request_def Let_def split: if_splits option.splits)

lemma refresh_state_modes [simp]:
  "m_yolo (refresh_state M now access s) = m_yolo s" "m_auto (refresh_state M now access s) = m_auto s"
  "m_consecutive (refresh_state M now access s) = m_consecutive s" "m_total (refresh_state M now access s) = m_total s"
  "m_recorded (refresh_state M now access s) = m_recorded s" "m_classifier (refresh_state M now access s) = m_classifier s"
  "m_allow_edits (refresh_state M now access s) = m_allow_edits s"
  by (simp_all add: refresh_state_def split: prod.splits option.splits)

lemma request_facts_fields [simp]:
  "rf_evaluation (request_facts_of M cfg rq auto ev) = ev" "rf_protected (request_facts_of M cfg rq auto ev) = protected_edit M cfg rq ev"
  "rf_preflight (request_facts_of M cfg rq auto ev) =
     preflight_evaluate (m_policy_env M) (m_policy cfg) (rq_access rq) (request_cwd cfg rq) auto"
  "rf_hook (request_facts_of M cfg rq auto ev) \<longleftrightarrow> rq_hook_ask rq \<noteq> None"
  by (simp_all add: request_facts_of_def)

lemma no_reject_before_auto: "early_answer M cfg s access f = None \<Longrightarrow> policy_decision (rf_preflight f) \<noteq> Some (Reject r)"
  by (auto simp: early_answer_def)

lemma early_allow_cases:
  assumes "early_answer M cfg s access f = Some (Allow, a, r)"
  obtains (yolo) "m_yolo s" "\<not> shell_forced_prompt (rf_preflight f)" "\<not> rf_hook f"
  | (unforced) "\<not> pre_classifier_forced_prompt f" "rf_protected f = None"
  using assms by (auto simp: early_answer_def split: option.splits decision.splits if_splits)

lemma auto_allow_unprotected:
  assumes "ar_result (auto_section M cfg s rq env f) = AutoAnswer (Allow, a, r)"
  shows "m_auto s" "\<not> rf_hook f" "rf_protected f = None"
    "classifier_verdict_of (ar_classification (auto_section M cfg s rq env f)) \<noteq> Some VerdictBlock"
  using assms
  by (auto simp: auto_section_def Let_def verdict_result_def auto_mode_fast_path_def classifier_verdict_of_def
      split: if_splits auto_fast_path.splits option.splits classifier_verdict.splits prod.splits)

lemma late_allow_cases:
  assumes "late_answer M cfg s access f auto_reason = Some (Allow, a, r)"
    "\<And>d. policy_decision (rf_preflight f) = Some d \<Longrightarrow> d = Ask \<or> d = Allow"
  obtains (sandbox) "sandbox_allows M access f (auto_reason \<noteq> None)"
  | (policy) "\<not> policy_allow_deferred M cfg access f (auto_reason \<noteq> None)"
  | (grant) reason where "pre_decision M cfg s access f auto_reason = Some (Allow, reason)"
  | (prompt_policy) "m_prompt_policy cfg = PromptAllow" "\<not> rf_hook f"
  using assms by (auto simp: late_answer_def Let_def split: if_splits option.splits)

lemma open_policy:
  assumes "early_answer M cfg s access (request_facts_of M cfg rq auto e) = None"
    "policy_decision (rf_preflight (request_facts_of M cfg rq auto e)) = Some d"
  shows "d = Ask \<or> d = Allow"
  using no_reject_before_auto [OF assms(1)] assms(2) policy_verdicts unfolding request_facts_fields by blast

section \<open>Denials, hooks, protected targets and blocked actions\<close>

lemma forbidden_early:
  assumes "m_policy cfg = Some (policy_new (m_policy_env M) config)"
    "policy_forbids (m_policy_env M) (config_rules config) (rq_access rq) (request_cwd cfg rq)"
  shows "\<exists>r. early_answer M cfg s access (request_facts_of M cfg rq auto e) = Some (PolicyDeny r, False, POLICY_DENY)"
  using assms(2) unfolding forbidden_iff_rejected [where auto = auto]
  by (auto simp: early_answer_def assms(1))

text \<open>
  C1. A denial is final: a request that the rules of the managed policy forbid, itself, through a symbolic link, by a
  command its script runs or by a file its script touches, is answered with a policy denial, unless the requester has left and there
  is no answer.  Always-approve, auto mode and its classifier, remembered grants, the sandbox, the prompt policy and the user
  make no difference, and the user is not asked.
\<close>

theorem denial_is_final:
  assumes "m_policy cfg = Some (policy_new (m_policy_env M) config)"
    "policy_forbids (m_policy_env M) (config_rules config) (rq_access rq) (request_cwd cfg rq)"
    "handle_request M cfg rq env s = (t, ev, response)"
  shows "response = None \<and> ev_decision_reason ev = Some REQUESTER_GONE \<or>
    (\<exists>r. response = Some (PolicyDeny r)) \<and> ev_decision_reason ev = Some POLICY_DENY \<and> \<not> ev_user_prompted ev"
proof -
  let ?r = "refresh_state M (re_now env) (rq_access rq) s"
  show ?thesis
  proof (cases "gone_at_dequeue env \<or> request_evaluation M cfg rq env (m_state ?r) = None")
    case True
    with assms(3) show ?thesis by (auto simp: handle_request_def Let_def split: if_splits)
  next
    case False
    then obtain e where "request_evaluation M cfg rq env (m_state ?r) = Some e" "\<not> gone_at_dequeue env" by auto
    moreover obtain why where "early_answer M cfg ?r (rq_access rq) (request_facts_of M cfg rq (m_auto ?r) e) = Some (PolicyDeny why, False, POLICY_DENY)"
      using forbidden_early [OF assms(1,2)] by blast
    ultimately show ?thesis
      using assms(3) by (auto simp: handle_request_def Let_def decide_request_def)
  qed
qed

text \<open>
  C7. A hook that asks is heard: when a hook demands that the user confirms a request, the request is allowed only by the
  user's own answer, in every mode and whatever has been granted before.
\<close>

theorem hook_ask_reaches_the_user:
  assumes "rq_hook_ask rq \<noteq> None" "handle_request M cfg rq env s = (t, ev, Some Allow)"
  shows "ev_user_prompted ev"
proof -
  from assms(2) obtain r e where d: "decide_request M cfg r rq env (request_facts_of M cfg rq (m_auto r) e) = (t, ev, Some Allow)"
    by (rule answered_request)
  let ?f = "request_facts_of M cfg rq (m_auto r) e"
  have hook: "rf_hook ?f" using assms(1) by simp
  from d show ?thesis
  proof (cases rule: decide_request_cases)
    case early
    then show ?thesis using hook by (auto elim: early_allow_cases simp: pre_classifier_forced_prompt_def)
  next
    case auto
    then show ?thesis using auto_allow_unprotected(2) hook by blast
  next
    case (late a r' u auto_reason)
    from late(3) open_policy [OF late(1)] show ?thesis
      by (cases rule: late_allow_cases) (use hook in \<open>auto simp: sandbox_allows_def policy_allow_deferred_def pre_decision_def is_allow_def Let_def
        split: if_splits\<close>)
  qed
qed

text \<open>
  A request for a protected target: the edit of a protected file; or a script of plain commands, none denied by the user, one of which creates
  (\<open>mkdir\<close>, \<open>touch\<close>) a protected path, or a relative path in a script that changes its directory.  Redirects and the operands of programs that write
  are no such targets.
\<close>

definition creation_operands :: "ts_tree \<Rightarrow> rstr \<Rightarrow> rstr list" where
  "creation_operands tree cmd =
     concat (map (\<lambda>iv. command_words_creation_paths (literal_words (inv_words iv))) (shell_command_invocations (root_node tree) cmd))"

definition script_creates_protected :: "('g, 'json) manager_env \<Rightarrow> 'g manager_config \<Rightarrow> 'json permission_request \<Rightarrow> rstr \<Rightarrow> permission_state \<Rightarrow> bool" where
  "script_creates_protected M cfg rq cmd st \<longleftrightarrow>
     \<not> script_denied (m_policy_env M) cmd st \<and>
     (\<exists>tree segs. grammar (m_policy_env M) cmd = Some tree \<and> try_parse_word_only_commands_sequence tree cmd = Some segs \<and>
        list_ex (\<lambda>p. target_protection M cfg rq p \<noteq> None \<or> \<not> is_absolute p \<and> script_has_cwd_change (root_node tree) cmd) (creation_operands tree cmd))"

definition targets_protected :: "('g, 'json) manager_env \<Rightarrow> 'g manager_config \<Rightarrow> 'json permission_request \<Rightarrow> permission_state \<Rightarrow> bool" where
  "targets_protected M cfg rq st \<longleftrightarrow>
     (case rq_access rq of
        Edit path \<Rightarrow> target_protection M cfg rq path \<noteq> None
      | Bash cmd \<Rightarrow> script_creates_protected M cfg rq cmd st
      | _ \<Rightarrow> False)"

lemma find_map_some: "find_map f xs \<noteq> None \<longleftrightarrow> list_ex (\<lambda>x. f x \<noteq> None) xs"
  by (induction xs) (auto split: option.split)

lemma creation_paths_operands:
  assumes "grammar E cmd = Some tree" "try_parse_word_only_commands_sequence tree cmd = Some segs" "\<not> script_denied E cmd st"
  shows "eval_creation_paths (evaluate_bash E cmd st honor) = creation_operands tree cmd"
    "eval_has_cwd_change (evaluate_bash E cmd st honor) \<longleftrightarrow> script_has_cwd_change (root_node tree) cmd"
proof -
  have "\<not> (\<exists>r. segments_loop E st honor segs (initial_segments (tree_findings tree cmd segs)) = Inl r)"
    unfolding loop_denied using assms by (simp add: script_denied_def all_commands_from_script_def)
  then obtain t where "segments_loop E st honor segs (initial_segments (tree_findings tree cmd segs)) = Inr t"
    by (cases "segments_loop E st honor segs (initial_segments (tree_findings tree cmd segs))") auto
  then show "eval_creation_paths (evaluate_bash E cmd st honor) = creation_operands tree cmd"
    "eval_has_cwd_change (evaluate_bash E cmd st honor) \<longleftrightarrow> script_has_cwd_change (root_node tree) cmd"
    using assms(1,2) by (simp_all add: evaluate_bash_def creation_operands_def command_write_paths_split_def comp_def Let_def)
qed

lemma targets_protected_edit:
  assumes "targets_protected M cfg rq st" "request_evaluation M cfg rq env st = Some e"
  shows "protected_edit M cfg rq e \<noteq> None"
proof (cases "rq_access rq")
  case (Edit path)
  then show ?thesis using assms(1) by (simp add: targets_protected_def protected_edit_def)
next
  case (Bash cmd)
  then have script: "script_creates_protected M cfg rq cmd st" using assms(1) by (simp add: targets_protected_def)
  then obtain tree segs where t: "grammar (m_policy_env M) cmd = Some tree" "try_parse_word_only_commands_sequence tree cmd = Some segs"
    and p: "list_ex (\<lambda>p. target_protection M cfg rq p \<noteq> None \<or> \<not> is_absolute p \<and> script_has_cwd_change (root_node tree) cmd) (creation_operands tree cmd)"
    unfolding script_creates_protected_def by blast
  obtain e' where e: "e = Some e'" "eval_creation_paths e' = creation_operands tree cmd"
    "eval_has_cwd_change e' \<longleftrightarrow> script_has_cwd_change (root_node tree) cmd"
    using assms(2) Bash creation_paths_operands [OF t, of st True] script
    by (auto simp: request_evaluation_def script_creates_protected_def Let_def split: option.splits if_splits)
  show ?thesis using p find_map_some [of "target_protection M cfg rq" "creation_operands tree cmd"] Bash
    by (auto simp: protected_edit_def e list_ex_iff)
qed (use assms(1) in \<open>simp_all add: targets_protected_def\<close>)

lemma protected_no_grant:
  assumes "protected_edit M cfg rq e \<noteq> None"
  shows "pre_decision M cfg s (rq_access rq) (request_facts_of M cfg rq auto e) auto_reason \<noteq> Some (Allow, reason)"
  using assms
  by (auto simp: pre_decision_def raw_pre_decision_def protected_edit_def Let_def split: access_kind.splits option.splits if_splits)

text \<open>
  C8. A protected target needs consent: outside always-approve mode and the prompt policy that allows everything, an edit of a
  protected file, or a script of plain commands with \<open>mkdir\<close> or \<open>touch\<close> on a protected path (or on a relative path after a change of directory), is
  allowed only by the user's own answer; no grant, no allow rule, not the sandbox, not the fast path and not the classifier of auto mode can stand
  in for it.  What a script writes in other ways, by redirects for instance, is not checked against the protected targets and not covered here.
\<close>

theorem protected_target_needs_consent:
  assumes "targets_protected M cfg rq (m_state (refresh_state M (re_now env) (rq_access rq) s))" "\<not> m_yolo s" "m_prompt_policy cfg \<noteq> PromptAllow"
    "handle_request M cfg rq env s = (t, ev, Some Allow)"
  shows "ev_user_prompted ev"
proof -
  from assms(4) obtain r e where r: "r = refresh_state M (re_now env) (rq_access rq) s"
    "request_evaluation M cfg rq env (m_state r) = Some e"
    and d: "decide_request M cfg r rq env (request_facts_of M cfg rq (m_auto r) e) = (t, ev, Some Allow)"
    by (rule answered_request)
  let ?f = "request_facts_of M cfg rq (m_auto r) e"
  have p: "protected_edit M cfg rq e \<noteq> None" "\<not> m_yolo r" using assms(1,2) r targets_protected_edit [of M cfg rq "m_state r" env e] by auto
  from d show ?thesis
  proof (cases rule: decide_request_cases)
    case early
    then show ?thesis using p by (auto elim: early_allow_cases)
  next
    case auto
    then show ?thesis using auto_allow_unprotected(3) p by fastforce
  next
    case (late a r' u auto_reason)
    from late(3) open_policy [OF late(1)] show ?thesis
      by (cases rule: late_allow_cases)
        (use p protected_no_grant [OF p(1)] assms(3) in \<open>auto simp: sandbox_allows_def policy_allow_deferred_def\<close>)
  qed
qed

text \<open>A gate that asks makes the policy ask.\<close>

lemma shell_forced_is_forced:
  assumes "shell_forced_prompt (preflight_evaluate E P access cwd auto)"
    "\<And>r. policy_decision (preflight_evaluate E P access cwd auto) \<noteq> Some (Reject r)"
  shows "policy_forced_prompt (preflight_evaluate E P access cwd auto)"
proof -
  let ?pf = "preflight_evaluate E P access cwd auto"
  have gate: "gate_asks g \<Longrightarrow> map_option into_decision g = Some Ask" for g
    by (cases g; cases "the g") (auto simp: gate_asks_def)
  have "native_symlink_fail_closed ?pf \<Longrightarrow> \<exists>d. pf_direct ?pf = Some d \<and> 2 \<le> decision_rank d"
    by (auto simp: preflight_evaluate_def evaluate_with_cwd_details_def combine_decisions_def Let_def
        split: option.splits prod.splits if_splits symlink_follow.splits)
  with assms(1) gate have "\<exists>d. policy_decision ?pf = Some d \<and> 2 \<le> decision_rank d"
    unfolding shell_forced_prompt_def shell_file_forced_prompt_def
    by (fastforce simp: policy_decision_def combine_decisions_def split: option.splits)
  then obtain d where "policy_decision ?pf = Some d" "2 \<le> decision_rank d" by blast
  then show ?thesis using policy_verdicts [of E P access cwd auto d] assms(2) by (auto simp: policy_forced_prompt_def)
qed

text \<open>Once the classifier has failed to clear a script, nothing remembered can allow it that would not have allowed it before.\<close>

lemma safe_bash_is_early:
  assumes "early_answer M cfg s (Bash cmd) (request_facts_of M cfg rq auto (Some e)) = None" "rq_access rq = Bash cmd"
    "protected_edit M cfg rq (Some e) = None" "rq_hook_ask rq = None" "m_state u = m_state s"
    "\<not> policy_forced_prompt (rf_preflight (request_facts_of M cfg rq auto (Some e)))"
  shows "bash_grant_pre_decision cmd e (m_state u) (m_yolo_pin cfg) (post_classify True) \<noteq> Some (Allow, reason)"
proof
  assume "bash_grant_pre_decision cmd e (m_state u) (m_yolo_pin cfg) (post_classify True) = Some (Allow, reason)"
  then have grant: "bash_grant_pre_decision cmd e (m_state s) (m_yolo_pin cfg) PRE_CLASSIFIER = Some (Allow, reason)"
    using assms(5) by (auto simp: bash_grant_pre_decision_def post_classify_def PRE_CLASSIFIER_def split: segment_evaluation.splits if_splits)
  have "\<not> shell_forced_prompt (rf_preflight (request_facts_of M cfg rq auto (Some e)))"
    using shell_forced_is_forced no_reject_before_auto [OF assms(1)] assms(6) unfolding request_facts_fields by blast
  then show False
    using assms grant
    by (auto simp: early_answer_def pre_classifier_forced_prompt_def session_grant_pre_decision_def split: option.splits decision.splits if_splits)
qed

lemma auto_forced_no_grant:
  assumes "early_answer M cfg s (rq_access rq) (request_facts_of M cfg rq auto e) = None" "m_state u = m_state s"
    "auto_reason \<in> {Some AUTO_CLASSIFIER_DENY, Some AUTO_DENIAL_LIMIT}"
  shows "pre_decision M cfg u (rq_access rq) (request_facts_of M cfg rq auto e) auto_reason \<noteq> Some (Allow, reason)"
proof (cases "rq_access rq")
  case (Bash cmd)
  show ?thesis
  proof
    assume "pre_decision M cfg u (rq_access rq) (request_facts_of M cfg rq auto e) auto_reason = Some (Allow, reason)"
    then obtain e' why where e: "e = Some e'" "rq_hook_ask rq = None" "protected_edit M cfg rq e = None"
      "\<not> policy_forced_prompt (rf_preflight (request_facts_of M cfg rq auto e))"
      "bash_grant_pre_decision cmd e' (m_state u) (m_yolo_pin cfg) (post_classify True) = Some (Allow, why)"
      using assms(3) Bash
      by (auto simp: pre_decision_def raw_pre_decision_def is_allow_def Let_def split: option.splits if_splits)
    with safe_bash_is_early [of M cfg s cmd rq auto e' u why] assms(1,2) Bash show False by simp
  qed
qed (use assms(3) in \<open>auto simp: pre_decision_def auto_prompt_blocks_allow_def is_allow_def webfetch_static_fallback_def Let_def
    split: option.splits if_splits\<close>)

lemma wire_block: "Some (verdict_wire_str VerdictBlock) = map_option verdict_wire_str v \<Longrightarrow> v = Some VerdictBlock"
  by (cases v; cases "the v") (simp_all add: lit_def)

text \<open>
  C9. A blocked action does not slip through: unless the prompt policy allows everything, a request that the classifier of auto mode
  blocked is allowed only by the user's own answer; no grant, no allow rule and not the sandbox overrides the verdict, and with no
  user to ask the request is denied.
\<close>

theorem blocked_action_needs_consent:
  assumes "handle_request M cfg rq env s = (t, ev, Some Allow)" "ev_classifier_verdict ev = Some (verdict_wire_str VerdictBlock)"
    "m_prompt_policy cfg \<noteq> PromptAllow"
  shows "ev_user_prompted ev"
proof -
  from assms(1) obtain r e where d: "decide_request M cfg r rq env (request_facts_of M cfg rq (m_auto r) e) = (t, ev, Some Allow)"
    by (rule answered_request)
  let ?f = "request_facts_of M cfg rq (m_auto r) e" and ?route = "auto_section M cfg r rq env (request_facts_of M cfg rq (m_auto r) e)"
  have block: "classifier_verdict_of (ar_classification ?route) = Some VerdictBlock"
    if "ev_classifier_verdict ev = map_option verdict_wire_str (classifier_verdict_of (ar_classification ?route))"
    by (rule wire_block) (rule trans [OF assms(2) [symmetric] that])
  from d show ?thesis
  proof (cases rule: decide_request_cases)
    case early
    then show ?thesis using assms(2) by simp
  next
    case auto
    then show ?thesis using auto_allow_unprotected(4) block by blast
  next
    case (late a r' u auto_reason)
    then have reason: "auto_reason \<in> {Some AUTO_CLASSIFIER_DENY, Some AUTO_DENIAL_LIMIT}"
      using block [OF late(4)]
      by (auto simp: auto_section_def Let_def verdict_result_def classifier_verdict_of_def
        split: if_splits auto_fast_path.splits option.splits classifier_verdict.splits prod.splits)
    from late(3) open_policy [OF late(1)] show ?thesis
      by (cases rule: late_allow_cases)
        (use reason auto_forced_no_grant [OF late(1) _ reason] assms(3) in \<open>auto simp: sandbox_allows_def policy_allow_deferred_def\<close>)
  qed
qed

section \<open>The state over all commands\<close>

definition manager_inv :: "'g manager_config \<Rightarrow> 'json manager_state \<Rightarrow> bool" where
  "manager_inv cfg s \<longleftrightarrow>
     (m_yolo s \<longrightarrow> m_yolo_pin cfg = None \<and> \<not> m_auto s) \<and>
     m_consecutive s \<le> AUTO_DENY_CONSECUTIVE_LIMIT \<and> m_total s \<le> AUTO_DENY_TOTAL_LIMIT \<and> m_consecutive s \<le> m_total s \<and>
     length (m_recorded s) \<le> MAX_RECORDED_PERMISSION_DECISIONS"

lemma manager_persist_fields [simp]:
  "m_yolo (manager_persist M cfg now s) = m_yolo s" "m_auto (manager_persist M cfg now s) = m_auto s"
  "m_consecutive (manager_persist M cfg now s) = m_consecutive s" "m_total (manager_persist M cfg now s) = m_total s"
  "m_recorded (manager_persist M cfg now s) = m_recorded s" "m_state (manager_persist M cfg now s) = m_state s"
  by (simp_all add: manager_persist_def)

lemma manager_start_inv: "manager_inv cfg (manager_start M cfg dirs now initial given fs)"
  by (auto simp: manager_start_def manager_inv_def clamp_yolo_def Let_def split: prod.splits)

lemma counters_bounded:
  assumes "m_consecutive s \<le> AUTO_DENY_CONSECUTIVE_LIMIT" "m_total s \<le> AUTO_DENY_TOTAL_LIMIT" "m_consecutive s \<le> m_total s"
  shows "fst (ar_denials (auto_section M cfg s rq env f)) \<le> AUTO_DENY_CONSECUTIVE_LIMIT \<and>
    snd (ar_denials (auto_section M cfg s rq env f)) \<le> AUTO_DENY_TOTAL_LIMIT \<and>
    fst (ar_denials (auto_section M cfg s rq env f)) \<le> snd (ar_denials (auto_section M cfg s rq env f))"
proof -
  have "fst (snd (verdict_result cfg s hook out)) \<le> AUTO_DENY_CONSECUTIVE_LIMIT \<and>
      snd (snd (verdict_result cfg s hook out)) \<le> AUTO_DENY_TOTAL_LIMIT \<and>
      fst (snd (verdict_result cfg s hook out)) \<le> snd (snd (verdict_result cfg s hook out))" for hook out
    using assms by (simp add: verdict_result_def split: classifier_verdict.splits)
  then show ?thesis
    using assms by (simp add: auto_section_def Let_def split: auto_fast_path.splits option.splits prod.split) (metis fst_conv snd_conv)
qed

lemma record_decision_bounded:
  "length recorded \<le> MAX_RECORDED_PERMISSION_DECISIONS \<Longrightarrow>
    length (record_decision M access d outcome recorded) \<le> MAX_RECORDED_PERMISSION_DECISIONS"
  by (auto simp: record_decision_def MAX_RECORDED_PERMISSION_DECISIONS_def Let_def split: option.splits)

lemma prompt_user_inv: "manager_inv cfg s \<Longrightarrow> manager_inv cfg (fst (prompt_user M cfg s rq env f cls denials auto_reason))"
  by (auto simp: prompt_user_def manager_inv_def Let_def record_decision_bounded split: prod.splits)

lemma refresh_state_inv: "manager_inv cfg s \<Longrightarrow> manager_inv cfg (refresh_state M now access s)"
  by (simp add: manager_inv_def)

lemma decide_request_inv:
  assumes "manager_inv cfg s"
  shows "manager_inv cfg (fst (decide_request M cfg s rq env f))"
proof -
  let ?u = "ar_denials (auto_section M cfg s rq env f)"
  have u: "manager_inv cfg (s\<lparr>m_consecutive := fst ?u, m_total := snd ?u\<rparr>)"
    using assms counters_bounded [of s M cfg rq env f] by (simp add: manager_inv_def)
  show ?thesis
    unfolding decide_request_def Let_def using assms u prompt_user_inv [OF u]
    by (auto simp: answer_request_def split: option.split auto_result.split prod.split)
qed

lemma handle_request_inv: "manager_inv cfg s \<Longrightarrow> manager_inv cfg (fst (handle_request M cfg rq env s))"
  unfolding handle_request_def Let_def
  by (auto split: option.split intro: decide_request_inv refresh_state_inv)

lemma handle_command_inv: "manager_inv cfg s \<Longrightarrow> manager_inv cfg (handle_command M cfg c s)"
proof (cases c)
  case (Request rq env)
  assume "manager_inv cfg s"
  then show ?thesis using Request handle_request_inv by simp
qed (auto simp: manager_inv_def clamp_yolo_def Let_def)

text \<open>
  C10. The manager's state over all sequences of commands: always-approve is never on while it is pinned off, and never together with
  auto mode; auto mode never denies more than three times in a row, nor more than twenty times in all, between two
  answers of the user, and its memory of answers stays within twelve.
\<close>

theorem manager_invariant:
  "manager_inv cfg (fold (handle_command M cfg) cmds (manager_start M cfg dirs now initial given fs))"
proof -
  have "manager_inv cfg s \<Longrightarrow> manager_inv cfg (fold (handle_command M cfg) cmds s)" for s
    by (induction cmds arbitrary: s) (simp_all add: handle_command_inv)
  then show ?thesis using manager_start_inv by blast
qed

section \<open>Concrete runs\<close>

text \<open>Surroundings in which nothing is stored, no URL parses and there is no home of the tool.\<close>

definition bare_manager :: "(unit, unit) manager_env" where
  "bare_manager =
     \<lparr>m_policy_env = bare_env, m_url_env = \<lparr>parse_url = (\<lambda>_. None), lowercase = id\<rparr>,
      m_git_env = \<lparr>parses_as_bool = (\<lambda>_. False), open_probe = (\<lambda>_. NoSuchFile), discover = (\<lambda>_. NoRepository), config_items = (\<lambda>_. None)\<rparr>,
      m_json_env = no_json, m_store_env = \<lparr>to_toml = (\<lambda>_. None), from_toml = (\<lambda>_. None), write_fails = (\<lambda>_. False), remove_fails = (\<lambda>_. False)\<rparr>,
      m_tilde = id, m_grok_home = None, m_sandbox_auto_allow = False\<rparr>"

definition bare_config :: "permission_rule list \<Rightarrow> unit manager_config" where
  "bare_config rules =
     \<lparr>m_cwd = lit ''/w'', m_client_type = GrokTUI, m_client = None, m_policy = Some (policy_new bare_env (permission_config_new rules)),
      m_prompt_policy = PromptAsk, m_static_domains = [], m_allowlist_is_default = False, m_remember = False, m_yolo_pin = None\<rparr>"

definition bare_state :: "bool \<Rightarrow> bool \<Rightarrow> unit classifier option \<Rightarrow> permission_state \<Rightarrow> unit manager_state" where
  "bare_state yolo auto clf st =
     \<lparr>m_state = st, m_store = \<lparr>cached_dirs = \<lparr>store_dir = lit ''/s'', legacy_dir = None\<rparr>, cached_client = None, last_sig = None\<rparr>,
      m_files = (\<lambda>_. NoFile), m_yolo = yolo, m_auto = auto, m_classifier = clf, m_consecutive = 0, m_total = 0, m_turns = [], m_recorded = [],
      m_instructions = None, m_pin_refusal_logged = False, m_allow_edits = False\<rparr>"

definition bare_request :: "unit access_kind \<Rightarrow> hook_ask option \<Rightarrow> unit permission_request" where
  "bare_request access hook = \<lparr>rq_access = access, rq_path_context = None, rq_hook_ask = hook\<rparr>"

definition patient :: "prompt_outcome \<Rightarrow> request_env" where
  "patient answered =
     \<lparr>re_now = 0, gone_at_dequeue = False, scan_failed = False, gone_after_scan = False, gone_during_classify = False,
      gone_before_prompt = False, gone_during_prompt = False, re_answer = answered, gone_after_prompt = False\<rparr>"

definition report_of :: "'s \<times> permission_event \<times> decision option \<Rightarrow> decision option \<times> bool \<times> rstr option" where
  "report_of r = (snd (snd r), ev_user_prompted (fst (snd r)), ev_classifier_verdict (fst (snd r)))"

lemma report_cases:
  assumes "report_of r = (x, b, v)"
  obtains t ev where "r = (t, ev, x)" "ev_user_prompted ev = b" "ev_classifier_verdict ev = v"
  using assms by (cases r) (auto simp: report_of_def)

definition confirm_hook :: hook_ask where
  "confirm_hook = \<lparr>hook_name = lit ''confirm'', hook_reason = None\<rparr>"

theorem denial_is_final_witness:
  "\<exists>t ev r. handle_request bare_manager (bare_config [deny_rm]) (bare_request (Bash (lit ''rm'')) None) (patient AllowOnce)
      (bare_state True False None default_state) = (t, ev, Some (PolicyDeny r)) \<and>
    policy_forbids bare_env [deny_rm] (Bash (lit ''rm'') :: unit access_kind) (lit ''/w'') \<and> \<not> ev_user_prompted ev"
proof -
  let ?cfg = "bare_config [deny_rm]" and ?rq = "bare_request (Bash (lit ''rm'')) None"
  have "report_of (handle_request bare_manager ?cfg ?rq (patient AllowOnce) (bare_state True False None default_state)) =
      (Some (PolicyDeny (deny_reason deny_rm)), False, None)" by code_simp
  then obtain t ev where h: "handle_request bare_manager ?cfg ?rq (patient AllowOnce) (bare_state True False None default_state) =
      (t, ev, Some (PolicyDeny (deny_reason deny_rm)))" by (rule report_cases)
  have "deny_applies bare_env [deny_rm] (Bash (lit ''rm'') :: unit access_kind) (Some (lit ''/w''))" by code_simp
  then have f: "policy_forbids bare_env [deny_rm] (Bash (lit ''rm'') :: unit access_kind) (lit ''/w'')" by (simp add: policy_forbids_def)
  have "policy_forbids (m_policy_env bare_manager) (config_rules (permission_config_new [deny_rm])) (rq_access ?rq) (request_cwd ?cfg ?rq)"
    using f by (simp add: bare_manager_def bare_request_def bare_config_def request_cwd_def permission_config_new_def)
  from denial_is_final [OF _ this h] have "\<not> ev_user_prompted ev"
    by (simp add: bare_config_def bare_manager_def)
  with h f show ?thesis by blast
qed

theorem hook_ask_reaches_the_user_witness:
  "\<exists>t ev. handle_request bare_manager (bare_config []) (bare_request (Edit (lit ''/w/x'')) (Some confirm_hook)) (patient AllowOnce)
      (bare_state True False None default_state) = (t, ev, Some Allow) \<and> ev_user_prompted ev"
proof -
  have "report_of (handle_request bare_manager (bare_config []) (bare_request (Edit (lit ''/w/x'')) (Some confirm_hook)) (patient AllowOnce)
      (bare_state True False None default_state)) = (Some Allow, True, None)" by code_simp
  then obtain t ev where h: "handle_request bare_manager (bare_config []) (bare_request (Edit (lit ''/w/x'')) (Some confirm_hook)) (patient AllowOnce)
      (bare_state True False None default_state) = (t, ev, Some Allow)" by (rule report_cases)
  have "ev_user_prompted ev" using hook_ask_reaches_the_user [OF _ h] by (simp add: bare_request_def)
  with h show ?thesis by blast
qed

theorem protected_target_needs_consent_witness:
  "\<exists>t ev. handle_request bare_manager (bare_config []) (bare_request (Edit (lit ''/etc/x'')) None) (patient AllowOnce)
      (bare_state False True None default_state) = (t, ev, Some Allow) \<and> ev_user_prompted ev"
proof -
  let ?rq = "bare_request (Edit (lit ''/etc/x'')) None" and ?s = "bare_state False True None default_state"
  have "report_of (handle_request bare_manager (bare_config []) ?rq (patient AllowOnce) ?s) = (Some Allow, True, None)" by code_simp
  then obtain t ev where h: "handle_request bare_manager (bare_config []) ?rq (patient AllowOnce) ?s = (t, ev, Some Allow)"
    by (rule report_cases)
  have "target_protection bare_manager (bare_config []) ?rq (lit ''/etc/x'') \<noteq> None" by code_simp
  then have "targets_protected bare_manager (bare_config []) ?rq (m_state (refresh_state bare_manager (re_now (patient AllowOnce)) (rq_access ?rq) ?s))"
    by (simp add: targets_protected_def bare_request_def)
  from protected_target_needs_consent [OF this _ _ h] have "ev_user_prompted ev" by (simp add: bare_state_def bare_config_def)
  with h show ?thesis by blast
qed

definition always :: "classifier_verdict \<Rightarrow> unit classifier" where
  "always v = (\<lambda>_ _ _ _. outcome_heuristic v)"

theorem blocked_action_needs_consent_witness:
  "\<exists>t ev. handle_request bare_manager (bare_config []) (bare_request (MCPTool (lit ''a__b'') ()) None) (patient AllowOnce)
      (bare_state False True (Some (always VerdictBlock)) default_state) = (t, ev, Some Allow) \<and>
    ev_classifier_verdict ev = Some (lit ''block'') \<and> ev_user_prompted ev"
proof -
  let ?rq = "bare_request (MCPTool (lit ''a__b'') ()) None" and ?s = "bare_state False True (Some (always VerdictBlock)) default_state"
  have "report_of (handle_request bare_manager (bare_config []) ?rq (patient AllowOnce) ?s) = (Some Allow, True, Some (lit ''block''))"
    by code_simp
  then obtain t ev where h: "handle_request bare_manager (bare_config []) ?rq (patient AllowOnce) ?s = (t, ev, Some Allow)"
    "ev_classifier_verdict ev = Some (lit ''block'')" by (rule report_cases)
  have "ev_user_prompted ev" using blocked_action_needs_consent [OF h(1)] h(2) by (simp add: bare_config_def)
  with h show ?thesis by blast
qed

text \<open>An ask rule for every tool prompts for a file that is read, but is not seen for a search of the web.\<close>

lemma ask_rule_misses_web_search:
  "report_of (handle_request bare_manager (bare_config [ask_any]) (bare_request (Read (Some (lit ''/w/x''))) None) (patient RejectOnce)
     (bare_state False False None default_state)) = (Some (Reject rejected_text), True, None)"
  "report_of (handle_request bare_manager (bare_config [ask_any]) (bare_request (WebSearch (lit ''q'')) None) (patient RejectOnce)
     (bare_state False False None default_state)) = (Some Allow, False, None)"
  by code_simp+

text \<open>
  In auto mode a remembered denial rejects a script that does not decompose, until there is a deny rule for some other command: the
  gate then fails closed, its question is left to the classifier, and the remembered denial is not consulted any more.
\<close>

lemma gate_hides_remembered_denial:
  "report_of (handle_request bare_manager (bare_config []) (bare_request (Bash (lit ''dd x'')) None) (patient RejectOnce)
     (bare_state False True (Some (always VerdictAllow)) (default_state\<lparr>disallowed_bash_commands := [lit ''dd'']\<rparr>))) =
   (Some (Reject (lit ''User previously rejected '' @ [96] @ lit ''dd'' @ [96] @ lit '' in this project'')), False, None)"
  "report_of (handle_request bare_manager (bare_config [deny_rm]) (bare_request (Bash (lit ''dd x'')) None) (patient RejectOnce)
     (bare_state False True (Some (always VerdictAllow)) (default_state\<lparr>disallowed_bash_commands := [lit ''dd'']\<rparr>))) =
   (Some Allow, False, Some (lit ''allow''))"
  by code_simp+

end
