(* ===== verification/Permission_Handle.thy ===== *)
theory Permission_Handle
  imports Manager_Safety
begin

text \<open>
  The handle of the permission manager (\<open>PermissionHandle\<close> in
  \<open>packages/tools/xai-grok-workspace/src/permission/manager/mod.rs\<close>) beside its actor.  A handle is cloned freely; a call to change
  the mode stores the new mode in shared atomic flags, one store after the other, and then sends the command, on which the actor stores
  the flags again.  The stores and sends of any number of concurrent calls and the actor's own stores interleave here one by one; the
  channel is first in, first out.
\<close>

section \<open>Calls\<close>

datatype flag = YoloFlag | AutoFlag | SideQueryFlag

datatype 'json handle_op = StoreFlag flag bool | Send "'json permission_command"

definition set_yolo_mode :: "rstr option \<Rightarrow> bool \<Rightarrow> 'json handle_op list" where
  "set_yolo_mode pin enabled =
     (let clamped = clamp_yolo enabled pin
      in [StoreFlag YoloFlag clamped] @ (if clamped then [StoreFlag AutoFlag False] else []) @ [Send (SetYoloMode enabled)])"

definition set_auto_mode :: "bool \<Rightarrow> 'json handle_op list" where
  "set_auto_mode enabled =
     [StoreFlag AutoFlag enabled] @ (if enabled then [StoreFlag YoloFlag False] else []) @ [Send (SetAutoMode enabled)]"

definition set_classifier :: "'json classifier option \<Rightarrow> 'json handle_op list" where
  "set_classifier c = [StoreFlag SideQueryFlag False, Send (SetClassifier c)]"

definition set_classifier_with_side_query :: "'json classifier \<Rightarrow> bool \<Rightarrow> 'json handle_op list" where
  "set_classifier_with_side_query c live = [StoreFlag SideQueryFlag live, Send (SetClassifier (Some c))]"

definition set_llm_side_query_wired :: "bool \<Rightarrow> 'json handle_op list" where
  "set_llm_side_query_wired wired = [StoreFlag SideQueryFlag wired]"

definition set_classifier_transcript :: "classifier_turn list \<Rightarrow> 'json handle_op list" where
  "set_classifier_transcript turns = [Send (SetClassifierTranscript turns)]"

definition set_project_instructions :: "rstr option \<Rightarrow> 'json handle_op list" where
  "set_project_instructions instructions = [Send (SetProjectInstructions instructions)]"

definition reset_state :: "nat \<Rightarrow> 'json handle_op list" where
  "reset_state now = [Send (ResetState now)]"

definition request :: "'json permission_request \<Rightarrow> request_env \<Rightarrow> 'json handle_op list" where
  "request rq env = [Send (Request rq env)]"

inductive handle_call :: "rstr option \<Rightarrow> 'json handle_op list \<Rightarrow> bool" for pin where
  "handle_call pin (set_yolo_mode pin enabled)"
| "handle_call pin (set_auto_mode enabled)"
| "handle_call pin (set_classifier c)"
| "handle_call pin (set_classifier_with_side_query clf live)"
| "handle_call pin (set_llm_side_query_wired wired)"
| "handle_call pin (set_classifier_transcript turns)"
| "handle_call pin (set_project_instructions instructions)"
| "handle_call pin (reset_state now)"
| "handle_call pin (request rq env)"

text \<open>The answer a caller of \<open>request\<close> sees: there is always one.\<close>

datatype handle_kind = AllowAllHandle | ActorHandle

definition request_answer :: "handle_kind \<Rightarrow> bool \<Rightarrow> decision option \<Rightarrow> decision" where
  "request_answer h sent response =
     (case h of
        AllowAllHandle \<Rightarrow> Allow
      | ActorHandle \<Rightarrow>
          if \<not> sent then Reject (lit ''permission manager unavailable'')
          else case response of Some d \<Rightarrow> d | None \<Rightarrow> Reject (lit ''failed to receive permission decision''))"

definition is_yolo_mode :: "handle_kind \<Rightarrow> (flag \<Rightarrow> bool) \<Rightarrow> bool" where
  "is_yolo_mode h flags = (case h of AllowAllHandle \<Rightarrow> True | ActorHandle \<Rightarrow> flags YoloFlag)"

definition is_auto_mode :: "handle_kind \<Rightarrow> (flag \<Rightarrow> bool) \<Rightarrow> bool" where
  "is_auto_mode h flags = (case h of AllowAllHandle \<Rightarrow> False | ActorHandle \<Rightarrow> flags AutoFlag)"

definition has_llm_side_query :: "handle_kind \<Rightarrow> (flag \<Rightarrow> bool) \<Rightarrow> bool" where
  "has_llm_side_query h flags = (case h of AllowAllHandle \<Rightarrow> False | ActorHandle \<Rightarrow> flags SideQueryFlag)"

definition set_user_prompt_notify :: "('tx \<Rightarrow> bool) \<Rightarrow> 'tx \<Rightarrow> 'tx option \<Rightarrow> 'tx option" where
  "set_user_prompt_notify is_closed tx slot =
     (case slot of Some existing \<Rightarrow> if \<not> is_closed existing then slot else Some tx | None \<Rightarrow> Some tx)"

section \<open>Interleaving\<close>

text \<open>The flags the actor stores after it has changed its own modes.\<close>

fun actor_stores :: "rstr option \<Rightarrow> 'json permission_command \<Rightarrow> (flag \<times> bool) list" where
  "actor_stores pin (SetYoloMode enabled) =
     (let clamped = clamp_yolo enabled pin in [(YoloFlag, clamped)] @ (if clamped then [(AutoFlag, False)] else []))"
| "actor_stores pin (SetAutoMode enabled) = [(AutoFlag, enabled)] @ (if enabled then [(YoloFlag, False)] else [])"
| "actor_stores pin _ = []"

record 'json shared_state =
  sh_flags :: "flag \<Rightarrow> bool"
  sh_queue :: "'json permission_command list"
  sh_actor :: "'json manager_state"
  sh_stores :: "(flag \<times> bool) list"
  sh_calls :: "'json handle_op list list"

definition spawned :: "'json manager_state \<Rightarrow> 'json shared_state" where
  "spawned s =
     \<lparr>sh_flags = (\<lambda>_. False)(YoloFlag := m_yolo s, AutoFlag := m_auto s), sh_queue = [], sh_actor = s, sh_stores = [], sh_calls = []\<rparr>"

inductive shared_step :: "('g, 'json) manager_env \<Rightarrow> 'g manager_config \<Rightarrow> 'json shared_state \<Rightarrow> 'json shared_state \<Rightarrow> bool" for M cfg where
  call: "handle_call (m_yolo_pin cfg) ops \<Longrightarrow> shared_step M cfg S (S\<lparr>sh_calls := sh_calls S @ [ops]\<rparr>)"
| store: "i < length (sh_calls S) \<Longrightarrow> sh_calls S ! i = StoreFlag fl b # ops \<Longrightarrow>
    shared_step M cfg S (S\<lparr>sh_flags := (sh_flags S)(fl := b), sh_calls := (sh_calls S)[i := ops]\<rparr>)"
| send: "i < length (sh_calls S) \<Longrightarrow> sh_calls S ! i = Send c # ops \<Longrightarrow>
    shared_step M cfg S (S\<lparr>sh_queue := sh_queue S @ [c], sh_calls := (sh_calls S)[i := ops]\<rparr>)"
| receive: "sh_stores S = [] \<Longrightarrow> sh_queue S = c # q \<Longrightarrow>
    shared_step M cfg S (S\<lparr>sh_queue := q, sh_actor := handle_command M cfg c (sh_actor S), sh_stores := actor_stores (m_yolo_pin cfg) c\<rparr>)"
| actor_store: "sh_stores S = (fl, b) # rest \<Longrightarrow> shared_step M cfg S (S\<lparr>sh_flags := (sh_flags S)(fl := b), sh_stores := rest\<rparr>)"

definition quiescent :: "'json shared_state \<Rightarrow> bool" where
  "quiescent S \<longleftrightarrow> sh_queue S = [] \<and> sh_stores S = [] \<and> list_all (\<lambda>ops. ops = []) (sh_calls S)"

section \<open>The modes of the actor\<close>

lemma prompt_user_modes [simp]:
  "m_yolo (fst (prompt_user M cfg s rq env f cls denials auto_reason)) = m_yolo s"
  "m_auto (fst (prompt_user M cfg s rq env f cls denials auto_reason)) = m_auto s"
  by (simp_all add: prompt_user_def Let_def split: prod.splits)

lemma decide_request_modes [simp]:
  "m_yolo (fst (decide_request M cfg s rq env f)) = m_yolo s" "m_auto (fst (decide_request M cfg s rq env f)) = m_auto s"
  by (simp_all add: decide_request_def answer_request_def Let_def split: option.split auto_result.split prod.split)

lemma handle_request_modes [simp]:
  "m_yolo (fst (handle_request M cfg rq env s)) = m_yolo s" "m_auto (fst (handle_request M cfg rq env s)) = m_auto s"
  by (simp_all add: handle_request_def Let_def split: option.split)

fun mode_of :: "flag \<Rightarrow> 'json manager_state \<Rightarrow> bool" where
  "mode_of YoloFlag s = m_yolo s"
| "mode_of AutoFlag s = m_auto s"
| "mode_of SideQueryFlag s = False"

text \<open>The actor stores in a flag what it has put in its own mode, or leaves both alone.\<close>

lemma actor_stores_mode:
  assumes "fl \<noteq> SideQueryFlag"
  shows "(fl, b) \<in> set (actor_stores (m_yolo_pin cfg) c) \<Longrightarrow> b = mode_of fl (handle_command M cfg c s)"
    "fl \<notin> fst ` set (actor_stores (m_yolo_pin cfg) c) \<Longrightarrow> mode_of fl (handle_command M cfg c s) = mode_of fl s"
  using assms by (cases fl; cases c; auto simp: Let_def split: if_splits)+

section \<open>Flags and modes agree\<close>

definition stores_flag :: "rstr option \<Rightarrow> flag \<Rightarrow> 'json permission_command \<Rightarrow> bool" where
  "stores_flag pin fl c \<longleftrightarrow> fl \<in> fst ` set (actor_stores pin c)"

definition sends :: "rstr option \<Rightarrow> flag \<Rightarrow> 'json handle_op list \<Rightarrow> bool" where
  "sends pin fl ops \<longleftrightarrow> (\<exists>c. Send c \<in> set ops \<and> stores_flag pin fl c)"

text \<open>Every store of a call is followed by a command on which the actor stores that flag again.\<close>

fun backed :: "rstr option \<Rightarrow> 'json handle_op list \<Rightarrow> bool" where
  "backed pin [] = True"
| "backed pin (StoreFlag fl b # ops) \<longleftrightarrow> (fl = SideQueryFlag \<or> sends pin fl ops) \<and> backed pin ops"
| "backed pin (Send c # ops) = backed pin ops"

lemma sends_simps [simp]:
  "\<not> sends pin fl []" "sends pin fl (StoreFlag f b # ops) \<longleftrightarrow> sends pin fl ops"
  "sends pin fl (Send c # ops) \<longleftrightarrow> stores_flag pin fl c \<or> sends pin fl ops"
  by (auto simp: sends_def)

lemmas call_defs = set_yolo_mode_def set_auto_mode_def set_classifier_def set_classifier_with_side_query_def set_llm_side_query_wired_def
  set_classifier_transcript_def set_project_instructions_def reset_state_def request_def

lemma calls_backed: "handle_call pin ops \<Longrightarrow> backed pin ops"
  by (induction rule: handle_call.induct) (auto simp: call_defs stores_flag_def Let_def)

text \<open>A store of the actor that is still to come.\<close>

definition owed :: "rstr option \<Rightarrow> flag \<Rightarrow> 'json shared_state \<Rightarrow> bool" where
  "owed pin fl S \<longleftrightarrow> fl \<in> fst ` set (sh_stores S) \<or> list_ex (stores_flag pin fl) (sh_queue S) \<or>
     (\<exists>j<length (sh_calls S). sends pin fl (sh_calls S ! j))"

definition flag_inv :: "rstr option \<Rightarrow> flag \<Rightarrow> 'json shared_state \<Rightarrow> bool" where
  "flag_inv pin fl S \<longleftrightarrow>
     (\<forall>j<length (sh_calls S). backed pin (sh_calls S ! j)) \<and>
     (\<forall>b. (fl, b) \<in> set (sh_stores S) \<longrightarrow> b = mode_of fl (sh_actor S)) \<and>
     (owed pin fl S \<or> sh_flags S fl = mode_of fl (sh_actor S))"

lemma updated_call:
  "i < length xs \<Longrightarrow> (\<exists>j<length xs. Q (xs[i := y] ! j)) \<longleftrightarrow> Q y \<or> (\<exists>j<length xs. j \<noteq> i \<and> Q (xs ! j))"
  "i < length xs \<Longrightarrow> (\<exists>j<length xs. Q (xs ! j)) \<longleftrightarrow> Q (xs ! i) \<or> (\<exists>j<length xs. j \<noteq> i \<and> Q (xs ! j))"
  "i < length xs \<Longrightarrow> (\<forall>j<length xs. Q (xs ! j)) \<Longrightarrow> Q y \<Longrightarrow> (\<forall>j<length xs. Q (xs[i := y] ! j))"
  by (auto simp: nth_list_update)

lemma flag_inv_step:
  assumes "shared_step M cfg S T" "flag_inv (m_yolo_pin cfg) fl S" "fl \<noteq> SideQueryFlag"
  shows "flag_inv (m_yolo_pin cfg) fl T"
  using assms(1)
proof cases
  case (call ops)
  then show ?thesis
    using assms(2) calls_backed [OF call(2)] by (auto simp: flag_inv_def owed_def nth_append less_Suc_eq)
next
  case (store i f b ops)
  then have "backed (m_yolo_pin cfg) (StoreFlag f b # ops)" using assms(2) by (metis flag_inv_def)
  then show ?thesis
    using assms(2,3) store by (auto simp: flag_inv_def owed_def updated_call nth_list_update)
next
  case (send i c ops)
  then have "backed (m_yolo_pin cfg) (Send c # ops)" using assms(2) by (metis flag_inv_def)
  then show ?thesis
    using assms(2) send by (auto simp: flag_inv_def owed_def updated_call nth_list_update)
next
  case (receive c q)
  note modes = actor_stores_mode [OF assms(3), where c = c and cfg = cfg and M = M and s = "sh_actor S"]
  show ?thesis
  proof (cases "stores_flag (m_yolo_pin cfg) fl c")
    case True
    then show ?thesis
      using assms(2) receive modes(1) unfolding flag_inv_def owed_def by (simp add: stores_flag_def)
  next
    case False
    then show ?thesis
      using assms(2) receive modes unfolding flag_inv_def owed_def by (simp add: stores_flag_def)
  qed
next
  case (actor_store f b rest)
  then show ?thesis
    using assms(2) by (auto simp: flag_inv_def owed_def)
qed

lemma flag_inv_reachable:
  assumes "(shared_step M cfg)\<^sup>*\<^sup>* (spawned s) S" "fl \<noteq> SideQueryFlag"
  shows "flag_inv (m_yolo_pin cfg) fl S"
  using assms(1)
proof (induction rule: rtranclp_induct)
  case base
  show ?case using assms(2) by (cases fl) (simp_all add: flag_inv_def spawned_def)
next
  case (step T U)
  then show ?case using flag_inv_step assms(2) by blast
qed

text \<open>
  C11. The modes that callers see are the modes the actor applies: however the stores and sends of concurrent calls interleave with
  the actor's own stores, once every call has returned and the actor has drained its queue, the shared flags of always-approve and of
  auto mode equal the actor's modes.
\<close>

theorem flags_agree_at_rest:
  assumes "(shared_step M cfg)\<^sup>*\<^sup>* (spawned s) S" "quiescent S"
  shows "is_yolo_mode ActorHandle (sh_flags S) = m_yolo (sh_actor S) \<and> is_auto_mode ActorHandle (sh_flags S) = m_auto (sh_actor S)"
proof -
  have "\<not> owed (m_yolo_pin cfg) fl S" for fl
    using assms(2) by (auto simp: quiescent_def owed_def list_all_length)
  then show ?thesis
    using flag_inv_reachable [OF assms(1), of YoloFlag] flag_inv_reachable [OF assms(1), of AutoFlag]
    by (simp add: flag_inv_def is_yolo_mode_def is_auto_mode_def)
qed

section \<open>The pin\<close>

definition pinned_off :: "'json shared_state \<Rightarrow> bool" where
  "pinned_off S \<longleftrightarrow> \<not> sh_flags S YoloFlag \<and> (YoloFlag, True) \<notin> set (sh_stores S) \<and>
     (\<forall>j<length (sh_calls S). StoreFlag YoloFlag True \<notin> set (sh_calls S ! j))"

lemma pinned_calls: "handle_call pin ops \<Longrightarrow> pin \<noteq> None \<Longrightarrow> StoreFlag YoloFlag True \<notin> set ops"
  by (induction rule: handle_call.induct) (auto simp: call_defs clamp_yolo_def Let_def)

lemma pinned_stores: "pin \<noteq> None \<Longrightarrow> (YoloFlag, True) \<notin> set (actor_stores pin c)"
  by (cases c) (auto simp: clamp_yolo_def Let_def)

lemma pinned_step:
  assumes "shared_step M cfg S T" "pinned_off S" "m_yolo_pin cfg \<noteq> None"
  shows "pinned_off T"
  using assms(1)
proof cases
  case (call ops)
  then show ?thesis
    using assms(2) pinned_calls [OF call(2) assms(3)] by (auto simp: pinned_off_def nth_append less_Suc_eq)
next
  case (store i f b ops)
  then have "StoreFlag YoloFlag True \<notin> set (StoreFlag f b # ops)" using assms(2) by (metis pinned_off_def)
  then show ?thesis using assms(2) store by (auto simp: pinned_off_def nth_list_update)
next
  case (send i c ops)
  then have "StoreFlag YoloFlag True \<notin> set (Send c # ops)" using assms(2) by (metis pinned_off_def)
  then show ?thesis using assms(2) send by (auto simp: pinned_off_def nth_list_update)
next
  case (receive c q)
  then show ?thesis using assms(2) pinned_stores [OF assms(3)] by (auto simp: pinned_off_def)
next
  case (actor_store f b rest)
  then show ?thesis using assms(2) by (auto simp: pinned_off_def)
qed

text \<open>
  C24. There is no window in which a pinned session looks approved: from the start of the manager on, whatever calls are made and
  at whatever point of an interleaving a caller looks, always-approve reads as off while it is pinned.
\<close>

theorem pin_has_no_window:
  assumes "(shared_step M cfg)\<^sup>*\<^sup>* (spawned (manager_start M cfg dirs now initial given fs)) S" "m_yolo_pin cfg \<noteq> None"
  shows "\<not> is_yolo_mode ActorHandle (sh_flags S)"
proof -
  have "pinned_off S"
    using assms(1)
  proof (induction rule: rtranclp_induct)
    case base
    show ?case
      using manager_start_inv [of cfg M dirs now initial given fs] assms(2) by (simp add: pinned_off_def spawned_def manager_inv_def)
  next
    case (step T U)
    then show ?case using pinned_step assms(2) by blast
  qed
  then show ?thesis by (simp add: pinned_off_def is_yolo_mode_def)
qed

section \<open>Concrete interleavings\<close>

text \<open>A call to enter auto mode, run to its end and handled by the actor.\<close>

theorem flags_agree_at_rest_witness:
  "\<exists>S. (shared_step bare_manager (bare_config []))\<^sup>*\<^sup>* (spawned (bare_state True False None default_state)) S \<and> quiescent S \<and>
    is_auto_mode ActorHandle (sh_flags S) \<and> \<not> is_yolo_mode ActorHandle (sh_flags S) \<and> m_auto (sh_actor S) \<and> \<not> m_yolo (sh_actor S)"
proof -
  let ?R = "shared_step bare_manager (bare_config [])"
  define S0 where "S0 = spawned (bare_state True False None default_state)"
  define S1 where "S1 = S0\<lparr>sh_calls := [[StoreFlag AutoFlag True, StoreFlag YoloFlag False, Send (SetAutoMode True)]]\<rparr>"
  define S2 where "S2 = S1\<lparr>sh_flags := (sh_flags S1)(AutoFlag := True), sh_calls := [[StoreFlag YoloFlag False, Send (SetAutoMode True)]]\<rparr>"
  define S3 where "S3 = S2\<lparr>sh_flags := (sh_flags S2)(YoloFlag := False), sh_calls := [[Send (SetAutoMode True)]]\<rparr>"
  define S4 where "S4 = S3\<lparr>sh_queue := [SetAutoMode True], sh_calls := [[]]\<rparr>"
  define S5 where "S5 = S4\<lparr>sh_queue := [], sh_actor := handle_command bare_manager (bare_config []) (SetAutoMode True) (sh_actor S4),
    sh_stores := [(AutoFlag, True), (YoloFlag, False)]\<rparr>"
  define S6 where "S6 = S5\<lparr>sh_flags := (sh_flags S5)(AutoFlag := True), sh_stores := [(YoloFlag, False)]\<rparr>"
  define S7 where "S7 = S6\<lparr>sh_flags := (sh_flags S6)(YoloFlag := False), sh_stores := []\<rparr>"
  note states = S0_def S1_def S2_def S3_def S4_def S5_def S6_def S7_def spawned_def
  have "?R S0 S1"
    using shared_step.call [OF handle_call.intros(2) [of _ True], where S = S0] by (simp add: states set_auto_mode_def)
  moreover have "?R S1 S2" using shared_step.store [of 0 S1 AutoFlag True "[StoreFlag YoloFlag False, Send (SetAutoMode True)]"] by (simp add: states)
  moreover have "?R S2 S3" using shared_step.store [of 0 S2 YoloFlag False "[Send (SetAutoMode True)]"] by (simp add: states)
  moreover have "?R S3 S4" using shared_step.send [of 0 S3 "SetAutoMode True" "[]"] by (simp add: states)
  moreover have "?R S4 S5" using shared_step.receive [of S4 "SetAutoMode True" "[]"] by (simp add: states)
  moreover have "?R S5 S6" using shared_step.actor_store [of S5 AutoFlag True "[(YoloFlag, False)]"] by (simp add: states)
  moreover have "?R S6 S7" using shared_step.actor_store [of S6 YoloFlag False "[]"] by (simp add: states)
  ultimately have run: "?R\<^sup>*\<^sup>* S0 S7" by (meson converse_rtranclp_into_rtranclp rtranclp.rtrancl_refl)
  have q: "quiescent S7" by (simp add: states quiescent_def)
  have modes: "m_auto (sh_actor S7) \<and> \<not> m_yolo (sh_actor S7)" by (simp add: states Let_def)
  show ?thesis
    using run q modes flags_agree_at_rest [OF run [unfolded S0_def] q] unfolding S0_def by blast
qed

theorem pin_has_no_window_witness:
  "\<exists>S. (shared_step bare_manager ((bare_config [])\<lparr>m_yolo_pin := Some []\<rparr>))\<^sup>*\<^sup>*
      (spawned (manager_start bare_manager ((bare_config [])\<lparr>m_yolo_pin := Some []\<rparr>) \<lparr>store_dir = [], legacy_dir = None\<rparr> 0 True True (\<lambda>_. NoFile))) S \<and>
    sh_calls S = [[Send (SetYoloMode True)]] \<and> \<not> is_yolo_mode ActorHandle (sh_flags S)"
proof -
  let ?cfg = "(bare_config [])\<lparr>m_yolo_pin := Some []\<rparr>"
  let ?R = "shared_step bare_manager ?cfg"
  define S0 where "S0 = spawned (manager_start bare_manager ?cfg \<lparr>store_dir = [], legacy_dir = None\<rparr> 0 True True (\<lambda>_. NoFile))"
  define S1 where "S1 = S0\<lparr>sh_calls := [[StoreFlag YoloFlag False, Send (SetYoloMode True)]]\<rparr>"
  define S2 where "S2 = S1\<lparr>sh_flags := (sh_flags S1)(YoloFlag := False), sh_calls := [[Send (SetYoloMode True)]]\<rparr>"
  have "sh_calls S0 = []" by (simp add: S0_def spawned_def)
  then have "?R S0 S1"
    using shared_step.call [OF handle_call.intros(1) [of _ True], where S = S0 and cfg = ?cfg] by (simp add: S1_def set_yolo_mode_def clamp_yolo_def)
  moreover have "?R S1 S2" using shared_step.store [of 0 S1 YoloFlag False "[Send (SetYoloMode True)]"] by (simp add: S1_def S2_def)
  ultimately have run: "?R\<^sup>*\<^sup>* S0 S2" by (meson converse_rtranclp_into_rtranclp rtranclp.rtrancl_refl)
  show ?thesis using pin_has_no_window [OF run [unfolded S0_def]] run unfolding S0_def by (auto simp: S2_def)
qed

end
