(* ===== verification/Workflow_Journal.thy ===== *)
theory Workflow_Journal
  imports Prelude "HOL-Library.List_Lexorder" "HOL-Library.Multiset"
begin

text \<open>
  The journal of a workflow (\<open>packages/agent/xai-workflow/src/journal.rs\<close>): one line per answered host call, appended durably and
  replayed when the workflow is resumed.

  A file is its bytes.  Encoding and decoding of an entry is the record \<open>journal_codec\<close>; an operation on the disk is given the fault
  it meets, a failed append leaving any number of the bytes behind.  The text of an input or output error is left out.
\<close>

section \<open>JSON values\<close>

text \<open>The shapes the code distinguishes; numbers and booleans are opaque.\<close>

datatype 'n json = JNull | JString rstr | JArray "'n json list" | JObject "(rstr \<times> 'n json) list" | JOther 'n

fun json_member :: "rstr \<Rightarrow> 'n json \<Rightarrow> 'n json option" where
  "json_member key (JObject fields) = map_of fields key"
| "json_member key _ = None"

fun json_string :: "'n json \<Rightarrow> rstr option" where
  "json_string (JString s) = Some s"
| "json_string _ = None"

function canonical_json :: "'n json \<Rightarrow> 'n json" where
  "canonical_json (JObject fields) = JObject (map (\<lambda>(k, v). (k, canonical_json v)) (sort_key fst fields))"
| "canonical_json (JArray xs) = JArray (map canonical_json xs)"
| "canonical_json JNull = JNull"
| "canonical_json (JString s) = JString s"
| "canonical_json (JOther n) = JOther n"
  by pat_completeness auto

lemma json_field_size: "(k, v) \<in> set fields \<Longrightarrow> size v < Suc (size_list (size_prod (\<lambda>_. 0) size) fields)"
  by (induction fields) auto

termination canonical_json
  by (relation "measure size") (auto simp: less_Suc_eq_le dest: json_field_size intro: size_list_estimation')

record 'n hash_env =
  json_text :: "'n json \<Rightarrow> rstr"
  sha256 :: "nat list \<Rightarrow> nat list"

definition utf8 :: "uchar \<Rightarrow> nat list" where
  "utf8 c =
     (if c < 128 then [c]
      else if c < 2048 then [192 + c div 64, 128 + c mod 64]
      else if c < 65536 then [224 + c div 4096, 128 + c div 64 mod 64, 128 + c mod 64]
      else [240 + c div 262144, 128 + c div 4096 mod 64, 128 + c div 64 mod 64, 128 + c mod 64])"

definition as_bytes :: "rstr \<Rightarrow> nat list" where
  "as_bytes s = concat (map utf8 s)"

definition hex_digit :: "nat \<Rightarrow> uchar" where
  "hex_digit d = (if d < 10 then 48 + d else 87 + d)"

definition request_hash :: "'n hash_env \<Rightarrow> rstr \<Rightarrow> 'n json \<Rightarrow> rstr" where
  "request_hash H kind payload =
     concat (map (\<lambda>b. [hex_digit (b div 16), hex_digit (b mod 16)])
       (take 16 (sha256 H (as_bytes kind @ [0] @ as_bytes (json_text H (canonical_json payload))))))"

section \<open>Entries and files\<close>

definition MAX_HOST_CALLS :: nat where "MAX_HOST_CALLS = 10000"
definition MAX_JOURNAL_BYTES :: nat where "MAX_JOURNAL_BYTES = 64 * 1024 * 1024"
definition MAX_JOURNAL_ENTRIES :: nat where "MAX_JOURNAL_ENTRIES = MAX_HOST_CALLS"
definition HOST_ERROR_KEY :: rstr where "HOST_ERROR_KEY = lit ''__xai_workflow_host_error''"

record 'n journal_entry =
  je_seq :: nat
  je_kind :: rstr
  je_hash :: rstr
  je_result :: "'n json"
  je_at_ms :: nat

datatype journal_error =
    JIo | JParse nat | JUnsafeRestore nat | JFull nat nat | JSequence nat nat nat | JDivergence nat rstr

record 'n journal =
  j_entries :: "'n journal_entry list"
  j_path :: "rstr option"
  j_bytes :: nat
  j_last_line_start :: "nat option"

record 'n journal_codec =
  entry_text :: "'n journal_entry \<Rightarrow> nat list option"
  entry_parse :: "nat list \<Rightarrow> 'n journal_entry option"

datatype journal_file = NoJournal | JournalFile "nat list" | NotRegularJournal | UnreadableJournal

type_synonym journal_fs = "rstr \<Rightarrow> journal_file"

text \<open>The fault an operation on the disk meets: none, or an error after so many bytes have reached the file.\<close>

datatype io_fault = NoFault | FailsAfter nat

definition journal_new :: "rstr option \<Rightarrow> 'n journal" where
  "journal_new path = \<lparr>j_entries = [], j_path = path, j_bytes = 0, j_last_line_start = None\<rparr>"

definition read_journal_bounded :: "rstr \<Rightarrow> journal_fs \<Rightarrow> journal_error + nat list" where
  "read_journal_bounded path fs =
     (case fs path of
        NoJournal \<Rightarrow> Inr []
      | JournalFile bs \<Rightarrow> if length bs > MAX_JOURNAL_BYTES then Inl (JUnsafeRestore MAX_JOURNAL_BYTES) else Inr bs
      | NotRegularJournal \<Rightarrow> Inl (JUnsafeRestore MAX_JOURNAL_BYTES)
      | UnreadableJournal \<Rightarrow> Inl JIo)"

definition truncate_tail :: "io_fault \<Rightarrow> rstr \<Rightarrow> nat \<Rightarrow> journal_fs \<Rightarrow> journal_fs \<times> bool" where
  "truncate_tail fault path len fs =
     (case fs path of
        JournalFile bs \<Rightarrow>
          let cut = fs(path := JournalFile (take len bs @ replicate (len - length bs) 0))
          in (case fault of NoFault \<Rightarrow> (cut, True) | FailsAfter k \<Rightarrow> (if k = 0 then fs else cut, False))
      | NotRegularJournal \<Rightarrow> (fs, fault = NoFault)
      | _ \<Rightarrow> (fs, False))"

definition append_bytes :: "io_fault \<Rightarrow> rstr \<Rightarrow> nat list \<Rightarrow> journal_fs \<Rightarrow> journal_fs \<times> bool" where
  "append_bytes fault path bytes fs =
     (let onto = (\<lambda>bs. case fault of
            NoFault \<Rightarrow> (fs(path := JournalFile (bs @ bytes)), True)
          | FailsAfter k \<Rightarrow> (fs(path := JournalFile (bs @ take k bytes)), False))
      in case fs path of
           JournalFile bs \<Rightarrow> onto bs
         | NoJournal \<Rightarrow> onto []
         | NotRegularJournal \<Rightarrow> (fs, fault = NoFault)
         | UnreadableJournal \<Rightarrow> (fs, False))"

definition is_ascii_whitespace :: "nat \<Rightarrow> bool" where
  "is_ascii_whitespace b \<longleftrightarrow> b \<in> {9, 10, 12, 13, 32}"

definition validate_sequence :: "'n journal_entry list \<Rightarrow> 'n journal_entry \<Rightarrow> journal_error option" where
  "validate_sequence entries e =
     (if je_seq e \<noteq> length entries then Some (JSequence (length entries) (length entries) (je_seq e)) else None)"

section \<open>Loading\<close>

datatype load_end = EndsClean | TruncateAt nat | TerminateLine

definition accept_entry :: "'n journal_entry list \<Rightarrow> 'n journal_entry \<Rightarrow> journal_error + 'n journal_entry list" where
  "accept_entry entries e =
     (if length entries \<ge> MAX_JOURNAL_ENTRIES then Inl (JUnsafeRestore MAX_JOURNAL_ENTRIES)
      else case validate_sequence entries e of Some err \<Rightarrow> Inl err | None \<Rightarrow> Inr (entries @ [e]))"

text \<open>The loop over the lines, from the bytes not read yet, their offset and the number of the last line.\<close>

function load_lines :: "'n journal_codec \<Rightarrow> nat list \<Rightarrow> nat \<Rightarrow> nat \<Rightarrow> 'n journal_entry list \<Rightarrow> nat option \<Rightarrow>
    journal_error + 'n journal_entry list \<times> nat option \<times> load_end" where
  "load_lines C rest offset line_no entries start =
     (if rest = [] then Inr (entries, start, EndsClean)
      else if 10 \<notin> set rest then
        (if list_all is_ascii_whitespace rest then Inr (entries, start, TruncateAt offset)
         else case entry_parse C rest of
             Some e \<Rightarrow>
               (case accept_entry entries e of
                  Inl err \<Rightarrow> Inl err
                | Inr es \<Rightarrow> Inr (es, Some offset, TerminateLine))
           | None \<Rightarrow> Inr (entries, start, TruncateAt offset))
      else
        let line = takeWhile (\<lambda>b. b \<noteq> 10) rest; rest' = drop (Suc (length line)) rest; offset' = offset + length line + 1
        in if list_all is_ascii_whitespace line then load_lines C rest' offset' (line_no + 1) entries start
           else case entry_parse C line of
               None \<Rightarrow> Inl (JParse (line_no + 1))
             | Some e \<Rightarrow>
                 (case accept_entry entries e of
                    Inl err \<Rightarrow> Inl err
                  | Inr es \<Rightarrow> load_lines C rest' offset' (line_no + 1) es (Some offset)))"
  by pat_completeness auto

termination load_lines
  by (relation "measure (\<lambda>(C, rest, _). length rest)") auto

declare load_lines.simps [simp del]

definition journal_load :: "'n journal_codec \<Rightarrow> io_fault \<Rightarrow> rstr \<Rightarrow> journal_fs \<Rightarrow> journal_fs \<times> (journal_error + 'n journal)" where
  "journal_load C fault path fs =
     (case read_journal_bounded path fs of
        Inl err \<Rightarrow> (fs, Inl err)
      | Inr content \<Rightarrow>
          (case load_lines C content 0 0 [] None of
             Inl err \<Rightarrow> (fs, Inl err)
           | Inr (entries, start, how) \<Rightarrow>
               let loaded = (\<lambda>bytes. \<lparr>j_entries = entries, j_path = Some path, j_bytes = bytes, j_last_line_start = start\<rparr>)
               in (case how of
                     EndsClean \<Rightarrow> (fs, Inr (loaded (length content)))
                   | TruncateAt offset \<Rightarrow>
                       (let (fs', ok) = truncate_tail fault path offset fs in (fs', if ok then Inr (loaded offset) else Inl JIo))
                   | TerminateLine \<Rightarrow>
                       (let (fs', ok) = append_bytes fault path [10] fs
                        in (fs', if ok then Inr (loaded (saturating_add_u64 (length content) 1)) else Inl JIo)))))"

section \<open>Replaying and recording\<close>

definition agent_reservation_count :: "'n journal \<Rightarrow> nat" where
  "agent_reservation_count j = length (filter (\<lambda>e. je_kind e = lit ''spawn_agent'') (j_entries j))"

definition covers :: "'n journal \<Rightarrow> nat \<Rightarrow> bool" where
  "covers j seq \<longleftrightarrow> seq < length (j_entries j)"

definition replay :: "'n journal \<Rightarrow> nat \<Rightarrow> rstr \<Rightarrow> rstr \<Rightarrow> journal_error + 'n json option" where
  "replay j seq kind hash =
     (if \<not> seq < length (j_entries j) then Inr None
      else let e = j_entries j ! seq
           in if je_seq e \<noteq> seq \<or> je_kind e \<noteq> kind \<or> je_hash e \<noteq> hash then Inl (JDivergence seq kind)
              else Inr (Some (je_result e)))"

definition journal_record :: "'n journal_codec \<Rightarrow> io_fault \<Rightarrow> nat \<Rightarrow> nat \<Rightarrow> rstr \<Rightarrow> rstr \<Rightarrow> 'n json \<Rightarrow> journal_fs \<Rightarrow> 'n journal \<Rightarrow>
    journal_fs \<times> (journal_error + 'n journal)" where
  "journal_record C fault now seq kind hash result fs j =
     (let e = \<lparr>je_seq = seq, je_kind = kind, je_hash = hash, je_result = result, je_at_ms = now\<rparr>
      in case validate_sequence (j_entries j) e of
           Some err \<Rightarrow> (fs, Inl err)
         | None \<Rightarrow>
             (case entry_text C e of
                None \<Rightarrow> (fs, Inl JIo)
              | Some txt \<Rightarrow>
                  let line = txt @ [10];
                      pushed = j\<lparr>j_last_line_start := Some (j_bytes j), j_bytes := saturating_add_u64 (j_bytes j) (length line),
                        j_entries := j_entries j @ [e]\<rparr>
                  in if saturating_add_u64 (j_bytes j) (length line) > MAX_JOURNAL_BYTES then (fs, Inl (JFull seq MAX_JOURNAL_BYTES))
                     else case j_path j of
                         None \<Rightarrow> (fs, Inr pushed)
                       | Some path \<Rightarrow>
                           (let (fs', ok) = append_bytes fault path line fs in (fs', if ok then Inr pushed else Inl JIo))))"

definition str_contains :: "rstr \<Rightarrow> rstr \<Rightarrow> bool" where
  "str_contains s needle = sublist needle s"

definition prune_trailing_host_error :: "io_fault \<Rightarrow> rstr \<Rightarrow> journal_fs \<Rightarrow> 'n journal \<Rightarrow> journal_fs \<times> (journal_error + bool \<times> 'n journal)" where
  "prune_trailing_host_error fault failure_detail fs j =
     (if j_entries j = [] then (fs, Inr (False, j))
      else case Option.bind (json_member HOST_ERROR_KEY (je_result (last (j_entries j)))) json_string of
          None \<Rightarrow> (fs, Inr (False, j))
        | Some message \<Rightarrow>
            if message = [] \<or> \<not> str_contains failure_detail message then (fs, Inr (False, j))
            else case j_last_line_start j of
                None \<Rightarrow> (fs, Inl JIo)
              | Some new_len \<Rightarrow>
                  let pruned = j\<lparr>j_entries := butlast (j_entries j), j_bytes := new_len, j_last_line_start := None\<rparr>
                  in case j_path j of
                      None \<Rightarrow> (fs, Inr (True, pruned))
                    | Some path \<Rightarrow>
                        (let (fs', ok) = truncate_tail fault path new_len fs in (fs', if ok then Inr (True, pruned) else Inl JIo)))"

section \<open>A journal and its file\<close>

text \<open>What the code relies on of the encoding of an entry: it is decoded again, is one line, is not blank, and no proper part decodes.\<close>

definition good_entry :: "'n journal_codec \<Rightarrow> 'n journal_entry \<Rightarrow> bool" where
  "good_entry C e \<longleftrightarrow>
     (\<exists>t. entry_text C e = Some t \<and> entry_parse C t = Some e \<and> 10 \<notin> set t \<and> \<not> list_all is_ascii_whitespace t \<and>
       (\<forall>k. 0 < k \<and> k < length t \<longrightarrow> entry_parse C (take k t) = None))"

definition entry_line :: "'n journal_codec \<Rightarrow> 'n journal_entry \<Rightarrow> nat list" where
  "entry_line C e = the (entry_text C e) @ [10]"

definition journal_text :: "'n journal_codec \<Rightarrow> 'n journal_entry list \<Rightarrow> nat list" where
  "journal_text C es = concat (map (entry_line C) es)"

definition dense :: "'n journal_entry list \<Rightarrow> bool" where
  "dense es \<longleftrightarrow> map je_seq es = [0..<length es]"

text \<open>The journal in memory and the file agree.\<close>

definition in_sync :: "'n journal_codec \<Rightarrow> rstr \<Rightarrow> journal_fs \<Rightarrow> 'n journal \<Rightarrow> bool" where
  "in_sync C path fs j \<longleftrightarrow>
     j_path j = Some path \<and>
     (fs path = JournalFile (journal_text C (j_entries j)) \<or> fs path = NoJournal \<and> j_entries j = []) \<and>
     j_bytes j = length (journal_text C (j_entries j)) \<and> j_bytes j \<le> MAX_JOURNAL_BYTES \<and>
     length (j_entries j) \<le> MAX_JOURNAL_ENTRIES \<and> dense (j_entries j) \<and> list_all (good_entry C) (j_entries j)"

lemma journal_text_simps [simp]:
  "journal_text C [] = []" "journal_text C (e # es) = entry_line C e @ journal_text C es"
  "journal_text C (es @ fs) = journal_text C es @ journal_text C fs"
  by (simp_all add: journal_text_def)

lemma dense_snoc: "dense (es @ [e]) \<longleftrightarrow> dense es \<and> je_seq e = length es"
  by (auto simp: dense_def)

lemma dense_prefix: "dense (es @ fs) \<Longrightarrow> dense es"
proof -
  assume "dense (es @ fs)"
  then have "map je_seq es = take (length es) [0..<length es + length fs]"
    unfolding dense_def by (metis append_eq_conv_conj length_append length_map map_append)
  then show ?thesis by (simp add: dense_def)
qed

lemma takeWhile_line: "10 \<notin> set t \<Longrightarrow> takeWhile (\<lambda>b. b \<noteq> 10) (t @ 10 # rest) = t"
  by (induction t) auto

lemma good_entry_cases:
  assumes "good_entry C e"
  obtains t where "entry_text C e = Some t" "entry_line C e = t @ [10]" "entry_parse C t = Some e" "10 \<notin> set t" "t \<noteq> []"
    "\<not> list_all is_ascii_whitespace t" "\<And>k. 0 < k \<Longrightarrow> k < length t \<Longrightarrow> entry_parse C (take k t) = None"
  using assms by (fastforce simp: good_entry_def entry_line_def)

lemma load_line:
  assumes "good_entry C e" "je_seq e = length es" "length es < MAX_JOURNAL_ENTRIES"
  shows "load_lines C (entry_line C e @ rest) offset n es start =
    load_lines C rest (offset + length (entry_line C e)) (n + 1) (es @ [e]) (Some offset)"
  using assms(1)
proof (cases rule: good_entry_cases)
  case (1 t)
  with assms(2,3) show ?thesis
    by (subst load_lines.simps) (simp add: takeWhile_line accept_entry_def validate_sequence_def Let_def)
qed

text \<open>Reading whole lines in front of whatever follows them.\<close>

lemma load_journal_text:
  assumes "list_all (good_entry C) fs" "dense (es @ fs)" "length (es @ fs) \<le> MAX_JOURNAL_ENTRIES"
  shows "\<exists>start' n'. load_lines C (journal_text C fs @ rest) offset n es start =
    load_lines C rest (offset + length (journal_text C fs)) n' (es @ fs) start'"
  using assms
proof (induction fs arbitrary: es offset n start)
  case Nil
  show ?case by auto
next
  case (Cons f fs)
  have "dense (es @ [f])"
    using dense_prefix [of "es @ [f]" fs] Cons.prems(2) by simp
  then have "load_lines C (journal_text C (f # fs) @ rest) offset n es start =
      load_lines C (journal_text C fs @ rest) (offset + length (entry_line C f)) (n + 1) (es @ [f]) (Some offset)"
    using load_line [of C f es "journal_text C fs @ rest"] Cons.prems by (simp add: dense_snoc)
  moreover have "\<exists>start' n'. load_lines C (journal_text C fs @ rest) (offset + length (entry_line C f)) (n + 1) (es @ [f]) (Some offset) =
      load_lines C rest (offset + length (entry_line C f) + length (journal_text C fs)) n' ((es @ [f]) @ fs) start'"
    using Cons.prems by (intro Cons.IH) auto
  ultimately show ?case by (simp add: add.assoc)
qed

lemma load_whole_text:
  assumes "list_all (good_entry C) es" "dense es" "length es \<le> MAX_JOURNAL_ENTRIES"
  shows "\<exists>start n. load_lines C (journal_text C es @ rest) 0 0 [] None = load_lines C rest (length (journal_text C es)) n es start"
  using load_journal_text [of C es "[]" rest 0 0 None] assms by auto

section \<open>Crashes\<close>

text \<open>A file that holds whole lines and the first bytes of one more is loaded and repaired.\<close>

lemma load_torn_tail:
  assumes "good_entry C e" "je_seq e = length es" "length es < MAX_JOURNAL_ENTRIES" "k \<le> length (entry_line C e)"
  shows "load_lines C (take k (entry_line C e)) offset n es start \<in>
    (if k = 0 then {Inr (es, start, EndsClean)}
     else if k < length (entry_line C e) - 1 then {Inr (es, start, TruncateAt offset)}
     else if k < length (entry_line C e) then {Inr (es @ [e], Some offset, TerminateLine)}
     else {Inr (es @ [e], Some offset, EndsClean)})"
  using assms(1)
proof (cases rule: good_entry_cases)
  case (1 t)
  consider "k = 0" | "0 < k" "k < length t" | "k = length t" | "k = Suc (length t)" using assms(4) 1(2) by fastforce
  then show ?thesis
  proof cases
    case 1
    then show ?thesis by (subst load_lines.simps) simp
  next
    case 2
    then have "10 \<notin> set (take k t)" using \<open>10 \<notin> set t\<close> by (meson in_set_takeD)
    with 2 show ?thesis
      using 1 by (subst load_lines.simps) (auto simp: Let_def)
  next
    case 3
    with 1 assms(2,3) show ?thesis
      by (subst load_lines.simps) (auto simp: accept_entry_def validate_sequence_def)
  next
    case 4
    then have "take k (entry_line C e) = entry_line C e @ []" using 1(2) by simp
    then show ?thesis
      using load_line [OF assms(1-3), of "[]" offset n start] 4 1(2,5) load_lines.simps [of C "[]"] by simp
  qed
qed

lemma saturating_small: "a + b \<le> MAX_JOURNAL_BYTES \<Longrightarrow> saturating_add_u64 a b = a + b"
  "saturating_add_u64 a b \<le> MAX_JOURNAL_BYTES \<Longrightarrow> a + b \<le> MAX_JOURNAL_BYTES"
  by (auto simp: saturating_add_u64_def U64_MAX_def MAX_JOURNAL_BYTES_def min_def split: if_splits)

text \<open>The journal that holds the given entries.\<close>

lemma in_sync_of:
  assumes "list_all (good_entry C) es" "dense es" "length es \<le> MAX_JOURNAL_ENTRIES" "length (journal_text C es) \<le> MAX_JOURNAL_BYTES"
    "fs path = JournalFile (journal_text C es)"
  shows "in_sync C path fs \<lparr>j_entries = es, j_path = Some path, j_bytes = length (journal_text C es), j_last_line_start = start\<rparr>"
  using assms by (simp add: in_sync_def)

lemma load_torn:
  assumes "list_all (good_entry C) es" "dense (es @ [e])" "length es < MAX_JOURNAL_ENTRIES" "good_entry C e" "k \<le> length (entry_line C e)"
    "length (journal_text C (es @ [e])) \<le> MAX_JOURNAL_BYTES" "fs path = JournalFile (journal_text C es @ take k (entry_line C e))"
  shows "\<exists>fs' j. journal_load C NoFault path fs = (fs', Inr j) \<and> in_sync C path fs' j \<and>
    j_entries j = (if k < length (entry_line C e) - 1 then es else es @ [e]) \<and> (k = length (entry_line C e) \<longrightarrow> fs' = fs)"
proof -
  let ?T = "journal_text C es" and ?l = "entry_line C e"
  obtain start n where L: "load_lines C (?T @ take k ?l) 0 0 [] None = load_lines C (take k ?l) (length ?T) n es start"
    using load_whole_text [of C es "take k ?l"] assms(1-3) dense_prefix less_imp_le by blast
  have seq: "je_seq e = length es" "dense es" using assms(2) by (auto simp: dense_snoc)
  have read: "read_journal_bounded path fs = Inr (?T @ take k ?l)"
    using assms(5-7) by (simp add: read_journal_bounded_def)
  note tail = load_torn_tail [OF assms(4) seq(1) assms(3,5), of "length ?T" n start]
  have len: "1 < length ?l" using assms(4) by (auto elim: good_entry_cases)
  have old: "length ?T \<le> MAX_JOURNAL_BYTES" using assms(6) by simp
  consider "k = 0" | "0 < k" "k < length ?l - 1" | "0 < k" "k = length ?l - 1" | "0 < k" "k = length ?l" using assms(5) len by linarith
  then show ?thesis
  proof cases
    case 1
    then have "journal_load C NoFault path fs = (fs, Inr \<lparr>j_entries = es, j_path = Some path, j_bytes = length ?T, j_last_line_start = start\<rparr>)"
      using read tail L by (simp add: journal_load_def)
    then show ?thesis using in_sync_of [of C es fs path start] assms 1 len seq old by auto
  next
    case 2
    let ?fs = "fs(path := JournalFile ?T)"
    have "journal_load C NoFault path fs = (?fs, Inr \<lparr>j_entries = es, j_path = Some path, j_bytes = length ?T, j_last_line_start = start\<rparr>)"
      using read tail 2 assms(7) L by (simp add: journal_load_def truncate_tail_def)
    then show ?thesis using in_sync_of [of C es ?fs path start] assms 2 len seq old by auto
  next
    case 3
    let ?fs = "fs(path := JournalFile (?T @ ?l))"
    have l: "take k ?l @ [10] = ?l" using 3 by (simp add: entry_line_def)
    have t: "load_lines C (take k ?l) (length ?T) n es start = Inr (es @ [e], Some (length ?T), TerminateLine)"
      using tail 3 len by (auto split: if_splits)
    have b: "saturating_add_u64 (length (?T @ take k ?l)) 1 = length (journal_text C (es @ [e]))"
      using saturating_small(1) [of "length ?T + k" 1] 3 len assms(6) by simp
    have "append_bytes NoFault path [10] fs = (?fs, True)"
      using assms(7) l by (simp add: append_bytes_def)
    then have "journal_load C NoFault path fs =
        (?fs, Inr \<lparr>j_entries = es @ [e], j_path = Some path, j_bytes = length (journal_text C (es @ [e])), j_last_line_start = Some (length ?T)\<rparr>)"
      unfolding journal_load_def read by (simp only: L t b sum.case prod.case load_end.case Let_def if_True)
    then show ?thesis
      using in_sync_of [of C "es @ [e]" ?fs path "Some (length ?T)"] assms 3 len seq by auto
  next
    case 4
    have t: "load_lines C (take k ?l) (length ?T) n es start = Inr (es @ [e], Some (length ?T), EndsClean)"
      using tail 4 len by (auto split: if_splits)
    have b: "length (?T @ take k ?l) = length (journal_text C (es @ [e]))" using 4 by simp
    have "journal_load C NoFault path fs =
        (fs, Inr \<lparr>j_entries = es @ [e], j_path = Some path, j_bytes = length (journal_text C (es @ [e])), j_last_line_start = Some (length ?T)\<rparr>)"
      unfolding journal_load_def read by (simp only: L t b sum.case prod.case load_end.case Let_def)
    then show ?thesis
      using in_sync_of [of C "es @ [e]" fs path "Some (length ?T)"] assms 4 len seq by auto
  qed
qed

lemma load_in_sync:
  assumes "in_sync C path fs j"
  shows "\<exists>start. journal_load C fault path fs = (fs, Inr (j\<lparr>j_last_line_start := start\<rparr>))"
proof -
  obtain start n where "load_lines C (journal_text C (j_entries j) @ []) 0 0 [] None =
      load_lines C [] (length (journal_text C (j_entries j))) n (j_entries j) start"
    using load_whole_text [of C "j_entries j" "[]"] assms unfolding in_sync_def by blast
  then have "load_lines C (journal_text C (j_entries j)) 0 0 [] None = Inr (j_entries j, start, EndsClean)"
    using load_lines.simps [of C "[]"] by simp
  moreover have "read_journal_bounded path fs = Inr (journal_text C (j_entries j))"
    using assms by (auto simp: in_sync_def read_journal_bounded_def)
  ultimately show ?thesis
    using assms by (intro exI [of _ start]) (simp add: journal_load_def in_sync_def)
qed

text \<open>What a call to record leaves on the disk.\<close>

lemma record_cases:
  assumes "in_sync C path fs j" "journal_record C fault now seq kind hash result fs j = (fs', r)"
    "e = \<lparr>je_seq = seq, je_kind = kind, je_hash = hash, je_result = result, je_at_ms = now\<rparr>" "good_entry C e"
  obtains (rejected) err where "fs' = fs" "r = Inl err"
  | (written) k where "k \<le> length (entry_line C e)" "fs' path = JournalFile (journal_text C (j_entries j) @ take k (entry_line C e))"
      "je_seq e = length (j_entries j)" "length (journal_text C (j_entries j @ [e])) \<le> MAX_JOURNAL_BYTES"
      "r = Inl JIo \<or> k = length (entry_line C e) \<and>
        r = Inr (j\<lparr>j_last_line_start := Some (j_bytes j), j_bytes := length (journal_text C (j_entries j @ [e])), j_entries := j_entries j @ [e]\<rparr>)"
proof (cases "je_seq e = length (j_entries j) \<and> saturating_add_u64 (j_bytes j) (length (entry_line C e)) \<le> MAX_JOURNAL_BYTES")
  case False
  with assms show thesis
    by (intro rejected [of "projl r"])
      (auto simp: journal_record_def validate_sequence_def entry_line_def Let_def elim!: good_entry_cases split: if_splits)
next
  case True
  obtain t where t: "entry_text C e = Some t" "entry_line C e = t @ [10]" using assms(4) by (auto elim: good_entry_cases)
  have b: "saturating_add_u64 (j_bytes j) (length (entry_line C e)) = length (journal_text C (j_entries j @ [e]))"
    "length (journal_text C (j_entries j @ [e])) \<le> MAX_JOURNAL_BYTES"
    using True saturating_small [of "j_bytes j" "length (entry_line C e)"] assms(1) by (auto simp: in_sync_def)
  have path: "j_path j = Some path" using assms(1) by (simp add: in_sync_def)
  let ?k = "case fault of NoFault \<Rightarrow> length (entry_line C e) | FailsAfter k \<Rightarrow> min k (length (entry_line C e))"
  have app: "append_bytes fault path (entry_line C e) fs = (fs(path := JournalFile (journal_text C (j_entries j) @ take ?k (entry_line C e))), fault = NoFault)"
    using assms(1) by (auto simp: append_bytes_def in_sync_def min_def split: io_fault.splits)
  have "validate_sequence (j_entries j) e = None" "\<not> saturating_add_u64 (j_bytes j) (length (t @ [10])) > MAX_JOURNAL_BYTES"
    using True t by (auto simp: validate_sequence_def)
  then have "journal_record C fault now seq kind hash result fs j = (fs(path := JournalFile (journal_text C (j_entries j) @ take ?k (entry_line C e))),
      if fault = NoFault then Inr (j\<lparr>j_last_line_start := Some (j_bytes j), j_bytes := length (journal_text C (j_entries j @ [e])),
        j_entries := j_entries j @ [e]\<rparr>) else Inl JIo)"
    unfolding journal_record_def Let_def assms(3) [symmetric] using app b(1) by (simp only: t path option.case if_False prod.case)
  then show thesis
    using True b assms(2) by (intro written [of ?k]) (auto split: io_fault.splits)
qed

lemma record_survives:
  assumes "in_sync C path fs j" "journal_record C fault now seq kind hash result fs j = (fs', r)"
    "e = \<lparr>je_seq = seq, je_kind = kind, je_hash = hash, je_result = result, je_at_ms = now\<rparr>" "good_entry C e"
    "length (j_entries j) < MAX_JOURNAL_ENTRIES"
  shows "\<exists>fs'' j''. journal_load C NoFault path fs' = (fs'', Inr j'') \<and> in_sync C path fs'' j'' \<and>
    (case r of
       Inr j' \<Rightarrow> fs'' = fs' \<and> j_entries j'' = j_entries j @ [e] \<and> j_entries j' = j_entries j @ [e] \<and> in_sync C path fs' j'
     | Inl _ \<Rightarrow> j_entries j'' = j_entries j \<or> j_entries j'' = j_entries j @ [e])"
  using assms(1-4)
proof (cases rule: record_cases)
  case (rejected err)
  obtain start where l: "journal_load C NoFault path fs = (fs, Inr (j\<lparr>j_last_line_start := start\<rparr>))" using load_in_sync [OF assms(1)] by blast
  have "in_sync C path fs (j\<lparr>j_last_line_start := start\<rparr>)" using assms(1) by (simp add: in_sync_def)
  with l rejected show ?thesis by auto
next
  case (written k)
  have d: "dense (j_entries j @ [e])" "list_all (good_entry C) (j_entries j)"
    using assms(1) written(3) by (auto simp: in_sync_def dense_snoc)
  obtain fs'' j'' where l: "journal_load C NoFault path fs' = (fs'', Inr j'')" "in_sync C path fs'' j''"
    "j_entries j'' = (if k < length (entry_line C e) - 1 then j_entries j else j_entries j @ [e])" "k = length (entry_line C e) \<longrightarrow> fs'' = fs'"
    using load_torn [of C "j_entries j" e k fs' path, OF d(2,1) assms(5,4) written(1,4,2)] by blast
  show ?thesis
  proof (cases r)
    case (Inl a)
    with l show ?thesis by auto
  next
    case (Inr j')
    then have "k = length (entry_line C e)" "j' = j\<lparr>j_last_line_start := Some (j_bytes j), j_bytes := length (journal_text C (j_entries j @ [e])),
        j_entries := j_entries j @ [e]\<rparr>" using written(5) by auto
    moreover from this have "in_sync C path fs' j'"
      using assms(1,4,5) d written(2,4) by (auto simp: in_sync_def)
    ultimately show ?thesis using l Inr by auto
  qed
qed

lemma record_in_sync:
  assumes "in_sync C path fs j" "journal_record C fault now seq kind hash result fs j = (fs', Inr j')" "seq < MAX_JOURNAL_ENTRIES"
    "list_all (good_entry C) (j_entries j')"
  shows "in_sync C path fs' j'"
proof -
  have s: "length (j_entries j) = seq" "j_entries j' = j_entries j @ [\<lparr>je_seq = seq, je_kind = kind, je_hash = hash, je_result = result, je_at_ms = now\<rparr>]"
    using assms(2) by (auto simp: journal_record_def validate_sequence_def Let_def split: if_splits option.splits prod.splits)
  show ?thesis using record_survives [OF assms(1,2) refl] s assms(3,4) by auto
qed

text \<open>
  A crash loses no answered call: whatever happens while an answer is appended to the journal, be it that any number of its bytes
  reach the disk before an error, the journal can be loaded afterwards; loading repairs the file, gives back every call recorded
  before, and the new one if recording reported success; after an error the new one is there or not, but never in part.
\<close>

theorem journal_survives_crash:
  assumes "in_sync C path fs j" "journal_record C fault now seq kind hash result fs j = (fs', r)"
    "e = \<lparr>je_seq = seq, je_kind = kind, je_hash = hash, je_result = result, je_at_ms = now\<rparr>" "good_entry C e"
    "length (j_entries j) < MAX_JOURNAL_ENTRIES"
  shows "\<exists>fs'' j''. journal_load C NoFault path fs' = (fs'', Inr j'') \<and> in_sync C path fs'' j'' \<and>
    (case r of
       Inr j' \<Rightarrow> fs'' = fs' \<and> j_entries j'' = j_entries j @ [e] \<and> j_entries j' = j_entries j @ [e] \<and> in_sync C path fs' j'
     | Inl _ \<Rightarrow> j_entries j'' = j_entries j \<or> j_entries j'' = j_entries j @ [e])"
  by (rule record_survives [OF assms])

definition sample_entry :: "unit journal_entry" where
  "sample_entry = \<lparr>je_seq = 0, je_kind = lit ''budget'', je_hash = [], je_result = JNull, je_at_ms = 5\<rparr>"

definition sample_codec :: "unit journal_codec" where
  "sample_codec = \<lparr>entry_text = (\<lambda>_. Some [123, 125]), entry_parse = (\<lambda>t. if t = [123, 125] then Some sample_entry else None)\<rparr>"

theorem journal_survives_crash_witness:
  "\<exists>fs'' j''. journal_load sample_codec NoFault (lit ''journal'') ((\<lambda>_. NoJournal)(lit ''journal'' := JournalFile [123])) = (fs'', Inr j'') \<and>
     in_sync sample_codec (lit ''journal'') fs'' j'' \<and> (j_entries j'' = [] \<or> j_entries j'' = [sample_entry])"
proof -
  let ?C = sample_codec and ?p = "lit ''journal''" and ?fs = "\<lambda>_ :: rstr. NoJournal" and ?j = "journal_new (Some (lit ''journal'')) :: unit journal"
  have k: "k = Suc 0" if "0 < k" "k < 2" for k :: nat using that by simp
  have good: "good_entry ?C sample_entry"
    unfolding good_entry_def sample_codec_def by (auto simp: is_ascii_whitespace_def dest!: k)
  have sync: "in_sync ?C ?p ?fs ?j" by (simp add: in_sync_def journal_new_def dense_def)
  have run: "journal_record ?C (FailsAfter 1) 5 0 (lit ''budget'') [] JNull ?fs ?j = (?fs(?p := JournalFile [123]), Inl JIo)"
    by (simp add: journal_record_def validate_sequence_def journal_new_def sample_codec_def append_bytes_def saturating_add_u64_def
        U64_MAX_def MAX_JOURNAL_BYTES_def Let_def)
  have small: "length (j_entries ?j) < MAX_JOURNAL_ENTRIES" by (simp add: journal_new_def MAX_JOURNAL_ENTRIES_def MAX_HOST_CALLS_def)
  show ?thesis using journal_survives_crash [OF sync run sample_entry_def good small] by (simp add: journal_new_def)
qed

section \<open>Pruning and replay\<close>

lemma journal_text_butlast: "es \<noteq> [] \<Longrightarrow> journal_text C es = journal_text C (butlast es) @ entry_line C (last es)"
  by (metis append_butlast_last_id append_Nil2 journal_text_simps)

lemma prune_in_sync:
  assumes "in_sync C path fs j" "j_last_line_start j = Some (length (journal_text C (butlast (j_entries j))))"
    "prune_trailing_host_error NoFault detail fs j = (fs', Inr (pruned, j'))"
  shows "in_sync C path fs' j'" "j_entries j' = (if pruned then butlast (j_entries j) else j_entries j)"
proof -
  have "j_entries j \<noteq> [] \<Longrightarrow> dense (butlast (j_entries j))"
    using assms(1) dense_prefix [of "butlast (j_entries j)" "[last (j_entries j)]"] by (auto simp: in_sync_def)
  moreover have "j_entries j \<noteq> [] \<Longrightarrow> list_all (good_entry C) (butlast (j_entries j))"
    using assms(1) by (auto simp: in_sync_def list_all_iff dest: in_set_butlastD)
  ultimately show "in_sync C path fs' j'" "j_entries j' = (if pruned then butlast (j_entries j) else j_entries j)"
    using assms journal_text_butlast [of "j_entries j" C]
    by (auto simp: prune_trailing_host_error_def in_sync_def truncate_tail_def Let_def split: if_splits option.splits)
qed

lemma replay_dense:
  assumes "dense (j_entries j)"
  shows "replay j seq kind hash =
    (if seq \<ge> length (j_entries j) then Inr None
     else if je_kind (j_entries j ! seq) = kind \<and> je_hash (j_entries j ! seq) = hash then Inr (Some (je_result (j_entries j ! seq)))
     else Inl (JDivergence seq kind))"
proof -
  have "seq < length (j_entries j) \<Longrightarrow> je_seq (j_entries j ! seq) = seq"
    using assms unfolding dense_def by (metis add_0 length_map nth_map nth_upt length_upt diff_zero)
  then show ?thesis by (auto simp: replay_def Let_def)
qed

section \<open>Requests are identified by their contents\<close>

text \<open>Two values that differ in the order of the fields of their objects only.\<close>

inductive same_json :: "'n json \<Rightarrow> 'n json \<Rightarrow> bool" where
  same_json_refl: "same_json v v"
| same_json_array: "list_all2 same_json xs ys \<Longrightarrow> same_json (JArray xs) (JArray ys)"
| same_json_object: "distinct (map fst fs) \<Longrightarrow> list_all2 (\<lambda>f g. fst f = fst g \<and> same_json (snd f) (snd g)) fs gs \<Longrightarrow> mset gs' = mset gs \<Longrightarrow>
    same_json (JObject fs) (JObject gs')"
  monos list_all2_mono

lemma insort_key_map:
  assumes "\<And>x. fst (h x) = fst x"
  shows "insort_key fst (h x) (map h xs) = map h (insort_key fst x xs)"
  using assms by (induction xs) auto

lemma sort_key_map:
  assumes "\<And>x. fst (h x) = fst x"
  shows "sort_key fst (map h xs) = map h (sort_key fst xs)"
  using insort_key_map [OF assms] by (induction xs) (simp_all add: sort_key_def)

lemma sort_key_mset:
  assumes "mset xs = mset ys" "distinct (map fst xs)"
  shows "sort_key fst xs = sort_key fst ys"
proof (rule properties_for_sort_key)
  have one: "filter (\<lambda>x. fst k = fst x) zs = [k]" if "k \<in> set zs" "distinct (map fst zs)" for k and zs :: "('a \<times> 'b) list"
    using that
  proof (induction zs)
    case (Cons z zs)
    show ?case
    proof (cases "k = z")
      case True
      with Cons.prems show ?thesis by (auto simp: filter_empty_conv image_iff)
    next
      case False
      with Cons show ?thesis by (auto simp: image_iff)
    qed
  qed simp
  have "mset (map fst (sort_key fst ys)) = mset (map fst xs)" using assms(1) by (metis mset_map mset_sort)
  then have d: "distinct (map fst (sort_key fst ys))" using assms(2) mset_eq_imp_distinct_iff by blast
  have e: "set (sort_key fst ys) = set xs" using assms(1) by (metis mset_eq_setD set_sort)
  show "filter (\<lambda>x. fst k = fst x) (sort_key fst ys) = filter (\<lambda>x. fst k = fst x) xs" if "k \<in> set (sort_key fst ys)" for k
    using one [OF that d] one [of k xs] that assms(2) unfolding e by simp
qed (simp_all add: assms(1))

lemma canonical_same: "same_json a b \<Longrightarrow> canonical_json a = canonical_json b"
proof (induction rule: same_json.induct)
  case (same_json_array xs ys)
  then show ?case by (auto simp: list_all2_conv_all_nth intro: nth_equalityI)
next
  case (same_json_object fs gs gs')
  define h :: "rstr \<times> 'a json \<Rightarrow> rstr \<times> 'a json" where "h = (\<lambda>(k, v). (k, canonical_json v))"
  have h: "fst (h x) = fst x" for x by (simp add: h_def split: prod.splits)
  have "map h fs = map h gs"
    using same_json_object.IH by (auto simp: list_all2_conv_all_nth h_def split_beta intro!: nth_equalityI)
  moreover have "sort_key fst (map h gs) = sort_key fst (map h gs')"
  proof (rule sort_key_mset)
    show "mset (map h gs) = mset (map h gs')" using same_json_object.hyps by simp
    have "map fst (map h xs) = map fst xs" for xs using h by (simp add: comp_def)
    then have "map fst (map h gs) = map fst fs" using \<open>map h fs = map h gs\<close> by metis
    then show "distinct (map fst (map h gs))" using same_json_object.hyps by simp
  qed
  moreover have "canonical_json (JObject xs) = JObject (sort_key fst (map h xs))" for xs
    using sort_key_map [of h, OF h] by (simp add: h_def)
  ultimately show ?case by (simp del: canonical_json.simps)
qed simp

text \<open>
  A request is recognised by its contents: the hash under which a call is recorded does not depend on the order of the fields of
  any object in its payload, at any depth.
\<close>

theorem hash_ignores_field_order:
  assumes "same_json a b"
  shows "request_hash H kind a = request_hash H kind b"
  unfolding request_hash_def canonical_same [OF assms] ..

definition sample_hash :: "unit hash_env" where
  "sample_hash = \<lparr>json_text = (\<lambda>v. case v of JObject members \<Rightarrow> concat (map fst members) | JString s \<Rightarrow> s | _ \<Rightarrow> []), sha256 = id\<rparr>"

theorem hash_ignores_field_order_witness:
  "request_hash sample_hash (lit ''budget'') (JObject [(lit ''b'', JNull), (lit ''a'', JString [])]) =
   request_hash sample_hash (lit ''budget'') (JObject [(lit ''a'', JString []), (lit ''b'', JNull)])"
  by (rule hash_ignores_field_order, rule same_json_object [where gs = "[(lit ''b'', JNull), (lit ''a'', JString [])]"])
    (auto intro: same_json_refl)

end
