(* ===== verification/Workflow_Engine.thy ===== *)
theory Workflow_Engine
  imports Workflow_Journal
begin

text \<open>
  The workflow engine (\<open>packages/agent/xai-workflow/src/engine.rs\<close>, \<open>run.rs\<close>, \<open>host.rs\<close>): the calls a workflow script makes to its
  host, recorded in the journal and replayed from it.

  The script itself is run by the Rhai interpreter, which is not in the repository; here it is a function from the results of the calls it
  has made so far to its next action, which is what being deterministic means.  The host is a function of a request and its own
  state.  Options and results of agents appear in the form in which they are serialised; a journal error stands for its message.
\<close>

section \<open>Outcomes\<close>

datatype pause_kind = PauseUser | PauseBackOff | PauseNoProgress | PauseVerification | PauseInfra

fun pause_kind_str :: "pause_kind \<Rightarrow> rstr" where
  "pause_kind_str PauseUser = lit ''user''"
| "pause_kind_str PauseBackOff = lit ''back_off''"
| "pause_kind_str PauseNoProgress = lit ''no_progress''"
| "pause_kind_str PauseVerification = lit ''verification''"
| "pause_kind_str PauseInfra = lit ''infra''"

definition pause_kind_from_str :: "rstr \<Rightarrow> rstr + pause_kind" where
  "pause_kind_from_str s =
     (if s = lit ''user'' then Inr PauseUser
      else if s \<in> {lit ''back_off'', lit ''backoff''} then Inr PauseBackOff
      else if s = lit ''no_progress'' then Inr PauseNoProgress
      else if s \<in> {lit ''verification'', lit ''blocked''} then Inr PauseVerification
      else if s = lit ''infra'' then Inr PauseInfra
      else Inl (lit ''unknown pause kind: '' @ s))"

datatype 'n workflow_outcome =
    Completed "'n json" | Paused pause_kind rstr | BudgetExceededOutcome rstr | CancelledOutcome | FailedOutcome rstr | FailedJournal journal_error

datatype 'n control_token = Complete "'n json" | Pause pause_kind rstr | Budget rstr | CancelToken | Fatal rstr | FatalJournal journal_error

datatype 'n script_error = Terminated "'n control_token" | RuntimeError rstr

fun outcome_from_error :: "'n script_error \<Rightarrow> 'n workflow_outcome" where
  "outcome_from_error (Terminated (Complete v)) = Completed v"
| "outcome_from_error (Terminated (Pause k m)) = Paused k m"
| "outcome_from_error (Terminated (Budget m)) = BudgetExceededOutcome m"
| "outcome_from_error (Terminated CancelToken) = CancelledOutcome"
| "outcome_from_error (Terminated (Fatal e)) = FailedOutcome e"
| "outcome_from_error (Terminated (FatalJournal e)) = FailedJournal e"
| "outcome_from_error (RuntimeError m) = FailedOutcome m"

section \<open>The host\<close>

datatype host_error = AgentCallQuotaExceeded nat nat | HostBudgetExceeded | HostCancelled | HostUnsupported rstr | HostFailed rstr

datatype 'n host_request =
    ReserveAgentCalls nat | ReleaseAgentCalls nat | SpawnAgent "'n json" | PhaseEvent rstr bool | LogEvent rstr bool
  | TelemetryEvent rstr "'n json" bool | BudgetQuery | RenderTemplate rstr "'n json" | WriteScratchFile rstr rstr
  | ReadScratchFile rstr | GitDiffSince rstr

fun request_kind :: "'n host_request \<Rightarrow> rstr" where
  "request_kind (ReserveAgentCalls _) = lit ''reserve_agent_calls''"
| "request_kind (ReleaseAgentCalls _) = lit ''release_agent_calls''"
| "request_kind (SpawnAgent _) = lit ''spawn_agent''"
| "request_kind (PhaseEvent _ _) = lit ''phase''"
| "request_kind (LogEvent _ _) = lit ''log''"
| "request_kind (TelemetryEvent _ _ _) = lit ''telemetry''"
| "request_kind BudgetQuery = lit ''budget''"
| "request_kind (RenderTemplate _ _) = lit ''render_template''"
| "request_kind (WriteScratchFile _ _) = lit ''write_scratch_file''"
| "request_kind (ReadScratchFile _) = lit ''read_scratch_file''"
| "request_kind (GitDiffSince _) = lit ''git_diff_since''"

datatype 'n host_reply = ChannelClosed | DroppedReply | HostReply "host_error + 'n json"

text \<open>The disk and the clock answer for each call by its sequence number.\<close>

record ('n, 'h) workflow_env =
  we_codec :: "'n journal_codec"
  we_hash :: "'n hash_env"
  we_host :: "'n host_request \<Rightarrow> 'h \<Rightarrow> 'n host_reply \<times> 'h"
  we_fault :: "nat \<Rightarrow> io_fault"
  we_now :: "nat \<Rightarrow> nat"

record ('n, 'h) ctx =
  cx_journal :: "'n journal"
  cx_seq :: nat
  cx_fs :: journal_fs
  cx_host :: 'h

definition replaying :: "('n, 'h) ctx \<Rightarrow> bool" where
  "replaying c = covers (cx_journal c) (cx_seq c)"

definition reserve_seqs :: "nat \<Rightarrow> ('n, 'h) ctx \<Rightarrow> 'n script_error + nat \<times> ('n, 'h) ctx" where
  "reserve_seqs n c =
     (if cx_seq c + n > U64_MAX then Inl (Terminated (Fatal (lit ''workflow host-call count overflowed'')))
      else if cx_seq c + n > MAX_HOST_CALLS
      then Inl (Terminated (Fatal (lit ''workflow exceeded the maximum of 10000 result-bearing host calls'')))
      else Inr (cx_seq c, c\<lparr>cx_seq := cx_seq c + n\<rparr>))"

definition next_seq :: "('n, 'h) ctx \<Rightarrow> 'n script_error + nat \<times> ('n, 'h) ctx" where
  "next_seq c = reserve_seqs 1 c"

definition ctx_record :: "('n, 'h) workflow_env \<Rightarrow> nat \<Rightarrow> rstr \<Rightarrow> rstr \<Rightarrow> 'n json \<Rightarrow> ('n, 'h) ctx \<Rightarrow> ('n, 'h) ctx \<times> 'n script_error option" where
  "ctx_record E seq kind hash v c =
     (case journal_record (we_codec E) (we_fault E seq) (we_now E seq) seq kind hash v (cx_fs c) (cx_journal c) of
        (fs, Inr j) \<Rightarrow> (c\<lparr>cx_fs := fs, cx_journal := j\<rparr>, None)
      | (fs, Inl err) \<Rightarrow> (c\<lparr>cx_fs := fs\<rparr>, Some (Terminated (FatalJournal err))))"

definition send_request :: "('n, 'h) workflow_env \<Rightarrow> 'n host_request \<Rightarrow> ('n, 'h) ctx \<Rightarrow> 'n host_reply \<times> ('n, 'h) ctx" where
  "send_request E req c = (let (reply, h) = we_host E req (cx_host c) in (reply, c\<lparr>cx_host := h\<rparr>))"

definition closed_error :: "'n script_error" where
  "closed_error = Terminated (Fatal (lit ''workflow host channel closed''))"

definition dropped_error :: "'n script_error" where
  "dropped_error = Terminated (Fatal (lit ''workflow host dropped reply''))"

definition budget_error :: "'n script_error" where
  "budget_error = Terminated (Budget (lit ''workflow agent budget exceeded''))"

section \<open>Host calls\<close>

fun remove_member :: "rstr \<Rightarrow> 'n json \<Rightarrow> 'n json option" where
  "remove_member key (JObject members) =
     (if map_of members key = None then None else Some (JObject (filter (\<lambda>(k, _). k \<noteq> key) members)))"
| "remove_member key _ = None"

definition replay_spawn_agent :: "'n hash_env \<Rightarrow> 'n journal \<Rightarrow> nat \<Rightarrow> 'n json \<Rightarrow> rstr \<Rightarrow> journal_error + 'n json option" where
  "replay_spawn_agent H j seq payload hash =
     (let normal = replay j seq (lit ''spawn_agent'') hash
      in case normal of
           Inr (Some _) \<Rightarrow> normal
         | _ \<Rightarrow>
             (case remove_member (lit ''effort'') payload of
                None \<Rightarrow> normal
              | Some legacy \<Rightarrow> replay j seq (lit ''spawn_agent'') (request_hash H (lit ''spawn_agent'') legacy)))"

definition host_error_sentinel :: "rstr \<Rightarrow> 'n json" where
  "host_error_sentinel message = JObject [(HOST_ERROR_KEY, JString message)]"

definition replay_host_error :: "'n json \<Rightarrow> 'n script_error option" where
  "replay_host_error v = map_option RuntimeError (Option.bind (json_member HOST_ERROR_KEY v) json_string)"

definition HOST_TERMINAL_KEY :: rstr where "HOST_TERMINAL_KEY = lit ''__xai_workflow_parallel_terminal''"
definition TERMINAL_BUDGET :: rstr where "TERMINAL_BUDGET = lit ''budget_exceeded''"
definition TERMINAL_CANCELLED :: rstr where "TERMINAL_CANCELLED = lit ''cancelled''"
definition TERMINAL_DROPPED_REPLY :: rstr where "TERMINAL_DROPPED_REPLY = lit ''dropped_reply''"

definition host_terminal_sentinel :: "rstr \<Rightarrow> 'n json" where
  "host_terminal_sentinel kind = JObject [(HOST_TERMINAL_KEY, JString kind)]"

definition host_terminal_error :: "rstr \<Rightarrow> 'n script_error" where
  "host_terminal_error kind =
     (if kind = TERMINAL_BUDGET then budget_error
      else if kind = TERMINAL_CANCELLED then Terminated CancelToken
      else if kind = TERMINAL_DROPPED_REPLY then dropped_error
      else Terminated (Fatal (lit ''workflow journal contains an unknown terminal marker'')))"

definition is_host_terminal_sentinel :: "'n json \<Rightarrow> bool" where
  "is_host_terminal_sentinel v \<longleftrightarrow> json_member HOST_TERMINAL_KEY v \<noteq> None"

definition quota_text :: "nat \<Rightarrow> nat \<Rightarrow> rstr" where
  "quota_text requested maximum =
     lit ''workflow agent-call quota exceeded: requested '' @ show_nat requested @ lit '', maximum '' @ show_nat maximum"

definition replay_for :: "('n, 'h) workflow_env \<Rightarrow> rstr \<Rightarrow> 'n json \<Rightarrow> nat \<Rightarrow> 'n journal \<Rightarrow> journal_error + 'n json option" where
  "replay_for E kind payload seq j =
     (let hash = request_hash (we_hash E) kind payload
      in if kind = lit ''spawn_agent'' then replay_spawn_agent (we_hash E) j seq payload hash else replay j seq kind hash)"

definition host_call :: "('n, 'h) workflow_env \<Rightarrow> rstr \<Rightarrow> 'n json \<Rightarrow> 'n host_request \<Rightarrow> ('n, 'h) ctx \<Rightarrow> ('n, 'h) ctx \<times> ('n script_error + 'n json)" where
  "host_call E kind payload req c =
     (let hash = request_hash (we_hash E) kind payload
      in case next_seq c of
           Inl err \<Rightarrow> (c, Inl err)
         | Inr (seq, c) \<Rightarrow>
             (case replay_for E kind payload seq (cx_journal c) of
                Inl err \<Rightarrow> (c, Inl (Terminated (FatalJournal err)))
              | Inr (Some recorded) \<Rightarrow> (c, case replay_host_error recorded of Some err \<Rightarrow> Inl err | None \<Rightarrow> Inr recorded)
              | Inr None \<Rightarrow>
                  (let (reply, c) = send_request E req c;
                       recording = (\<lambda>v result. case ctx_record E seq kind hash v c of
                          (c, Some err) \<Rightarrow> (c, Inl err) | (c, None) \<Rightarrow> (c, result))
                   in case reply of
                        ChannelClosed \<Rightarrow> (c, Inl closed_error)
                      | DroppedReply \<Rightarrow> (c, Inl dropped_error)
                      | HostReply (Inr v) \<Rightarrow> recording v (Inr v)
                      | HostReply (Inl (AgentCallQuotaExceeded requested maximum)) \<Rightarrow> (c, Inl (RuntimeError (quota_text requested maximum)))
                      | HostReply (Inl HostBudgetExceeded) \<Rightarrow> (c, Inl budget_error)
                      | HostReply (Inl HostCancelled) \<Rightarrow> (c, Inl (Terminated CancelToken))
                      | HostReply (Inl (HostUnsupported msg)) \<Rightarrow> recording (host_error_sentinel msg) (Inl (RuntimeError msg))
                      | HostReply (Inl (HostFailed msg)) \<Rightarrow> recording (host_error_sentinel msg) (Inl (RuntimeError msg)))))"

definition host_emit :: "('n, 'h) workflow_env \<Rightarrow> (bool \<Rightarrow> 'n host_request) \<Rightarrow> ('n, 'h) ctx \<Rightarrow> ('n, 'h) ctx" where
  "host_emit E build c = snd (send_request E (build (replaying c)) c)"

section \<open>Agents\<close>

definition reserve_agent_calls :: "('n, 'h) workflow_env \<Rightarrow> nat \<Rightarrow> ('n, 'h) ctx \<Rightarrow> ('n, 'h) ctx \<times> 'n script_error option" where
  "reserve_agent_calls E n c =
     (if n = 0 then (c, None)
      else let (reply, c) = send_request E (ReserveAgentCalls n) c
           in (c, case reply of
                ChannelClosed \<Rightarrow> Some closed_error
              | DroppedReply \<Rightarrow> Some dropped_error
              | HostReply (Inr _) \<Rightarrow> None
              | HostReply (Inl (AgentCallQuotaExceeded requested maximum)) \<Rightarrow>
                  Some (Terminated (Budget (lit ''workflow agent budget exceeded: requested '' @ show_nat requested @
                    lit '', maximum '' @ show_nat maximum)))
              | HostReply (Inl HostCancelled) \<Rightarrow> Some (Terminated CancelToken)
              | HostReply (Inl HostBudgetExceeded) \<Rightarrow> Some budget_error
              | HostReply (Inl (HostUnsupported msg)) \<Rightarrow> Some (RuntimeError msg)
              | HostReply (Inl (HostFailed msg)) \<Rightarrow> Some (RuntimeError msg)))"

definition release_agent_calls :: "('n, 'h) workflow_env \<Rightarrow> nat \<Rightarrow> ('n, 'h) ctx \<Rightarrow> ('n, 'h) ctx" where
  "release_agent_calls E n c = (if n = 0 then c else snd (send_request E (ReleaseAgentCalls n) c))"

fun is_resumable_unjournaled_terminal :: "'n script_error \<Rightarrow> bool" where
  "is_resumable_unjournaled_terminal (Terminated CancelToken) = True"
| "is_resumable_unjournaled_terminal (Terminated (Budget _)) = True"
| "is_resumable_unjournaled_terminal _ = False"

definition spawn_agent_call :: "('n, 'h) workflow_env \<Rightarrow> 'n json \<Rightarrow> ('n, 'h) ctx \<Rightarrow> ('n, 'h) ctx \<times> ('n script_error + 'n json)" where
  "spawn_agent_call E payload c =
     (let run = (\<lambda>live c. case host_call E (lit ''spawn_agent'') payload (SpawnAgent payload) c of
            (c, Inr v) \<Rightarrow> (c, Inr v)
          | (c, Inl err) \<Rightarrow> (if live \<and> is_resumable_unjournaled_terminal err then release_agent_calls E 1 c else c, Inl err))
      in case replay_for E (lit ''spawn_agent'') payload (cx_seq c) (cx_journal c) of
           Inl err \<Rightarrow> (c, Inl (Terminated (FatalJournal err)))
         | Inr (Some _) \<Rightarrow> run False c
         | Inr None \<Rightarrow>
             (case reserve_agent_calls E 1 c of
                (c, Some err) \<Rightarrow> (c, Inl err)
              | (c, None) \<Rightarrow> run True c))"

subsection \<open>Panels of agents\<close>

definition MAX_PARALLEL :: nat where "MAX_PARALLEL = 1024"

datatype 'n pending_agent = Replayed "'n json" | Live nat rstr "'n host_reply"

fun count_live :: "('n, 'h) workflow_env \<Rightarrow> 'n journal \<Rightarrow> nat \<Rightarrow> 'n json list \<Rightarrow> 'n script_error + nat" where
  "count_live E j seq [] = Inr 0"
| "count_live E j seq (p # ps) =
     (case replay_for E (lit ''spawn_agent'') p seq j of
        Inl err \<Rightarrow> Inl (Terminated (FatalJournal err))
      | Inr recorded \<Rightarrow>
          if seq + 1 > U64_MAX then Inl (Terminated (Fatal (lit ''workflow host-call count overflowed'')))
          else (case count_live E j (seq + 1) ps of
                  Inl err \<Rightarrow> Inl err
                | Inr k \<Rightarrow> Inr (if recorded = None then k + 1 else k)))"

fun send_panel :: "('n, 'h) workflow_env \<Rightarrow> 'n json list \<Rightarrow> ('n, 'h) ctx \<Rightarrow> ('n, 'h) ctx \<times> ('n script_error + 'n pending_agent list)" where
  "send_panel E [] c = (c, Inr [])"
| "send_panel E (p # ps) c =
     (case next_seq c of
        Inl err \<Rightarrow> (c, Inl err)
      | Inr (seq, c) \<Rightarrow>
          let onward = (\<lambda>entry c. case send_panel E ps c of (c, Inl err) \<Rightarrow> (c, Inl err) | (c, Inr entries) \<Rightarrow> (c, Inr (entry # entries)))
          in (case replay_for E (lit ''spawn_agent'') p seq (cx_journal c) of
                Inl err \<Rightarrow> (c, Inl (Terminated (FatalJournal err)))
              | Inr (Some v) \<Rightarrow> onward (Replayed v) c
              | Inr None \<Rightarrow>
                  (let (reply, c) = send_request E (SpawnAgent p) c
                   in if reply = ChannelClosed then (c, Inl closed_error)
                      else onward (Live seq (request_hash (we_hash E) (lit ''spawn_agent'') p) reply) c)))"

text \<open>What the replies come to: the values with the calls to record, the first terminal marker, the first error, and whether to resume.\<close>

record 'n panel =
  pn_resolved :: "((nat \<times> rstr) option \<times> 'n json) list"
  pn_kind :: "rstr option"
  pn_error :: "'n script_error option"
  pn_resumable :: bool

definition or_else :: "'a option \<Rightarrow> 'a option \<Rightarrow> 'a option" where
  "or_else a b = (case a of Some x \<Rightarrow> Some x | None \<Rightarrow> b)"

definition live_value :: "'n host_reply \<Rightarrow> 'n json \<times> rstr option \<times> bool" where
  "live_value reply =
     (case reply of
        HostReply (Inr v) \<Rightarrow> (v, None, False)
      | HostReply (Inl HostBudgetExceeded) \<Rightarrow> (host_terminal_sentinel TERMINAL_BUDGET, Some TERMINAL_BUDGET, True)
      | HostReply (Inl HostCancelled) \<Rightarrow> (host_terminal_sentinel TERMINAL_CANCELLED, Some TERMINAL_CANCELLED, True)
      | HostReply (Inl _) \<Rightarrow> (JNull, None, False)
      | _ \<Rightarrow> (host_terminal_sentinel TERMINAL_DROPPED_REPLY, Some TERMINAL_DROPPED_REPLY, False))"

definition terminal_kind_of :: "'n json \<Rightarrow> rstr" where
  "terminal_kind_of v =
     (case Option.bind (json_member HOST_TERMINAL_KEY v) json_string of Some k \<Rightarrow> k | None \<Rightarrow> lit ''unknown'')"

fun panel_results :: "'n pending_agent list \<Rightarrow> 'n panel" where
  "panel_results [] = \<lparr>pn_resolved = [], pn_kind = None, pn_error = None, pn_resumable = False\<rparr>"
| "panel_results (Replayed v # rest) =
     (let r = panel_results rest
      in if is_host_terminal_sentinel v then
           r\<lparr>pn_kind := Some (terminal_kind_of v),
             pn_resumable := pn_resumable r \<or> terminal_kind_of v \<in> {TERMINAL_BUDGET, TERMINAL_CANCELLED}\<rparr>
         else case replay_host_error v of
             Some err \<Rightarrow> r\<lparr>pn_error := Some err\<rparr>
           | None \<Rightarrow> r\<lparr>pn_resolved := (None, v) # pn_resolved r\<rparr>)"
| "panel_results (Live seq hash reply # rest) =
     (let r = panel_results rest; (v, kind, resumable) = live_value reply
      in r\<lparr>pn_resolved := (Some (seq, hash), v) # pn_resolved r, pn_kind := or_else kind (pn_kind r),
           pn_resumable := pn_resumable r \<or> resumable\<rparr>)"

fun record_panel :: "('n, 'h) workflow_env \<Rightarrow> ((nat \<times> rstr) option \<times> 'n json) list \<Rightarrow> ('n, 'h) ctx \<Rightarrow> ('n, 'h) ctx \<times> 'n script_error option" where
  "record_panel E [] c = (c, None)"
| "record_panel E ((None, v) # rest) c = record_panel E rest c"
| "record_panel E ((Some (seq, hash), v) # rest) c =
     (case ctx_record E seq (lit ''spawn_agent'') hash v c of
        (c, Some err) \<Rightarrow> (c, Some err)
      | (c, None) \<Rightarrow> record_panel E rest c)"

definition parallel_call :: "('n, 'h) workflow_env \<Rightarrow> 'n json list \<Rightarrow> ('n, 'h) ctx \<Rightarrow> ('n, 'h) ctx \<times> ('n script_error + 'n json list)" where
  "parallel_call E payloads c =
     (if length payloads > MAX_PARALLEL then
        (c, Inl (RuntimeError (lit ''parallel() accepts at most 1024 items per call (got '' @ show_nat (length payloads) @ lit '')'')))
      else case count_live E (cx_journal c) (cx_seq c) payloads of
          Inl err \<Rightarrow> (c, Inl err)
        | Inr live \<Rightarrow>
            (case reserve_agent_calls E live c of
               (c, Some err) \<Rightarrow> (c, Inl err)
             | (c, None) \<Rightarrow>
                 (case send_panel E payloads c of
                    (c, Inl err) \<Rightarrow> (c, Inl err)
                  | (c, Inr pending) \<Rightarrow>
                      (let r = panel_results pending;
                           (c, err) = (if pn_resumable r then (release_agent_calls E live c, pn_error r)
                                       else let (c, failed) = record_panel E (pn_resolved r) c in (c, or_else (pn_error r) failed))
                       in case pn_kind r of
                            Some k \<Rightarrow> (c, Inl (host_terminal_error k))
                          | None \<Rightarrow> (c, case err of Some e \<Rightarrow> Inl e | None \<Rightarrow> Inr (map snd (pn_resolved r)))))))"

section \<open>Scripts\<close>

definition await_user :: "('n, 'h) workflow_env \<Rightarrow> rstr \<Rightarrow> rstr \<Rightarrow> ('n, 'h) ctx \<Rightarrow> ('n, 'h) ctx \<times> 'n script_error option" where
  "await_user E kind message c =
     (case pause_kind_from_str kind of
        Inl e \<Rightarrow> (c, Some (RuntimeError e))
      | Inr parsed \<Rightarrow>
          (let hash = request_hash (we_hash E) (lit ''await_user'') (JObject [(lit ''kind'', JString kind), (lit ''message'', JString message)])
           in case next_seq c of
                Inl err \<Rightarrow> (c, Some err)
              | Inr (seq, c) \<Rightarrow>
                  (case replay (cx_journal c) seq (lit ''await_user'') hash of
                     Inl err \<Rightarrow> (c, Some (Terminated (FatalJournal err)))
                   | Inr (Some _) \<Rightarrow> (c, None)
                   | Inr None \<Rightarrow>
                       (case ctx_record E seq (lit ''await_user'') hash JNull c of
                          (c, Some err) \<Rightarrow> (c, Some err)
                        | (c, None) \<Rightarrow> (c, Some (Terminated (Pause parsed message)))))))"

datatype 'n action =
    DoAgent "'n json" | DoParallel "'n json list" | DoPhase rstr | DoLog rstr | DoTelemetry rstr "'n json" | DoAwait rstr rstr
  | DoBudget | DoRender rstr "'n json" | DoWrite rstr rstr | DoRead rstr | DoGitDiff rstr
  | DoComplete "'n json" | DoPause rstr rstr | DoReturn "'n json" | DoFail rstr

datatype 'n step_result = Got "'n json" | GotAll "'n json list" | Continued | Caught rstr

definition named :: "(rstr \<times> 'n json) list \<Rightarrow> 'n json" where
  "named members = JObject members"

fun one_result :: "('n, 'h) ctx \<times> ('n script_error + 'n json) \<Rightarrow> ('n, 'h) ctx \<times> ('n script_error + 'n step_result)" where
  "one_result (c, Inl err) = (c, Inl err)"
| "one_result (c, Inr v) = (c, Inr (Got v))"

fun exec_action :: "('n, 'h) workflow_env \<Rightarrow> 'n action \<Rightarrow> ('n, 'h) ctx \<Rightarrow> ('n, 'h) ctx \<times> ('n script_error + 'n step_result)" where
  "exec_action E (DoAgent payload) c = one_result (spawn_agent_call E payload c)"
| "exec_action E (DoParallel payloads) c =
     (case parallel_call E payloads c of (c, Inl err) \<Rightarrow> (c, Inl err) | (c, Inr vs) \<Rightarrow> (c, Inr (GotAll vs)))"
| "exec_action E (DoPhase title) c = (host_emit E (PhaseEvent title) c, Inr Continued)"
| "exec_action E (DoLog message) c = (host_emit E (LogEvent message) c, Inr Continued)"
| "exec_action E (DoTelemetry name members) c = (host_emit E (TelemetryEvent name members) c, Inr Continued)"
| "exec_action E (DoAwait kind message) c =
     (case await_user E kind message c of (c, Some err) \<Rightarrow> (c, Inl err) | (c, None) \<Rightarrow> (c, Inr Continued))"
| "exec_action E DoBudget c = one_result (host_call E (lit ''budget'') JNull BudgetQuery c)"
| "exec_action E (DoRender name vars) c =
     one_result (host_call E (lit ''render_template'') (named [(lit ''name'', JString name), (lit ''vars'', vars)]) (RenderTemplate name vars) c)"
| "exec_action E (DoWrite name content) c =
     one_result (host_call E (lit ''write_scratch_file'') (named [(lit ''name'', JString name), (lit ''content'', JString content)])
       (WriteScratchFile name content) c)"
| "exec_action E (DoRead name) c =
     one_result (host_call E (lit ''read_scratch_file'') (named [(lit ''name'', JString name)]) (ReadScratchFile name) c)"
| "exec_action E (DoGitDiff commit) c =
     one_result (host_call E (lit ''git_diff_since'') (named [(lit ''commit'', JString commit)]) (GitDiffSince commit) c)"
| "exec_action E (DoComplete v) c = (c, Inl (Terminated (Complete v)))"
| "exec_action E (DoPause kind message) c =
     (c, case pause_kind_from_str kind of Inl e \<Rightarrow> Inl (RuntimeError e) | Inr k \<Rightarrow> Inl (Terminated (Pause k message)))"
| "exec_action E (DoReturn v) c = (c, Inl (Terminated (Complete v)))"
| "exec_action E (DoFail message) c = (c, Inl (Terminated (Fatal message)))"

type_synonym 'n workflow_script = "'n step_result list \<Rightarrow> 'n action"

text \<open>The first \<open>n\<close> actions of a script; \<open>Inl\<close> when the run is over before.\<close>

fun run_steps :: "('n, 'h) workflow_env \<Rightarrow> 'n workflow_script \<Rightarrow> nat \<Rightarrow> ('n, 'h) ctx \<Rightarrow> 'n step_result list \<Rightarrow>
    (('n, 'h) ctx \<times> 'n workflow_outcome) + ('n, 'h) ctx \<times> 'n step_result list" where
  "run_steps E script 0 c results = Inr (c, results)"
| "run_steps E script (Suc n) c results =
     (case exec_action E (script results) c of
        (c, Inr r) \<Rightarrow> run_steps E script n c (results @ [r])
      | (c, Inl (RuntimeError m)) \<Rightarrow> run_steps E script n c (results @ [Caught m])
      | (c, Inl err) \<Rightarrow> Inl (c, outcome_from_error err))"

definition run_start :: "'n journal \<Rightarrow> journal_fs \<Rightarrow> 'h \<Rightarrow> ('n, 'h) ctx" where
  "run_start j fs h = \<lparr>cx_journal = j, cx_seq = 0, cx_fs = fs, cx_host = h\<rparr>"

end
