(* ===== verification/Workflow_Resume.thy ===== *)
theory Workflow_Resume
  imports Workflow_Engine
begin

text \<open>
  A workflow that is resumed from its journal sees the results it has seen before, without asking the host again.
\<close>

section \<open>Replay from a longer journal\<close>

abbreviation entries_of :: "('n, 'h) ctx \<Rightarrow> 'n journal_entry list" where
  "entries_of c \<equiv> j_entries (cx_journal c)"

lemma prefix_nth: "prefix xs ys \<Longrightarrow> i < length xs \<Longrightarrow> ys ! i = xs ! i"
  by (auto simp: prefix_def nth_append)

lemma replay_extends:
  assumes "prefix (j_entries j) (j_entries j')" "seq < length (j_entries j)"
  shows "replay j' seq kind hash = replay j seq kind hash"
  using assms prefix_nth [OF assms] prefix_length_le [OF assms(1)] by (simp add: replay_def)

lemma replay_for_extends:
  assumes "prefix (j_entries j) (j_entries j')" "seq < length (j_entries j)" "we_hash E' = we_hash E"
  shows "replay_for E' kind payload seq j' = replay_for E kind payload seq j"
  unfolding replay_for_def replay_spawn_agent_def assms(3) replay_extends [OF assms(1,2)] ..

lemma replay_none: "replay j seq kind hash = Inr None \<longleftrightarrow> length (j_entries j) \<le> seq"
  by (auto simp: replay_def Let_def)

lemma replay_for_none: "replay_for E kind payload seq j = Inr None \<longleftrightarrow> length (j_entries j) \<le> seq"
proof (cases "length (j_entries j) \<le> seq")
  case True
  then show ?thesis by (simp add: replay_for_def replay_spawn_agent_def replay_def Let_def split: option.splits)
next
  case False
  then have "replay j seq k h \<noteq> Inr None" for k h by (simp add: replay_none)
  with False show ?thesis
    by (auto simp: replay_for_def replay_spawn_agent_def Let_def split: sum.splits option.splits)
qed

text \<open>The journal holds the answer to a call under its number.\<close>

definition recorded :: "'n journal_entry list \<Rightarrow> nat \<Rightarrow> rstr \<Rightarrow> rstr \<Rightarrow> 'n json \<Rightarrow> bool" where
  "recorded es seq kind hash v \<longleftrightarrow>
     seq < length es \<and> je_seq (es ! seq) = seq \<and> je_kind (es ! seq) = kind \<and> je_hash (es ! seq) = hash \<and> je_result (es ! seq) = v"

lemma recorded_replay:
  assumes "recorded (j_entries j) seq kind (request_hash (we_hash E) kind payload) v"
  shows "replay_for E kind payload seq j = Inr (Some v)"
  using assms by (simp add: recorded_def replay_for_def replay_spawn_agent_def replay_def Let_def)

lemma recorded_extends: "recorded es seq kind hash v \<Longrightarrow> prefix es es' \<Longrightarrow> recorded es' seq kind hash v"
  using prefix_nth prefix_length_le by (fastforce simp: recorded_def)

section \<open>What a record adds\<close>

lemma ctx_record_frame [simp]:
  "ctx_record E seq kind hash v c = (c', r) \<Longrightarrow> cx_seq c' = cx_seq c"
  "ctx_record E seq kind hash v c = (c', r) \<Longrightarrow> cx_host c' = cx_host c"
  by (auto simp: ctx_record_def split: prod.splits sum.splits)

lemma ctx_record_entries:
  assumes "ctx_record E seq kind hash v c = (c', r)"
  shows "if r = None then length (entries_of c) = seq \<and> prefix (entries_of c) (entries_of c') \<and> length (entries_of c') = Suc seq \<and>
      recorded (entries_of c') seq kind hash v
    else entries_of c' = entries_of c \<and> (\<exists>err. r = Some (Terminated (FatalJournal err)))"
  using assms
  by (auto simp: ctx_record_def journal_record_def validate_sequence_def recorded_def Let_def nth_append
      split: prod.splits sum.splits option.splits if_splits)

lemma ctx_record_success:
  assumes "ctx_record E seq kind hash v c = (c', None)"
  shows "length (entries_of c) = seq" "prefix (entries_of c) (entries_of c')" "length (entries_of c') = Suc seq"
    "recorded (entries_of c') seq kind hash v"
  using ctx_record_entries [OF assms] by auto

lemma ctx_record_failure:
  assumes "ctx_record E seq kind hash v c = (c', Some err)"
  shows "entries_of c' = entries_of c" "\<exists>e. err = Terminated (FatalJournal e)"
  using ctx_record_entries [OF assms] by auto

lemma send_request_frame [simp]:
  "cx_seq (snd (send_request E req c)) = cx_seq c" "cx_journal (snd (send_request E req c)) = cx_journal c"
  "cx_fs (snd (send_request E req c)) = cx_fs c"
  by (simp_all add: send_request_def split: prod.splits)

lemma next_seq_result:
  "next_seq c = Inr (seq, c') \<longleftrightarrow> Suc (cx_seq c) \<le> MAX_HOST_CALLS \<and> seq = cx_seq c \<and> c' = c\<lparr>cx_seq := Suc (cx_seq c)\<rparr>"
  by (auto simp: next_seq_def reserve_seqs_def U64_MAX_def MAX_HOST_CALLS_def)

lemma next_seq_fails: "next_seq c = Inl err \<Longrightarrow> \<exists>t. err = Terminated t"
  by (auto simp: next_seq_def reserve_seqs_def split: if_splits)

section \<open>The host's promises\<close>

text \<open>Results are serialised structures and strings, never one of the engine's own markers; a reservation is granted or ends the run.\<close>

fun plain_reply :: "'n host_reply \<Rightarrow> bool" where
  "plain_reply (HostReply (Inr v)) \<longleftrightarrow> replay_host_error v = None \<and> \<not> is_host_terminal_sentinel v"
| "plain_reply _ = True"

fun soft_failure :: "'n host_reply \<Rightarrow> bool" where
  "soft_failure (HostReply (Inl (HostUnsupported _))) = True"
| "soft_failure (HostReply (Inl (HostFailed _))) = True"
| "soft_failure _ = False"

definition honest_host :: "('n, 'h) workflow_env \<Rightarrow> bool" where
  "honest_host E \<longleftrightarrow>
     (\<forall>req h. plain_reply (fst (we_host E req h))) \<and> (\<forall>n h. \<not> soft_failure (fst (we_host E (ReserveAgentCalls n) h)))"

lemma honest_plain: "honest_host E \<Longrightarrow> send_request E req c = (reply, c') \<Longrightarrow> plain_reply reply"
  by (auto simp: honest_host_def send_request_def split: prod.splits) (metis fst_conv)

lemma reserve_terminates:
  assumes "honest_host E" "reserve_agent_calls E n c = (c', Some err)"
  shows "\<exists>t. err = Terminated t"
proof -
  have "\<not> soft_failure (fst (send_request E (ReserveAgentCalls n) c))"
    using assms(1) by (simp add: honest_host_def send_request_def split: prod.splits) (metis fst_conv)
  then show ?thesis
    using assms(2)
    by (auto simp: reserve_agent_calls_def closed_error_def dropped_error_def budget_error_def Let_def
        split: if_splits prod.splits host_reply.splits sum.splits host_error.splits)
qed

lemma reserve_frame [simp]:
  "reserve_agent_calls E n c = (c', r) \<Longrightarrow> cx_seq c' = cx_seq c"
  "reserve_agent_calls E n c = (c', r) \<Longrightarrow> cx_journal c' = cx_journal c"
  "reserve_agent_calls E n c = (c', r) \<Longrightarrow> cx_fs c' = cx_fs c"
  by (auto simp: reserve_agent_calls_def send_request_def Let_def split: if_splits prod.splits)

section \<open>One call\<close>

text \<open>The result the script goes on with.\<close>

fun goes_on :: "'n script_error + 'a \<Rightarrow> bool" where
  "goes_on (Inl (Terminated _)) = False"
| "goes_on _ = True"

definition replayed_result :: "'n json \<Rightarrow> 'n script_error + 'n json" where
  "replayed_result v = (case replay_host_error v of Some err \<Rightarrow> Inl err | None \<Rightarrow> Inr v)"

lemma sentinel_replays [simp]: "replayed_result (host_error_sentinel msg) = Inl (RuntimeError msg)"
  by (simp add: replayed_result_def replay_host_error_def host_error_sentinel_def)

lemma plain_replays [simp]: "replay_host_error v = None \<Longrightarrow> replayed_result v = Inr v"
  by (simp add: replayed_result_def)

lemma host_call_cases:
  assumes "host_call E kind payload req c = (c', r)" "goes_on r" "honest_host E"
  obtains (old) v where "replay_for E kind payload (cx_seq c) (cx_journal c) = Inr (Some v)" "c' = c\<lparr>cx_seq := Suc (cx_seq c)\<rparr>"
      "r = replayed_result v" "Suc (cx_seq c) \<le> MAX_HOST_CALLS"
  | (quota) "length (entries_of c) \<le> cx_seq c" "c' = snd (send_request E req (c\<lparr>cx_seq := Suc (cx_seq c)\<rparr>))" "Suc (cx_seq c) \<le> MAX_HOST_CALLS"
  | (new) v where "ctx_record E (cx_seq c) kind (request_hash (we_hash E) kind payload) v (snd (send_request E req (c\<lparr>cx_seq := Suc (cx_seq c)\<rparr>))) =
        (c', None)" "r = replayed_result v" "Suc (cx_seq c) \<le> MAX_HOST_CALLS"
proof -
  let ?hash = "request_hash (we_hash E) kind payload" and ?c = "c\<lparr>cx_seq := Suc (cx_seq c)\<rparr>"
  obtain reply d where d: "send_request E req ?c = (reply, d)" by (cases "send_request E req ?c")
  then have plain: "plain_reply reply" using honest_plain [OF assms(3)] by auto
  have n: "next_seq c = Inr (cx_seq c, ?c)"
    using assms(1,2) next_seq_fails [of c] by (cases "next_seq c") (fastforce simp: host_call_def Let_def next_seq_result)+
  then have m: "Suc (cx_seq c) \<le> MAX_HOST_CALLS" by (simp add: next_seq_result)
  show thesis
  proof (cases "replay_for E kind payload (cx_seq c) (cx_journal c)")
    case (Inl err)
    with assms(1,2) n show thesis by (auto simp: host_call_def Let_def)
  next
    case (Inr x)
    show thesis
    proof (cases x)
      case (Some v)
      with assms(1) n m Inr show thesis by (intro old) (auto simp: host_call_def Let_def replayed_result_def)
    next
      case None
      then have "length (entries_of c) \<le> cx_seq c" using Inr by (simp add: replay_for_none)
      moreover have "c' = d \<or> (\<exists>v. ctx_record E (cx_seq c) kind ?hash v d = (c', None) \<and> r = replayed_result v)"
        using assms(1,2) n Inr None d plain
        by (auto simp: host_call_def Let_def closed_error_def dropped_error_def budget_error_def
            split: host_reply.splits sum.splits host_error.splits prod.splits option.splits dest: ctx_record_failure)
      ultimately show thesis using d m quota new by auto
    qed
  qed
qed

text \<open>A call that goes on leaves a gap in the journal, or its answer is in the journal under its number.\<close>

lemma host_call_recorded:
  assumes "host_call E kind payload req c = (c', r)" "goes_on r" "honest_host E"
  shows "cx_seq c' = Suc (cx_seq c)" "Suc (cx_seq c) \<le> MAX_HOST_CALLS" "prefix (entries_of c) (entries_of c')"
    "length (entries_of c') \<le> max (length (entries_of c)) (Suc (cx_seq c))"
    "length (entries_of c) < cx_seq c \<Longrightarrow> entries_of c' = entries_of c"
    "cx_seq c < length (entries_of c') \<Longrightarrow>
       \<exists>v. r = replayed_result v \<and> replay_for E kind payload (cx_seq c) (cx_journal c') = Inr (Some v)"
proof -
  let ?c = "c\<lparr>cx_seq := Suc (cx_seq c)\<rparr>"
  have "cx_seq c' = Suc (cx_seq c) \<and> Suc (cx_seq c) \<le> MAX_HOST_CALLS \<and> prefix (entries_of c) (entries_of c') \<and>
      length (entries_of c') \<le> max (length (entries_of c)) (Suc (cx_seq c)) \<and>
      (length (entries_of c) < cx_seq c \<longrightarrow> entries_of c' = entries_of c) \<and>
      (cx_seq c < length (entries_of c') \<longrightarrow> (\<exists>v. r = replayed_result v \<and> replay_for E kind payload (cx_seq c) (cx_journal c') = Inr (Some v)))"
    using assms
  proof (cases rule: host_call_cases)
    case old
    then show ?thesis by auto
  next
    case quota
    then show ?thesis using send_request_frame [of E req ?c] by simp
  next
    case (new v)
    note s = ctx_record_success [OF new(1)]
    have "cx_seq c' = Suc (cx_seq c)" using new(1) send_request_frame(1) [of E req ?c] by simp
    then show ?thesis
      using s send_request_frame(2) [of E req ?c] new(2,3) recorded_replay [OF s(4)] by (auto simp: max_def)
  qed
  then show "cx_seq c' = Suc (cx_seq c)" "Suc (cx_seq c) \<le> MAX_HOST_CALLS" "prefix (entries_of c) (entries_of c')"
    "length (entries_of c') \<le> max (length (entries_of c)) (Suc (cx_seq c))"
    "length (entries_of c) < cx_seq c \<Longrightarrow> entries_of c' = entries_of c"
    "cx_seq c < length (entries_of c') \<Longrightarrow> \<exists>v. r = replayed_result v \<and> replay_for E kind payload (cx_seq c) (cx_journal c') = Inr (Some v)"
    by blast+
qed

lemma host_call_replays:
  assumes "replay_for E kind payload (cx_seq d) (cx_journal d) = Inr (Some v)" "Suc (cx_seq d) \<le> MAX_HOST_CALLS"
  shows "host_call E kind payload req d = (d\<lparr>cx_seq := Suc (cx_seq d)\<rparr>, replayed_result v)"
proof -
  have "next_seq d = Inr (cx_seq d, d\<lparr>cx_seq := Suc (cx_seq d)\<rparr>)" using assms(2) by (simp add: next_seq_result)
  then show ?thesis using assms(1) by (simp add: host_call_def Let_def replayed_result_def)
qed

text \<open>
  A call resumes: where it goes on it keeps the journal, adds to it only without leaving a gap, and, if it leaves none, gives the
  same result again from any longer journal, which it does not change.
\<close>

definition resumes :: "(('n, 'h) ctx \<Rightarrow> ('n, 'h) ctx \<times> ('n script_error + 'a)) \<Rightarrow> (('n, 'k) ctx \<Rightarrow> ('n, 'k) ctx \<times> ('n script_error + 'a)) \<Rightarrow> bool" where
  "resumes F G \<longleftrightarrow>
     (\<forall>c c1 r. F c = (c1, r) \<and> goes_on r \<longrightarrow>
        prefix (entries_of c) (entries_of c1) \<and> cx_seq c \<le> cx_seq c1 \<and>
        (length (entries_of c) < cx_seq c \<longrightarrow> entries_of c1 = entries_of c) \<and>
        (\<forall>d. cx_seq c1 \<le> length (entries_of c1) \<and> prefix (entries_of c1) (entries_of d) \<and> cx_seq d = cx_seq c \<longrightarrow>
           (\<exists>d1. G d = (d1, r) \<and> cx_journal d1 = cx_journal d \<and> cx_seq d1 = cx_seq c1)))"

lemma resumesI:
  assumes "\<And>c c1 r. F c = (c1, r) \<Longrightarrow> goes_on r \<Longrightarrow> prefix (entries_of c) (entries_of c1)"
    "\<And>c c1 r. F c = (c1, r) \<Longrightarrow> goes_on r \<Longrightarrow> cx_seq c \<le> cx_seq c1"
    "\<And>c c1 r. F c = (c1, r) \<Longrightarrow> goes_on r \<Longrightarrow> length (entries_of c) < cx_seq c \<Longrightarrow> entries_of c1 = entries_of c"
    "\<And>c c1 r d. F c = (c1, r) \<Longrightarrow> goes_on r \<Longrightarrow> cx_seq c1 \<le> length (entries_of c1) \<Longrightarrow> prefix (entries_of c1) (entries_of d) \<Longrightarrow>
      cx_seq d = cx_seq c \<Longrightarrow> \<exists>d1. G d = (d1, r) \<and> cx_journal d1 = cx_journal d \<and> cx_seq d1 = cx_seq c1"
  shows "resumes F G"
  unfolding resumes_def using assms by blast

text \<open>The answer a resumed call finds.\<close>

lemma host_call_answer:
  assumes "host_call E kind payload req c = (c1, r)" "goes_on r" "honest_host E" "we_hash E' = we_hash E"
    "cx_seq c1 \<le> length (entries_of c1)" "prefix (entries_of c1) (entries_of d)" "cx_seq d = cx_seq c"
  shows "\<exists>v. r = replayed_result v \<and> replay_for E' kind payload (cx_seq d) (cx_journal d) = Inr (Some v) \<and> Suc (cx_seq d) \<le> MAX_HOST_CALLS"
proof -
  note rec = host_call_recorded [OF assms(1-3)]
  have s: "cx_seq c < length (entries_of c1)" using rec(1) assms(5) by simp
  from rec(6) [OF s] obtain v where "r = replayed_result v" "replay_for E kind payload (cx_seq c) (cx_journal c1) = Inr (Some v)" by blast
  with rec(2) replay_for_extends [OF assms(6) s assms(4)] assms(7) show ?thesis by simp
qed

lemma host_call_resumes:
  fixes E' :: "('n, 'k) workflow_env"
  assumes "honest_host E" "we_hash E' = we_hash E"
  shows "resumes (host_call E kind payload req) (host_call E' kind payload req)"
proof (rule resumesI)
  fix c c1 r and d :: "('n, 'k) ctx"
  assume call: "host_call E kind payload req c = (c1, r)" "goes_on r"
  note rec = host_call_recorded [OF call assms(1)]
  show "prefix (entries_of c) (entries_of c1)" "cx_seq c \<le> cx_seq c1" using rec by auto
  show "length (entries_of c) < cx_seq c \<Longrightarrow> entries_of c1 = entries_of c" using rec(5) .
  assume "cx_seq c1 \<le> length (entries_of c1)" "prefix (entries_of c1) (entries_of d)" "cx_seq d = cx_seq c"
  with host_call_answer [OF call assms this] rec(1)
  show "\<exists>d1. host_call E' kind payload req d = (d1, r) \<and> cx_journal d1 = cx_journal d \<and> cx_seq d1 = cx_seq c1"
    using host_call_replays [of E' kind payload d] by fastforce
qed

lemma release_frame [simp]:
  "cx_seq (release_agent_calls E n c) = cx_seq c" "cx_journal (release_agent_calls E n c) = cx_journal c"
  by (simp_all add: release_agent_calls_def)

lemma spawn_agent_parts:
  assumes "spawn_agent_call E payload c = (c1, r)" "goes_on r" "honest_host E"
  obtains b where "host_call E (lit ''spawn_agent'') payload (SpawnAgent payload) b = (c1, r)" "cx_seq b = cx_seq c" "cx_journal b = cx_journal c" "cx_fs b = cx_fs c"
proof (cases "replay_for E (lit ''spawn_agent'') payload (cx_seq c) (cx_journal c)")
  case (Inl err)
  with assms show thesis by (auto simp: spawn_agent_call_def)
next
  case (Inr x)
  have keep: "\<not> is_resumable_unjournaled_terminal err" if "goes_on (Inl err :: 'a script_error + 'a json)" for err
    using that by (cases err) auto
  show thesis
  proof (cases x)
    case (Some v)
    with assms Inr keep show thesis
      by (intro that [of c]) (auto simp: spawn_agent_call_def Let_def split: prod.splits sum.splits)
  next
    case None
    obtain b e where b: "reserve_agent_calls E 1 c = (b, e)" by (cases "reserve_agent_calls E 1 c")
    then have "e = None"
      using assms Inr None reserve_terminates [of E 1 c b] by (cases e) (auto simp: spawn_agent_call_def Let_def)
    with b assms Inr None keep show thesis
      by (intro that [of b]) (auto simp: spawn_agent_call_def Let_def split: prod.splits sum.splits if_splits)
  qed
qed

lemma spawn_agent_resumes:
  fixes E' :: "('n, 'k) workflow_env"
  assumes "honest_host E" "we_hash E' = we_hash E"
  shows "resumes (spawn_agent_call E payload) (spawn_agent_call E' payload)"
proof (rule resumesI)
  fix c c1 r and d :: "('n, 'k) ctx"
  assume call: "spawn_agent_call E payload c = (c1, r)" "goes_on r"
  obtain b where b: "host_call E (lit ''spawn_agent'') payload (SpawnAgent payload) b = (c1, r)" "cx_seq b = cx_seq c" "cx_journal b = cx_journal c"
    using spawn_agent_parts [OF call assms(1)] .
  note rec = host_call_recorded [OF b(1) call(2) assms(1)]
  show "prefix (entries_of c) (entries_of c1)" "cx_seq c \<le> cx_seq c1" using rec b by auto
  show "length (entries_of c) < cx_seq c \<Longrightarrow> entries_of c1 = entries_of c" using rec(5) b by simp
  assume d: "cx_seq c1 \<le> length (entries_of c1)" "prefix (entries_of c1) (entries_of d)" "cx_seq d = cx_seq c"
  obtain v where v: "r = replayed_result v" "replay_for E' (lit ''spawn_agent'') payload (cx_seq d) (cx_journal d) = Inr (Some v)"
    "Suc (cx_seq d) \<le> MAX_HOST_CALLS"
    using host_call_answer [OF b(1) call(2) assms d(1,2)] d(3) b(2) by auto
  then show "\<exists>d1. spawn_agent_call E' payload d = (d1, r) \<and> cx_journal d1 = cx_journal d \<and> cx_seq d1 = cx_seq c1"
    using host_call_replays [OF v(2,3)] rec(1) d(3) b(2) by (auto simp: spawn_agent_call_def Let_def split: sum.splits)
qed

section \<open>Panels\<close>

text \<open>The entries of a panel: old answers, and replies to the calls with the next numbers.\<close>

fun panel_ok :: "('n, 'h) workflow_env \<Rightarrow> 'n journal \<Rightarrow> nat \<Rightarrow> 'n json list \<Rightarrow> 'n pending_agent list \<Rightarrow> bool" where
  "panel_ok E j s [] [] = True"
| "panel_ok E j s (p # ps) (Replayed v # es) \<longleftrightarrow> replay_for E (lit ''spawn_agent'') p s j = Inr (Some v) \<and> panel_ok E j (Suc s) ps es"
| "panel_ok E j s (p # ps) (Live seq hash reply # es) \<longleftrightarrow>
     seq = s \<and> hash = request_hash (we_hash E) (lit ''spawn_agent'') p \<and> length (j_entries j) \<le> s \<and> plain_reply reply \<and> panel_ok E j (Suc s) ps es"
| "panel_ok E j s _ _ = False"

lemma send_panel_ok:
  assumes "send_panel E ps c = (c1, Inr pending)" "honest_host E"
  shows "cx_journal c1 = cx_journal c \<and> cx_seq c1 = cx_seq c + length ps \<and> (ps \<noteq> [] \<longrightarrow> cx_seq c1 \<le> MAX_HOST_CALLS) \<and>
    panel_ok E (cx_journal c) (cx_seq c) ps pending"
  using assms(1)
proof (induction ps arbitrary: c pending)
  case (Cons p ps)
  obtain m where m: "next_seq c = Inr (cx_seq c, m)" "m = c\<lparr>cx_seq := Suc (cx_seq c)\<rparr>" "Suc (cx_seq c) \<le> MAX_HOST_CALLS"
    using Cons.prems by (cases "next_seq c") (auto simp: next_seq_result Let_def)
  show ?case
  proof (cases "replay_for E (lit ''spawn_agent'') p (cx_seq c) (cx_journal c)")
    case (Inl a)
    with Cons.prems m show ?thesis by simp
  next
    case (Inr x)
    show ?thesis
    proof (cases x)
      case (Some v)
      with Cons.prems m Inr obtain es where "send_panel E ps m = (c1, Inr es)" "pending = Replayed v # es"
        by (auto simp: Let_def split: prod.splits sum.splits)
      with Cons.IH [of m es] m Inr Some show ?thesis by (cases ps) auto
    next
      case None
      obtain reply d where d: "send_request E (SpawnAgent p) m = (reply, d)" by (cases "send_request E (SpawnAgent p) m")
      have frame: "cx_seq d = Suc (cx_seq c)" "cx_journal d = cx_journal c" "plain_reply reply"
        using d send_request_frame [of E "SpawnAgent p" m] honest_plain [OF assms(2) d] m by auto
      from Cons.prems m Inr None d obtain es where
        "send_panel E ps d = (c1, Inr es)" "pending = Live (cx_seq c) (request_hash (we_hash E) (lit ''spawn_agent'') p) reply # es"
        by (auto simp: Let_def split: prod.splits sum.splits if_splits)
      with Cons.IH [of d es] frame Inr None m show ?thesis by (cases ps) (auto simp: replay_for_none)
    qed
  qed
qed simp

fun live_seqs :: "((nat \<times> rstr) option \<times> 'n json) list \<Rightarrow> nat list" where
  "live_seqs [] = []"
| "live_seqs ((None, v) # rest) = live_seqs rest"
| "live_seqs ((Some (seq, hash), v) # rest) = seq # live_seqs rest"

lemma live_seqs_panel [simp]:
  "live_seqs (pn_resolved (panel_results (Replayed v # es))) = live_seqs (pn_resolved (panel_results es))"
  "live_seqs (pn_resolved (panel_results (Live seq hash reply # es))) = seq # live_seqs (pn_resolved (panel_results es))"
  by (auto simp: Let_def split: option.splits prod.splits)

lemma panel_live_seqs:
  assumes "panel_ok E j s ps es"
  shows "sorted_wrt (<) (live_seqs (pn_resolved (panel_results es))) \<and>
    (\<forall>q\<in>set (live_seqs (pn_resolved (panel_results es))). s \<le> q \<and> q < s + length ps \<and> length (j_entries j) \<le> q)"
  using assms
proof (induction E j s ps es rule: panel_ok.induct)
  case (2 E j s p ps v es)
  then show ?case by (auto simp del: panel_results.simps dest: Suc_leD)
next
  case (3 E j s p ps seq hash reply es)
  then show ?case by (auto simp del: panel_results.simps simp: Suc_le_eq dest: Suc_leD)
qed auto

lemma record_panel_spec:
  assumes "record_panel E rs c = (c1, failed)" "sorted_wrt (<) (live_seqs rs)" "\<forall>q\<in>set (live_seqs rs). length (entries_of c) \<le> q"
  shows "cx_seq c1 = cx_seq c \<and> prefix (entries_of c) (entries_of c1) \<and>
    (if failed = None then \<forall>seq hash v. (Some (seq, hash), v) \<in> set rs \<longrightarrow> recorded (entries_of c1) seq (lit ''spawn_agent'') hash v
     else (\<exists>q\<in>set (live_seqs rs). length (entries_of c1) \<le> q) \<and> (\<exists>e. failed = Some (Terminated (FatalJournal e))))"
  using assms
proof (induction E rs c rule: record_panel.induct)
  case (3 E seq hash v rest c)
  obtain d e where d: "ctx_record E seq (lit ''spawn_agent'') hash v c = (d, e)" by (cases "ctx_record E seq (lit ''spawn_agent'') hash v c")
  show ?case
  proof (cases e)
    case (Some err)
    then show ?thesis using 3(2,4) d ctx_record_failure [OF d [unfolded Some]] by auto
  next
    case None
    note s = ctx_record_success [OF d [unfolded None]]
    have rest: "record_panel E rest d = (c1, failed)" using 3(2) d None by simp
    have "cx_seq c1 = cx_seq d \<and> prefix (entries_of d) (entries_of c1) \<and>
      (if failed = None then \<forall>seq hash v. (Some (seq, hash), v) \<in> set rest \<longrightarrow> recorded (entries_of c1) seq (lit ''spawn_agent'') hash v
       else (\<exists>q\<in>set (live_seqs rest). length (entries_of c1) \<le> q) \<and> (\<exists>e. failed = Some (Terminated (FatalJournal e))))"
      using 3(3) s(3) by (intro 3(1) [OF d [symmetric] None rest]) (auto simp: Suc_le_eq)
    then show ?thesis
      using s(2) ctx_record_frame(1) [OF d] recorded_extends [OF s(4)] prefix_order.trans [OF s(2)] by (auto split: if_splits)
  qed
qed auto

text \<open>A gap stops the recording at once.\<close>

lemma record_panel_gap:
  assumes "record_panel E rs c = (c1, failed)" "\<forall>q\<in>set (live_seqs rs). length (entries_of c) < q"
  shows "entries_of c1 = entries_of c"
  using assms
proof (induction E rs c rule: record_panel.induct)
  case (3 E seq hash v rest c)
  obtain d e where d: "ctx_record E seq (lit ''spawn_agent'') hash v c = (d, e)" by (cases "ctx_record E seq (lit ''spawn_agent'') hash v c")
  show ?case
  proof (cases e)
    case (Some err)
    then show ?thesis using 3(2) d ctx_record_failure [OF d [unfolded Some]] by auto
  next
    case None
    then show ?thesis using ctx_record_success(1) [OF d [unfolded None]] 3(3) by auto
  qed
qed auto

lemma send_request_fs: "send_request E req c = (reply, d) \<Longrightarrow> cx_fs d = cx_fs c"
  using send_request_frame(3) [of E req c] by simp

lemma send_panel_fs: "send_panel E ps c = (c1, r) \<Longrightarrow> cx_fs c1 = cx_fs c"
proof (induction ps arbitrary: c c1 r)
  case (Cons p ps)
  show ?case
  proof (cases "next_seq c")
    case (Inl err)
    with Cons.prems show ?thesis by simp
  next
    case (Inr x)
    then obtain seq m where x: "next_seq c = Inr (seq, m)" "cx_fs m = cx_fs c" by (cases x) (auto simp: next_seq_result)
    show ?thesis
    proof (cases "replay_for E (lit ''spawn_agent'') p seq (cx_journal m) = Inr None")
      case True
      obtain reply d q e where d: "send_request E (SpawnAgent p) m = (reply, d)" "send_panel E ps d = (q, e)" by (metis prod.exhaust)
      with Cons.prems True x Cons.IH [OF d(2)] send_request_fs [OF d(1)] show ?thesis by (cases e) (auto split: if_splits)
    next
      case False
      obtain q e where d: "send_panel E ps m = (q, e)" by (metis prod.exhaust)
      with Cons.prems False x Cons.IH [OF d] show ?thesis
        by (cases e) (auto split: sum.splits option.splits)
    qed
  qed
qed simp

text \<open>A panel that leaves no gap is recorded in full.\<close>

lemma panel_complete:
  assumes "panel_ok E (cx_journal m) s ps pending" "record_panel E (pn_resolved (panel_results pending)) m = (c1, failed)"
    "cx_seq m = s + length ps" "cx_seq c1 \<le> length (entries_of c1)"
  shows "failed = None"
proof (rule ccontr)
  assume "failed \<noteq> None"
  note seqs = panel_live_seqs [OF assms(1)]
  with record_panel_spec [OF assms(2)] \<open>failed \<noteq> None\<close> obtain q where
    "q \<in> set (live_seqs (pn_resolved (panel_results pending)))" "length (entries_of c1) \<le> q" "cx_seq c1 = cx_seq m"
    by auto
  with seqs assms(3,4) show False by fastforce
qed

text \<open>A panel as it will be replayed.\<close>

fun frozen :: "'n pending_agent \<Rightarrow> 'n pending_agent" where
  "frozen (Replayed v) = Replayed v"
| "frozen (Live seq hash reply) = Replayed (fst (live_value reply))"

lemma live_value_plain:
  assumes "plain_reply reply" "live_value reply = (v, None, resumable)"
  shows "\<not> resumable \<and> replay_host_error v = None \<and> \<not> is_host_terminal_sentinel v"
  using assms
  by (auto simp: live_value_def replay_host_error_def is_host_terminal_sentinel_def
      split: host_reply.splits sum.splits host_error.splits)

lemma frozen_results:
  assumes "panel_ok E j s ps es" "pn_kind (panel_results es) = None"
  shows "panel_results (map frozen es) = \<lparr>pn_resolved = map (\<lambda>x. (None, snd x)) (pn_resolved (panel_results es)), pn_kind = None,
      pn_error = pn_error (panel_results es), pn_resumable = False\<rparr> \<and> \<not> pn_resumable (panel_results es)"
  using assms
proof (induction E j s ps es rule: panel_ok.induct)
  case (2 E j s p ps v es)
  then show ?case by (auto simp: Let_def split: if_splits option.splits)
next
  case (3 E j s p ps seq hash reply es)
  obtain v kind resumable where l: "live_value reply = (v, kind, resumable)" by (cases "live_value reply")
  then have "kind = None" "pn_kind (panel_results es) = None" using 3(3) by (auto simp: or_else_def Let_def split: option.splits)
  with 3 l live_value_plain [of reply v resumable] show ?case by (auto simp: or_else_def Let_def)
qed auto

lemma frozen_ok:
  assumes "panel_ok E j s ps es" "prefix (j_entries j) (j_entries j')" "we_hash E' = we_hash E"
    "\<forall>seq hash v. (Some (seq, hash), v) \<in> set (pn_resolved (panel_results es)) \<longrightarrow> recorded (j_entries j') seq (lit ''spawn_agent'') hash v"
  shows "panel_ok E' j' s ps (map frozen es)"
  using assms
proof (induction E j s ps es rule: panel_ok.induct)
  case (2 E j s p ps v es)
  have "s < length (j_entries j)" using 2(2) replay_for_none [of E _ p s j] by (metis panel_ok.simps(2) not_le option.distinct(1) sum.inject(2))
  then have "replay_for E' (lit ''spawn_agent'') p s j' = Inr (Some v)"
    using replay_for_extends [OF 2(3) _ 2(4)] 2(2) by simp
  moreover have "set (pn_resolved (panel_results es)) \<subseteq> set (pn_resolved (panel_results (Replayed v # es)))"
    by (auto simp: Let_def split: option.splits)
  ultimately show ?case using 2 by auto
next
  case (3 E j s p ps seq hash reply es)
  have "set (pn_resolved (panel_results (Live seq hash reply # es))) =
      insert (Some (seq, hash), fst (live_value reply)) (set (pn_resolved (panel_results es)))"
    by (auto simp: Let_def split: prod.splits)
  then have rec: "recorded (j_entries j') seq (lit ''spawn_agent'') hash (fst (live_value reply))"
    "\<forall>seq hash v. (Some (seq, hash), v) \<in> set (pn_resolved (panel_results es)) \<longrightarrow> recorded (j_entries j') seq (lit ''spawn_agent'') hash v"
    using 3(5) by auto
  then show ?case
    using 3(1,2,3,4) recorded_replay [of j' seq "lit ''spawn_agent''" E' p] by auto
qed auto

lemma replayed_panel:
  assumes "panel_ok E (cx_journal d) (cx_seq d) ps es" "\<forall>e\<in>set es. frozen e = e" "ps \<noteq> [] \<longrightarrow> cx_seq d + length ps \<le> MAX_HOST_CALLS"
  shows "send_panel E ps d = (d\<lparr>cx_seq := cx_seq d + length ps\<rparr>, Inr es) \<and> count_live E (cx_journal d) (cx_seq d) ps = Inr 0"
  using assms
proof (induction ps arbitrary: d es)
  case Nil
  then show ?case by (cases es) auto
next
  case (Cons p ps)
  then obtain v es' where e: "es = Replayed v # es'" "replay_for E (lit ''spawn_agent'') p (cx_seq d) (cx_journal d) = Inr (Some v)"
    "panel_ok E (cx_journal d) (Suc (cx_seq d)) ps es'"
    by (cases es; cases "hd es") auto
  let ?d = "d\<lparr>cx_seq := Suc (cx_seq d)\<rparr>"
  have "next_seq d = Inr (cx_seq d, ?d)" using Cons.prems(3) by (simp add: next_seq_result)
  moreover have "Suc (cx_seq d) \<le> U64_MAX" using Cons.prems(3) by (simp add: U64_MAX_def MAX_HOST_CALLS_def)
  moreover have "send_panel E ps ?d = (?d\<lparr>cx_seq := cx_seq ?d + length ps\<rparr>, Inr es') \<and> count_live E (cx_journal ?d) (cx_seq ?d) ps = Inr 0"
    using Cons.prems e by (intro Cons.IH) auto
  ultimately show ?case using e(1,2) by (simp add: Let_def)
qed

lemma frozen_frozen [simp]: "frozen (frozen e) = frozen e"
  by (cases e) auto

lemma count_live_fails: "count_live E j s ps = Inl err \<Longrightarrow> \<exists>t. err = Terminated t"
  by (induction E j s ps rule: count_live.induct) (auto split: sum.splits if_splits)

lemma send_panel_fails: "send_panel E ps c = (c1, Inl err) \<Longrightarrow> \<exists>t. err = Terminated t"
proof (induction ps arbitrary: c)
  case (Cons p ps)
  then show ?case
    by (auto simp: Let_def closed_error_def split: sum.splits option.splits prod.splits if_splits dest: next_seq_fails)
qed simp

lemma parallel_parts:
  assumes "parallel_call E ps c = (c1, r)" "goes_on r" "honest_host E" "length ps \<le> MAX_PARALLEL"
  obtains b m pending failed where "cx_journal b = cx_journal c" "cx_fs b = cx_fs c" "cx_seq b = cx_seq c" "send_panel E ps b = (m, Inr pending)"
    "pn_kind (panel_results pending) = None" "record_panel E (pn_resolved (panel_results pending)) m = (c1, failed)"
    "r = (case or_else (pn_error (panel_results pending)) failed of
       Some e \<Rightarrow> Inl e | None \<Rightarrow> Inr (map snd (pn_resolved (panel_results pending))))"
proof -
  obtain live where l: "count_live E (cx_journal c) (cx_seq c) ps = Inr live"
    using assms count_live_fails [of E "cx_journal c" "cx_seq c" ps]
    by (cases "count_live E (cx_journal c) (cx_seq c) ps") (fastforce simp: parallel_call_def)+
  obtain b e where b: "reserve_agent_calls E live c = (b, e)" by (cases "reserve_agent_calls E live c")
  have e: "e = None"
    using assms l b reserve_terminates [OF assms(3), of live c b] by (cases e) (auto simp: parallel_call_def)
  obtain m x where m: "send_panel E ps b = (m, x)" by (cases "send_panel E ps b")
  obtain pending where x: "x = Inr pending"
    using assms l b e m send_panel_fails [of E ps b m] by (cases x) (auto simp: parallel_call_def)
  let ?r = "panel_results pending"
  have fatal: "\<exists>t. (host_terminal_error k :: 'a script_error) = Terminated t" for k :: rstr
    by (auto simp: host_terminal_error_def budget_error_def dropped_error_def)
  have k: "pn_kind ?r = None"
  proof (rule ccontr)
    assume "pn_kind ?r \<noteq> None"
    then obtain k where "pn_kind ?r = Some k" by blast
    then have "r = Inl (host_terminal_error k)"
      using assms l b e m x by (auto simp: parallel_call_def Let_def split: prod.splits if_splits)
    moreover obtain t where "(host_terminal_error k :: 'a script_error) = Terminated t" using fatal [of k] by blast
    ultimately show False using assms(2) by simp
  qed
  have "\<not> pn_resumable ?r"
    using frozen_results [OF conjunct2 [OF conjunct2 [OF conjunct2 [OF send_panel_ok [OF m [unfolded x] assms(3)]]]] k] by blast
  with assms l b e m x k show thesis
    by (intro that [of b m pending "snd (record_panel E (pn_resolved ?r) m)"])
      (auto simp: parallel_call_def Let_def split: prod.splits)
qed

lemma record_panel_old: "record_panel E (map (\<lambda>x. (None, snd x)) xs) c = (c, None)"
  by (induction xs) auto

lemma parallel_replays:
  assumes "panel_ok E j s ps pending" "pn_kind (panel_results pending) = None" "length ps \<le> MAX_PARALLEL"
    "prefix (j_entries j) (entries_of d)" "we_hash E' = we_hash E"
    "\<forall>seq hash v. (Some (seq, hash), v) \<in> set (pn_resolved (panel_results pending)) \<longrightarrow>
       recorded (entries_of d) seq (lit ''spawn_agent'') hash v"
    "cx_seq d = s" "ps \<noteq> [] \<longrightarrow> s + length ps \<le> MAX_HOST_CALLS"
  shows "parallel_call E' ps d = (d\<lparr>cx_seq := s + length ps\<rparr>,
    case pn_error (panel_results pending) of Some e \<Rightarrow> Inl e | None \<Rightarrow> Inr (map snd (pn_resolved (panel_results pending))))"
proof -
  have ok: "panel_ok E' (cx_journal d) (cx_seq d) ps (map frozen pending)"
    using frozen_ok [OF assms(1,4,5,6)] assms(7) by simp
  have "\<forall>e\<in>set (map frozen pending). frozen e = e" by auto
  from replayed_panel [OF ok this] assms(7,8)
  have run: "send_panel E' ps d = (d\<lparr>cx_seq := s + length ps\<rparr>, Inr (map frozen pending))"
    "count_live E' (cx_journal d) s ps = Inr 0"
    by simp_all
  have small: "\<not> MAX_PARALLEL < length ps" using assms(3) by simp
  note fr = conjunct1 [OF frozen_results [OF assms(1,2)]]
  show ?thesis
    by (simp only: parallel_call_def small if_False run assms(7) sum.case reserve_agent_calls_def refl if_True prod.case option.case
        fr Let_def panel.simps record_panel_old) (simp add: or_else_def split: option.split)
qed

lemma parallel_resumes:
  fixes E' :: "('n, 'k) workflow_env"
  assumes "honest_host E" "we_hash E' = we_hash E"
  shows "resumes (parallel_call E ps) (parallel_call E' ps)"
proof (rule resumesI)
  fix c c1 r and d :: "('n, 'k) ctx"
  assume call: "parallel_call E ps c = (c1, r)" "goes_on r"
  let ?done = "prefix (entries_of c) (entries_of c1) \<and> cx_seq c \<le> cx_seq c1 \<and>
    (length (entries_of c) < cx_seq c \<longrightarrow> entries_of c1 = entries_of c) \<and>
    (cx_seq c1 \<le> length (entries_of c1) \<longrightarrow> prefix (entries_of c1) (entries_of d) \<longrightarrow> cx_seq d = cx_seq c \<longrightarrow>
      (\<exists>d1. parallel_call E' ps d = (d1, r) \<and> cx_journal d1 = cx_journal d \<and> cx_seq d1 = cx_seq c1))"
  have ?done
  proof (cases "length ps \<le> MAX_PARALLEL")
    case False
    then show ?thesis using call by (auto simp: parallel_call_def)
  next
    case True
    obtain b m pending failed where p: "cx_journal b = cx_journal c" "cx_seq b = cx_seq c" "send_panel E ps b = (m, Inr pending)"
      "pn_kind (panel_results pending) = None" "record_panel E (pn_resolved (panel_results pending)) m = (c1, failed)"
      "r = (case or_else (pn_error (panel_results pending)) failed of
         Some e \<Rightarrow> Inl e | None \<Rightarrow> Inr (map snd (pn_resolved (panel_results pending))))"
      using parallel_parts [OF call assms(1) True] .
    have m: "cx_journal m = cx_journal c" "cx_seq m = cx_seq c + length ps" "ps \<noteq> [] \<longrightarrow> cx_seq m \<le> MAX_HOST_CALLS"
      "panel_ok E (cx_journal c) (cx_seq c) ps pending"
      using send_panel_ok [OF p(3) assms(1)] p(1,2) by auto
    note seqs = panel_live_seqs [OF m(4)]
    note rec = record_panel_spec [OF p(5) conjunct1 [OF seqs]]
    have rec: "cx_seq c1 = cx_seq m" "prefix (entries_of c) (entries_of c1)"
      "if failed = None then \<forall>seq hash v. (Some (seq, hash), v) \<in> set (pn_resolved (panel_results pending)) \<longrightarrow>
          recorded (entries_of c1) seq (lit ''spawn_agent'') hash v
       else (\<exists>q\<in>set (live_seqs (pn_resolved (panel_results pending))). length (entries_of c1) \<le> q) \<and> (\<exists>e. failed = Some (Terminated (FatalJournal e)))"
      using rec m(1) seqs by auto
    have gap: "entries_of c1 = entries_of c" if "length (entries_of c) < cx_seq c"
      using record_panel_gap [OF p(5)] m(1) seqs that by fastforce
    have again: "\<exists>d1. parallel_call E' ps d = (d1, r) \<and> cx_journal d1 = cx_journal d \<and> cx_seq d1 = cx_seq c1"
      if d: "cx_seq c1 \<le> length (entries_of c1)" "prefix (entries_of c1) (entries_of d)" "cx_seq d = cx_seq c"
    proof -
      have "failed = None" using panel_complete [OF _ p(5) m(2) d(1)] m(1,4) by simp
      moreover have "\<forall>seq hash v. (Some (seq, hash), v) \<in> set (pn_resolved (panel_results pending)) \<longrightarrow>
          recorded (entries_of d) seq (lit ''spawn_agent'') hash v"
        using rec(3) \<open>failed = None\<close> recorded_extends [OF _ d(2)] by (simp del: split_paired_All)
      ultimately show ?thesis
        using parallel_replays [OF m(4) p(4) True prefix_order.trans [OF rec(2) d(2)] assms(2) _ d(3)] m(2,3) rec(1) p(6)
        by (simp add: or_else_def split: option.splits)
    qed
    show ?thesis using rec gap again m(2) by auto
  qed
  then show "prefix (entries_of c) (entries_of c1)" "cx_seq c \<le> cx_seq c1"
    "length (entries_of c) < cx_seq c \<Longrightarrow> entries_of c1 = entries_of c"
    "cx_seq c1 \<le> length (entries_of c1) \<Longrightarrow> prefix (entries_of c1) (entries_of d) \<Longrightarrow> cx_seq d = cx_seq c \<Longrightarrow>
      \<exists>d1. parallel_call E' ps d = (d1, r) \<and> cx_journal d1 = cx_journal d \<and> cx_seq d1 = cx_seq c1"
    by blast+
qed

section \<open>The other actions\<close>

lemma goes_on_map [simp]: "goes_on (map_sum id f r) = goes_on r"
  by (cases r; cases "projl r") auto

lemma resumes_map:
  assumes "resumes F G"
  shows "resumes (\<lambda>c. apsnd (map_sum id f) (F c)) (\<lambda>d. apsnd (map_sum id f) (G d))"
proof -
  have "prefix (entries_of c) (entries_of c1) \<and> cx_seq c \<le> cx_seq c1 \<and> (length (entries_of c) < cx_seq c \<longrightarrow> entries_of c1 = entries_of c) \<and>
      (\<forall>d. cx_seq c1 \<le> length (entries_of c1) \<and> prefix (entries_of c1) (entries_of d) \<and> cx_seq d = cx_seq c \<longrightarrow>
        (\<exists>d1. apsnd (map_sum id f) (G d) = (d1, r) \<and> cx_journal d1 = cx_journal d \<and> cx_seq d1 = cx_seq c1))"
    if run: "apsnd (map_sum id f) (F c) = (c1, r)" "goes_on r" for c c1 r
  proof -
    obtain q where "F c = (c1, q)" "r = map_sum id f q" using run(1) by (cases "F c") auto
    with assms run(2) show ?thesis unfolding resumes_def by (fastforce simp: apsnd_def)
  qed
  then show ?thesis unfolding resumes_def by blast
qed

lemma resumes_cong:
  assumes "resumes F G" "\<And>c. F' c = F c" "\<And>d. G' d = G d"
  shows "resumes F' G'"
proof -
  have "F' = F" "G' = G" using assms(2,3) by auto
  with assms(1) show ?thesis by simp
qed

lemma one_result_map: "one_result x = apsnd (map_sum id Got) x"
  by (cases x; cases "snd x") auto

lemma resumes_emit:
  assumes "\<And>c. cx_journal (F c) = cx_journal c \<and> cx_seq (F c) = cx_seq c" "\<And>d. cx_journal (G d) = cx_journal d \<and> cx_seq (G d) = cx_seq d"
  shows "resumes (\<lambda>c. (F c, r)) (\<lambda>d. (G d, r))"
  unfolding resumes_def using assms by auto

lemma host_emit_frame [simp]: "cx_journal (host_emit E build c) = cx_journal c" "cx_seq (host_emit E build c) = cx_seq c"
  by (simp_all add: host_emit_def)

text \<open>A wait for the user goes on only when it is replayed, or when its kind is not one.\<close>

lemma await_user_goes_on:
  assumes "await_user E kind message c = (c1, r)" "r = None \<or> (\<exists>m. r = Some (RuntimeError m))"
  obtains e where "pause_kind_from_str kind = Inl e" "c1 = c" "r = Some (RuntimeError e)"
  | k v where "pause_kind_from_str kind = Inr k" "Suc (cx_seq c) \<le> MAX_HOST_CALLS" "c1 = c\<lparr>cx_seq := Suc (cx_seq c)\<rparr>" "r = None"
      "replay (cx_journal c) (cx_seq c) (lit ''await_user'')
        (request_hash (we_hash E) (lit ''await_user'') (JObject [(lit ''kind'', JString kind), (lit ''message'', JString message)])) = Inr (Some v)"
proof (cases "pause_kind_from_str kind")
  case (Inl e)
  with assms that(1) show thesis by (auto simp: await_user_def)
next
  case (Inr k)
  let ?h = "request_hash (we_hash E) (lit ''await_user'') (JObject [(lit ''kind'', JString kind), (lit ''message'', JString message)])"
  obtain m where m: "next_seq c = Inr (cx_seq c, m)" "m = c\<lparr>cx_seq := Suc (cx_seq c)\<rparr>" "Suc (cx_seq c) \<le> MAX_HOST_CALLS"
    using assms Inr next_seq_fails [of c] by (cases "next_seq c") (auto simp: next_seq_result await_user_def Let_def)
  obtain v where "replay (cx_journal c) (cx_seq c) (lit ''await_user'') ?h = Inr (Some v)"
    using assms Inr m
    by (cases "replay (cx_journal c) (cx_seq c) (lit ''await_user'') ?h"; cases "ctx_record E (cx_seq c) (lit ''await_user'') ?h JNull m")
      (auto simp: await_user_def Let_def split: option.splits dest: ctx_record_failure)
  with assms Inr m show thesis by (intro that(2)) (auto simp: await_user_def Let_def)
qed

lemma await_user_resumes:
  fixes E' :: "('n, 'k) workflow_env"
  assumes "we_hash E' = we_hash E"
  shows "resumes (exec_action E (DoAwait kind message)) (exec_action E' (DoAwait kind message))"
proof (rule resumesI)
  fix c c1 r and d :: "('n, 'k) ctx"
  assume call: "exec_action E (DoAwait kind message) c = (c1, r)" "goes_on r"
  obtain q where q: "await_user E kind message c = (c1, q)" "r = (case q of Some err \<Rightarrow> Inl err | None \<Rightarrow> Inr Continued)"
    using call(1) by (auto split: prod.splits option.splits)
  have on: "q = None \<or> (\<exists>m. q = Some (RuntimeError m))"
    using q(2) call(2) by (cases q; cases "the q") auto
  have "cx_journal c1 = cx_journal c \<and> cx_seq c \<le> cx_seq c1"
    by (rule await_user_goes_on [OF q(1) on]) simp_all
  then show "prefix (entries_of c) (entries_of c1)" "cx_seq c \<le> cx_seq c1" "length (entries_of c) < cx_seq c \<Longrightarrow> entries_of c1 = entries_of c"
    by simp_all
  assume d: "cx_seq c1 \<le> length (entries_of c1)" "prefix (entries_of c1) (entries_of d)" "cx_seq d = cx_seq c"
  show "\<exists>d1. exec_action E' (DoAwait kind message) d = (d1, r) \<and> cx_journal d1 = cx_journal d \<and> cx_seq d1 = cx_seq c1"
  proof (rule await_user_goes_on [OF q(1) on])
    fix e assume "pause_kind_from_str kind = Inl e" "c1 = c" "q = Some (RuntimeError e)"
    then show ?thesis using q(2) d(3) by (simp add: await_user_def)
  next
    let ?h = "request_hash (we_hash E) (lit ''await_user'') (JObject [(lit ''kind'', JString kind), (lit ''message'', JString message)])"
    fix k v
    assume k: "pause_kind_from_str kind = Inr k" "Suc (cx_seq c) \<le> MAX_HOST_CALLS" "c1 = c\<lparr>cx_seq := Suc (cx_seq c)\<rparr>" "q = None"
      "replay (cx_journal c) (cx_seq c) (lit ''await_user'') ?h = Inr (Some v)"
    have "next_seq d = Inr (cx_seq d, d\<lparr>cx_seq := Suc (cx_seq d)\<rparr>)" using k(2) d(3) by (simp add: next_seq_result)
    moreover have "replay (cx_journal d) (cx_seq d) (lit ''await_user'') ?h = Inr (Some v)"
      using replay_extends [of "cx_journal c" "cx_journal d" "cx_seq c"] k(3,5) d by simp
    ultimately show ?thesis using k q(2) d(3) assms by (simp add: await_user_def Let_def)
  qed
qed

lemma exec_action_resumes:
  fixes E' :: "('n, 'k) workflow_env"
  assumes "honest_host E" "we_hash E' = we_hash E"
  shows "resumes (exec_action E act) (exec_action E' act)"
proof -
  have call: "resumes (exec_action E act) (exec_action E' act)"
    if "\<And>c. exec_action E act c = one_result (host_call E kind payload req c)" "\<And>d. exec_action E' act d = one_result (host_call E' kind payload req d)"
    for act kind payload req
    using resumes_map [OF host_call_resumes [OF assms], of Got] by (rule resumes_cong) (simp_all add: that one_result_map)
  have emit: "resumes (exec_action E act) (exec_action E' act)"
    if "\<And>c. exec_action E act c = (F c, r)" "\<And>d. exec_action E' act d = (G d, r)"
      "\<And>c. cx_journal (F c) = cx_journal c \<and> cx_seq (F c) = cx_seq c" "\<And>d. cx_journal (G d) = cx_journal d \<and> cx_seq (G d) = cx_seq d"
    for act F and G :: "('n, 'k) ctx \<Rightarrow> ('n, 'k) ctx" and r
    using resumes_emit [OF that(3,4)] by (rule resumes_cong) (rule that)+
  show ?thesis
  proof (cases act)
    case (DoAgent payload)
    show ?thesis
      by (rule resumes_cong [OF resumes_map [OF spawn_agent_resumes [OF assms, of payload], of Got]]) (simp_all add: DoAgent one_result_map)
  next
    case (DoParallel ps)
    have all: "(case x of (c, Inl err) \<Rightarrow> (c, Inl err) | (c, Inr vs) \<Rightarrow> (c, Inr (GotAll vs))) = apsnd (map_sum id GotAll) x"
      for x :: "('n, 'x) ctx \<times> ('n script_error + 'n json list)"
      by (cases x; cases "snd x") auto
    show ?thesis
      by (rule resumes_cong [OF resumes_map [OF parallel_resumes [OF assms, of ps], of GotAll]]) (simp_all add: DoParallel all)
  next
    case (DoAwait kind message)
    then show ?thesis using await_user_resumes [OF assms(2)] by simp
  qed (hypsubst, rule call emit, (simp; fail)+)+
qed

section \<open>Runs\<close>

lemma run_steps_resumes:
  fixes E' :: "('n, 'k) workflow_env"
  assumes "honest_host E" "we_hash E' = we_hash E" "run_steps E script n c results = Inr (c', results')"
  shows "prefix (entries_of c) (entries_of c') \<and> cx_seq c \<le> cx_seq c' \<and> (length (entries_of c) < cx_seq c \<longrightarrow> entries_of c' = entries_of c) \<and>
    (\<forall>d. cx_seq c' \<le> length (entries_of c') \<and> prefix (entries_of c') (entries_of d) \<and> cx_seq d = cx_seq c \<longrightarrow>
      (\<exists>d'. run_steps E' script n d results = Inr (d', results') \<and> cx_journal d' = cx_journal d \<and> cx_seq d' = cx_seq c'))"
  using assms(3)
proof (induction n arbitrary: c results)
  case 0
  then show ?case by auto
next
  case (Suc n)
  define more where "more r = results @ [case r of Inr x \<Rightarrow> x | Inl (RuntimeError m) \<Rightarrow> Caught m]" for r :: "'n script_error + 'n step_result"
  have next_step: "run_steps F script (Suc n) e results = run_steps F script n e1 (more r)"
    if "exec_action F (script results) e = (e1, r)" "goes_on r" for F :: "('n, 'x) workflow_env" and e e1 r
    using that by (cases r; cases "projl r") (auto simp: more_def)
  obtain c1 r where c1: "exec_action E (script results) c = (c1, r)" by (cases "exec_action E (script results) c")
  have on: "goes_on r" using Suc.prems c1 by (cases r; cases "projl r") auto
  have ex: "prefix (entries_of c) (entries_of c1)" "cx_seq c \<le> cx_seq c1" "length (entries_of c) < cx_seq c \<longrightarrow> entries_of c1 = entries_of c"
    "\<And>d :: ('n, 'k) ctx. cx_seq c1 \<le> length (entries_of c1) \<Longrightarrow> prefix (entries_of c1) (entries_of d) \<Longrightarrow> cx_seq d = cx_seq c \<Longrightarrow>
      \<exists>d1. exec_action E' (script results) d = (d1, r) \<and> cx_journal d1 = cx_journal d \<and> cx_seq d1 = cx_seq c1"
    using exec_action_resumes [OF assms(1,2), of "script results"] c1 on unfolding resumes_def by blast+
  note run = Suc.IH [OF Suc.prems [unfolded next_step [OF c1 on]]]
  show ?case
  proof (intro conjI allI impI)
    show "prefix (entries_of c) (entries_of c')" using ex(1) run prefix_order.trans by blast
    show "cx_seq c \<le> cx_seq c'" using ex(2) run by simp
    show "entries_of c' = entries_of c" if "length (entries_of c) < cx_seq c" using ex(2,3) run that by simp
    fix d :: "('n, 'k) ctx"
    assume d: "cx_seq c' \<le> length (entries_of c') \<and> prefix (entries_of c') (entries_of d) \<and> cx_seq d = cx_seq c"
    have "cx_seq c1 \<le> length (entries_of c1)" using run d by (metis le_trans not_le)
    moreover have "prefix (entries_of c1) (entries_of d)" using run d prefix_order.trans by blast
    ultimately obtain d1 where d1: "exec_action E' (script results) d = (d1, r)" "cx_journal d1 = cx_journal d" "cx_seq d1 = cx_seq c1"
      using ex(4) d by blast
    then show "\<exists>d'. run_steps E' script (Suc n) d results = Inr (d', results') \<and> cx_journal d' = cx_journal d \<and> cx_seq d' = cx_seq c'"
      unfolding next_step [OF d1(1) on] using run [THEN conjunct2, THEN conjunct2, THEN conjunct2, rule_format, of d1] d by simp
  qed
qed

section \<open>The journal on the disk\<close>

abbreviation file_in_sync :: "('n, 'h) workflow_env \<Rightarrow> rstr \<Rightarrow> ('n, 'h) ctx \<Rightarrow> bool" where
  "file_in_sync E path c \<equiv> in_sync (we_codec E) path (cx_fs c) (cx_journal c)"

abbreviation good_entries :: "('n, 'h) workflow_env \<Rightarrow> ('n, 'h) ctx \<Rightarrow> bool" where
  "good_entries E c \<equiv> list_all (good_entry (we_codec E)) (entries_of c)"

definition keeps_file :: "('n, 'h) workflow_env \<Rightarrow> rstr \<Rightarrow> (('n, 'h) ctx \<Rightarrow> ('n, 'h) ctx \<times> ('n script_error + 'a)) \<Rightarrow> bool" where
  "keeps_file E path F \<longleftrightarrow>
     (\<forall>c c1 r. F c = (c1, r) \<and> goes_on r \<and> cx_seq c1 \<le> length (entries_of c1) \<and> good_entries E c1 \<and> file_in_sync E path c \<longrightarrow> file_in_sync E path c1)"

lemma good_prefix: "prefix xs ys \<Longrightarrow> list_all P ys \<Longrightarrow> list_all P xs"
  by (auto simp: prefix_def)

lemma ctx_record_in_sync:
  assumes "ctx_record E seq kind hash v c = (c', None)" "seq < MAX_HOST_CALLS" "file_in_sync E path c" "good_entries E c'"
  shows "file_in_sync E path c'"
proof -
  obtain fs j where "journal_record (we_codec E) (we_fault E seq) (we_now E seq) seq kind hash v (cx_fs c) (cx_journal c) = (fs, Inr j)"
    "c' = c\<lparr>cx_fs := fs, cx_journal := j\<rparr>"
    using assms(1) by (auto simp: ctx_record_def split: prod.splits sum.splits)
  with assms show ?thesis using record_in_sync [of "we_codec E" path "cx_fs c" "cx_journal c"] by (simp add: MAX_JOURNAL_ENTRIES_def)
qed

lemma host_call_keeps_file:
  assumes "honest_host E"
  shows "keeps_file E path (host_call E kind payload req)"
  unfolding keeps_file_def
proof (intro allI impI, elim conjE)
  fix c c1 r
  assume run: "host_call E kind payload req c = (c1, r)" "goes_on r" and good: "good_entries E c1" and sync: "file_in_sync E path c"
  from run assms show "file_in_sync E path c1"
  proof (cases rule: host_call_cases)
    case (new v)
    with ctx_record_in_sync [OF new(1), of path] good sync show ?thesis by simp
  qed (use sync in simp_all)
qed

lemma spawn_agent_keeps_file:
  assumes "honest_host E"
  shows "keeps_file E path (spawn_agent_call E payload)"
  unfolding keeps_file_def
proof (intro allI impI, elim conjE)
  fix c c1 r
  assume run: "spawn_agent_call E payload c = (c1, r)" "goes_on r" and no_gap: "cx_seq c1 \<le> length (entries_of c1)"
    and good: "good_entries E c1" and sync: "file_in_sync E path c"
  obtain b where "host_call E (lit ''spawn_agent'') payload (SpawnAgent payload) b = (c1, r)" "cx_journal b = cx_journal c" "cx_fs b = cx_fs c"
    using spawn_agent_parts [OF run assms] by blast
  moreover from this(2,3) have "file_in_sync E path b" using sync by simp
  ultimately show "file_in_sync E path c1"
    using host_call_keeps_file [OF assms, of path "lit ''spawn_agent''" payload "SpawnAgent payload"] run(2) no_gap good
    unfolding keeps_file_def by blast
qed

lemma record_panel_in_sync:
  assumes "record_panel E rs c = (c1, None)" "\<forall>q\<in>set (live_seqs rs). q < MAX_HOST_CALLS"
  shows "prefix (entries_of c) (entries_of c1) \<and> (file_in_sync E path c \<and> good_entries E c1 \<longrightarrow> file_in_sync E path c1)"
  using assms
proof (induction E rs c rule: record_panel.induct)
  case (3 E seq hash v rest c)
  obtain d where d: "ctx_record E seq (lit ''spawn_agent'') hash v c = (d, None)" "record_panel E rest d = (c1, None)"
    using 3(2) by (auto split: prod.splits option.splits)
  have rest: "prefix (entries_of d) (entries_of c1)" "file_in_sync E path d \<and> good_entries E c1 \<longrightarrow> file_in_sync E path c1"
    using 3(1) [OF d(1) [symmetric] refl d(2)] 3(3) by simp_all
  have "file_in_sync E path d" if "file_in_sync E path c" "good_entries E c1"
    using ctx_record_in_sync [OF d(1) _ that(1) good_prefix [OF rest(1) that(2)]] 3(3) by simp
  with rest prefix_order.trans [OF ctx_record_success(2) [OF d(1)] rest(1)] show ?case by blast
qed auto

lemma parallel_keeps_file:
  assumes "honest_host E"
  shows "keeps_file E path (parallel_call E ps)"
  unfolding keeps_file_def
proof (intro allI impI, elim conjE)
  fix c c1 r
  assume run: "parallel_call E ps c = (c1, r)" "goes_on r" and no_gap: "cx_seq c1 \<le> length (entries_of c1)"
    and good: "good_entries E c1" and sync: "file_in_sync E path c"
  show "file_in_sync E path c1"
  proof (cases "length ps \<le> MAX_PARALLEL")
    case False
    then show ?thesis using run sync by (auto simp: parallel_call_def)
  next
    case True
    obtain b m pending failed where p: "cx_journal b = cx_journal c" "cx_fs b = cx_fs c" "cx_seq b = cx_seq c" "send_panel E ps b = (m, Inr pending)"
      "record_panel E (pn_resolved (panel_results pending)) m = (c1, failed)"
      using parallel_parts [OF run assms True] by metis
    note m = send_panel_ok [OF p(4) assms]
    have "failed = None" using panel_complete [OF _ p(5) _ no_gap, of "cx_seq b" ps] m by simp
    moreover have "\<forall>q\<in>set (live_seqs (pn_resolved (panel_results pending))). q < MAX_HOST_CALLS"
      using panel_live_seqs [of E "cx_journal b" "cx_seq b" ps pending] m by (cases ps) fastforce+
    ultimately show ?thesis
      using record_panel_in_sync [of E "pn_resolved (panel_results pending)" m c1 path] p m good sync send_panel_fs [OF p(4)] by simp
  qed
qed

lemma keeps_file_map:
  assumes "keeps_file E path F"
  shows "keeps_file E path (\<lambda>c. apsnd (map_sum id f) (F c))"
  unfolding keeps_file_def
proof (intro allI impI, elim conjE)
  fix c c1 r
  assume "apsnd (map_sum id f) (F c) = (c1, r)" "goes_on r" "cx_seq c1 \<le> length (entries_of c1)" "good_entries E c1" "file_in_sync E path c"
  moreover from this(1) obtain q where "F c = (c1, q)" "r = map_sum id f q" by (cases "F c") auto
  ultimately show "file_in_sync E path c1" using assms unfolding keeps_file_def by auto
qed

lemma keeps_file_cong: "keeps_file E path F \<Longrightarrow> (\<And>c. F' c = F c) \<Longrightarrow> keeps_file E path F'"
  by (simp add: keeps_file_def)

lemma host_emit_fs [simp]: "cx_fs (host_emit E build c) = cx_fs c"
  by (simp add: host_emit_def)

lemma await_user_keeps_file: "keeps_file E path (exec_action E (DoAwait kind message))"
  unfolding keeps_file_def
proof (intro allI impI, elim conjE)
  fix c c1 r
  assume call: "exec_action E (DoAwait kind message) c = (c1, r)" "goes_on r" and sync: "file_in_sync E path c"
  obtain q where q: "await_user E kind message c = (c1, q)" "r = (case q of Some err \<Rightarrow> Inl err | None \<Rightarrow> Inr Continued)"
    using call(1) by (auto split: prod.splits option.splits)
  then have on: "q = None \<or> (\<exists>m. q = Some (RuntimeError m))"
    using call(2) by (cases q; cases "the q") auto
  show "file_in_sync E path c1" by (rule await_user_goes_on [OF q(1) on]) (simp_all add: sync)
qed

lemma exec_action_keeps_file:
  assumes "honest_host E"
  shows "keeps_file E path (exec_action E act)"
proof -
  have call: "keeps_file E path (exec_action E act)" if "\<And>c. exec_action E act c = one_result (host_call E kind payload req c)"
    for act kind payload req
    using keeps_file_map [OF host_call_keeps_file [OF assms], of path Got] by (rule keeps_file_cong) (simp add: that one_result_map)
  have emit: "keeps_file E path (exec_action E act)"
    if "\<And>c. exec_action E act c = (F c, r)" "\<And>c. cx_journal (F c) = cx_journal c \<and> cx_fs (F c) = cx_fs c" for act F r
    unfolding keeps_file_def using that by auto
  show ?thesis
  proof (cases act)
    case (DoAgent payload)
    show ?thesis
      by (rule keeps_file_cong [OF keeps_file_map [OF spawn_agent_keeps_file [OF assms], of path Got]]) (simp add: DoAgent one_result_map)
  next
    case (DoParallel ps)
    have "(case x of (c, Inl err) \<Rightarrow> (c, Inl err) | (c, Inr vs) \<Rightarrow> (c, Inr (GotAll vs))) = apsnd (map_sum id GotAll) x"
      for x :: "('a, 'b) ctx \<times> ('a script_error + 'a json list)"
      by (cases x; cases "snd x") auto
    then show ?thesis
      by (intro keeps_file_cong [OF keeps_file_map [OF parallel_keeps_file [OF assms], of path GotAll]]) (simp add: DoParallel)
  next
    case (DoAwait kind message)
    then show ?thesis using await_user_keeps_file by simp
  qed (hypsubst, rule call emit, (simp; fail)+)+
qed

lemma run_steps_keeps_file:
  assumes "honest_host E" "run_steps E script n c results = Inr (c', results')" "cx_seq c' \<le> length (entries_of c')" "good_entries E c'"
    "file_in_sync E path c"
  shows "file_in_sync E path c'"
  using assms(2,5)
proof (induction n arbitrary: c results)
  case (Suc n)
  obtain c1 r where c1: "exec_action E (script results) c = (c1, r)" by (cases "exec_action E (script results) c")
  have on: "goes_on r" using Suc.prems(1) c1 by (cases r; cases "projl r") auto
  obtain more where next_step: "run_steps E script n c1 more = Inr (c', results')"
    using Suc.prems(1) c1 by (auto split: sum.splits script_error.splits)
  note run = run_steps_resumes [OF assms(1) refl next_step]
  have "cx_seq c1 \<le> length (entries_of c1)" using run assms(3) by (metis le_trans not_le)
  moreover have "good_entries E c1" using run assms(4) good_prefix by blast
  ultimately have "file_in_sync E path c1"
    using exec_action_keeps_file [OF assms(1), of path "script results"] c1 on Suc.prems(2) unfolding keeps_file_def by blast
  then show ?case using Suc.IH [OF next_step] by simp
qed simp

section \<open>Resuming\<close>

lemma run_resumes:
  assumes "run_steps E script n (run_start j fs h) [] = Inr (c, results)" "honest_host E" "we_hash E' = we_hash E"
    "cx_seq c \<le> length (entries_of c)" "prefix (entries_of c) (j_entries j')"
  shows "\<exists>d. run_steps E' script n (run_start j' fs' h') [] = Inr (d, results) \<and> cx_journal d = j' \<and> cx_seq d = cx_seq c"
proof -
  have "cx_seq (run_start j' fs' h') = cx_seq (run_start j fs h)" "prefix (entries_of c) (entries_of (run_start j' fs' h'))"
    using assms(5) by (simp_all add: run_start_def)
  then show ?thesis
    using run_steps_resumes [OF assms(2,3,1)] assms(4) by (fastforce simp: run_start_def)
qed

lemma crashed_run_resumes_strictly:
  assumes "run_steps E script n (run_start j fs h) [] = Inr (c, results)" "honest_host E" "in_sync (we_codec E) path fs j"
    "cx_seq c \<le> length (entries_of c)" "list_all (good_entry (we_codec E)) (entries_of c)"
    "journal_record (we_codec E) fault now seq kind hash v (cx_fs c) (cx_journal c) = (fs', r)"
    "good_entry (we_codec E) \<lparr>je_seq = seq, je_kind = kind, je_hash = hash, je_result = v, je_at_ms = now\<rparr>"
    "length (entries_of c) < MAX_JOURNAL_ENTRIES" "we_hash E' = we_hash E"
  shows "\<exists>fs'' j' d. journal_load (we_codec E) NoFault path fs' = (fs'', Inr j') \<and>
    run_steps E' script n (run_start j' fs'' h') [] = Inr (d, results) \<and> cx_journal d = j' \<and> cx_seq d = cx_seq c"
proof -
  have "in_sync (we_codec E) path (cx_fs c) (cx_journal c)"
    using run_steps_keeps_file [OF assms(2,1,4,5)] assms(3) by (simp add: run_start_def)
  from record_survives [OF this assms(6) refl assms(7,8)] obtain fs'' j' where
    l: "journal_load (we_codec E) NoFault path fs' = (fs'', Inr j')" "prefix (entries_of c) (j_entries j')"
    by (cases r) auto
  with run_resumes [OF assms(1,2,9,4) l(2)] show ?thesis by blast
qed

subsection \<open>Reservations that fail\<close>

text \<open>
  The host may fail to store the reservation of agent calls; the error can be caught by the script and is not recorded.  An action meets
  such a failure, or it does not; a run is considered up to the first one.
\<close>

fun caught_error :: "'n script_error option \<Rightarrow> bool" where
  "caught_error (Some (RuntimeError _)) = True"
| "caught_error _ = False"

definition reservation_fails :: "('n, 'h) workflow_env \<Rightarrow> 'n action \<Rightarrow> ('n, 'h) ctx \<Rightarrow> bool" where
  "reservation_fails E act c =
     (case act of
        DoAgent payload \<Rightarrow>
          replay_for E (lit ''spawn_agent'') payload (cx_seq c) (cx_journal c) = Inr None \<and> caught_error (snd (reserve_agent_calls E 1 c))
      | DoParallel payloads \<Rightarrow>
          length payloads \<le> MAX_PARALLEL \<and>
          (case count_live E (cx_journal c) (cx_seq c) payloads of Inl _ \<Rightarrow> False | Inr live \<Rightarrow> caught_error (snd (reserve_agent_calls E live c)))
      | _ \<Rightarrow> False)"

fun reservations_held :: "('n, 'h) workflow_env \<Rightarrow> 'n workflow_script \<Rightarrow> nat \<Rightarrow> ('n, 'h) ctx \<Rightarrow> 'n step_result list \<Rightarrow> bool" where
  "reservations_held E script 0 c results \<longleftrightarrow> True"
| "reservations_held E script (Suc n) c results \<longleftrightarrow>
     \<not> reservation_fails E (script results) c \<and>
     (case exec_action E (script results) c of
        (c, Inr r) \<Rightarrow> reservations_held E script n c (results @ [r])
      | (c, Inl (RuntimeError m)) \<Rightarrow> reservations_held E script n c (results @ [Caught m])
      | _ \<Rightarrow> True)"

definition plain_host :: "('n, 'h) workflow_env \<Rightarrow> bool" where
  "plain_host E \<longleftrightarrow> (\<forall>req h. plain_reply (fst (we_host E req h)))"

text \<open>The host that closes the channel instead; on a run without such failures it cannot be told apart.\<close>

definition strict_host :: "('n, 'h) workflow_env \<Rightarrow> ('n, 'h) workflow_env" where
  "strict_host E = E\<lparr>we_host := (\<lambda>req h.
     let (reply, h') = we_host E req h
     in ((case req of ReserveAgentCalls _ \<Rightarrow> if soft_failure reply then ChannelClosed else reply | _ \<Rightarrow> reply), h'))\<rparr>"

lemma strict_fields [simp]:
  "we_codec (strict_host E) = we_codec E" "we_hash (strict_host E) = we_hash E" "we_fault (strict_host E) = we_fault E" "we_now (strict_host E) = we_now E"
  by (simp_all add: strict_host_def)

lemma strict_honest: "plain_host E \<Longrightarrow> honest_host (strict_host E)"
  by (auto simp: honest_host_def plain_host_def strict_host_def Let_def split: prod.split host_request.split) (metis fst_conv)+

fun reserves :: "'n host_request \<Rightarrow> bool" where
  "reserves (ReserveAgentCalls _) = True"
| "reserves _ = False"

lemma strict_send: "\<not> reserves req \<Longrightarrow> send_request (strict_host E) req = send_request E req"
  by (cases req) (simp_all add: fun_eq_iff send_request_def strict_host_def split: prod.split)

lemma strict_record: "ctx_record (strict_host E) = ctx_record E" "replay_for (strict_host E) = replay_for E"
  by (simp_all add: fun_eq_iff ctx_record_def replay_for_def Let_def)

lemma strict_call: "\<not> reserves req \<Longrightarrow> host_call (strict_host E) kind payload req = host_call E kind payload req"
  by (rule ext) (unfold host_call_def strict_record strict_fields strict_send, rule refl)

lemma strict_release: "release_agent_calls (strict_host E) = release_agent_calls E"
  by (simp add: fun_eq_iff release_agent_calls_def strict_send)

lemma strict_count: "count_live (strict_host E) j seq ps = count_live E j seq ps"
  by (induction ps arbitrary: seq) (simp_all add: strict_record split: sum.split)

lemma strict_panel: "send_panel (strict_host E) ps = send_panel E ps"
proof (induction ps)
  case (Cons p ps)
  have send: "send_request (strict_host E) (SpawnAgent p) = send_request E (SpawnAgent p)" by (simp add: strict_send)
  show ?case by (rule ext) (unfold send_panel.simps Cons.IH strict_record strict_fields send, rule refl)
qed (simp add: fun_eq_iff)

lemma strict_record_panel: "record_panel (strict_host E) rs = record_panel E rs"
proof (induction rs)
  case (Cons r rs)
  show ?case
  proof (rule ext, cases r)
    fix c call v
    assume "r = (call, v)"
    then show "record_panel (strict_host E) (r # rs) c = record_panel E (r # rs) c"
      by (cases call) (auto simp: Cons.IH strict_record split: prod.split option.split)
  qed
qed (simp add: fun_eq_iff)

lemma soft_failure_caught:
  assumes "n \<noteq> 0" "soft_failure (fst (we_host E (ReserveAgentCalls n) (cx_host c)))"
  shows "caught_error (snd (reserve_agent_calls E n c))"
proof -
  obtain reply h where r: "we_host E (ReserveAgentCalls n) (cx_host c) = (reply, h)" by fastforce
  from assms(2) have "\<exists>msg. reply = HostReply (Inl (HostUnsupported msg)) \<or> reply = HostReply (Inl (HostFailed msg))"
    unfolding r by (auto elim: soft_failure.elims)
  then show ?thesis using assms(1) by (auto simp: reserve_agent_calls_def send_request_def r)
qed

lemma strict_reserve:
  assumes "\<not> caught_error (snd (reserve_agent_calls E n c))"
  shows "reserve_agent_calls (strict_host E) n c = reserve_agent_calls E n c"
proof (cases "n = 0")
  case False
  obtain reply h where r: "we_host E (ReserveAgentCalls n) (cx_host c) = (reply, h)" by fastforce
  then have "\<not> soft_failure reply" using soft_failure_caught [OF False, of E c] assms by auto
  then have "send_request (strict_host E) (ReserveAgentCalls n) c = send_request E (ReserveAgentCalls n) c"
    using r by (simp add: send_request_def strict_host_def)
  then show ?thesis by (simp add: reserve_agent_calls_def)
qed (simp add: reserve_agent_calls_def)

lemma strict_spawn:
  assumes "\<not> reservation_fails E (DoAgent payload) c"
  shows "spawn_agent_call (strict_host E) payload c = spawn_agent_call E payload c"
proof -
  have call: "host_call (strict_host E) (lit ''spawn_agent'') payload (SpawnAgent payload) = host_call E (lit ''spawn_agent'') payload (SpawnAgent payload)"
    by (simp add: strict_call)
  have "reserve_agent_calls (strict_host E) 1 c = reserve_agent_calls E 1 c"
    if "replay_for E (lit ''spawn_agent'') payload (cx_seq c) (cx_journal c) = Inr None"
    using assms strict_reserve [of E 1 c] that by (simp add: reservation_fails_def)
  then show ?thesis
    unfolding spawn_agent_call_def strict_record strict_release call Let_def by (simp split: sum.split option.split)
qed

lemma strict_parallel:
  assumes "\<not> reservation_fails E (DoParallel ps) c"
  shows "parallel_call (strict_host E) ps c = parallel_call E ps c"
proof (cases "count_live E (cx_journal c) (cx_seq c) ps")
  case (Inr live)
  show ?thesis
  proof (cases "length ps > MAX_PARALLEL")
    case False
    then have "reserve_agent_calls (strict_host E) live c = reserve_agent_calls E live c"
      using assms Inr strict_reserve [of E live c] by (simp add: reservation_fails_def)
    then show ?thesis unfolding parallel_call_def strict_count strict_panel strict_record_panel strict_release Inr by simp
  qed (simp add: parallel_call_def)
qed (simp add: parallel_call_def strict_count)

lemma strict_await: "await_user (strict_host E) kind message = await_user E kind message"
  by (rule ext) (unfold await_user_def strict_record strict_fields, rule refl)

lemma strict_exec:
  assumes "\<not> reservation_fails E act c"
  shows "exec_action (strict_host E) act c = exec_action E act c"
proof (cases act)
  case (DoAgent payload)
  then show ?thesis using assms strict_spawn [of E payload c] by simp
next
  case (DoParallel ps)
  then show ?thesis using assms strict_parallel [of E ps c] by simp
qed (simp_all add: host_emit_def strict_await strict_send strict_call)

lemma strict_run: "reservations_held E script n c results \<Longrightarrow> run_steps (strict_host E) script n c results = run_steps E script n c results"
proof (induction n arbitrary: c results)
  case (Suc n)
  then show ?case using strict_exec [of E "script results" c] by (auto split: prod.splits sum.splits script_error.splits)
qed simp

text \<open>
  C3. A workflow survives a crash: take a run on a journal that agrees with its file, stopped after any number of actions of its script,
  such that every numbered call so far has its answer in the journal (a call refused for a quota leaves a gap) and no reservation of agents
  failed with an error that the script could catch, and let the append of the next answer fail at any point.  The journal can be loaded
  from what is then on the disk, and the script, run again from it, gets the same result for each of these actions, recoverable errors of
  calls included, whatever the host would answer now and without a change to the journal.  Replies of the host are assumed not to be the
  engine's own error markers, the journal to be short of its limit, and entries to survive their encoding; a reservation that fails is
  followed up below.
\<close>

theorem crashed_run_resumes:
  assumes "run_steps E script n (run_start j fs h) [] = Inr (c, results)" "plain_host E" "reservations_held E script n (run_start j fs h) []"
    "in_sync (we_codec E) path fs j" "cx_seq c \<le> length (entries_of c)" "list_all (good_entry (we_codec E)) (entries_of c)"
    "journal_record (we_codec E) fault now seq kind hash v (cx_fs c) (cx_journal c) = (fs', r)"
    "good_entry (we_codec E) \<lparr>je_seq = seq, je_kind = kind, je_hash = hash, je_result = v, je_at_ms = now\<rparr>"
    "length (entries_of c) < MAX_JOURNAL_ENTRIES" "we_hash E' = we_hash E"
  shows "\<exists>fs'' j' d. journal_load (we_codec E) NoFault path fs' = (fs'', Inr j') \<and>
    run_steps E' script n (run_start j' fs'' h') [] = Inr (d, results) \<and> cx_journal d = j' \<and> cx_seq d = cx_seq c"
  using crashed_run_resumes_strictly [of "strict_host E", OF _ strict_honest [OF assms(2)]] strict_run [OF assms(3)] assms by simp

subsection \<open>An example\<close>

definition bare_hash :: "unit hash_env" where
  "bare_hash = \<lparr>json_text = (\<lambda>v. case v of JString s \<Rightarrow> s | _ \<Rightarrow> []), sha256 = id\<rparr>"

definition budget_entry :: "nat \<Rightarrow> unit journal_entry" where
  "budget_entry seq = \<lparr>je_seq = seq, je_kind = lit ''budget'', je_hash = request_hash bare_hash (lit ''budget'') JNull, je_result = JString (lit ''9''), je_at_ms = 5\<rparr>"

definition budget_codec :: "unit journal_codec" where
  "budget_codec = \<lparr>entry_text = (\<lambda>e. Some [123, je_seq e + 48]),
     entry_parse = (\<lambda>t. if t = [123, 48] then Some (budget_entry 0) else if t = [123, 49] then Some (budget_entry 1) else None)\<rparr>"

definition steady_env :: "(unit, unit) workflow_env" where
  "steady_env = \<lparr>we_codec = budget_codec, we_hash = bare_hash, we_host = (\<lambda>_ h. (HostReply (Inr (JString (lit ''9''))), h)),
     we_fault = (\<lambda>_. NoFault), we_now = (\<lambda>_. 5)\<rparr>"

definition silent_env :: "(unit, unit) workflow_env" where
  "silent_env = steady_env\<lparr>we_host := (\<lambda>_ h. (ChannelClosed, h))\<rparr>"

lemma budget_entry_good: "seq < 2 \<Longrightarrow> good_entry budget_codec (budget_entry seq)"
proof -
  assume "seq < 2"
  have one: "k = Suc 0" if "0 < k" "k < 2" for k :: nat using that by simp
  show ?thesis
    using \<open>seq < 2\<close> unfolding good_entry_def budget_codec_def
    by (auto simp: is_ascii_whitespace_def less_2_cases_iff budget_entry_def dest!: one)
qed

theorem crashed_run_resumes_witness:
  "\<exists>fs'' j' d. journal_load budget_codec NoFault (lit ''journal'') ((\<lambda>_. NoJournal)(lit ''journal'' := JournalFile [123, 48, 10, 123])) = (fs'', Inr j') \<and>
     run_steps silent_env (\<lambda>_. DoBudget) 1 (run_start j' fs'' ()) [] = Inr (d, [Got (JString (lit ''9''))]) \<and> cx_journal d = j' \<and> cx_seq d = 1"
proof -
  let ?p = "lit ''journal''" and ?fs = "\<lambda>_ :: rstr. NoJournal"
  let ?fs1 = "?fs(?p := JournalFile [123, 48, 10])" and ?j = "journal_new (Some (lit ''journal'')) :: unit journal"
  let ?c = "\<lparr>cx_journal = \<lparr>j_entries = [budget_entry 0], j_path = Some ?p, j_bytes = 3, j_last_line_start = Some 0\<rparr>, cx_seq = 1, cx_fs = ?fs1, cx_host = ()\<rparr>"
  have plain: "plain_host steady_env"
    by (simp add: plain_host_def steady_env_def replay_host_error_def is_host_terminal_sentinel_def)
  have held: "reservations_held steady_env (\<lambda>_. DoBudget) 1 (run_start ?j ?fs ()) []"
    by (auto simp: reservation_fails_def split: prod.split sum.split script_error.split)
  have sync: "in_sync (we_codec steady_env) ?p ?fs ?j" by (simp add: in_sync_def journal_new_def dense_def)
  have run: "run_steps steady_env (\<lambda>_. DoBudget) 1 (run_start ?j ?fs ()) [] = Inr (?c, [Got (JString (lit ''9''))])"
    by (simp add: host_call_def next_seq_def reserve_seqs_def run_start_def U64_MAX_def MAX_HOST_CALLS_def replay_for_def replay_def
        send_request_def ctx_record_def journal_record_def validate_sequence_def journal_new_def steady_env_def budget_codec_def
        append_bytes_def saturating_add_u64_def MAX_JOURNAL_BYTES_def budget_entry_def Let_def lit_def)
  have torn: "journal_record (we_codec steady_env) (FailsAfter 1) 5 1 (lit ''budget'') (request_hash bare_hash (lit ''budget'') JNull) (JString (lit ''9''))
      (cx_fs ?c) (cx_journal ?c) = (?fs(?p := JournalFile [123, 48, 10, 123]), Inl JIo)"
    by (simp add: journal_record_def validate_sequence_def steady_env_def budget_codec_def append_bytes_def saturating_add_u64_def
        U64_MAX_def MAX_JOURNAL_BYTES_def Let_def)
  have good: "list_all (good_entry (we_codec steady_env)) (entries_of ?c)"
    "good_entry (we_codec steady_env) \<lparr>je_seq = 1, je_kind = lit ''budget'', je_hash = request_hash bare_hash (lit ''budget'') JNull,
       je_result = JString (lit ''9''), je_at_ms = 5\<rparr>"
    using budget_entry_good [of 0] budget_entry_good [of 1] by (simp_all add: steady_env_def budget_entry_def)
  have small: "length (entries_of ?c) < MAX_JOURNAL_ENTRIES" by (simp add: MAX_JOURNAL_ENTRIES_def MAX_HOST_CALLS_def)
  have "cx_seq ?c \<le> length (entries_of ?c)" "we_hash silent_env = we_hash steady_env" by (simp_all add: silent_env_def)
  from crashed_run_resumes [OF run plain held sync this(1) good(1) torn good(2) small this(2), where h' = "()"] show ?thesis
    by (simp add: steady_env_def)
qed

subsection \<open>A caught failure\<close>

text \<open>A reservation that cannot be persisted is an error that a script can catch, but not a recorded one.\<close>

definition flaky_env :: "(unit, nat) workflow_env" where
  "flaky_env = \<lparr>we_codec = \<lparr>entry_text = (\<lambda>_. Some []), entry_parse = (\<lambda>_. None)\<rparr>, we_hash = bare_hash,
     we_host = (\<lambda>req h. (case req of
         ReserveAgentCalls _ \<Rightarrow> if h = 0 then HostReply (Inl (HostFailed (lit ''disk full''))) else HostReply (Inr JNull)
       | _ \<Rightarrow> HostReply (Inr (JString (lit ''done''))), Suc h)),
     we_fault = (\<lambda>_. NoFault), we_now = (\<lambda>_. 5)\<rparr>"

definition fallback_script :: "unit workflow_script" where
  "fallback_script results =
     (case results of
        [] \<Rightarrow> DoAgent (JString (lit ''a''))
      | [Caught _] \<Rightarrow> DoAgent (JString (lit ''b''))
      | _ \<Rightarrow> DoReturn JNull)"

lemma agents_differ:
  "request_hash bare_hash (lit ''spawn_agent'') (JString (lit ''b'')) \<noteq> request_hash bare_hash (lit ''spawn_agent'') (JString (lit ''a''))"
  by code_simp

lemma caught_reservation_diverges:
  "\<exists>c. run_steps flaky_env fallback_script 2 (run_start (journal_new None) fs 0) [] = Inr (c, [Caught (lit ''disk full''), Got (JString (lit ''done''))]) \<and>
     (\<exists>d. run_steps flaky_env fallback_script 1 (run_start (cx_journal c) fs 1) [] = Inl (d, FailedJournal (JDivergence 0 (lit ''spawn_agent''))))"
proof -
  let ?h = "request_hash bare_hash (lit ''spawn_agent'') (JString (lit ''b''))"
  let ?c1 = "\<lparr>cx_journal = journal_new None, cx_seq = 0, cx_fs = fs, cx_host = Suc 0\<rparr> :: (unit, nat) ctx"
  let ?j = "\<lparr>j_entries = [\<lparr>je_seq = 0, je_kind = lit ''spawn_agent'', je_hash = ?h, je_result = JString (lit ''done''), je_at_ms = 5\<rparr>],
    j_path = None, j_bytes = 1, j_last_line_start = Some 0\<rparr> :: unit journal"
  let ?c2 = "\<lparr>cx_journal = ?j, cx_seq = 1, cx_fs = fs, cx_host = 3\<rparr>"
  have hold: "reserve_agent_calls flaky_env 1 c =
      (c\<lparr>cx_host := Suc (cx_host c)\<rparr>, if cx_host c = 0 then Some (RuntimeError (lit ''disk full'')) else None)" for c
    unfolding reserve_agent_calls_def send_request_def flaky_env_def by simp
  have none: "replay_for flaky_env (lit ''spawn_agent'') p 0 (journal_new None) = Inr None" for p
    by (simp add: replay_for_none journal_new_def)
  have call: "host_call flaky_env (lit ''spawn_agent'') (JString (lit ''b'')) (SpawnAgent (JString (lit ''b'')))
      \<lparr>cx_journal = journal_new None, cx_seq = 0, cx_fs = fs, cx_host = 2\<rparr> = (?c2, Inr (JString (lit ''done'')))"
    using none by (simp add: host_call_def next_seq_def reserve_seqs_def U64_MAX_def MAX_HOST_CALLS_def send_request_def ctx_record_def
        journal_record_def validate_sequence_def journal_new_def saturating_add_u64_def MAX_JOURNAL_BYTES_def flaky_env_def Let_def)
  have one: "exec_action flaky_env (DoAgent (JString (lit ''a''))) (run_start (journal_new None) fs 0) = (?c1, Inl (RuntimeError (lit ''disk full'')))"
    by (simp add: spawn_agent_call_def run_start_def none hold Let_def del: One_nat_def)
  have two: "exec_action flaky_env (DoAgent (JString (lit ''b''))) ?c1 = (?c2, Inr (Got (JString (lit ''done''))))"
    by (simp add: spawn_agent_call_def none hold call numeral_2_eq_2 [symmetric] Let_def del: One_nat_def)
  have again: "exec_action flaky_env (DoAgent (JString (lit ''a''))) (run_start ?j fs 1) =
      (run_start ?j fs 1, Inl (Terminated (FatalJournal (JDivergence 0 (lit ''spawn_agent'')))))"
    using agents_differ
    by (simp add: spawn_agent_call_def replay_for_def replay_spawn_agent_def replay_def run_start_def flaky_env_def Let_def)
  have "run_steps flaky_env fallback_script (Suc (Suc 0)) (run_start (journal_new None) fs 0) [] =
      Inr (?c2, [Caught (lit ''disk full''), Got (JString (lit ''done''))])"
    by (simp add: fallback_script_def one two del: exec_action.simps)
  moreover have "run_steps flaky_env fallback_script 1 (run_start (cx_journal ?c2) fs 1) [] =
      Inl (run_start ?j fs 1, FailedJournal (JDivergence 0 (lit ''spawn_agent'')))"
    using again by (simp add: fallback_script_def del: exec_action.simps)
  ultimately show ?thesis unfolding numeral_2_eq_2 by blast
qed

end
