(* ===== verification/Compaction_Select.thy ===== *)
theory Compaction_Select
  imports Prelude
begin

text \<open>
  Choosing what a compaction summarises (\<open>packages/agent/xai-grok-compaction/src\<close>: \<open>item.rs\<close>, \<open>token.rs\<close>, \<open>select.rs\<close>,
  \<open>intra_compaction/fit.rs\<close>).

  The traits \<open>CompactionItem\<close>, \<open>CompactionItemBuilder\<close> and \<open>ItemTokenCounter\<close>, by which the code abstracts from the type of a
  conversation item, are the record \<open>item_ops\<close> of their methods.
\<close>

section \<open>Arithmetic on 32 bits\<close>

definition U32_MAX :: nat where "U32_MAX = 2 ^ 32 - 1"

definition saturating_add_u32 :: "nat \<Rightarrow> nat \<Rightarrow> nat" where
  "saturating_add_u32 a b = min (a + b) U32_MAX"

definition as_u32 :: "nat \<Rightarrow> nat" where
  "as_u32 n = n mod 2 ^ 32"

definition sum_counts :: "nat list \<Rightarrow> nat" where
  "sum_counts counts = foldl saturating_add_u32 0 counts"

lemma as_u32_id: "n \<le> U32_MAX \<Longrightarrow> as_u32 n = n"
  by (simp add: as_u32_def U32_MAX_def)

lemma foldl_saturating: "a \<le> U32_MAX \<Longrightarrow> foldl saturating_add_u32 a counts = min (a + sum_list counts) U32_MAX"
proof (induction counts arbitrary: a)
  case (Cons c counts)
  have "foldl saturating_add_u32 (min (a + c) U32_MAX) counts = min (min (a + c) U32_MAX + sum_list counts) U32_MAX"
    by (intro Cons.IH) simp
  then show ?case by (simp add: saturating_add_u32_def [of a c])
qed simp

lemma sum_counts_eq: "sum_counts counts = min (sum_list counts) U32_MAX"
  unfolding sum_counts_def by (subst foldl_saturating) simp_all

lemma saturating_sums: "saturating_add_u32 (sum_counts a) (sum_counts b) = min (sum_list a + sum_list b) U32_MAX"
  by (simp add: sum_counts_eq saturating_add_u32_def)

section \<open>Items\<close>

datatype compaction_role = RoleSystem | RoleDeveloper | RoleUser | RoleAssistant | RoleTool

record compaction_file_ref =
  fr_id :: rstr
  fr_name :: rstr

record 't item_ops =
  it_role :: "'t \<Rightarrow> compaction_role"
  it_text :: "'t \<Rightarrow> rstr option"
  it_has_tool_requests :: "'t \<Rightarrow> bool"
  it_is_summary :: "'t \<Rightarrow> bool"
  it_attachments :: "'t \<Rightarrow> compaction_file_ref list"
  it_summary_item :: "rstr \<Rightarrow> 't"
  it_strip_tools :: "'t \<Rightarrow> 't option"
  it_truncate :: "'t \<Rightarrow> nat \<Rightarrow> 't"
  it_tokens :: "'t \<Rightarrow> nat"

definition is_tool_result :: "'t item_ops \<Rightarrow> 't \<Rightarrow> bool" where
  "is_tool_result I t \<longleftrightarrow> it_role I t = RoleTool"

definition token_counts :: "'t item_ops \<Rightarrow> 't list \<Rightarrow> nat list" where
  "token_counts I turns = map (it_tokens I) turns"

definition sum_tokens :: "'t item_ops \<Rightarrow> 't list \<Rightarrow> nat" where
  "sum_tokens I turns = foldl saturating_add_u32 0 (map (it_tokens I) turns)"

section \<open>Selection\<close>

record split_plan =
  sp_split_idx :: nat
  sp_tokens_to_compact :: nat

text \<open>The walk from the newest item: \<open>i\<close> items are left, \<open>kept\<close> tokens are kept from \<open>split\<close> on.\<close>

fun keep_loop :: "nat list \<Rightarrow> nat \<Rightarrow> nat \<Rightarrow> nat \<Rightarrow> nat \<Rightarrow> nat" where
  "keep_loop counts target 0 kept split = split"
| "keep_loop counts target (Suc i) kept split =
     (if saturating_add_u32 kept (counts ! i) > target then i + 1
      else keep_loop counts target i (saturating_add_u32 kept (counts ! i)) i)"

fun tool_run :: "'t item_ops \<Rightarrow> 't list \<Rightarrow> nat" where
  "tool_run I [] = 0"
| "tool_run I (t # ts) = (if is_tool_result I t then Suc (tool_run I ts) else 0)"

definition snap_to_safe_boundary :: "'t item_ops \<Rightarrow> 't list \<Rightarrow> nat \<Rightarrow> nat" where
  "snap_to_safe_boundary I items candidate =
     (if candidate \<ge> length items then length items
      else if \<not> is_tool_result I (items ! candidate) then candidate
      else candidate + tool_run I (drop candidate items))"

definition select_turns_to_compact :: "'t item_ops \<Rightarrow> nat list \<Rightarrow> 't list \<Rightarrow> nat \<Rightarrow> nat \<Rightarrow> split_plan option" where
  "select_turns_to_compact I counts items target min_compactable =
     (let total = length items
      in if total = 0 then None
         else let split = keep_loop counts target total 0 total
              in if split = 0 then None
                 else let safe = snap_to_safe_boundary I items split
                      in if safe \<ge> total then None
                         else let tokens = sum_counts (take safe counts)
                              in if tokens < min_compactable then None
                                 else Some \<lparr>sp_split_idx = safe, sp_tokens_to_compact = tokens\<rparr>)"

section \<open>The best split\<close>

text \<open>The first item that is no tool result and from which on the items fit the target.\<close>

definition best_split :: "'t item_ops \<Rightarrow> nat list \<Rightarrow> 't list \<Rightarrow> nat \<Rightarrow> nat option" where
  "best_split I counts items target =
     find (\<lambda>j. \<not> is_tool_result I (items ! j) \<and> sum_list (drop j counts) \<le> target) [0..<length items]"

lemma keep_loop_least:
  assumes "target < U32_MAX" "i \<le> length counts" "kept = sum_list (drop i counts)" "kept \<le> target"
  shows "\<exists>k\<le>i. keep_loop counts target i kept i = k \<and> sum_list (drop k counts) \<le> target \<and> (\<forall>j<k. target < sum_list (drop j counts))"
  using assms(2-4)
proof (induction i arbitrary: kept)
  case (Suc i)
  have d: "sum_list (drop i counts) = counts ! i + kept" using Suc.prems by (simp add: Cons_nth_drop_Suc [symmetric])
  show ?case
  proof (cases "saturating_add_u32 kept (counts ! i) > target")
    case True
    then have over: "target < sum_list (drop i counts)" using d assms(1) by (auto simp: saturating_add_u32_def)
    have "target < sum_list (drop j counts)" if "j < Suc i" for j
    proof -
      have "drop i counts = drop (i - j) (drop j counts)" using that by simp
      then have "sum_list (drop i counts) \<le> sum_list (drop j counts)"
        using append_take_drop_id [of "i - j" "drop j counts"] by (metis le_add2 sum_list_append)
      with over show ?thesis by simp
    qed
    then show ?thesis using True Suc.prems by (intro exI [of _ "Suc i"]) simp
  next
    case False
    then have "saturating_add_u32 kept (counts ! i) = sum_list (drop i counts)" "sum_list (drop i counts) \<le> target"
      using d assms(1) by (auto simp: saturating_add_u32_def min_def split: if_splits)
    with Suc.IH [of "sum_list (drop i counts)"] Suc.prems(1) False show ?thesis by auto
  qed
qed simp

lemma tool_run_spec:
  "tool_run I ts \<le> length ts" "j < tool_run I ts \<Longrightarrow> is_tool_result I (ts ! j)"
  "tool_run I ts < length ts \<Longrightarrow> \<not> is_tool_result I (ts ! tool_run I ts)"
  by (induction ts arbitrary: j) (auto simp: nth_Cons split: nat.splits if_splits)

lemma snap_spec:
  assumes "k \<le> length items"
  shows "k \<le> snap_to_safe_boundary I items k" "snap_to_safe_boundary I items k \<le> length items"
    "\<And>j. k \<le> j \<Longrightarrow> j < snap_to_safe_boundary I items k \<Longrightarrow> is_tool_result I (items ! j)"
    "snap_to_safe_boundary I items k < length items \<Longrightarrow> \<not> is_tool_result I (items ! snap_to_safe_boundary I items k)"
proof -
  note run = tool_run_spec [where I = I and ts = "drop k items"]
  show "k \<le> snap_to_safe_boundary I items k" "snap_to_safe_boundary I items k \<le> length items"
    using assms run(1) by (auto simp: snap_to_safe_boundary_def)
  show "is_tool_result I (items ! j)" if "k \<le> j" "j < snap_to_safe_boundary I items k" for j
    using run(2) [of "j - k"] that assms by (auto simp: snap_to_safe_boundary_def split: if_splits)
  show "\<not> is_tool_result I (items ! snap_to_safe_boundary I items k)" if "snap_to_safe_boundary I items k < length items"
    using run(3) that assms by (auto simp: snap_to_safe_boundary_def split: if_splits)
qed

lemma find_upt_is_least:
  assumes "j < n" "P j" "\<And>i. i < j \<Longrightarrow> \<not> P i"
  shows "find P [0..<n] = Some j"
  using assms by (auto simp: find_Some_iff intro!: exI [of _ j])

lemma select_best:
  assumes "length counts = length items" "target < U32_MAX"
  shows "select_turns_to_compact I counts items target min_compactable =
    (if sum_list counts \<le> target then None
     else case best_split I counts items target of
         None \<Rightarrow> None
       | Some j \<Rightarrow>
           if min (sum_list (take j counts)) U32_MAX < min_compactable then None
           else Some \<lparr>sp_split_idx = j, sp_tokens_to_compact = min (sum_list (take j counts)) U32_MAX\<rparr>)"
proof -
  let ?n = "length items" and ?P = "\<lambda>j. \<not> is_tool_result I (items ! j) \<and> sum_list (drop j counts) \<le> target"
  obtain k where k: "k \<le> ?n" "keep_loop counts target ?n 0 ?n = k" "sum_list (drop k counts) \<le> target"
    "\<And>j. j < k \<Longrightarrow> target < sum_list (drop j counts)"
    using keep_loop_least [of target ?n counts 0] assms by auto
  have zero: "k = 0 \<longleftrightarrow> sum_list counts \<le> target" using k(3) k(4) [of 0] by (cases k) auto
  define s where "s = snap_to_safe_boundary I items k"
  note snap = snap_spec [OF k(1), where I = I, folded s_def]
  have no: "\<not> ?P j" if "j < s" for j
    using k(4) [of j] snap(3) [of j] that by (cases "j < k") auto
  have fits: "sum_list (drop s counts) \<le> target"
  proof -
    have "drop s counts = drop (s - k) (drop k counts)" using snap(1) by simp
    then show ?thesis using k(3) append_take_drop_id [of "s - k" "drop k counts"] by (metis le_add2 le_trans sum_list_append)
  qed
  have best: "best_split I counts items target = (if s < ?n then Some s else None)"
  proof (cases "s < ?n")
    case True
    then show ?thesis using no fits snap(4) unfolding best_split_def by (simp add: find_upt_is_least)
  next
    case False
    then have "\<forall>j<?n. \<not> ?P j" using no by auto
    with False show ?thesis unfolding best_split_def by (auto simp: find_None_iff)
  qed
  show ?thesis
  proof (cases "?n = 0 \<or> k = 0")
    case True
    then show ?thesis using zero k(2) assms(1) by (auto simp: select_turns_to_compact_def Let_def)
  next
    case False
    then show ?thesis
      using zero k(2) best by (simp add: select_turns_to_compact_def Let_def s_def [symmetric] sum_counts_eq)
  qed
qed

section \<open>Tool results stay with their requests\<close>

text \<open>Every tool result follows, past other tool results only, an assistant item with tool requests.\<close>

fun paired_from :: "'t item_ops \<Rightarrow> bool \<Rightarrow> 't list \<Rightarrow> bool" where
  "paired_from I open_requests [] = True"
| "paired_from I open_requests (t # ts) =
     (if is_tool_result I t then open_requests \<and> paired_from I open_requests ts
      else paired_from I (it_role I t = RoleAssistant \<and> it_has_tool_requests I t) ts)"

abbreviation paired :: "'t item_ops \<Rightarrow> 't list \<Rightarrow> bool" where
  "paired I items \<equiv> paired_from I False items"

lemma paired_drop:
  assumes "paired_from I b items" "j < length items" "\<not> is_tool_result I (items ! j)"
  shows "paired_from I c (drop j items)"
  using assms
proof (induction items arbitrary: j b)
  case (Cons t ts)
  then show ?case by (cases j) (auto split: if_splits)
qed simp

lemma paired_mono: "paired_from I False items \<Longrightarrow> paired_from I b items"
  by (induction items) (auto split: if_splits)

lemma paired_append: "paired_from I b xs \<Longrightarrow> paired I ys \<Longrightarrow> paired_from I b (xs @ ys)"
  by (induction xs arbitrary: b) (auto intro: paired_mono)

lemma best_split_safe:
  assumes "best_split I counts items target = Some j"
  shows "j < length items" "\<not> is_tool_result I (items ! j)" "sum_list (drop j counts) \<le> target"
  using assms unfolding best_split_def by (auto simp: find_Some_iff)

lemma select_safe:
  assumes "length counts = length items" "target < U32_MAX" "select_turns_to_compact I counts items target min_compactable = Some p"
  shows "0 < sp_split_idx p" "sp_split_idx p < length items" "\<not> is_tool_result I (items ! sp_split_idx p)"
    "sum_list (drop (sp_split_idx p) counts) \<le> target"
proof -
  from assms(3) obtain j where j: "best_split I counts items target = Some j" "sp_split_idx p = j" "\<not> sum_list counts \<le> target"
    unfolding select_best [OF assms(1,2)] by (auto split: if_splits option.splits)
  then show "sp_split_idx p < length items" "\<not> is_tool_result I (items ! sp_split_idx p)" "sum_list (drop (sp_split_idx p) counts) \<le> target"
    using best_split_safe [OF j(1)] by simp_all
  then show "0 < sp_split_idx p" using j(2,3) by (cases j) auto
qed

text \<open>
  C16. The split is the best safe one: \<open>select_turns_to_compact\<close> keeps the longest run of newest items that fits the target and does
  not start with a tool result, and gives up exactly when everything fits, no such run exists or too little would be summarised; so
  what it keeps never begins with results whose request is summarised away.
\<close>

theorem selection_is_best_safe_split:
  assumes "length counts = length items" "target < U32_MAX"
  shows "select_turns_to_compact I counts items target min_compactable =
      (if sum_list counts \<le> target then None
       else case best_split I counts items target of
           None \<Rightarrow> None
         | Some j \<Rightarrow>
             if min (sum_list (take j counts)) U32_MAX < min_compactable then None
             else Some \<lparr>sp_split_idx = j, sp_tokens_to_compact = min (sum_list (take j counts)) U32_MAX\<rparr>) \<and>
    (\<forall>p. select_turns_to_compact I counts items target min_compactable = Some p \<longrightarrow> paired I items \<longrightarrow>
      0 < sp_split_idx p \<and> sp_split_idx p < length items \<and> paired I (drop (sp_split_idx p) items))"
  using select_best [OF assms] select_safe [OF assms] paired_drop by blast

section \<open>Fitting the summarizer\<close>

datatype fit_rung = Verbatim | HistoryTurnSelected | ToolTruncated | StepTurnsSelected | Emergency

fun fit_rung_str :: "fit_rung \<Rightarrow> rstr" where
  "fit_rung_str Verbatim = lit ''verbatim''"
| "fit_rung_str HistoryTurnSelected = lit ''history_turn_selected''"
| "fit_rung_str ToolTruncated = lit ''tool_truncated''"
| "fit_rung_str StepTurnsSelected = lit ''step_turns_selected''"
| "fit_rung_str Emergency = lit ''emergency''"

record 't fit_plan =
  fp_llm_turns :: "'t list"
  fp_tokens_raw :: nat
  fp_tokens_fit :: nat
  fp_rung :: fit_rung
  fp_items_truncated :: nat
  fp_history_omitted :: nat
  fp_step_omitted :: nat

definition shrink_oversized_tool_results :: "'t item_ops \<Rightarrow> 't list \<Rightarrow> nat \<Rightarrow> 't list \<times> nat" where
  "shrink_oversized_tool_results I turns max_tokens =
     (let oversized = (\<lambda>t. is_tool_result I t \<and> it_tokens I t > max_tokens)
      in (map (\<lambda>t. if oversized t then it_truncate I t max_tokens else t) turns, as_u32 (length (filter oversized turns))))"

definition keep_recent_under_budget :: "'t item_ops \<Rightarrow> 't list \<Rightarrow> nat list \<Rightarrow> nat \<Rightarrow> ('t list \<times> nat) option" where
  "keep_recent_under_budget I turns counts budget =
     (if turns = [] then Some ([], 0)
      else if budget = 0 then Some ([], as_u32 (length turns))
      else if sum_counts counts \<le> budget then Some (turns, 0)
      else case select_turns_to_compact I counts turns budget 0 of
          None \<Rightarrow> None
        | Some plan \<Rightarrow> Some (drop (sp_split_idx plan) turns, as_u32 (sp_split_idx plan)))"

definition plan_ok :: "'t item_ops \<Rightarrow> 't list \<Rightarrow> 't list \<Rightarrow> nat \<Rightarrow> fit_rung \<Rightarrow> nat \<Rightarrow> nat \<Rightarrow> nat \<Rightarrow> 't fit_plan" where
  "plan_ok I history steps raw rung truncated history_omitted step_omitted =
     \<lparr>fp_llm_turns = history @ steps, fp_tokens_raw = raw, fp_tokens_fit = sum_tokens I (history @ steps), fp_rung = rung,
      fp_items_truncated = truncated, fp_history_omitted = history_omitted, fp_step_omitted = step_omitted\<rparr>"

text \<open>The turns that are left when \<open>room\<close> tokens are free for them, their counts and how many are left out.\<close>

definition drop_oldest :: "'t item_ops \<Rightarrow> 't list \<Rightarrow> nat list \<Rightarrow> nat \<Rightarrow> nat \<Rightarrow> 't list \<times> nat list \<times> nat" where
  "drop_oldest I turns counts other budget =
     (if other < budget then
        (let room = budget - other
         in if sum_counts counts > room then
              (case keep_recent_under_budget I turns counts room of
                 Some (keep, omitted) \<Rightarrow> (keep, drop omitted counts, omitted)
               | None \<Rightarrow> ([], [], as_u32 (length turns)))
            else (turns, counts, 0))
      else ([], [], as_u32 (length turns)))"

definition emergency_plan :: "'t item_ops \<Rightarrow> 't list \<Rightarrow> 't list \<Rightarrow> 't list \<Rightarrow> 't list \<Rightarrow> nat \<Rightarrow> nat \<Rightarrow> nat \<Rightarrow> nat \<Rightarrow> nat \<Rightarrow> 't fit_plan" where
  "emergency_plan I history steps hist step raw truncated hist_omitted step_omitted budget =
     (let (source, history_omitted, steps_omitted) =
        (if hist @ step = [] then
           (history @ steps,
            if steps = [] then (as_u32 (length history - 1), 0) else (as_u32 (length history), as_u32 (length steps - 1)))
         else if step = [] then (hist @ step, saturating_add_u32 hist_omitted (as_u32 (length hist - 1)), step_omitted)
         else (hist @ step, saturating_add_u32 hist_omitted (as_u32 (length hist)),
            saturating_add_u32 step_omitted (as_u32 (length step - 1))))
      in if source = [] then
           \<lparr>fp_llm_turns = [], fp_tokens_raw = raw, fp_tokens_fit = 0, fp_rung = Emergency, fp_items_truncated = truncated,
            fp_history_omitted = history_omitted, fp_step_omitted = steps_omitted\<rparr>
         else let newest = [it_truncate I (last source) budget]
              in \<lparr>fp_llm_turns = newest, fp_tokens_raw = raw, fp_tokens_fit = sum_tokens I newest, fp_rung = Emergency,
                  fp_items_truncated = saturating_add_u32 truncated 1, fp_history_omitted = history_omitted, fp_step_omitted = steps_omitted\<rparr>)"

text \<open>The rungs after the history has been cut down to \<open>hist\<close>.\<close>

definition fit_tools_and_steps :: "'t item_ops \<Rightarrow> 't list \<Rightarrow> 't list \<Rightarrow> 't list \<Rightarrow> nat \<Rightarrow> nat \<Rightarrow> nat \<Rightarrow> 't fit_plan" where
  "fit_tools_and_steps I history steps hist raw hist_omitted budget =
     (let (hist, n1) = shrink_oversized_tool_results I hist budget; (step, n2) = shrink_oversized_tool_results I steps budget;
          truncated = saturating_add_u32 n1 n2; hist_counts = token_counts I hist; step_counts = token_counts I step
      in if saturating_add_u32 (sum_counts hist_counts) (sum_counts step_counts) \<le> budget
         then plan_ok I hist step raw ToolTruncated truncated hist_omitted 0
         else
           let (step, step_counts, step_omitted) = drop_oldest I step step_counts (sum_counts hist_counts) budget
           in if saturating_add_u32 (sum_counts hist_counts) (sum_counts step_counts) \<le> budget \<and> (hist \<noteq> [] \<or> step \<noteq> [])
              then plan_ok I hist step raw StepTurnsSelected truncated hist_omitted step_omitted
              else emergency_plan I history steps hist step raw truncated hist_omitted step_omitted budget)"

definition fit_turns_for_summarizer :: "'t item_ops \<Rightarrow> 't list \<Rightarrow> 't list \<Rightarrow> nat \<Rightarrow> 't fit_plan" where
  "fit_turns_for_summarizer I history steps budget =
     (let hist_counts = token_counts I history; step_counts = token_counts I steps;
          raw = saturating_add_u32 (sum_counts hist_counts) (sum_counts step_counts)
      in if budget = 0 then
           \<lparr>fp_llm_turns = [], fp_tokens_raw = raw, fp_tokens_fit = 0, fp_rung = Emergency, fp_items_truncated = 0,
            fp_history_omitted = as_u32 (length history), fp_step_omitted = as_u32 (length steps)\<rparr>
         else if raw \<le> budget then plan_ok I history steps raw Verbatim 0 0 0
         else
           let (hist, hist_counts, hist_omitted) = drop_oldest I history hist_counts (sum_counts step_counts) budget
           in if saturating_add_u32 (sum_counts hist_counts) (sum_counts step_counts) \<le> budget
              then plan_ok I hist steps raw HistoryTurnSelected 0 hist_omitted 0
              else fit_tools_and_steps I history steps hist raw hist_omitted budget)"

subsection \<open>What is left of the turns\<close>

lemma length_token_counts [simp]: "length (token_counts I turns) = length turns"
  by (simp add: token_counts_def)

lemma drop_token_counts [simp]: "drop j (token_counts I turns) = token_counts I (drop j turns)"
  by (simp add: token_counts_def drop_map)

lemma sum_tokens_eq: "sum_tokens I turns = sum_counts (token_counts I turns)"
  by (simp add: sum_tokens_def sum_counts_def token_counts_def)

lemma token_counts_append: "sum_list (token_counts I (a @ b)) = sum_list (token_counts I a) + sum_list (token_counts I b)"
  by (simp add: token_counts_def)

lemma drop_oldest_spec:
  assumes "budget < U32_MAX" "length turns \<le> U32_MAX"
  obtains j where "drop_oldest I turns (token_counts I turns) other budget = (drop j turns, token_counts I (drop j turns), j)" "j \<le> length turns"
    "other < budget \<Longrightarrow> sum_list (token_counts I (drop j turns)) \<le> budget - other" "budget \<le> other \<Longrightarrow> j = length turns"
    "paired I turns \<Longrightarrow> paired I (drop j turns)"
proof (cases "other < budget")
  case False
  then show thesis using that [of "length turns"] assms(2) by (simp add: drop_oldest_def as_u32_id token_counts_def)
next
  case True
  let ?c = "token_counts I turns" and ?room = "budget - other"
  show thesis
  proof (cases "sum_counts ?c \<le> ?room")
    case fits: True
    then have "sum_list ?c \<le> ?room" using assms(1) by (simp add: sum_counts_eq)
    then show thesis using that [of 0] True fits by (simp add: drop_oldest_def Let_def)
  next
    case False
    then have "turns \<noteq> []" by (auto simp: token_counts_def sum_counts_def)
    show thesis
    proof (cases "select_turns_to_compact I ?c turns ?room 0")
      case None
      then have "drop_oldest I turns ?c other budget = ([], [], as_u32 (length turns))"
        using True False \<open>turns \<noteq> []\<close> by (simp add: drop_oldest_def keep_recent_under_budget_def Let_def)
      then show thesis using that [of "length turns"] True assms(2) by (simp add: as_u32_id token_counts_def)
    next
      case (Some p)
      have lens: "length ?c = length turns" "?room < U32_MAX" using assms(1) by simp_all
      note safe = select_safe [OF lens Some]
      have "drop_oldest I turns ?c other budget = (drop (sp_split_idx p) turns, drop (sp_split_idx p) ?c, sp_split_idx p)"
        using True False \<open>turns \<noteq> []\<close> Some safe(2) assms(2)
        by (simp add: drop_oldest_def keep_recent_under_budget_def Let_def as_u32_id)
      then show thesis using that [of "sp_split_idx p"] safe paired_drop [of I False turns "sp_split_idx p" False] True by simp
    qed
  qed
qed

lemma shrink_keeps_pairs:
  assumes "\<And>t n. it_role I (it_truncate I t n) = it_role I t" "\<And>t n. it_has_tool_requests I (it_truncate I t n) = it_has_tool_requests I t"
  shows "paired_from I b (fst (shrink_oversized_tool_results I turns budget)) = paired_from I b turns"
  using assms by (induction turns arbitrary: b) (auto simp: shrink_oversized_tool_results_def is_tool_result_def Let_def)

lemma shrink_shape:
  "length (fst (shrink_oversized_tool_results I turns budget)) = length turns"
  "turns \<noteq> [] \<Longrightarrow> last (fst (shrink_oversized_tool_results I turns budget)) \<in> {last turns, it_truncate I (last turns) budget}"
  by (auto simp: shrink_oversized_tool_results_def Let_def last_map)

text \<open>The ladder, rung by rung: past the first one no history is left.\<close>

lemma fit_cases:
  assumes "0 < budget" "budget \<le> U32_MAX" "length history + length steps \<le> U32_MAX"
    "raw = min (sum_list (token_counts I (history @ steps))) U32_MAX" "clipped = fst (shrink_oversized_tool_results I steps budget)"
  obtains (verbatim) "fit_turns_for_summarizer I history steps budget = plan_ok I history steps raw Verbatim 0 0 0" "raw \<le> budget"
  | (history) j where "j \<le> length history" "paired I history \<Longrightarrow> paired I (drop j history)"
      "fit_turns_for_summarizer I history steps budget = plan_ok I (drop j history) steps raw HistoryTurnSelected 0 j 0"
      "sum_list (token_counts I (drop j history @ steps)) \<le> budget"
  | (tools) n where "fit_turns_for_summarizer I history steps budget = plan_ok I [] clipped raw ToolTruncated n (length history) 0"
      "sum_list (token_counts I clipped) \<le> budget" "steps \<noteq> []"
  | (steps) n j where "fit_turns_for_summarizer I history steps budget = plan_ok I [] (drop j clipped) raw StepTurnsSelected n (length history) j"
      "sum_list (token_counts I (drop j clipped)) \<le> budget" "j < length steps" "paired I clipped \<Longrightarrow> paired I (drop j clipped)"
  | (emergency) n so where "fit_turns_for_summarizer I history steps budget = emergency_plan I history steps [] [] raw n (length history) so budget"
      "steps \<noteq> []"
proof (cases "raw \<le> budget")
  case True
  then show thesis using verbatim assms by (simp add: fit_turns_for_summarizer_def Let_def saturating_sums token_counts_append)
next
  case False
  let ?S = "sum_counts (token_counts I steps)"
  have b: "budget < U32_MAX" using False assms(2,4) by simp
  obtain j where j: "drop_oldest I history (token_counts I history) ?S budget = (drop j history, token_counts I (drop j history), j)" "j \<le> length history"
    "?S < budget \<Longrightarrow> sum_list (token_counts I (drop j history)) \<le> budget - ?S" "budget \<le> ?S \<Longrightarrow> j = length history"
    "paired I history \<Longrightarrow> paired I (drop j history)"
    using drop_oldest_spec [OF b, of history I ?S] assms(3) by auto
  let ?t1 = "saturating_add_u32 (sum_counts (token_counts I (drop j history))) ?S"
  have t1: "?t1 \<le> budget \<longleftrightarrow> sum_list (token_counts I (drop j history @ steps)) \<le> budget"
    using b by (auto simp: saturating_sums token_counts_append min_le_iff_disj)
  have start: "fit_turns_for_summarizer I history steps budget = plan_ok I (drop j history) steps raw HistoryTurnSelected 0 j 0"
    if "?t1 \<le> budget"
    using that False assms(1,4) j(1) by (simp add: fit_turns_for_summarizer_def Let_def saturating_sums token_counts_append)
  show thesis
  proof (cases "?t1 \<le> budget")
    case True
    then show thesis using history [OF j(2,5)] start t1 by simp
  next
    case over: False
    have S: "budget < ?S"
    proof (rule ccontr)
      assume "\<not> budget < ?S"
      then consider "?S < budget" | "?S = budget" by linarith
      then have "?t1 \<le> budget"
      proof cases
        case 1
        with j(3) have "sum_counts (token_counts I (drop j history)) + ?S \<le> budget" by (simp add: sum_counts_eq)
        then show ?thesis by (simp add: saturating_add_u32_def)
      next
        case 2
        then have "j = length history" using j(4) by simp
        then have "sum_counts (token_counts I (drop j history)) = 0" by (simp add: sum_counts_def token_counts_def)
        with 2 show ?thesis by (simp add: saturating_add_u32_def)
      qed
      with over show False by simp
    qed
    then have all: "j = length history" "steps \<noteq> []" using j(4) by (auto simp: sum_counts_def token_counts_def)
    have len: "length clipped = length steps" using assms(5) shrink_shape(1) by simp
    obtain k where k: "drop_oldest I clipped (token_counts I clipped) (sum_counts []) budget = (drop k clipped, token_counts I (drop k clipped), k)" "k \<le> length clipped"
      "sum_list (token_counts I (drop k clipped)) \<le> budget" "paired I clipped \<Longrightarrow> paired I (drop k clipped)"
      using drop_oldest_spec [OF b, of clipped I "sum_counts []"] assms(1,3) len by (auto simp: sum_counts_def)
    obtain n where clip: "shrink_oversized_tool_results I steps budget = (clipped, n)" "shrink_oversized_tool_results I [] budget = ([], 0)"
      using assms(5) by (simp add: shrink_oversized_tool_results_def Let_def as_u32_def)
    have sum: "saturating_add_u32 (sum_counts []) (sum_counts xs) \<le> budget \<longleftrightarrow> sum_list xs \<le> budget" for xs
      using b by (auto simp: saturating_sums min_le_iff_disj)
    have raw: "saturating_add_u32 (sum_counts (token_counts I history)) ?S = raw" using assms(4) by (simp add: saturating_sums token_counts_append)
    have none: "token_counts I [] = []" by (simp add: token_counts_def)
    have zero: "(budget = 0) = False" using assms(1) by simp
    have first: "drop_oldest I history (token_counts I history) ?S budget = ([], [], length history)" "(saturating_add_u32 (sum_counts []) ?S \<le> budget) = False"
      using j(1) all(1) over none by simp_all
    have truncated: "saturating_add_u32 0 m = min m U32_MAX" for m by (simp add: saturating_add_u32_def)
    have fit: "fit_turns_for_summarizer I history steps budget =
        (if sum_list (token_counts I clipped) \<le> budget then plan_ok I [] clipped raw ToolTruncated (min n U32_MAX) (length history) 0
         else if drop k clipped \<noteq> [] then plan_ok I [] (drop k clipped) raw StepTurnsSelected (min n U32_MAX) (length history) k
         else emergency_plan I history steps [] [] raw (min n U32_MAX) (length history) k budget)"
    proof -
      have "fit_turns_for_summarizer I history steps budget = fit_tools_and_steps I history steps [] raw (length history) budget"
        using first zero False by (simp add: fit_turns_for_summarizer_def raw)
      then show ?thesis
        using k(3) by (simp add: fit_tools_and_steps_def clip none sum truncated k(1))
    qed
    show thesis
    proof (cases "sum_list (token_counts I clipped) \<le> budget")
      case True
      then show thesis using tools fit all(2) by simp
    next
      case False
      then show thesis using fit steps [of k] emergency [of "min n U32_MAX" k] k len all(2) by (cases "k < length clipped") auto
    qed
  qed
qed

text \<open>
  C28. The summarizer's input fits: short of the emergency the plan keeps to the budget and separates no tool result from its request.  If
  the plan keeps a turn at all, its last one is the newest turn, whole or clipped.  With turns in the running loop it always keeps one;
  without them the plan can be empty, when the newest turn alone is over the budget (see below).  The turns kept and left out add up.  When
  tool results have to be clipped or steps dropped, no turn of the history is left.  Truncating an item is assumed to keep its role and its
  tool requests, and the budget to be positive.
\<close>

theorem fitted_input_respects_budget:
  assumes "0 < budget" "budget \<le> U32_MAX" "length history + length steps \<le> U32_MAX"
    "\<forall>t n. it_role I (it_truncate I t n) = it_role I t \<and> it_has_tool_requests I (it_truncate I t n) = it_has_tool_requests I t"
    "plan = fit_turns_for_summarizer I history steps budget"
  shows "(fp_rung plan \<noteq> Emergency \<longrightarrow> fp_tokens_fit plan \<le> budget \<and> (paired I history \<and> paired I steps \<longrightarrow> paired I (fp_llm_turns plan))) \<and>
    (fp_llm_turns plan \<noteq> [] \<longrightarrow> last (fp_llm_turns plan) \<in> {last (history @ steps), it_truncate I (last (history @ steps)) budget}) \<and>
    (steps \<noteq> [] \<longrightarrow> fp_llm_turns plan \<noteq> []) \<and>
    length (fp_llm_turns plan) + fp_history_omitted plan + fp_step_omitted plan = length history + length steps \<and>
    (fp_rung plan \<in> {ToolTruncated, StepTurnsSelected} \<longrightarrow> fp_history_omitted plan = length history)"
proof -
  let ?clipped = "fst (shrink_oversized_tool_results I steps budget)"
  have pairs: "paired I steps \<Longrightarrow> paired I ?clipped" using shrink_keeps_pairs [of I False] assms(4) by simp
  note shape = shrink_shape [where I = I and turns = steps and budget = budget]
  have small: "sum_tokens I xs \<le> budget" if "sum_list (token_counts I xs) \<le> budget" for xs
    using that by (simp add: sum_tokens_eq sum_counts_eq)
  show ?thesis
  proof (cases rule: fit_cases [OF assms(1-3) refl refl, where I = I, case_names verbatim history tools steps emergency])
    case verbatim
    then show ?thesis using assms(5) by (auto simp: plan_ok_def sum_tokens_eq sum_counts_eq intro: paired_append)
  next
    case (history j)
    then show ?thesis using assms(5) small by (auto simp: plan_ok_def last_append intro: paired_append)
  next
    case (tools n)
    then show ?thesis using assms(5) small shape pairs by (auto simp: plan_ok_def)
  next
    case (steps n j)
    then have "steps \<noteq> []" by auto
    with steps show ?thesis using assms(5) small shape pairs by (auto simp: plan_ok_def last_drop)
  next
    case (emergency n so)
    then show ?thesis using assms(3,5) by (auto simp: emergency_plan_def as_u32_id Let_def Suc_le_eq)
  qed
qed

subsection \<open>Examples\<close>

text \<open>Items that are a role and a number of tokens; every assistant item has tool requests.\<close>

definition sized_items :: "(compaction_role \<times> nat) item_ops" where
  "sized_items = \<lparr>it_role = fst, it_text = (\<lambda>_. None), it_has_tool_requests = (\<lambda>t. fst t = RoleAssistant), it_is_summary = (\<lambda>_. False),
     it_attachments = (\<lambda>_. []), it_summary_item = (\<lambda>s. (RoleDeveloper, length s)), it_strip_tools = Some,
     it_truncate = (\<lambda>t n. (fst t, min (snd t) n)), it_tokens = snd\<rparr>"

theorem selection_is_best_safe_split_witness:
  "\<exists>p. select_turns_to_compact sized_items [10, 10, 50, 50, 10] [(RoleUser, 10), (RoleAssistant, 10), (RoleTool, 50), (RoleTool, 50), (RoleUser, 10)] 60 5 = Some p \<and>
     sp_split_idx p = 4 \<and> sp_tokens_to_compact p = 120 \<and> paired sized_items (drop (sp_split_idx p) [(RoleUser, 10), (RoleAssistant, 10), (RoleTool, 50), (RoleTool, 50), (RoleUser, 10)])"
proof -
  let ?items = "[(RoleUser, 10), (RoleAssistant, 10), (RoleTool, 50), (RoleTool, 50), (RoleUser, 10)] :: (compaction_role \<times> nat) list"
  have "best_split sized_items [10, 10, 50, 50, 10] ?items 60 = Some 4" by code_simp
  moreover have "paired sized_items ?items" by code_simp
  ultimately show ?thesis
    using selection_is_best_safe_split [of "[10, 10, 50, 50, 10]" ?items 60 sized_items 5] by (auto simp: U32_MAX_def simp del: paired_from.simps)
qed

definition sample_plan :: "(compaction_role \<times> nat) fit_plan" where
  "sample_plan = fit_turns_for_summarizer sized_items [(RoleUser, 50)] [(RoleAssistant, 10), (RoleTool, 500), (RoleUser, 10)] 60"

theorem fitted_input_respects_budget_witness:
  "fp_rung sample_plan = StepTurnsSelected \<and> fp_tokens_fit sample_plan \<le> 60 \<and> paired sized_items (fp_llm_turns sample_plan) \<and>
   fp_history_omitted sample_plan = 1"
proof -
  have rung: "fp_rung sample_plan = StepTurnsSelected" by code_simp
  have "paired sized_items [(RoleUser, 50)]" "paired sized_items [(RoleAssistant, 10), (RoleTool, 500), (RoleUser, 10)]" by code_simp+
  with rung fitted_input_respects_budget [OF _ _ _ _ sample_plan_def] show ?thesis
    by (simp add: U32_MAX_def sized_items_def del: paired_from.simps)
qed

text \<open>Without turns in the running loop a newest turn over the budget leaves nothing to summarise: the first rung has no guard against it.\<close>

lemma oversized_last_turn_empties_plan:
  "fit_turns_for_summarizer sized_items [(RoleUser, 5), (RoleAssistant, 100)] [] 60 =
   \<lparr>fp_llm_turns = [], fp_tokens_raw = 105, fp_tokens_fit = 0, fp_rung = HistoryTurnSelected, fp_items_truncated = 0,
    fp_history_omitted = 2, fp_step_omitted = 0\<rparr>"
  by code_simp

end
