(* ===== verification/Compaction_History.thy ===== *)
theory Compaction_History
  imports Compaction_Select
begin

text \<open>
  What a summary keeps of the conversation it replaces (\<open>packages/agent/xai-grok-compaction/src/history\<close>: \<open>filter.rs\<close>,
  \<open>validate.rs\<close>, \<open>types.rs\<close>): the filters, and the block of the user's queries that is carried from one summary to the next.
\<close>

section \<open>Searching text\<close>

text \<open>\<open>str::find\<close>: the text before the first occurrence and the text after it.\<close>

fun find_split :: "rstr \<Rightarrow> rstr \<Rightarrow> (rstr \<times> rstr) option" where
  "find_split needle [] = (if needle = [] then Some ([], []) else None)"
| "find_split needle (c # s) =
     (if prefix needle (c # s) then Some ([], drop (length needle) (c # s))
      else map_option (\<lambda>(a, b). (c # a, b)) (find_split needle s))"

lemma find_split_parts: "find_split needle s = Some (a, b) \<Longrightarrow> s = a @ needle @ b"
proof (induction s arbitrary: a)
  case (Cons c s)
  then show ?case by (auto simp: prefix_def split: if_splits)
qed (auto split: if_splits)

lemma find_split_None: "\<not> sublist needle s \<Longrightarrow> find_split needle s = None"
proof (induction s)
  case (Cons c s)
  then have "\<not> prefix needle (c # s)" "\<not> sublist needle s" by (auto dest: prefix_imp_sublist intro: sublist_Cons_right [THEN iffD2])
  then show ?case using Cons.IH by simp
qed auto

text \<open>A needle whose first character does not occur in its rest never overlaps itself.\<close>

lemma find_split_first:
  assumes "needle = x # xs" "x \<notin> set xs" "\<not> sublist needle pre"
  shows "find_split needle (pre @ needle @ rest) = Some (pre, rest)"
  using assms(3)
proof (induction pre)
  case Nil
  then show ?case using assms(1) by simp
next
  case (Cons c pre)
  have "\<not> prefix needle (c # pre @ needle @ rest)"
  proof
    assume p: "prefix needle (c # pre @ needle @ rest)"
    show False
    proof (cases "length needle \<le> length (c # pre)")
      case True
      then have "prefix needle (c # pre)" using p by (metis append_Cons prefix_length_prefix prefix_def)
      then show False using Cons.prems prefix_imp_sublist by blast
    next
      case False
      from p obtain zs where zs: "c # pre @ needle @ rest = needle @ zs" by (auto simp: prefix_def)
      have "needle ! length (c # pre) = (needle @ zs) ! length (c # pre)" using False by (simp add: nth_append)
      also have "\<dots> = (c # pre @ needle @ rest) ! length (c # pre)" by (simp only: zs)
      also have "\<dots> = x" using assms(1) by (simp add: nth_append)
      finally have "xs ! length pre = x" "length pre < length xs" using assms(1) False by auto
      then show False using assms(2) nth_mem by blast
    qed
  qed
  moreover have "\<not> sublist needle pre" using Cons.prems by (simp add: sublist_Cons_right)
  ultimately show ?case using Cons.IH by simp
qed

function count_matches :: "rstr \<Rightarrow> rstr \<Rightarrow> nat" where
  "count_matches needle s =
     (if needle = [] then 0 else case find_split needle s of None \<Rightarrow> 0 | Some (_, rest) \<Rightarrow> Suc (count_matches needle rest))"
  by pat_completeness auto
termination
  by (relation "measure (\<lambda>(n, s). length s)") (auto dest: find_split_parts)

declare count_matches.simps [simp del]

section \<open>Filters\<close>

definition keep_turn_for_basic_compaction :: "'t item_ops \<Rightarrow> 't \<Rightarrow> bool" where
  "keep_turn_for_basic_compaction I t =
     (case it_role I t of RoleSystem \<Rightarrow> False | RoleDeveloper \<Rightarrow> it_is_summary I t | _ \<Rightarrow> True)"

definition filter_turns_for_basic :: "'t item_ops \<Rightarrow> 't list \<Rightarrow> 't list" where
  "filter_turns_for_basic I turns = filter (keep_turn_for_basic_compaction I) turns"

definition inter_turn :: "'t item_ops \<Rightarrow> 't \<Rightarrow> 't option" where
  "inter_turn I t =
     (case it_role I t of
        RoleTool \<Rightarrow> None
      | RoleSystem \<Rightarrow> None
      | RoleDeveloper \<Rightarrow> if it_is_summary I t then Some t else None
      | RoleUser \<Rightarrow> Some t
      | RoleAssistant \<Rightarrow> it_strip_tools I t)"

definition filter_turns_for_inter_compaction :: "'t item_ops \<Rightarrow> 't list \<Rightarrow> 't list" where
  "filter_turns_for_inter_compaction I turns = List.map_filter (inter_turn I) turns"

section \<open>Queries of the user\<close>

definition START_TAG :: rstr where "START_TAG = lit ''<grok_user_queries>''"
definition END_TAG :: rstr where "END_TAG = lit ''</grok_user_queries>''"

definition push_rest :: "rstr \<Rightarrow> rstr \<Rightarrow> rstr" where
  "push_rest rest s = (if s = [] then rest else if rest = [] then s else rest @ [newline_ch] @ s)"

function split_loop :: "rstr \<Rightarrow> rstr list \<Rightarrow> rstr \<Rightarrow> rstr list \<times> rstr" where
  "split_loop text sections rest =
     (case find_split START_TAG text of
        None \<Rightarrow> (sections, push_rest rest (trim text))
      | Some (before, after) \<Rightarrow>
          (case find_split END_TAG (START_TAG @ after) of
             None \<Rightarrow> (sections, push_rest rest (trim text))
           | Some (block, text') \<Rightarrow> split_loop text' (sections @ [block @ END_TAG]) (push_rest rest (trim before))))"
  by pat_completeness auto
termination
proof (relation "measure (\<lambda>(t, _). length t)")
  show "wf (measure (\<lambda>(t :: rstr, _ :: rstr list \<times> rstr). length t))" by simp
next
  fix t :: rstr and sections :: "rstr list" and rest x before after y block text'
  assume "find_split START_TAG t = Some x" "(before, after) = x" "find_split END_TAG (START_TAG @ after) = Some y" "(block, text') = y"
  then have "t = before @ START_TAG @ after" "START_TAG @ after = block @ END_TAG @ text'"
    using find_split_parts by metis+
  then show "((text', sections @ [block @ END_TAG], push_rest rest (trim before)), t, sections, rest) \<in> measure (\<lambda>(t, _). length t)"
    by (auto simp: END_TAG_def)
qed

declare split_loop.simps [simp del]

definition split_prior_compaction_text :: "rstr \<Rightarrow> rstr option \<times> rstr" where
  "split_prior_compaction_text text =
     (let (sections, rest) = split_loop text [] []
      in if sections = [] then (None, text) else (Some (join [newline_ch] sections), rest))"

definition truncate_middle :: "rstr \<Rightarrow> nat \<Rightarrow> rstr option" where
  "truncate_middle msg max_chars =
     (if length msg \<le> max_chars then None
      else let front = max_chars div 2; back = max_chars - front
           in Some (take front msg @ lit ''...[truncated]...'' @ drop (length msg - back) msg))"

definition file_line :: "compaction_file_ref \<Rightarrow> rstr" where
  "file_line f = lit ''<grok_file id=\"'' @ fr_id f @ lit ''\" name=\"'' @ fr_name f @ lit ''\" />'' @ [newline_ch]"

definition user_query :: "'t item_ops \<Rightarrow> nat \<Rightarrow> 't \<Rightarrow> rstr" where
  "user_query I threshold t =
     (let text = (case it_text I t of Some s \<Rightarrow> s | None \<Rightarrow> []); files = it_attachments I t
      in if it_role I t \<noteq> RoleUser \<or> text = [] \<and> files = [] then []
         else lit ''<grok_query>'' @ (case truncate_middle text threshold of Some s \<Rightarrow> s | None \<Rightarrow> text) @
           (if files = [] then [] else newline_ch # concat (map file_line files)) @ lit ''</grok_query>'' @ [newline_ch])"

definition extract_user_queries_from_turns :: "'t item_ops \<Rightarrow> 't list \<Rightarrow> nat \<Rightarrow> rstr option" where
  "extract_user_queries_from_turns I turns threshold =
     (let queries = concat (map (user_query I threshold) turns)
      in if queries = [] then None else Some (START_TAG @ [newline_ch] @ queries @ END_TAG))"

record 't separated_turns =
  sep_turns_for_llm :: "'t list"
  sep_prior_user_queries :: "rstr option"
  sep_has_prior_compaction :: bool

definition push_prior :: "rstr option \<Rightarrow> rstr option \<Rightarrow> rstr option" where
  "push_prior prior found =
     (case found of
        None \<Rightarrow> prior
      | Some s \<Rightarrow> (case prior of Some p \<Rightarrow> Some (p @ [newline_ch] @ s) | None \<Rightarrow> Some s))"

definition separate_turn :: "'t item_ops \<Rightarrow> 't \<Rightarrow> 't separated_turns \<Rightarrow> 't separated_turns" where
  "separate_turn I t acc =
     (if it_is_summary I t then
        let (section, rest) = split_prior_compaction_text (case it_text I t of Some s \<Rightarrow> s | None \<Rightarrow> [])
        in acc\<lparr>sep_has_prior_compaction := True, sep_prior_user_queries := push_prior (sep_prior_user_queries acc) section,
               sep_turns_for_llm := (if rest = [] then sep_turns_for_llm acc else sep_turns_for_llm acc @ [it_summary_item I rest])\<rparr>
      else acc\<lparr>sep_turns_for_llm := sep_turns_for_llm acc @ [t]\<rparr>)"

definition separate_prior_user_queries :: "'t item_ops \<Rightarrow> 't list \<Rightarrow> 't separated_turns" where
  "separate_prior_user_queries I turns =
     fold (separate_turn I) turns \<lparr>sep_turns_for_llm = [], sep_prior_user_queries = None, sep_has_prior_compaction = False\<rparr>"

definition extract_prior_user_queries :: "'t item_ops \<Rightarrow> 't list \<Rightarrow> rstr option" where
  "extract_prior_user_queries I turns = sep_prior_user_queries (separate_prior_user_queries I turns)"

definition assemble_user_queries_preamble :: "rstr option \<Rightarrow> rstr option \<Rightarrow> rstr" where
  "assemble_user_queries_preamble prior current =
     (case prior of Some p \<Rightarrow> p @ [newline_ch, newline_ch] | None \<Rightarrow> []) @
     (case current of Some c \<Rightarrow> c @ [newline_ch, newline_ch] | None \<Rightarrow> [])"

definition build_user_queries_preamble :: "'t item_ops \<Rightarrow> 't list \<Rightarrow> rstr option \<Rightarrow> rstr" where
  "build_user_queries_preamble I turns current = assemble_user_queries_preamble (extract_prior_user_queries I turns) current"

definition wrap_chunk_analysis :: "nat \<Rightarrow> rstr \<Rightarrow> rstr" where
  "wrap_chunk_analysis index thinking =
     (if trim thinking = [] then []
      else lit ''<chunk_analysis index=\"'' @ show_nat index @ lit ''\">'' @ [newline_ch] @ trim thinking @ [newline_ch] @
        lit ''</chunk_analysis>'' @ [newline_ch, newline_ch])"

section \<open>Validation\<close>

datatype compaction_strategy = BasicStrategy | DivideAndConquer | FullReplaceStrategy

fun strategy_label :: "compaction_strategy \<Rightarrow> rstr" where
  "strategy_label BasicStrategy = lit ''basic''"
| "strategy_label DivideAndConquer = lit ''divide_and_conquer''"
| "strategy_label FullReplaceStrategy = lit ''full_replace''"

datatype compaction_validation_error = EmptyContent | UnbalancedChunkTags nat nat

definition validate_compaction_text :: "rstr \<Rightarrow> compaction_strategy \<Rightarrow> compaction_validation_error option" where
  "validate_compaction_text text strategy =
     (if trim text = [] then Some EmptyContent
      else if strategy = DivideAndConquer then
        (let opened = count_matches (lit ''<chunk_summary'') text; closed = count_matches (lit ''</chunk_summary>'') text
         in if opened \<noteq> closed then Some (UnbalancedChunkTags opened closed) else None)
      else None)"

section \<open>The queries survive\<close>

text \<open>A block of queries: it runs from the start tag to the first end tag.\<close>

definition user_block :: "rstr \<Rightarrow> bool" where
  "user_block b \<longleftrightarrow>
     suffix END_TAG b \<and> prefix START_TAG (take (length b - length END_TAG) b) \<and> \<not> sublist END_TAG (take (length b - length END_TAG) b)"

lemma user_block_cases:
  assumes "user_block b"
  obtains body where "b = START_TAG @ body @ END_TAG" "\<not> sublist END_TAG (START_TAG @ body)"
proof -
  obtain pre where "b = pre @ END_TAG" using assms by (auto simp: user_block_def suffix_def)
  with assms that show thesis by (auto simp: user_block_def prefix_def)
qed

lemma user_blockI: "prefix START_TAG pre \<Longrightarrow> \<not> sublist END_TAG pre \<Longrightarrow> user_block (pre @ END_TAG)"
  by (simp add: user_block_def suffix_def)

lemma tag_shape: "\<exists>xs. START_TAG = 60 # xs \<and> 60 \<notin> set xs" "\<exists>xs. END_TAG = 60 # xs \<and> 60 \<notin> set xs"
  by (auto simp: START_TAG_def END_TAG_def lit_def)

lemma tag_opens: "60 \<in> set START_TAG" "60 \<in> set END_TAG"
  by (simp_all add: START_TAG_def END_TAG_def lit_def)

lemma no_tag: "60 \<notin> set w \<Longrightarrow> \<not> sublist START_TAG w" "60 \<notin> set w \<Longrightarrow> \<not> sublist END_TAG w"
  using tag_opens set_mono_sublist by blast+

lemma split_loop_block:
  assumes "user_block b" "60 \<notin> set w"
  shows "split_loop (w @ b @ tail) sections rest = split_loop tail (sections @ [b]) (push_rest rest (trim w))"
proof -
  obtain body where b: "b = START_TAG @ body @ END_TAG" "\<not> sublist END_TAG (START_TAG @ body)" using user_block_cases [OF assms(1)] .
  obtain xs ys where tags: "START_TAG = 60 # xs" "60 \<notin> set xs" "END_TAG = 60 # ys" "60 \<notin> set ys" using tag_shape by blast
  have "find_split START_TAG (w @ START_TAG @ body @ END_TAG @ tail) = Some (w, body @ END_TAG @ tail)"
    by (rule find_split_first [OF tags(1,2) no_tag(1) [OF assms(2)]])
  moreover have "find_split END_TAG ((START_TAG @ body) @ END_TAG @ tail) = Some (START_TAG @ body, tail)"
    by (rule find_split_first [OF tags(3,4) b(2)])
  ultimately show ?thesis using b(1) split_loop.simps [of "w @ b @ tail"] by simp
qed

lemma trim_blank: "list_all is_whitespace w \<Longrightarrow> trim (w @ s) = trim s"
  by (induction w) (auto simp: trim_def)

definition blank_lines :: "rstr \<Rightarrow> bool" where
  "blank_lines w \<longleftrightarrow> list_all (\<lambda>c. c = newline_ch) w"

lemma blank_lines_trim: "blank_lines w \<Longrightarrow> trim w = []" "blank_lines w \<Longrightarrow> 60 \<notin> set w" "blank_lines w \<Longrightarrow> trim (w @ s) = trim s"
proof -
  assume w: "blank_lines w"
  then have "list_all is_whitespace w" by (auto simp: blank_lines_def list_all_iff is_whitespace_def)
  then show "trim (w @ s) = trim s" by (rule trim_blank)
  from trim_blank [OF \<open>list_all is_whitespace w\<close>, of "[]"] show "trim w = []" by simp
  show "60 \<notin> set w" using w by (auto simp: blank_lines_def list_all_iff)
qed

lemma split_loop_blocks:
  assumes "\<forall>(w, b)\<in>set wbs. blank_lines w \<and> user_block b"
  shows "split_loop (concat (map (\<lambda>(w, b). w @ b) wbs) @ tail) sections rest = split_loop tail (sections @ map snd wbs) rest"
  using assms
proof (induction wbs arbitrary: sections)
  case (Cons wb wbs)
  obtain w b where wb: "wb = (w, b)" "blank_lines w" "user_block b" using Cons.prems by (cases wb) auto
  then show ?case
    using Cons split_loop_block [OF wb(3) blank_lines_trim(2) [OF wb(2)], of "concat (map (\<lambda>(w, b). w @ b) wbs) @ tail" sections rest]
      blank_lines_trim(1) [OF wb(2)]
    by (simp add: push_rest_def)
qed simp

lemma join_blocks: "join [newline_ch] (b # bs) = concat (map (\<lambda>(w, b). w @ b) (([], b) # map (Pair [newline_ch]) bs))"
  by (induction bs arbitrary: b) auto

text \<open>The block that is extracted from queries without angle brackets is one: it consists of pieces that each open with the only bracket in them.\<close>

definition tame :: "rstr \<Rightarrow> bool" where
  "tame p \<longleftrightarrow> p \<noteq> [] \<and> hd p = 60 \<and> 60 \<notin> set (tl p) \<and> \<not> prefix END_TAG p"

lemma sublist_at_bracket:
  assumes "sublist END_TAG (a @ b)" "b = [] \<or> hd b = 60"
  shows "sublist END_TAG a \<or> sublist END_TAG b"
proof -
  obtain ys where e: "END_TAG = 60 # ys" "60 \<notin> set ys" using tag_shape(2) by blast
  consider "sublist END_TAG a" | "sublist END_TAG b" | xs1 xs2 where "END_TAG = xs1 @ xs2" "suffix xs1 a" "prefix xs2 b"
    using assms(1) unfolding sublist_append by blast
  then show ?thesis
  proof cases
    case 3
    show ?thesis
    proof (cases "xs1 = [] \<or> xs2 = []")
      case True
      then show ?thesis using 3 by (auto dest: prefix_imp_sublist suffix_imp_sublist)
    next
      case False
      then have "hd xs2 = 60" using 3(3) assms(2) by (cases xs2; cases b) auto
      moreover have "60 # ys = xs1 @ xs2" using 3(1) e(1) by simp
      then have "hd xs2 \<in> set ys" using False by (cases xs1; cases xs2) auto
      ultimately show ?thesis using e(2) by simp
    qed
  qed auto
qed

lemma tame_concat:
  assumes "list_all tame ps"
  shows "\<not> sublist END_TAG (concat ps)"
  using assms
proof (induction ps)
  case Nil
  then show ?case using tag_opens(2) by (auto dest: set_mono_sublist)
next
  case (Cons p ps)
  have p: "tame p" and ps: "list_all tame ps" using Cons.prems by auto
  have "\<not> sublist END_TAG p"
  proof
    assume "sublist END_TAG p"
    moreover obtain x xs where x: "p = x # xs" "60 \<notin> set xs" using p by (cases p) (auto simp: tame_def)
    ultimately have "sublist END_TAG xs" using p by (auto simp: tame_def sublist_Cons_right)
    then show False using no_tag(2) [OF x(2)] by simp
  qed
  moreover have "concat ps = [] \<or> hd (concat ps) = 60" using ps by (cases ps) (auto simp: tame_def)
  ultimately show ?case using sublist_at_bracket [of p "concat ps"] Cons.IH [OF ps] by auto
qed

definition query_pieces :: "'t item_ops \<Rightarrow> nat \<Rightarrow> 't \<Rightarrow> rstr list" where
  "query_pieces I threshold t =
     (let text = (case it_text I t of Some s \<Rightarrow> s | None \<Rightarrow> []); files = it_attachments I t
      in if it_role I t \<noteq> RoleUser \<or> text = [] \<and> files = [] then []
         else (lit ''<grok_query>'' @ (case truncate_middle text threshold of Some s \<Rightarrow> s | None \<Rightarrow> text) @ (if files = [] then [] else [newline_ch])) #
           map file_line files @ [lit ''</grok_query>'' @ [newline_ch]])"

definition plain_user :: "'t item_ops \<Rightarrow> 't \<Rightarrow> bool" where
  "plain_user I t \<longleftrightarrow>
     (case it_text I t of Some s \<Rightarrow> 60 \<notin> set s | None \<Rightarrow> True) \<and> (\<forall>f\<in>set (it_attachments I t). 60 \<notin> set (fr_id f) \<and> 60 \<notin> set (fr_name f))"

lemma query_pieces_concat: "concat (query_pieces I threshold t) = user_query I threshold t"
  by (simp add: query_pieces_def user_query_def Let_def)

lemma truncate_middle_set: "truncate_middle s n = Some r \<Longrightarrow> 60 \<notin> set s \<Longrightarrow> 60 \<notin> set r"
  by (auto simp: truncate_middle_def Let_def lit_def dest: in_set_takeD in_set_dropD split: if_splits)

lemma tame_file_line: "60 \<notin> set (fr_id f) \<Longrightarrow> 60 \<notin> set (fr_name f) \<Longrightarrow> tame (file_line f)"
  by (auto simp: tame_def file_line_def lit_def END_TAG_def)

lemma query_pieces_tame: "plain_user I t \<Longrightarrow> list_all tame (query_pieces I threshold t)"
  by (auto simp: query_pieces_def plain_user_def Let_def list_all_iff tame_file_line split: option.splits dest!: truncate_middle_set)
    (auto simp: tame_def lit_def END_TAG_def)

lemma extracted_user_block:
  assumes "extract_user_queries_from_turns I turns threshold = Some b" "\<forall>t\<in>set turns. plain_user I t"
  shows "user_block b"
proof -
  let ?pieces = "(START_TAG @ [newline_ch]) # concat (map (query_pieces I threshold) turns)"
  have "concat (concat (map (query_pieces I threshold) turns)) = concat (map (user_query I threshold) turns)"
    by (induction turns) (simp_all add: query_pieces_concat)
  then have "b = concat ?pieces @ END_TAG"
    using assms(1) by (auto simp: extract_user_queries_from_turns_def Let_def split: if_splits)
  moreover have "list_all tame (concat (map (query_pieces I threshold) turns))"
    using query_pieces_tame assms(2) by (fastforce simp: list_all_iff)
  moreover have "tame (START_TAG @ [newline_ch])" by (auto simp: tame_def START_TAG_def END_TAG_def lit_def)
  ultimately show ?thesis using tame_concat [of ?pieces] user_blockI [of "concat ?pieces"] by simp
qed

text \<open>
  C18. The queries of the user survive a later compaction: when a summary carries the blocks of earlier rounds and at most one of its own,
  then splitting it for the next round gives back exactly these blocks, in order, and the text of the summary alone to be summarised again.
  This holds of blocks that contain the end tag at their end only and of a summary without the start tag: no tag is escaped, and a query
  that quotes the end tag breaks its block (see below).  Blocks extracted from texts without an opening bracket are such blocks.
\<close>

theorem user_queries_survive_recompaction:
  assumes "list_all user_block (prior @ current)" "prior @ current \<noteq> []" "length current \<le> 1" "\<not> sublist START_TAG (newline_ch # newline_ch # summary)"
    "carried = assemble_user_queries_preamble (if prior = [] then None else Some (join [newline_ch] prior)) (case current of [] \<Rightarrow> None | c # _ \<Rightarrow> Some c) @ summary"
  shows "split_prior_compaction_text carried = (Some (join [newline_ch] (prior @ current)), trim summary)"
proof -
  let ?nn = "[newline_ch, newline_ch]"
  obtain wbs where wbs: "\<forall>(w, b)\<in>set wbs. blank_lines w \<and> user_block b" "map snd wbs = prior @ current"
    "carried = concat (map (\<lambda>(w, b). w @ b) wbs) @ ?nn @ summary"
  proof (cases prior)
    case Nil
    then obtain c where "current = [c]" using assms(2,3) by (cases current) auto
    then show thesis using that [of "[([], c)]"] assms(1,5) Nil by (simp add: assemble_user_queries_preamble_def blank_lines_def)
  next
    case (Cons p ps)
    let ?wbs = "([], p) # map (Pair [newline_ch]) ps @ map (Pair ?nn) current"
    have "\<forall>(w, b)\<in>set ?wbs. blank_lines w \<and> user_block b"
      using assms(1) Cons by (auto simp: blank_lines_def list_all_iff)
    moreover have "map snd ?wbs = prior @ current" using Cons by (simp add: comp_def)
    moreover have "carried = concat (map (\<lambda>(w, b). w @ b) ?wbs) @ ?nn @ summary"
      using assms(3,5) join_blocks [of p ps] Cons by (cases current) (auto simp: assemble_user_queries_preamble_def)
    ultimately show thesis by (rule that)
  qed
  have "split_loop (?nn @ summary) sections [] = (sections, trim summary)" for sections
    using find_split_None [OF assms(4)] blank_lines_trim(3) [of ?nn summary]
    by (subst split_loop.simps) (simp add: push_rest_def blank_lines_def)
  then have "split_loop carried [] [] = (prior @ current, trim summary)"
    using split_loop_blocks [OF wbs(1), of "?nn @ summary" "[]" "[]"] wbs(2,3) by simp
  then show ?thesis using assms(2) by (simp add: split_prior_compaction_text_def)
qed

theorem user_queries_survive_recompaction_witness:
  "split_prior_compaction_text (START_TAG @ lit ''a'' @ END_TAG @ [newline_ch, newline_ch] @ START_TAG @ lit ''b'' @ END_TAG @ [newline_ch, newline_ch] @ lit '' Summary'') =
   (Some (START_TAG @ lit ''a'' @ END_TAG @ [newline_ch] @ START_TAG @ lit ''b'' @ END_TAG), lit ''Summary'')"
proof -
  let ?a = "START_TAG @ lit ''a'' @ END_TAG" and ?b = "START_TAG @ lit ''b'' @ END_TAG"
  have "user_block ?a" "user_block ?b" "\<not> sublist START_TAG (newline_ch # newline_ch # lit '' Summary'')" by code_simp+
  moreover have "trim (lit '' Summary'') = lit ''Summary''" by code_simp
  ultimately show ?thesis
    using user_queries_survive_recompaction [of "[?a]" "[?b]" "lit '' Summary''", OF _ _ _ _ refl] by (simp add: assemble_user_queries_preamble_def)
qed

subsection \<open>A query that quotes the end tag\<close>

definition spoken_items :: "(compaction_role \<times> rstr) item_ops" where
  "spoken_items = \<lparr>it_role = fst, it_text = (\<lambda>t. Some (snd t)), it_has_tool_requests = (\<lambda>_. False), it_is_summary = (\<lambda>t. fst t = RoleDeveloper),
     it_attachments = (\<lambda>_. []), it_summary_item = Pair RoleDeveloper, it_strip_tools = Some, it_truncate = (\<lambda>t _. t), it_tokens = (\<lambda>t. length (snd t))\<rparr>"

text \<open>The text is not escaped: the queries after the quoted tag leave the block and are summarised as part of the summary.\<close>

lemma quoted_end_tag_leaks:
  "case extract_user_queries_from_turns spoken_items [(RoleUser, lit ''a</grok_user_queries>b''), (RoleUser, lit ''c'')] 100 of
     None \<Rightarrow> False
   | Some b \<Rightarrow> split_prior_compaction_text (assemble_user_queries_preamble None (Some b) @ lit ''s'') =
       (Some (START_TAG @ [newline_ch] @ lit ''<grok_query>a</grok_user_queries>''),
        lit ''b</grok_query>'' @ [newline_ch] @ lit ''<grok_query>c</grok_query>'' @ [newline_ch] @ lit ''</grok_user_queries>'' @ [newline_ch, newline_ch] @ lit ''s'')"
  by code_simp

end
