(* ===== verification/Compaction_Summary.thy ===== *)
theory Compaction_Summary
  imports Compaction_History
begin

text \<open>
  Sampling a summary and cleaning it (\<open>packages/agent/xai-grok-compaction/src\<close>: \<open>code_compaction/summary.rs\<close>,
  \<open>failure.rs\<close>, \<open>sample.rs\<close>, \<open>assemble.rs\<close>, \<open>compact.rs\<close>, \<open>prompt.rs\<close>, \<open>sampler.rs\<close>, \<open>reminder.rs\<close>).

  The model is a function of its input and its own state; the clock, the delay between attempts and the metrics are left out, the
  template of the prompt is a parameter.
\<close>

section \<open>Text\<close>

fun rfind_split :: "rstr \<Rightarrow> rstr \<Rightarrow> (rstr \<times> rstr) option" where
  "rfind_split needle [] = (if needle = [] then Some ([], []) else None)"
| "rfind_split needle (c # s) =
     (case rfind_split needle s of
        Some (a, b) \<Rightarrow> Some (c # a, b)
      | None \<Rightarrow> if prefix needle (c # s) then Some ([], drop (length needle) (c # s)) else None)"

definition str_contains_text :: "rstr \<Rightarrow> rstr \<Rightarrow> bool" where
  "str_contains_text s needle = sublist needle s"

definition ANALYSIS_OPEN :: rstr where "ANALYSIS_OPEN = lit ''<analysis>''"
definition ANALYSIS_CLOSE :: rstr where "ANALYSIS_CLOSE = lit ''</analysis>''"
definition SUMMARY_OPEN :: rstr where "SUMMARY_OPEN = lit ''<summary>''"
definition SUMMARY_CLOSE :: rstr where "SUMMARY_CLOSE = lit ''</summary>''"

section \<open>Cleaning a summary\<close>

text \<open>Whether the drafting block after \<open>pre\<close> leads the text.\<close>

definition analysis_is_leading :: "rstr \<Rightarrow> rstr \<Rightarrow> bool" where
  "analysis_is_leading s pre =
     (case find_split SUMMARY_OPEN s of
        Some (before, _) \<Rightarrow> length pre < length before \<or> trim (drop (length before + length SUMMARY_OPEN) pre) = []
      | None \<Rightarrow> trim pre = [])"

function strip_leading_analysis :: "rstr \<Rightarrow> rstr" where
  "strip_leading_analysis s =
     (case find_split ANALYSIS_OPEN s of
        None \<Rightarrow> s
      | Some (pre, post) \<Rightarrow>
          if \<not> analysis_is_leading s pre then s
          else case find_split ANALYSIS_CLOSE (ANALYSIS_OPEN @ post) of
              Some (_, rest) \<Rightarrow> strip_leading_analysis (pre @ rest)
            | None \<Rightarrow>
                (case find_split SUMMARY_OPEN (ANALYSIS_OPEN @ post) of
                   Some (_, rest) \<Rightarrow> pre @ SUMMARY_OPEN @ rest
                 | None \<Rightarrow> pre))"
  by pat_completeness auto
termination
proof (relation "measure length")
  fix s x pre post y a rest
  assume "find_split ANALYSIS_OPEN s = Some x" "(pre, post) = x" "find_split ANALYSIS_CLOSE (ANALYSIS_OPEN @ post) = Some y" "(a, rest) = y"
  then have "s = pre @ ANALYSIS_OPEN @ post" "ANALYSIS_OPEN @ post = a @ ANALYSIS_CLOSE @ rest"
    using find_split_parts by metis+
  then have "length (pre @ rest) < length s" by (simp add: ANALYSIS_CLOSE_def)
  then show "(pre @ rest, s) \<in> measure length" by simp
qed simp

declare strip_leading_analysis.simps [simp del]

definition strip_leading_scratchpad :: "rstr \<Rightarrow> rstr" where
  "strip_leading_scratchpad inner =
     (let s = trim inner;
          lead = dropWhile (\<lambda>c. c \<in> set (lit ''#*-> '') \<or> c = 9) s;
          s = (if lead \<noteq> [] \<and> is_ascii_digit (hd lead) then s
               else case rfind_split ANALYSIS_CLOSE s of Some (_, rest) \<Rightarrow> trim_start rest | None \<Rightarrow> s)
      in case strip_prefix s SUMMARY_OPEN of Some rest \<Rightarrow> trim_start rest | None \<Rightarrow> s)"

definition zero_width :: uchar where "zero_width = 8203"

definition defused :: "string \<Rightarrow> rstr \<Rightarrow> rstr" where
  "defused name s = str_replace (60 # lit name) (60 # zero_width # lit name) s"

definition neutralize_compaction_control_tokens :: "rstr \<Rightarrow> rstr" where
  "neutralize_compaction_control_tokens s =
     defused ''summary_request>'' (defused ''/summary_request>'' (defused ''analysis>'' (defused ''/analysis>''
       (defused ''summary>'' (defused ''/summary>'' s)))))"

definition unwrap_summary :: "rstr \<Rightarrow> rstr" where
  "unwrap_summary s =
     (case (find_split SUMMARY_OPEN s, rfind_split SUMMARY_CLOSE s) of
        (Some (before, _), Some (until, after)) \<Rightarrow>
          if length until > length before then
            before @ lit ''Summary:'' @ [newline_ch] @ strip_leading_scratchpad (trim (drop (length before + length SUMMARY_OPEN) until)) @ after
          else s
      | _ \<Rightarrow> s)"

lemma str_replace_length: "length t \<le> length f \<Longrightarrow> length (str_replace f t s) \<le> length s"
proof (induction f t s rule: str_replace.induct)
  case (1 f t s)
  show ?case
  proof (cases s)
    case (Cons x xs)
    show ?thesis
    proof (cases "f \<noteq> [] \<and> prefix f s")
      case True
      then have "length (str_replace f t (drop (length f) s)) \<le> length s - length f" using 1 Cons by simp
      moreover have "length f \<le> length s" using True prefix_length_le by blast
      ultimately show ?thesis using 1(3) Cons True by (subst str_replace.simps) simp
    next
      case False
      then show ?thesis using 1 Cons by (subst str_replace.simps) auto
    qed
  qed simp
qed

lemma str_replace_shorter:
  assumes "length t < length f" "sublist f s"
  shows "length (str_replace f t s) < length s"
  using assms(2)
proof (induction s)
  case Nil
  then show ?case using assms(1) by auto
next
  case (Cons x xs)
  show ?case
  proof (cases "prefix f (x # xs)")
    case True
    have "length (str_replace f t (drop (length f) (x # xs))) \<le> length (x # xs) - length f"
      using str_replace_length [of t f "drop (length f) (x # xs)"] assms(1) by simp
    moreover have "length f \<le> length (x # xs)" using True prefix_length_le by blast
    ultimately show ?thesis using True assms(1) by (subst str_replace.simps) auto
  next
    case False
    then show ?thesis using Cons by (subst str_replace.simps) (auto simp: sublist_Cons_right)
  qed
qed

abbreviation three_lines :: rstr where "three_lines \<equiv> [newline_ch, newline_ch, newline_ch]"

function collapse_lines :: "rstr \<Rightarrow> rstr" where
  "collapse_lines s = (if sublist three_lines s then collapse_lines (str_replace three_lines [newline_ch, newline_ch] s) else s)"
  by pat_completeness auto
termination
  by (relation "measure length") (auto intro: str_replace_shorter)

declare collapse_lines.simps [simp del]

definition format_compact_summary :: "rstr \<Rightarrow> rstr" where
  "format_compact_summary summary =
     trim (collapse_lines (neutralize_compaction_control_tokens (unwrap_summary (strip_leading_analysis summary))))"

definition MIN_SUMMARY_SEED_CHARS :: nat where "MIN_SUMMARY_SEED_CHARS = 500"

definition is_degenerate_summary :: "rstr \<Rightarrow> bool" where
  "is_degenerate_summary raw \<longleftrightarrow> length (format_compact_summary raw) < MIN_SUMMARY_SEED_CHARS"

definition format_compact_summary_content :: "rstr \<Rightarrow> rstr" where
  "format_compact_summary_content raw =
     lit ''This session is being continued from a previous conversation that ran out of context. The summary below covers the earlier portion of the conversation.'' @
     [newline_ch, newline_ch] @ format_compact_summary raw"

definition wrap_user_query :: "rstr \<Rightarrow> rstr" where
  "wrap_user_query s = lit ''<user_query>'' @ [newline_ch] @ s @ [newline_ch] @ lit ''</user_query>''"

subsection \<open>A cleaned summary is inert\<close>

text \<open>A tag occurs exactly where a piece after an angle bracket begins with its name.\<close>

lemma prefix_first_piece: "c \<notin> set xs \<Longrightarrow> prefix xs s \<longleftrightarrow> prefix xs (hd (split_on c s))"
proof (induction s arbitrary: xs)
  case (Cons x s)
  then show ?case by (cases xs) (auto split: list.splits)
qed simp

lemma tag_iff_piece:
  assumes "c \<notin> set xs"
  shows "sublist (c # xs) s \<longleftrightarrow> (\<exists>p\<in>set (tl (split_on c s)). prefix xs p)"
proof (induction s)
  case (Cons x s)
  show ?case
  proof (cases "x = c")
    case True
    have "(\<exists>p\<in>set (split_on c s). prefix xs p) \<longleftrightarrow> prefix xs (hd (split_on c s)) \<or> (\<exists>p\<in>set (tl (split_on c s)). prefix xs p)"
      by (cases "split_on c s") auto
    then show ?thesis using True Cons prefix_first_piece [OF assms, of s] by (simp add: sublist_Cons_right)
  next
    case False
    then show ?thesis using Cons by (simp add: sublist_Cons_right split: list.splits)
  qed
qed simp

definition defuse_piece :: "rstr \<Rightarrow> rstr \<Rightarrow> rstr" where
  "defuse_piece xs p = (if prefix xs p then zero_width # p else p)"

lemma hd_split_append: "c \<notin> set xs \<Longrightarrow> split_on c (xs @ r) = (xs @ hd (split_on c r)) # tl (split_on c r)"
  by (induction xs) auto

lemma defused_pieces:
  assumes "60 \<notin> set xs"
  shows "split_on 60 (str_replace (60 # xs) (60 # zero_width # xs) s) =
    hd (split_on 60 s) # map (defuse_piece xs) (tl (split_on 60 s))"
proof (induction "60 # xs" "60 # zero_width # xs" s rule: str_replace.induct)
  case (1 s)
  show ?case
  proof (cases s)
    case (Cons x r)
    show ?thesis
    proof (cases "prefix (60 # xs) s")
      case True
      then obtain t where t: "s = 60 # xs @ t" by (auto simp: prefix_def)
      have "split_on 60 (str_replace (60 # xs) (60 # zero_width # xs) t) = hd (split_on 60 t) # map (defuse_piece xs) (tl (split_on 60 t))"
        using 1(1) [OF Cons] True t by simp
      moreover have "str_replace (60 # xs) (60 # zero_width # xs) s = 60 # zero_width # xs @ str_replace (60 # xs) (60 # zero_width # xs) t"
        using True t by (subst str_replace.simps) simp
      moreover have "60 \<notin> set (zero_width # xs)" using assms by (simp add: zero_width_def)
      ultimately show ?thesis
        using t assms hd_split_append [of 60 "zero_width # xs"] hd_split_append [of 60 xs t] by (simp add: defuse_piece_def del: split_on.simps(2)) (simp add: defuse_piece_def)
    next
      case False
      have r: "str_replace (60 # xs) (60 # zero_width # xs) s = x # str_replace (60 # xs) (60 # zero_width # xs) r"
        using False Cons by (subst str_replace.simps) auto
      have ih: "split_on 60 (str_replace (60 # xs) (60 # zero_width # xs) r) = hd (split_on 60 r) # map (defuse_piece xs) (tl (split_on 60 r))"
        using 1(2) [OF Cons] False by simp
      show ?thesis
      proof (cases "x = 60")
        case True
        then have "\<not> prefix xs (hd (split_on 60 r))" using False Cons prefix_first_piece [OF assms, of r] by simp
        then have "defuse_piece xs (hd (split_on 60 r)) = hd (split_on 60 r)" by (simp add: defuse_piece_def)
        then show ?thesis using r ih Cons True by (cases "split_on 60 r") auto
      next
        case False
        then show ?thesis using r ih Cons by (cases "split_on 60 r") auto
      qed
    qed
  qed simp
qed

lemma defused_tags:
  assumes "60 \<notin> set (lit name)" "60 \<notin> set xs" "xs \<noteq> []" "zero_width \<notin> set xs"
  shows "sublist (60 # xs) (defused name s) \<Longrightarrow> sublist (60 # xs) s \<and> xs \<noteq> lit name"
proof -
  have "\<not> prefix xs (zero_width # p)" for p using assms(3,4) by (cases xs) auto
  then show "sublist (60 # xs) (defused name s) \<Longrightarrow> sublist (60 # xs) s \<and> xs \<noteq> lit name"
    unfolding tag_iff_piece [OF assms(2)] defused_def by (auto simp: defused_pieces [OF assms(1)] defuse_piece_def split: if_splits)
qed

text \<open>Removing blank lines joins no text.\<close>

lemma line_sublist: "p \<in> set (split_on c s) \<Longrightarrow> sublist p s"
proof (induction s arbitrary: p)
  case (Cons x s)
  have first: "prefix (hd (split_on c s)) s" for s by (induction s) (auto split: list.splits)
  show ?case
  proof (cases "x = c \<or> p \<in> set (tl (split_on c s))")
    case True
    then have "p = [] \<or> p \<in> set (split_on c s)" using Cons.prems by (cases "split_on c s") (auto split: if_splits)
    then show ?thesis using Cons.IH by (auto simp: sublist_Cons_right)
  next
    case False
    then have "p = x # hd (split_on c s)" using Cons.prems by (cases "split_on c s") auto
    then show ?thesis using first [of s] by (simp add: prefix_imp_sublist)
  qed
qed simp

lemma sublist_in_line:
  assumes "c \<notin> set t" "sublist t s"
  shows "\<exists>p\<in>set (split_on c s). sublist t p"
  using assms(2)
proof (induction s)
  case (Cons x s)
  from Cons.prems consider "prefix t (x # s)" | "sublist t s" by (auto simp: sublist_Cons_right)
  then show ?case
  proof cases
    case 1
    then have "prefix t (hd (split_on c (x # s)))" using prefix_first_piece [OF assms(1)] by blast
    moreover have "hd (split_on c (x # s)) \<in> set (split_on c (x # s))" by (rule hd_in_set [OF split_on_not_Nil])
    ultimately show ?thesis using prefix_imp_sublist by blast
  next
    case 2
    then obtain p where "p \<in> set (split_on c s)" "sublist t p" using Cons.IH by blast
    then show ?thesis by (cases "split_on c s") (auto simp: sublist_Cons_right)
  qed
qed simp

lemma collapse_step_lines:
  "hd (split_on newline_ch (str_replace three_lines [newline_ch, newline_ch] s)) = hd (split_on newline_ch s) \<and>
   set (tl (split_on newline_ch (str_replace three_lines [newline_ch, newline_ch] s))) \<subseteq> set (tl (split_on newline_ch s))"
proof (induction three_lines "[newline_ch, newline_ch]" s rule: str_replace.induct)
  case (1 s)
  show ?case
  proof (cases s)
    case (Cons x r)
    show ?thesis
    proof (cases "prefix three_lines s")
      case True
      then obtain t where t: "s = three_lines @ t" by (auto simp: prefix_def)
      have "str_replace three_lines [newline_ch, newline_ch] s = [newline_ch, newline_ch] @ str_replace three_lines [newline_ch, newline_ch] t"
        using t by (subst str_replace.simps) simp
      moreover have "hd (split_on newline_ch (str_replace three_lines [newline_ch, newline_ch] t)) = hd (split_on newline_ch t) \<and>
         set (tl (split_on newline_ch (str_replace three_lines [newline_ch, newline_ch] t))) \<subseteq> set (tl (split_on newline_ch t))"
        using 1(1) [OF Cons] True t by simp
      ultimately show ?thesis
        using t by (cases "split_on newline_ch t"; cases "split_on newline_ch (str_replace three_lines [newline_ch, newline_ch] t)") auto
    next
      case False
      have "str_replace three_lines [newline_ch, newline_ch] s = x # str_replace three_lines [newline_ch, newline_ch] r"
        using False Cons by (subst str_replace.simps) auto
      moreover have "hd (split_on newline_ch (str_replace three_lines [newline_ch, newline_ch] r)) = hd (split_on newline_ch r) \<and>
         set (tl (split_on newline_ch (str_replace three_lines [newline_ch, newline_ch] r))) \<subseteq> set (tl (split_on newline_ch r))"
        using 1(2) [OF Cons] False by simp
      ultimately show ?thesis
        using Cons by (cases "split_on newline_ch r"; cases "split_on newline_ch (str_replace three_lines [newline_ch, newline_ch] r)") auto
    qed
  qed simp
qed

lemma collapse_keeps_out:
  assumes "newline_ch \<notin> set t" "\<not> sublist t s"
  shows "\<not> sublist t (collapse_lines s)"
  using assms(2)
proof (induction s rule: collapse_lines.induct)
  case (1 s)
  let ?s = "str_replace three_lines [newline_ch, newline_ch] s"
  have "set (split_on newline_ch ?s) \<subseteq> set (split_on newline_ch s)"
    using collapse_step_lines [of s] by (cases "split_on newline_ch ?s"; cases "split_on newline_ch s") auto
  then have "\<not> sublist t ?s"
    using sublist_in_line [OF assms(1), of ?s] line_sublist [of _ newline_ch s] 1(2) by (meson sublist_order.order_trans subsetD)
  then show ?case using 1 by (subst collapse_lines.simps) auto
qed

lemma trim_sublist: "sublist (trim s) s"
proof -
  have "suffix (trim_start s) s" by (simp add: trim_start_def suffix_dropWhile)
  moreover have "prefix (trim_end r) r" for r :: rstr
    by (simp add: trim_end_def trim_end_matches_def) (metis rev_rev_ident suffix_dropWhile suffix_to_prefix)
  ultimately show ?thesis unfolding trim_def by (meson prefix_imp_sublist suffix_imp_sublist sublist_order.order_trans)
qed

definition tag_names :: "string list" where
  "tag_names = [''/summary>'', ''summary>'', ''/analysis>'', ''analysis>'', ''/summary_request>'', ''summary_request>'']"

definition control_tokens :: "rstr list" where
  "control_tokens = map (\<lambda>name. 60 # lit name) tag_names"

lemma tag_names_plain:
  "n \<in> set tag_names \<Longrightarrow> 60 \<notin> set (lit n) \<and> zero_width \<notin> set (lit n) \<and> newline_ch \<notin> set (lit n) \<and> lit n \<noteq> []"
  by (auto simp: tag_names_def lit_def zero_width_def)

lemma defused_all:
  assumes "name \<in> set tag_names" "sublist (60 # lit name) (fold defused ns s)" "set ns \<subseteq> set tag_names"
  shows "sublist (60 # lit name) s \<and> name \<notin> set ns"
  using assms(2,3)
proof (induction ns arbitrary: s)
  case (Cons n ns)
  then have "sublist (60 # lit name) (defused n s)" "name \<notin> set ns" by auto
  then show ?case
    using defused_tags [of n "lit name" s] tag_names_plain [of n] tag_names_plain [OF assms(1)] Cons.prems(2) by auto
qed simp

text \<open>
  C30. A cleaned summary is inert: whatever the model answers, its cleaning ends and the text that seeds the next turn contains none of
  the tags by which a summary is requested, delimited or drafted.
\<close>

theorem cleaned_summary_is_inert: "list_all (\<lambda>token. \<not> sublist token (format_compact_summary raw)) control_tokens"
  unfolding list_all_iff
proof
  fix token
  assume "token \<in> set control_tokens"
  then obtain name where name: "token = 60 # lit name" "name \<in> set tag_names" by (auto simp: control_tokens_def)
  have "neutralize_compaction_control_tokens s = fold defused tag_names s" for s by (simp add: neutralize_compaction_control_tokens_def tag_names_def)
  then have "\<not> sublist token (neutralize_compaction_control_tokens s)" for s
    using defused_all [OF name(2), of tag_names s] name by auto
  moreover have "newline_ch \<notin> set token" using tag_names_plain [OF name(2)] name(1) by simp
  ultimately show "\<not> sublist token (format_compact_summary raw)"
    unfolding format_compact_summary_def using collapse_keeps_out trim_sublist sublist_order.order_trans by blast
qed

section \<open>Failures\<close>

function split_by :: "rstr \<Rightarrow> rstr \<Rightarrow> rstr list" where
  "split_by sep s =
     (if sep = [] then [s] else case find_split sep s of None \<Rightarrow> [s] | Some (a, b) \<Rightarrow> a # split_by sep b)"
  by pat_completeness auto
termination
  by (relation "measure (\<lambda>(n, s). length s)") (auto dest: find_split_parts)

declare split_by.simps [simp del]

definition is_anchored :: "rstr \<Rightarrow> rstr \<Rightarrow> bool" where
  "is_anchored m needle = list_ex (\<lambda>segment. starts_with segment needle) (split_by (lit '': '') m)"

definition has_size_slug :: "rstr \<Rightarrow> bool" where
  "has_size_slug m =
     list_ex (is_anchored m) [lit ''context_length_exceeded'', lit ''exceed_context_size_error'', lit ''payload_too_large'']"

definition has_rendered_413_phrase :: "rstr \<Rightarrow> bool" where
  "has_rendered_413_phrase m =
     list_ex (str_contains_text m) [lit ''413 payload too large'', lit ''413 content too large'', lit ''413 request entity too large'']"

definition has_input_length_pair :: "rstr \<Rightarrow> bool" where
  "has_input_length_pair m \<longleftrightarrow>
     str_contains_text m (lit ''input length'') \<and> str_contains_text m (lit ''exceeds the maximum allowed length'')"

definition is_context_length_error :: "rstr \<Rightarrow> bool" where
  "is_context_length_error message =
     (let m = to_ascii_lowercase message
      in list_ex (str_contains_text m)
           [lit ''too long for this model'', lit ''prompt is too long'', lit ''maximum prompt length'', lit ''maximum context length'',
            lit ''maximum allowed number of bytes''] \<or>
         (str_contains_text m (lit ''current message'') \<and> str_contains_text m (lit ''exceeds budget'')) \<or>
         is_anchored m (lit ''request too large'') \<or> has_size_slug m \<or> has_rendered_413_phrase m \<or> has_input_length_pair m)"

section \<open>The sampler\<close>

record llm_output =
  llm_response :: rstr
  llm_thinking :: rstr

datatype compaction_sample_error =
    SampleTimeout nat nat | SampleBuild rstr | SampleStart rstr | SampleEmptyResponse | SampleContextOverflow rstr | SampleOther rstr

fun sample_error_text :: "compaction_sample_error \<Rightarrow> rstr" where
  "sample_error_text (SampleTimeout timeout collected) =
     lit ''Compaction sampling timed out after '' @ show_nat timeout @ lit ''s (collected '' @ show_nat collected @ lit '' bytes so far)''"
| "sample_error_text (SampleBuild msg) = lit ''Compaction sampler build failed: '' @ msg"
| "sample_error_text (SampleStart msg) = lit ''Compaction sampler start failed: '' @ msg"
| "sample_error_text SampleEmptyResponse = lit ''Compaction sampler returned no response channel content''"
| "sample_error_text (SampleContextOverflow msg) = msg"
| "sample_error_text (SampleOther msg) = msg"

fun is_deterministic :: "compaction_sample_error \<Rightarrow> bool" where
  "is_deterministic (SampleTimeout _ _) = False"
| "is_deterministic SampleEmptyResponse = False"
| "is_deterministic (SampleBuild _) = True"
| "is_deterministic (SampleStart _) = True"
| "is_deterministic (SampleContextOverflow _) = True"
| "is_deterministic (SampleOther msg) =
     (str_contains_text msg (lit ''Failed to build AgenticScheduler'') \<or> str_contains_text msg (lit ''Failed to start compaction sample''))"

fun is_context_overflow :: "compaction_sample_error \<Rightarrow> bool" where
  "is_context_overflow (SampleContextOverflow _) = True"
| "is_context_overflow _ = False"

record compaction_prompt =
  cp_system :: rstr
  cp_user :: rstr

type_synonym ('t, 's) sampler = "'t list \<Rightarrow> compaction_prompt \<Rightarrow> nat \<Rightarrow> 's \<Rightarrow> (compaction_sample_error + llm_output) \<times> 's"

record sampled_summary =
  ss_summary :: rstr
  ss_attempts :: nat

datatype sample_retry_error = RetryEmpty nat | RetryFailure rstr bool bool nat

text \<open>The attempts from \<open>attempt\<close> on; \<open>left\<close> is how many may follow it.\<close>

fun sample_attempts :: "('t, 's) sampler \<Rightarrow> 't list \<Rightarrow> compaction_prompt \<Rightarrow> nat \<Rightarrow> nat \<Rightarrow> nat \<Rightarrow> 's \<Rightarrow> (sample_retry_error + sampled_summary) \<times> 's" where
  "sample_attempts sampler turns prompt timeout attempt left s =
     (let (result, s') = sampler turns prompt timeout s;
          again = (\<lambda>failure. case left of 0 \<Rightarrow> (Inl failure, s') | Suc k \<Rightarrow> sample_attempts sampler turns prompt timeout (Suc attempt) k s')
      in case result of
           Inr output \<Rightarrow>
             if trim (llm_response output) = [] \<or> is_degenerate_summary (llm_response output) then again (RetryEmpty attempt)
             else (Inr \<lparr>ss_summary = llm_response output, ss_attempts = attempt\<rparr>, s')
         | Inl e \<Rightarrow>
             let message = sample_error_text e;
                 overflow = (is_context_overflow e \<or> is_context_length_error message);
                 deterministic = (is_deterministic e \<or> overflow)
             in if deterministic then (Inl (RetryFailure message True overflow attempt), s')
                else again (RetryFailure message False False attempt))"

declare sample_attempts.simps [simp del]

definition sample_summary_with_retries :: "('t, 's) sampler \<Rightarrow> 't list \<Rightarrow> compaction_prompt \<Rightarrow> nat \<Rightarrow> nat \<Rightarrow> 's \<Rightarrow>
    (sample_retry_error + sampled_summary) \<times> 's" where
  "sample_summary_with_retries sampler turns prompt max_attempts timeout s =
     sample_attempts sampler turns prompt timeout 1 (max max_attempts 1 - 1) s"

section \<open>When sampling stops\<close>

text \<open>
  The replies of a sampler to the first \<open>n\<close> calls with the same request, and its state after them.  A reply is transient when
  the loop may ask again after it: an empty or degenerate summary, or an error that another try may not meet.
\<close>

primrec replies :: "('s \<Rightarrow> 'r \<times> 's) \<Rightarrow> nat \<Rightarrow> 's \<Rightarrow> 'r list" where
  "replies call 0 s = []"
| "replies call (Suc n) s = fst (call s) # replies call n (snd (call s))"

primrec after_calls :: "('s \<Rightarrow> 'r \<times> 's) \<Rightarrow> nat \<Rightarrow> 's \<Rightarrow> 's" where
  "after_calls call 0 s = s"
| "after_calls call (Suc n) s = after_calls call n (snd (call s))"

definition usable :: "rstr \<Rightarrow> bool" where
  "usable summary \<longleftrightarrow> trim summary \<noteq> [] \<and> \<not> is_degenerate_summary summary"

definition overflowed :: "compaction_sample_error \<Rightarrow> bool" where
  "overflowed e \<longleftrightarrow> is_context_overflow e \<or> is_context_length_error (sample_error_text e)"

definition transient_reply :: "compaction_sample_error + llm_output \<Rightarrow> bool" where
  "transient_reply r = (case r of Inr output \<Rightarrow> \<not> usable (llm_response output) | Inl e \<Rightarrow> \<not> is_deterministic e \<and> \<not> overflowed e)"

definition verdict :: "nat \<Rightarrow> compaction_sample_error + llm_output \<Rightarrow> sample_retry_error + sampled_summary" where
  "verdict attempts r =
     (case r of
        Inr output \<Rightarrow>
          if usable (llm_response output) then Inr \<lparr>ss_summary = llm_response output, ss_attempts = attempts\<rparr>
          else Inl (RetryEmpty attempts)
      | Inl e \<Rightarrow> Inl (RetryFailure (sample_error_text e) (is_deterministic e \<or> overflowed e) (overflowed e) attempts))"

lemma length_replies [simp]: "length (replies call n s) = n"
  by (induction n arbitrary: s) simp_all

text \<open>
  A loop that calls again while the reply is transient and attempts are left.  Both summarizers retry this way, so what follows from the
  step equation is proved once.
\<close>

locale bounded_retry =
  fixes call :: "'s \<Rightarrow> 'r \<times> 's"
    and transient :: "'r \<Rightarrow> bool"
    and outcome :: "nat \<Rightarrow> 'r \<Rightarrow> 'a"
    and attempts :: "nat \<Rightarrow> nat \<Rightarrow> 's \<Rightarrow> 'a \<times> 's"
  assumes attempts_step: "attempts n left s =
    (let (r, s') = call s in if transient r \<and> left \<noteq> 0 then attempts (Suc n) (left - 1) s' else (outcome n r, s'))"
begin

lemma attempts_replies:
  "attempts n left s =
    (let k = length (takeWhile transient (replies call left s))
     in (outcome (n + k) (replies call (Suc left) s ! k), after_calls call (Suc k) s))"
proof (induction left arbitrary: n s)
  case 0
  then show ?case by (subst attempts_step) (simp split: prod.split)
next
  case (Suc left)
  then show ?case by (subst attempts_step) (simp add: Let_def split: prod.split)
qed

end

interpretation shared: bounded_retry "sampler turns prompt timeout" transient_reply verdict "sample_attempts sampler turns prompt timeout"
  for sampler :: "('t, 's) sampler" and turns prompt timeout
proof
  fix n left s
  show "sample_attempts sampler turns prompt timeout n left s =
    (let (r, s') = sampler turns prompt timeout s
     in if transient_reply r \<and> left \<noteq> 0 then sample_attempts sampler turns prompt timeout (Suc n) (left - 1) s' else (verdict n r, s'))"
    by (subst sample_attempts.simps)
      (auto simp: transient_reply_def verdict_def usable_def overflowed_def Let_def split: sum.splits prod.splits nat.splits)
qed

text \<open>
  C17.  The bounded retry loop is a search over the sampler's replies: it calls the sampler until the first reply that is not
  transient and at most \<open>max 1 max_attempts\<close> times, never again after a usable summary or a deterministic failure, and its
  outcome and its attempt count are those of the last reply it asked for.  In particular no empty or degenerate summary is returned.
\<close>
theorem sampling_stops_at_first_decisive_reply:
  "sample_summary_with_retries sampler turns prompt max_attempts timeout s =
     (let call = sampler turns prompt timeout;
          n = length (takeWhile transient_reply (replies call (max max_attempts 1 - 1) s))
      in (verdict (Suc n) (replies call (max max_attempts 1) s ! n), after_calls call (Suc n) s))"
proof -
  have "Suc (max max_attempts 1 - 1) = max max_attempts 1" by simp
  then show ?thesis
    using shared.attempts_replies [of sampler turns prompt timeout 1 "max max_attempts 1 - 1" s]
    by (simp only: sample_summary_with_retries_def Let_def plus_1_eq_Suc)
qed

section \<open>The full replacement\<close>

record 't item_factory =
  new_user :: "rstr \<Rightarrow> 't"
  new_user_meta :: "rstr \<Rightarrow> 't"
  new_project_instructions :: "rstr \<Rightarrow> 't"
  new_system_reminder :: "rstr \<Rightarrow> 't"

record 't full_replace_context =
  fr_system_message :: 't
  fr_user_message_prefix :: rstr
  fr_agents_md_reminder :: "rstr option"
  fr_last_user_query :: "rstr option"
  fr_recent_messages :: "'t list"
  fr_system_reminder :: "rstr option"
  fr_transcript_hint :: "rstr option"

definition optional :: "('a \<Rightarrow> 'b) \<Rightarrow> 'a option \<Rightarrow> 'b list" where
  "optional f x = (case x of Some a \<Rightarrow> [f a] | None \<Rightarrow> [])"

definition assemble_compacted_history :: "'t item_factory \<Rightarrow> 't full_replace_context \<Rightarrow> rstr \<Rightarrow> 't list" where
  "assemble_compacted_history F parts summary =
     [fr_system_message parts, new_user_meta F (fr_user_message_prefix parts)] @
     optional (new_project_instructions F) (fr_agents_md_reminder parts) @
     optional (\<lambda>q. new_user F (wrap_user_query q)) (fr_last_user_query parts) @
     fr_recent_messages parts @
     [new_user_meta F (format_compact_summary_content summary @ (case fr_transcript_hint parts of Some h \<Rightarrow> h | None \<Rightarrow> []))] @
     optional (new_system_reminder F) (fr_system_reminder parts)"

definition build_summary_prompt :: "rstr \<Rightarrow> rstr option \<Rightarrow> rstr" where
  "build_summary_prompt template context =
     str_replace (lit ''{user_context_section}'')
       (case context of
          Some c \<Rightarrow> [newline_ch, newline_ch] @ lit ''**User-provided context for this compaction:**'' @ [newline_ch] @ c @ [newline_ch, newline_ch] @
            lit ''Please incorporate this context into your summary, ensuring it is prominently addressed in the relevant sections.'' @
            [newline_ch, newline_ch]
        | None \<Rightarrow> []) template"

definition SELF_SUMMARIZATION_PROMPT :: rstr where
  "SELF_SUMMARIZATION_PROMPT =
     join [newline_ch]
      [lit ''<summary_request>'',
       lit ''Please summarize the conversation so far. This summary (everything after your'',
       lit ''thinking) will be provided to another AI assistant to continue working on the'',
       lit ''task. The other assistant will only see the user's original query and your'',
       lit ''summary, it will not have access to any tool calls or tool outputs from this'',
       lit ''conversation. The purpose of the summary is to compress the conversation'',
       lit ''context while preserving the essential information needed to seamlessly'',
       lit ''continue. Useful things to include: the user's requests, what you've done so'',
       lit ''far, relevant file paths and code details, any errors encountered and how'',
       lit ''they were resolved, and what remains to be done. DO NOT call any tools in'',
       lit ''your response.'',
       lit ''</summary_request>'']"

datatype summary_prompt_kind = StructuredPrompt | SelfSummaryPrompt

fun build_summary_prompt_kind :: "rstr \<Rightarrow> summary_prompt_kind \<Rightarrow> rstr option \<Rightarrow> rstr" where
  "build_summary_prompt_kind template StructuredPrompt context = build_summary_prompt template context"
| "build_summary_prompt_kind template SelfSummaryPrompt None = SELF_SUMMARIZATION_PROMPT"
| "build_summary_prompt_kind template SelfSummaryPrompt (Some c) =
     SELF_SUMMARIZATION_PROMPT @ [newline_ch, newline_ch] @ lit ''<user_provided_context>'' @ [newline_ch] @ c @ [newline_ch] @
     lit ''</user_provided_context>'' @ [newline_ch, newline_ch] @ lit ''Incorporate the user-provided context above into your summary.''"

definition DEFAULT_AUTO_COMPACT_THRESHOLD_PERCENT :: nat where "DEFAULT_AUTO_COMPACT_THRESHOLD_PERCENT = 85"

record full_replace_config =
  frc_max_attempts :: nat
  frc_sampling_timeout_secs :: nat

definition default_full_replace_config :: full_replace_config where
  "default_full_replace_config = \<lparr>frc_max_attempts = 3, frc_sampling_timeout_secs = 120\<rparr>"

datatype full_replace_error = FullReplaceNothing | FullReplaceEmpty | FullReplaceSampler rstr bool bool

fun full_replace_error_text :: "full_replace_error \<Rightarrow> rstr" where
  "full_replace_error_text FullReplaceNothing = lit ''nothing to compact''"
| "full_replace_error_text FullReplaceEmpty = lit ''compaction model returned an empty summary''"
| "full_replace_error_text (FullReplaceSampler message _ _) = lit ''compaction sampling failed: '' @ message"

definition sample_full_replace_summary :: "('t, 's) sampler \<Rightarrow> rstr \<Rightarrow> 't list \<Rightarrow> rstr option \<Rightarrow> full_replace_config \<Rightarrow> 's \<Rightarrow>
    (full_replace_error + sampled_summary) \<times> 's" where
  "sample_full_replace_summary sampler template turns context config s =
     (if turns = [] then (Inl FullReplaceNothing, s)
      else case sample_summary_with_retries sampler turns \<lparr>cp_system = [], cp_user = build_summary_prompt template context\<rparr>
               (frc_max_attempts config) (frc_sampling_timeout_secs config) s of
          (Inr summary, s) \<Rightarrow> (Inr summary, s)
        | (Inl (RetryEmpty _), s) \<Rightarrow> (Inl FullReplaceEmpty, s)
        | (Inl (RetryFailure message deterministic overflow _), s) \<Rightarrow> (Inl (FullReplaceSampler message deterministic overflow), s))"

record 't full_replace_output =
  fro_history :: "'t list"
  fro_summary :: rstr
  fro_attempts :: nat

definition apply_full_replace :: "'t item_factory \<Rightarrow> ('t, 's) sampler \<Rightarrow> rstr \<Rightarrow> 't list \<Rightarrow> rstr option \<Rightarrow> 't full_replace_context \<Rightarrow>
    full_replace_config \<Rightarrow> 's \<Rightarrow> (full_replace_error + 't full_replace_output) \<times> 's" where
  "apply_full_replace F sampler template turns context parts config s =
     (case sample_full_replace_summary sampler template turns context config s of
        (Inl e, s) \<Rightarrow> (Inl e, s)
      | (Inr x, s) \<Rightarrow>
          (Inr \<lparr>fro_history = assemble_compacted_history F parts (ss_summary x), fro_summary = ss_summary x, fro_attempts = ss_attempts x\<rparr>, s))"

definition append_reminder_block :: "rstr \<Rightarrow> rstr option \<Rightarrow> rstr" where
  "append_reminder_block summary reminder =
     (case reminder of
        Some r \<Rightarrow> if trim r \<noteq> [] then summary @ [newline_ch, newline_ch] @ r else summary
      | None \<Rightarrow> summary)"

end
