(* ===== verification/Compaction_Reminder.thy ===== *)
theory Compaction_Reminder
  imports Compaction_Summary
begin

text \<open>
  The reminder of running work that a compaction appends to its summary
  (\<open>packages/agent/xai-grok-compaction/src/reminder.rs\<close>), and the text cut for oversized tool results (\<open>intra_compaction/fit.rs\<close>).
\<close>

section \<open>The state a reminder shows\<close>

record subagent_tool_names =
  stn_poll :: rstr
  stn_cancel :: rstr

datatype todo_status = TodoPending | TodoInProgress | TodoCompleted | TodoCancelled

definition is_actionable :: "todo_status \<Rightarrow> bool" where
  "is_actionable s \<longleftrightarrow> s = TodoPending \<or> s = TodoInProgress"

fun todo_tag :: "todo_status \<Rightarrow> rstr" where
  "todo_tag TodoPending = lit ''[pending]''"
| "todo_tag TodoInProgress = lit ''[in_progress]''"
| "todo_tag TodoCompleted = lit ''[completed]''"
| "todo_tag TodoCancelled = lit ''[cancelled]''"

record todo_item =
  td_id :: rstr
  td_content :: rstr
  td_status :: todo_status

record background_task =
  bt_task_id :: rstr
  bt_command :: rstr
  bt_status :: rstr
  bt_tool_name :: "rstr option"

record running_subagent =
  rs_subagent_id :: rstr
  rs_subagent_type :: "rstr option"
  rs_description :: "rstr option"
  rs_elapsed_secs :: nat

record scheduled_loop =
  sl_task_id :: rstr
  sl_interval :: rstr
  sl_next_fire_at :: rstr
  sl_prompt :: rstr
  sl_recurring :: bool
  sl_durable :: bool
  sl_foreground :: bool

record workflow_run =
  wr_name :: rstr
  wr_run_id :: rstr
  wr_status :: rstr
  wr_objective :: "rstr option"
  wr_current_phase :: "rstr option"
  wr_agents_used :: nat
  wr_agent_budget :: "nat option"
  wr_elapsed_secs :: nat

record reminder_state =
  as_running_commands :: "background_task list"
  as_todos :: "todo_item list"
  as_running_subagents :: "running_subagent list"
  as_scheduled_loops :: "scheduled_loop list"
  as_workflows :: "workflow_run list"
  as_workflow_tool :: "rstr option"

definition has_actionable_todos :: "reminder_state \<Rightarrow> bool" where
  "has_actionable_todos st = list_ex (\<lambda>t. is_actionable (td_status t)) (as_todos st)"

definition reminder_is_empty :: "reminder_state \<Rightarrow> bool" where
  "reminder_is_empty st \<longleftrightarrow>
     as_running_commands st = [] \<and> as_running_subagents st = [] \<and> as_scheduled_loops st = [] \<and> as_workflows st = [] \<and>
     \<not> has_actionable_todos st"

section \<open>The sections\<close>

definition collapsed_ws :: "rstr \<Rightarrow> rstr" where
  "collapsed_ws s = join [32] (split_whitespace s)"

definition quoted :: "rstr \<Rightarrow> rstr" where "quoted s = [34] @ s @ [34]"

definition ticked :: "rstr \<Rightarrow> rstr" where "ticked s = [96] @ s @ [96]"

definition format_background_task_line :: "background_task \<Rightarrow> rstr" where
  "format_background_task_line t =
     lit ''- '' @ quoted (bt_task_id t) @ lit '': '' @ ticked (bt_command t) @ lit '' ('' @ bt_status t @
     (case bt_tool_name t of Some tool \<Rightarrow> lit '', '' @ tool | None \<Rightarrow> []) @ lit '')''"

definition format_scheduled_loop_line :: "scheduled_loop \<Rightarrow> rstr" where
  "format_scheduled_loop_line l =
     lit ''- '' @ quoted (sl_task_id l) @ lit '': '' @ ticked (collapsed_ws (sl_prompt l)) @ lit '' ('' @
     (if sl_recurring l then lit ''scheduler runs '' @ sl_interval l else lit ''scheduler one-shot'') @
     lit '', next '' @ sl_next_fire_at l @ lit '')''"

definition section_running_background :: "reminder_state \<Rightarrow> rstr option" where
  "section_running_background st =
     (let lines = map format_background_task_line (as_running_commands st) @ map format_scheduled_loop_line (as_scheduled_loops st)
      in if lines = [] then None
         else Some (lit ''## Running Background Tasks'' @ [newline_ch] @ lit ''These tasks are still running:'' @ [newline_ch] @
                join [newline_ch] lines))"

definition no_state :: reminder_state where
  "no_state = \<lparr>as_running_commands = [], as_todos = [], as_running_subagents = [], as_scheduled_loops = [], as_workflows = [], as_workflow_tool = None\<rparr>"

definition section_background_tasks :: "background_task list \<Rightarrow> rstr option" where
  "section_background_tasks tasks = section_running_background (no_state\<lparr>as_running_commands := tasks\<rparr>)"

definition section_scheduled_loops :: "scheduled_loop list \<Rightarrow> rstr option" where
  "section_scheduled_loops loops = section_running_background (no_state\<lparr>as_scheduled_loops := loops\<rparr>)"

definition format_todo_line :: "todo_item \<Rightarrow> rstr" where
  "format_todo_line t = lit ''- '' @ todo_tag (td_status t) @ [32] @ td_id t @ lit '': '' @ td_content t"

definition todo_trailer :: "nat \<Rightarrow> nat \<Rightarrow> rstr" where
  "todo_trailer completed cancelled =
     (if completed = 0 \<and> cancelled = 0 then []
      else if cancelled = 0 then [newline_ch] @ lit ''('' @ show_nat completed @ lit '' completed)''
      else if completed = 0 then [newline_ch] @ lit ''('' @ show_nat cancelled @ lit '' cancelled)''
      else [newline_ch] @ lit ''('' @ show_nat completed @ lit '' completed, '' @ show_nat cancelled @ lit '' cancelled)'')"

definition section_todo_list :: "todo_item list \<Rightarrow> rstr option" where
  "section_todo_list todos =
     (let active = map format_todo_line (filter (\<lambda>t. is_actionable (td_status t)) todos)
      in if active = [] then None
         else Some (lit ''## TODO List'' @ [newline_ch] @
                lit ''This is your task list from before the conversation was compacted '' @ [8212] @
                lit '' it is still active. Keep working through the items below and update their status as you make progress:'' @ [newline_ch] @
                join [newline_ch] active @
                todo_trailer (length (filter (\<lambda>t. td_status t = TodoCompleted) todos)) (length (filter (\<lambda>t. td_status t = TodoCancelled) todos))))"

definition format_subagent_line :: "running_subagent \<Rightarrow> rstr" where
  "format_subagent_line s =
     (let kind = (case rs_subagent_type s of Some k \<Rightarrow> k | None \<Rightarrow> lit ''subagent'');
          command = collapsed_ws (case rs_description s of Some d \<Rightarrow> d | None \<Rightarrow> kind)
      in lit ''- '' @ quoted (rs_subagent_id s) @ lit '': '' @ ticked command @ lit '' (running for '' @ show_nat (rs_elapsed_secs s) @ lit ''s, '' @
         kind @ lit '')'')"

definition section_running_subagents :: "running_subagent list \<Rightarrow> subagent_tool_names \<Rightarrow> rstr option" where
  "section_running_subagents subagents tools =
     (if subagents = [] then None
      else Some (lit ''## Running Subagents'' @ [newline_ch] @
             lit ''These subagents were launched before this compaction and are still running. Use '' @ ticked (stn_poll tools) @
             lit '' with the subagent_id to check their status or retrieve results. Use '' @ ticked (stn_cancel tools) @
             lit '' with the subagent_id to cancel a subagent.'' @ [newline_ch] @ join [newline_ch] (map format_subagent_line subagents)))"

definition format_workflow_line :: "workflow_run \<Rightarrow> rstr" where
  "format_workflow_line run =
     join [newline_ch]
       ([lit ''- Workflow '' @ [39] @ wr_name run @ [39] @ lit '' (run id '' @ ticked (wr_run_id run) @ lit '') '' @ [8212] @ lit '' status: '' @ wr_status run @
         (case wr_current_phase run of Some phase \<Rightarrow> lit '', phase: '' @ phase | None \<Rightarrow> []) @
         lit '' (running for '' @ show_nat (wr_elapsed_secs run) @ lit ''s)''] @
        (case wr_objective run of Some obj \<Rightarrow> if obj \<noteq> [] then [lit ''  Objective: '' @ collapsed_ws obj] else [] | None \<Rightarrow> []) @
        (case wr_agent_budget run of
           Some budget \<Rightarrow> [lit ''  Agents: '' @ show_nat (wr_agents_used run) @ lit '' of '' @ show_nat budget @ lit '' budget'']
         | None \<Rightarrow> if 0 < wr_agents_used run then [lit ''  Agents: '' @ show_nat (wr_agents_used run)] else []))"

definition section_workflows :: "workflow_run list \<Rightarrow> rstr option \<Rightarrow> rstr option" where
  "section_workflows workflows workflow_tool =
     (if workflows = [] then None
      else Some (lit ''## Running Workflows'' @ [newline_ch] @ lit ''These workflows are currently running:'' @ [newline_ch] @
             join [newline_ch] (map format_workflow_line workflows @
               [case workflow_tool of
                  Some tool \<Rightarrow> lit ''  Use '' @ ticked tool @ lit '' to inspect or resume a paused run. Keep run ids internal.''
                | None \<Rightarrow> lit ''  Keep workflow run ids internal '' @ [8212] @ lit '' the user knows runs by display name.''])))"

definition format_active_agent_sections :: "reminder_state \<Rightarrow> subagent_tool_names option \<Rightarrow> rstr list" where
  "format_active_agent_sections st subagent_tools =
     List.map_filter id
       [section_running_background st, section_workflows (as_workflows st) (as_workflow_tool st), section_todo_list (as_todos st),
        Option.bind subagent_tools (section_running_subagents (as_running_subagents st))]"

definition wrap_system_reminder :: "rstr list \<Rightarrow> rstr option" where
  "wrap_system_reminder sections =
     (let body = join [newline_ch, newline_ch] (filter (\<lambda>s. trim s \<noteq> []) sections)
      in if body = [] then None else Some (lit ''<system-reminder>'' @ [newline_ch] @ body @ [newline_ch] @ lit ''</system-reminder>''))"

definition format_active_agent_reminder :: "reminder_state \<Rightarrow> subagent_tool_names option \<Rightarrow> rstr option" where
  "format_active_agent_reminder st subagent_tools = wrap_system_reminder (format_active_agent_sections st subagent_tools)"

section \<open>Cutting a text\<close>

definition MARKER_RESERVE :: nat where "MARKER_RESERVE = 64"

definition truncate_text_to_token_budget :: "rstr \<Rightarrow> nat \<Rightarrow> rstr" where
  "truncate_text_to_token_budget s max_tokens =
     (let max_bytes = min (max_tokens * 4) U64_MAX
      in if byte_len s \<le> max_bytes then s
         else let kept = floor_cut s (max_bytes - MARKER_RESERVE)
              in kept @ [newline_ch] @ lit ''[... truncated '' @ show_nat (byte_len s - byte_len kept) @ lit '' bytes to fit the compaction window ...]'')"

definition truncate_text_for_compaction :: "rstr \<Rightarrow> nat \<Rightarrow> rstr" where
  "truncate_text_for_compaction s max_tokens = truncate_text_to_token_budget s max_tokens"

section \<open>What a reminder carries\<close>

lemma sublist_join: "p \<in> set ps \<Longrightarrow> sublist p (join sep ps)"
proof (induction sep ps rule: join.induct)
  case (3 sep p' q ps)
  have "sublist (join sep (q # ps)) (p' @ sep @ join sep (q # ps))" by (metis append.assoc append_Nil2 sublist_appendI)
  moreover have "sublist p' (p' @ sep @ join sep (q # ps))" by (simp add: prefix_imp_sublist)
  ultimately show ?case using 3 sublist_order.order_trans by auto
qed simp_all

lemma sublist_middle: "sublist a b \<Longrightarrow> sublist a (x @ b @ y)"
  by (meson sublist_appendI sublist_order.order_trans)

lemma sublist_tail: "sublist a b \<Longrightarrow> sublist a (x @ b)"
  using sublist_middle [of a b x "[]"] by simp

lemma sublist_later: "sublist a b \<Longrightarrow> sublist a (c # b)"
  using sublist_tail [of a b "[c]"] by simp

lemma headed_not_blank: "trim (lit (CHR ''#'' # h) @ s) \<noteq> []" "trim (lit (CHR ''<'' # h) @ s) \<noteq> []"
  by (simp_all add: lit_Cons trim_def trim_end_eq_Nil is_whitespace_def)

lemma section_not_blank:
  "section_running_background st = Some s \<Longrightarrow> trim s \<noteq> []"
  "section_workflows runs tool = Some s \<Longrightarrow> trim s \<noteq> []"
  "section_todo_list todos = Some s \<Longrightarrow> trim s \<noteq> []"
  "section_running_subagents agents tools = Some s \<Longrightarrow> trim s \<noteq> []"
  using headed_not_blank(1)
  by (auto simp: section_running_background_def section_workflows_def section_todo_list_def section_running_subagents_def Let_def split: if_splits)

lemma wrapped_section:
  assumes "s \<in> set sections" "trim s \<noteq> []"
  obtains r where "wrap_system_reminder sections = Some r" "sublist s r" "trim r \<noteq> []"
proof -
  let ?body = "join [newline_ch, newline_ch] (filter (\<lambda>s. trim s \<noteq> []) sections)"
  have body: "sublist s ?body" using assms by (intro sublist_join) simp
  moreover have "s \<noteq> []" using assms(2) by auto
  ultimately have "?body \<noteq> []" by auto
  then have "wrap_system_reminder sections = Some (lit ''<system-reminder>'' @ [newline_ch] @ ?body @ [newline_ch] @ lit ''</system-reminder>'')"
    by (simp add: wrap_system_reminder_def)
  then show thesis using that sublist_tail [OF sublist_middle [OF body]] headed_not_blank(2) by (metis append.assoc)
qed

text \<open>The identifiers of the work that is still running when the conversation is compacted.\<close>

definition running_ids :: "reminder_state \<Rightarrow> rstr list" where
  "running_ids st =
     map bt_task_id (as_running_commands st) @ map sl_task_id (as_scheduled_loops st) @ map wr_run_id (as_workflows st) @
     map td_id (filter (\<lambda>t. is_actionable (td_status t)) (as_todos st)) @ map rs_subagent_id (as_running_subagents st)"

lemma id_in_line:
  "sublist (bt_task_id t) (format_background_task_line t)" "sublist (sl_task_id l) (format_scheduled_loop_line l)"
  "sublist (td_id d) (format_todo_line d)" "sublist (rs_subagent_id a) (format_subagent_line a)"
  unfolding format_background_task_line_def format_scheduled_loop_line_def format_todo_line_def format_subagent_line_def Let_def quoted_def append.assoc
  by (metis append.assoc sublist_appendI)+

lemma id_in_workflow_line: "sublist (wr_run_id r) (format_workflow_line r)"
proof -
  let ?head = "lit ''- Workflow '' @ [39] @ wr_name r @ [39] @ lit '' (run id '' @ ticked (wr_run_id r) @ lit '') '' @ [8212] @ lit '' status: '' @ wr_status r @
    (case wr_current_phase r of Some phase \<Rightarrow> lit '', phase: '' @ phase | None \<Rightarrow> []) @ lit '' (running for '' @ show_nat (wr_elapsed_secs r) @ lit ''s)''"
  have "sublist (wr_run_id r) ?head" unfolding ticked_def append.assoc by (metis append.assoc sublist_appendI)
  moreover have "sublist ?head (format_workflow_line r)" unfolding format_workflow_line_def by (rule sublist_join) simp
  ultimately show ?thesis by (rule sublist_order.order_trans)
qed

lemma id_in_joined: "x \<in> set xs \<Longrightarrow> (\<And>y. sublist (f y) (g y)) \<Longrightarrow> sublist (f x) (join sep (map g xs @ ys))"
  using sublist_join [of "g x" "map g xs @ ys" sep] sublist_order.order_trans by fastforce

lemma section_of_id:
  assumes "i \<in> set (running_ids st)"
  obtains s where "s \<in> set (format_active_agent_sections st (Some tools))" "sublist i s" "trim s \<noteq> []"
proof -
  have sections: "set (format_active_agent_sections st (Some tools)) =
      {s. section_running_background st = Some s \<or> section_workflows (as_workflows st) (as_workflow_tool st) = Some s \<or>
          section_todo_list (as_todos st) = Some s \<or> section_running_subagents (as_running_subagents st) tools = Some s}"
    by (auto simp: format_active_agent_sections_def map_filter_simps split: option.splits)
  from assms consider (command) t where "t \<in> set (as_running_commands st)" "i = bt_task_id t"
    | (loop) l where "l \<in> set (as_scheduled_loops st)" "i = sl_task_id l"
    | (run) r where "r \<in> set (as_workflows st)" "i = wr_run_id r"
    | (todo) d where "d \<in> set (filter (\<lambda>t. is_actionable (td_status t)) (as_todos st))" "i = td_id d"
    | (agent) a where "a \<in> set (as_running_subagents st)" "i = rs_subagent_id a"
    by (auto simp: running_ids_def)
  then have "\<exists>s. sublist i s \<and> s \<in> set (format_active_agent_sections st (Some tools))"
  proof cases
    case command
    then have "sublist i (join [newline_ch] (map format_background_task_line (as_running_commands st) @ map format_scheduled_loop_line (as_scheduled_loops st)))"
      using id_in_joined [OF _ id_in_line(1)] by simp
    then show ?thesis using command(1) sections
      by (intro exI [of _ "the (section_running_background st)"]) (auto simp: section_running_background_def Let_def intro!: sublist_tail sublist_later)
  next
    case loop
    then have "sublist i (join [newline_ch] (map format_background_task_line (as_running_commands st) @ map format_scheduled_loop_line (as_scheduled_loops st)))"
      using sublist_order.order_trans [OF id_in_line(2) sublist_join] by simp
    then show ?thesis using loop(1) sections
      by (intro exI [of _ "the (section_running_background st)"]) (auto simp: section_running_background_def Let_def intro!: sublist_tail sublist_later)
  next
    case run
    then show ?thesis using id_in_joined [OF run(1) id_in_workflow_line] sections
      by (intro exI [of _ "the (section_workflows (as_workflows st) (as_workflow_tool st))"]) (auto simp: section_workflows_def intro!: sublist_tail sublist_later)
  next
    case todo
    let ?active = "filter (\<lambda>t. is_actionable (td_status t)) (as_todos st)"
    have "sublist i (join [newline_ch] (map format_todo_line ?active))" using id_in_joined [OF todo(1) id_in_line(3), where ys = "[]"] todo(2) by simp
    then have "sublist i (join [newline_ch] (map format_todo_line ?active) @
        todo_trailer (length (filter (\<lambda>t. td_status t = TodoCompleted) (as_todos st))) (length (filter (\<lambda>t. td_status t = TodoCancelled) (as_todos st))))"
      using sublist_middle [where x = "[]"] by simp
    moreover have "?active \<noteq> []" using todo(1) by (metis list.set_cases neq_Nil_conv)
    ultimately show ?thesis using sections
      by (intro exI [of _ "the (section_todo_list (as_todos st))"]) (auto simp: section_todo_list_def Let_def intro!: sublist_tail sublist_later)
  next
    case agent
    then show ?thesis using id_in_joined [OF agent(1) id_in_line(4), where ys = "[]"] sections
      by (intro exI [of _ "the (section_running_subagents (as_running_subagents st) tools)"]) (auto simp: section_running_subagents_def intro!: sublist_tail sublist_later)
  qed
  then obtain s where "sublist i s" "s \<in> set (format_active_agent_sections st (Some tools))" by blast
  then show thesis using that section_not_blank sections by blast
qed

text \<open>
  The text that a compaction commits names every piece of running work: each background command, scheduled loop, workflow run, open todo item
  and subagent appears in it with its identifier verbatim, and a summary is left as it is exactly when there is none.
\<close>

theorem running_work_is_carried:
  "list_all (\<lambda>i. sublist i (append_reminder_block summary (format_active_agent_reminder st (Some tools)))) (running_ids st)"
  unfolding list_all_iff
proof
  fix i
  assume "i \<in> set (running_ids st)"
  then obtain s where s: "s \<in> set (format_active_agent_sections st (Some tools))" "sublist i s" "trim s \<noteq> []" by (rule section_of_id)
  obtain r where "format_active_agent_reminder st (Some tools) = Some r" "sublist s r" "trim r \<noteq> []"
    using wrapped_section [OF s(1,3)] unfolding format_active_agent_reminder_def by blast
  then show "sublist i (append_reminder_block summary (format_active_agent_reminder st (Some tools)))"
    using sublist_order.order_trans [OF s(2)] by (auto simp: append_reminder_block_def intro!: sublist_tail [where x = "summary @ [newline_ch, newline_ch]", simplified])
qed

lemma nothing_running_no_reminder: "reminder_is_empty st \<Longrightarrow> append_reminder_block summary (format_active_agent_reminder st tools) = summary"
  by (auto simp: reminder_is_empty_def has_actionable_todos_def list_ex_iff format_active_agent_reminder_def format_active_agent_sections_def
      section_running_background_def section_workflows_def section_todo_list_def section_running_subagents_def map_filter_simps
      wrap_system_reminder_def append_reminder_block_def filter_empty_conv Let_def split: option.splits bind_splits)

text \<open>A text of five bytes under a budget of one token comes out longer than it went in: the marker alone is over the budget.\<close>

lemma marker_exceeds_small_budget: "byte_len (truncate_text_to_token_budget (lit ''hello'') 1) = 57"
  by code_simp

end
