(* ===== verification/Compaction_Intra.thy ===== *)
theory Compaction_Intra
  imports Compaction_Summary
begin

text \<open>
  Compaction inside a running agent loop (\<open>packages/agent/xai-grok-compaction/src/intra_compaction\<close>: \<open>config.rs\<close>, \<open>trigger.rs\<close>,
  \<open>traits.rs\<close>, \<open>observer.rs\<close>, \<open>compact.rs\<close>, with \<open>steps/prompt.rs\<close> and \<open>history/prompt.rs\<close>): when a pass is due, what it hands to
  the model, the guard on its result, and the commit into the conversation.

  The stream processor that holds the conversation and the model are behind traits of the crate, so they are parameters here: the record
  \<open>stream_proc\<close> of the processor's methods and a sampler with a state of its own.  The prompt texts are files that the crate includes;
  the record \<open>prompt_texts\<close> holds them.  The two products of a token count with a floating-point ratio of the policy are the fields
  \<open>ip_reduction_limit\<close> and \<open>ip_steps_limit\<close>, functions on token counts.  Times are not modelled.  What the observer is told is the
  list \<open>iw_events\<close>.
\<close>

section \<open>Configuration and trigger\<close>

datatype intra_mode = FullReplaceMode | StepsOnly | HistoryOnly | HistoryThenSteps

datatype intra_summarizer = SharedSummarizer | LegacySummarizer

record intra_config =
  ip_enabled :: bool
  ip_mode :: intra_mode
  ip_trigger_threshold_percent :: nat
  ip_min_steps_before_compact :: nat
  ip_min_compactable_tokens :: nat
  ip_reduction_limit :: "nat \<Rightarrow> nat"
  ip_compaction_model_name :: "rstr option"
  ip_sampling_timeout_secs :: nat
  ip_max_attempts :: nat
  ip_summarizer :: intra_summarizer
  ip_target_threshold_percent :: nat
  ip_steps_limit :: "nat \<Rightarrow> nat"
  ip_user_message_truncate_chars :: nat

definition DEFAULT_COMPACTION_MODEL_NAME :: rstr where
  "DEFAULT_COMPACTION_MODEL_NAME = lit ''grok-4.20''"

definition effective_compaction_model_name :: "intra_config \<Rightarrow> rstr" where
  "effective_compaction_model_name policy =
     (case map_option trim (ip_compaction_model_name policy) of
        Some name \<Rightarrow> if name \<noteq> [] then name else DEFAULT_COMPACTION_MODEL_NAME
      | None \<Rightarrow> DEFAULT_COMPACTION_MODEL_NAME)"

record intra_trigger =
  tr_last_prompt_tokens :: nat
  tr_context_window :: nat
  tr_percent :: nat
  tr_step :: nat

definition should_compact :: "intra_config \<Rightarrow> nat \<Rightarrow> nat \<Rightarrow> nat \<Rightarrow> intra_trigger option" where
  "should_compact policy last_prompt_tokens context_window current_step =
     (if \<not> ip_enabled policy then None
      else if context_window = 0 then None
      else if ip_mode policy \<noteq> FullReplaceMode \<and> current_step < ip_min_steps_before_compact policy then None
      else let threshold = as_u32 (context_window * ip_trigger_threshold_percent policy div 100)
           in if last_prompt_tokens \<le> threshold then None
              else Some \<lparr>tr_last_prompt_tokens = last_prompt_tokens, tr_context_window = context_window,
                         tr_percent = min (last_prompt_tokens * 100 div context_window) 100, tr_step = current_step\<rparr>)"

section \<open>Errors and results\<close>

text \<open>\<open>IntraUnreachable\<close> stands for the panic of \<open>unreachable!\<close> in \<open>compact_one_pass\<close>; the other constructors are those of the code.\<close>

datatype intra_error =
    NothingToCompact | IntraTimeout | IntraEmptyResponse | InsufficientReduction nat nat | InvalidSplit nat nat | Unsupported
  | SamplerBuild rstr | SamplerStart rstr | SamplerStream rstr | IntraContextOverflow rstr | ApplyFailed rstr | IntraUnreachable

fun error_status_label :: "intra_error \<Rightarrow> rstr" where
  "error_status_label NothingToCompact = lit ''nothing_to_compact''"
| "error_status_label IntraTimeout = lit ''timeout''"
| "error_status_label IntraEmptyResponse = lit ''empty_response''"
| "error_status_label (InsufficientReduction _ _) = lit ''insufficient_reduction''"
| "error_status_label (InvalidSplit _ _) = lit ''invalid_split''"
| "error_status_label Unsupported = lit ''unsupported''"
| "error_status_label (SamplerBuild _) = lit ''sampler_build''"
| "error_status_label (SamplerStart _) = lit ''sampler_start''"
| "error_status_label (SamplerStream _) = lit ''sampler_stream''"
| "error_status_label (IntraContextOverflow _) = lit ''context_overflow''"
| "error_status_label (ApplyFailed _) = lit ''apply''"
| "error_status_label IntraUnreachable = []"

record intra_result =
  ir_tokens_before :: nat
  ir_tokens_after :: nat
  ir_turns_compacted :: nat
  ir_summary :: rstr

datatype compaction_target = TargetSteps | TargetHistory | TargetFullReplace

fun target_label :: "compaction_target \<Rightarrow> rstr" where
  "target_label TargetSteps = lit ''steps''"
| "target_label TargetHistory = lit ''history''"
| "target_label TargetFullReplace = lit ''full_replace''"

datatype intra_event = OnError rstr | OnSuccess compaction_target nat nat nat

section \<open>The stream processor\<close>

record ('t, 'p) stream_proc =
  get_accumulated_turns :: "'p \<Rightarrow> 't list"
  get_history_turns :: "'p \<Rightarrow> 't list"
  replace_with_compaction :: "compaction_target \<Rightarrow> nat \<Rightarrow> 't \<Rightarrow> 'p \<Rightarrow> intra_error option \<times> 'p"

definition get_all_turns :: "('t, 'p) stream_proc \<Rightarrow> 'p \<Rightarrow> 't list" where
  "get_all_turns P p = get_history_turns P p @ get_accumulated_turns P p"

record ('p, 's) intra_world =
  iw_proc :: 'p
  iw_sampler :: 's
  iw_events :: "intra_event list"

section \<open>Prompts\<close>

record prompt_texts =
  pt_summary :: rstr
  pt_steps_system :: rstr
  pt_steps_user :: rstr
  pt_developer :: rstr
  pt_user :: rstr

definition format_compaction_prompt :: "prompt_texts \<Rightarrow> compaction_prompt" where
  "format_compaction_prompt texts = \<lparr>cp_system = pt_steps_system texts, cp_user = pt_steps_user texts\<rparr>"

fun build_prompt_for_target :: "prompt_texts \<Rightarrow> compaction_target \<Rightarrow> intra_error + compaction_prompt" where
  "build_prompt_for_target texts TargetSteps = Inr (format_compaction_prompt texts)"
| "build_prompt_for_target texts TargetHistory = Inr \<lparr>cp_system = pt_developer texts, cp_user = pt_user texts\<rparr>"
| "build_prompt_for_target texts TargetFullReplace = Inl IntraUnreachable"

section \<open>Sampling\<close>

definition sample_shared_summary_with_retries :: "('t, 's) sampler \<Rightarrow> prompt_texts \<Rightarrow> 't list \<Rightarrow> intra_config \<Rightarrow> 's \<Rightarrow> (intra_error + rstr) \<times> 's" where
  "sample_shared_summary_with_retries sampler texts turns policy s =
     (case sample_summary_with_retries sampler turns \<lparr>cp_system = [], cp_user = build_summary_prompt (pt_summary texts) None\<rparr>
          (ip_max_attempts policy) (ip_sampling_timeout_secs policy) s of
        (Inr x, s) \<Rightarrow> (Inr (format_compact_summary (ss_summary x)), s)
      | (Inl (RetryEmpty _), s) \<Rightarrow> (Inl IntraEmptyResponse, s)
      | (Inl (RetryFailure message deterministic overflow _), s) \<Rightarrow>
          (Inl (if overflow then IntraContextOverflow message else if deterministic then SamplerBuild message else SamplerStream message), s))"

fun compaction_sample_error_to_intra :: "compaction_sample_error \<Rightarrow> intra_error" where
  "compaction_sample_error_to_intra (SampleTimeout _ _) = IntraTimeout"
| "compaction_sample_error_to_intra (SampleBuild msg) = SamplerBuild msg"
| "compaction_sample_error_to_intra (SampleStart msg) = SamplerStart msg"
| "compaction_sample_error_to_intra (SampleContextOverflow msg) = IntraContextOverflow msg"
| "compaction_sample_error_to_intra SampleEmptyResponse = IntraEmptyResponse"
| "compaction_sample_error_to_intra (SampleOther msg) =
     (if str_contains_text msg (lit ''Failed to build'') then SamplerBuild msg
      else if str_contains_text msg (lit ''Failed to start'') then SamplerStart msg
      else if str_contains_text msg (lit ''no response channel content'') then IntraEmptyResponse
      else SamplerStream msg)"

fun is_transient :: "intra_error \<Rightarrow> bool" where
  "is_transient IntraTimeout = True"
| "is_transient IntraEmptyResponse = True"
| "is_transient (SamplerStream _) = True"
| "is_transient (SamplerStart _) = True"
| "is_transient _ = False"

text \<open>\<open>left\<close> is how many attempts may follow the next one.\<close>

fun legacy_attempts :: "('t, 's) sampler \<Rightarrow> 't list \<Rightarrow> compaction_prompt \<Rightarrow> nat \<Rightarrow> nat \<Rightarrow> 's \<Rightarrow> (intra_error + rstr) \<times> 's" where
  "legacy_attempts sampler turns prompt timeout left s =
     (case sampler turns prompt timeout s of
        (Inr output, s) \<Rightarrow> (Inr (llm_response output), s)
      | (Inl e, s) \<Rightarrow>
          let err = compaction_sample_error_to_intra e
          in (case left of
                Suc k \<Rightarrow> if is_transient err then legacy_attempts sampler turns prompt timeout k s else (Inl err, s)
              | 0 \<Rightarrow> (Inl err, s)))"

declare legacy_attempts.simps [simp del]

definition sample_compaction_with_retries :: "('t, 's) sampler \<Rightarrow> 't list \<Rightarrow> compaction_prompt \<Rightarrow> nat \<Rightarrow> intra_config \<Rightarrow> 's \<Rightarrow> (intra_error + rstr) \<times> 's" where
  "sample_compaction_with_retries sampler turns prompt timeout policy s =
     legacy_attempts sampler turns prompt timeout (max (ip_max_attempts policy) 1 - 1) s"

interpretation legacy: bounded_retry "sampler turns prompt timeout"
    "\<lambda>r. case r of Inl e \<Rightarrow> is_transient (compaction_sample_error_to_intra e) | Inr _ \<Rightarrow> False"
    "\<lambda>_ r. case r of Inl e \<Rightarrow> Inl (compaction_sample_error_to_intra e) | Inr output \<Rightarrow> Inr (llm_response output)"
    "\<lambda>_. legacy_attempts sampler turns prompt timeout"
  for sampler :: "('t, 's) sampler" and turns prompt timeout
  by unfold_locales (subst legacy_attempts.simps, auto simp: Let_def split: sum.splits prod.splits nat.splits)

text \<open>The legacy summarizer accepts the first answer of the model, whatever it says, and hands on the last error.\<close>

lemma legacy_sampling:
  "sample_compaction_with_retries sampler turns prompt timeout policy s =
     (let call = sampler turns prompt timeout;
          m = max (ip_max_attempts policy) 1;
          n = length (takeWhile (\<lambda>r. case r of Inl e \<Rightarrow> is_transient (compaction_sample_error_to_intra e) | Inr _ \<Rightarrow> False) (replies call (m - 1) s))
      in (case replies call m s ! n of Inl e \<Rightarrow> Inl (compaction_sample_error_to_intra e) | Inr output \<Rightarrow> Inr (llm_response output),
          after_calls call (Suc n) s))"
proof -
  have "Suc (max (ip_max_attempts policy) 1 - 1) = max (ip_max_attempts policy) 1" by simp
  then show ?thesis
    using legacy.attempts_replies [of sampler turns prompt timeout "max (ip_max_attempts policy) 1 - 1" s]
    by (simp only: sample_compaction_with_retries_def Let_def)
qed

section \<open>One pass\<close>

text \<open>Steps 4 to 6 of a pass: build the item that carries the summary, refuse it when it does not save enough, commit it, report it.\<close>

definition commit_summary :: "'t item_ops \<Rightarrow> ('t, 'p) stream_proc \<Rightarrow> intra_config \<Rightarrow> compaction_target \<Rightarrow> nat \<Rightarrow> nat \<Rightarrow> rstr \<Rightarrow>
    ('p, 's) intra_world \<Rightarrow> (intra_error + intra_result) \<times> ('p, 's) intra_world" where
  "commit_summary I P policy target tokens_before n summary w =
     (let turn = it_summary_item I summary; tokens_after = it_tokens I turn
      in if 0 < tokens_before \<and> ip_reduction_limit policy tokens_before < tokens_after
         then (Inl (InsufficientReduction tokens_before tokens_after), w)
         else case replace_with_compaction P target n turn (iw_proc w) of
             (Some e, p) \<Rightarrow> (Inl e, w\<lparr>iw_proc := p\<rparr>)
           | (None, p) \<Rightarrow>
               (Inr \<lparr>ir_tokens_before = tokens_before, ir_tokens_after = tokens_after, ir_turns_compacted = as_u32 n, ir_summary = summary\<rparr>,
                w\<lparr>iw_proc := p, iw_events := iw_events w @ [OnSuccess target tokens_before tokens_after (as_u32 n)]\<rparr>))"

fun turns_of_target :: "('t, 'p) stream_proc \<Rightarrow> compaction_target \<Rightarrow> 'p \<Rightarrow> intra_error + 't list" where
  "turns_of_target P TargetSteps p = Inr (get_accumulated_turns P p)"
| "turns_of_target P TargetHistory p = Inr (get_history_turns P p)"
| "turns_of_target P TargetFullReplace p = Inl IntraUnreachable"

definition sample_pass :: "('t, 's) sampler \<Rightarrow> prompt_texts \<Rightarrow> intra_config \<Rightarrow> compaction_target \<Rightarrow> 't list \<Rightarrow> 's \<Rightarrow> (intra_error + rstr) \<times> 's" where
  "sample_pass sampler texts policy target turns s =
     (case ip_summarizer policy of
        LegacySummarizer \<Rightarrow>
          (case build_prompt_for_target texts target of
             Inl e \<Rightarrow> (Inl e, s)
           | Inr prompt \<Rightarrow> sample_compaction_with_retries sampler turns prompt (ip_sampling_timeout_secs policy) policy s)
      | SharedSummarizer \<Rightarrow> sample_shared_summary_with_retries sampler texts turns policy s)"

definition pass_summary :: "'t item_ops \<Rightarrow> ('t, 's) sampler \<Rightarrow> prompt_texts \<Rightarrow> intra_config \<Rightarrow> compaction_target \<Rightarrow> 't list \<Rightarrow> 's \<Rightarrow>
    (intra_error + rstr) \<times> 's" where
  "pass_summary I sampler texts policy target turns s =
     (case target of
        TargetHistory \<Rightarrow>
          (let separated = separate_prior_user_queries I turns
           in case sample_pass sampler texts policy target (sep_turns_for_llm separated) s of
                (Inl e, s) \<Rightarrow> (Inl e, s)
              | (Inr summary, s) \<Rightarrow>
                  (Inr (assemble_user_queries_preamble (sep_prior_user_queries separated)
                          (extract_user_queries_from_turns I turns (ip_user_message_truncate_chars policy)) @ summary), s))
      | TargetSteps \<Rightarrow> sample_pass sampler texts policy target turns s
      | TargetFullReplace \<Rightarrow> (Inl IntraUnreachable, s))"

definition compact_one_pass :: "'t item_ops \<Rightarrow> ('t, 'p) stream_proc \<Rightarrow> ('t, 's) sampler \<Rightarrow> prompt_texts \<Rightarrow> intra_config \<Rightarrow> intra_trigger \<Rightarrow>
    compaction_target \<Rightarrow> ('p, 's) intra_world \<Rightarrow> (intra_error + intra_result) \<times> ('p, 's) intra_world" where
  "compact_one_pass I P sampler texts policy trigger target w =
     (case turns_of_target P target (iw_proc w) of
        Inl e \<Rightarrow> (Inl e, w)
      | Inr turns \<Rightarrow>
          if turns = [] then (Inl NothingToCompact, w)
          else case select_turns_to_compact I (token_counts I turns) turns
                      (as_u32 (tr_context_window trigger * ip_target_threshold_percent policy div 100)) (ip_min_compactable_tokens policy) of
              None \<Rightarrow> (Inl NothingToCompact, w)
            | Some plan \<Rightarrow>
                (case pass_summary I sampler texts policy target (take (sp_split_idx plan) turns) (iw_sampler w) of
                   (Inl e, s) \<Rightarrow> (Inl e, w\<lparr>iw_sampler := s\<rparr>)
                 | (Inr summary, s) \<Rightarrow>
                     commit_summary I P policy target (sp_tokens_to_compact plan) (sp_split_idx plan) summary (w\<lparr>iw_sampler := s\<rparr>)))"

definition apply_steps_compaction :: "'t item_ops \<Rightarrow> ('t, 'p) stream_proc \<Rightarrow> ('t, 's) sampler \<Rightarrow> prompt_texts \<Rightarrow> intra_config \<Rightarrow> intra_trigger \<Rightarrow>
    ('p, 's) intra_world \<Rightarrow> (intra_error + intra_result) \<times> ('p, 's) intra_world" where
  "apply_steps_compaction I P sampler texts policy trigger = compact_one_pass I P sampler texts policy trigger TargetSteps"

definition apply_history_compaction :: "'t item_ops \<Rightarrow> ('t, 'p) stream_proc \<Rightarrow> ('t, 's) sampler \<Rightarrow> prompt_texts \<Rightarrow> intra_config \<Rightarrow> intra_trigger \<Rightarrow>
    ('p, 's) intra_world \<Rightarrow> (intra_error + intra_result) \<times> ('p, 's) intra_world" where
  "apply_history_compaction I P sampler texts policy trigger = compact_one_pass I P sampler texts policy trigger TargetHistory"

section \<open>The three strategies\<close>

definition full_replace_input :: "'t item_ops \<Rightarrow> 't list \<Rightarrow> 't list \<Rightarrow> nat option \<Rightarrow> intra_error + 't list" where
  "full_replace_input I history steps summarizer_input_budget =
     (case summarizer_input_budget of
        Some budget \<Rightarrow>
          let plan = fit_turns_for_summarizer I history steps budget
          in if fp_llm_turns plan = [] \<or> fp_tokens_fit plan = 0 then Inl NothingToCompact else Inr (fp_llm_turns plan)
      | None \<Rightarrow> Inr (history @ steps))"

text \<open>The sum of the token counts is a plain sum of 32-bit numbers: it wraps around.\<close>

definition apply_full_replace_compaction :: "'t item_ops \<Rightarrow> ('t, 'p) stream_proc \<Rightarrow> ('t, 's) sampler \<Rightarrow> prompt_texts \<Rightarrow> intra_config \<Rightarrow>
    rstr option \<Rightarrow> nat option \<Rightarrow> ('p, 's) intra_world \<Rightarrow> (intra_error + intra_result) \<times> ('p, 's) intra_world" where
  "apply_full_replace_compaction I P sampler texts policy active_reminder summarizer_input_budget w =
     (let history = get_history_turns P (iw_proc w);
          steps = get_accumulated_turns P (iw_proc w);
          total = length history + length steps;
          tokens_before = as_u32 (sum_list (token_counts I (history @ steps)))
      in if total = 0 \<or> tokens_before < ip_min_compactable_tokens policy then (Inl NothingToCompact, w)
         else case full_replace_input I history steps summarizer_input_budget of
             Inl e \<Rightarrow> (Inl e, w)
           | Inr llm_turns \<Rightarrow>
               (case sample_shared_summary_with_retries sampler texts llm_turns policy (iw_sampler w) of
                  (Inl e, s) \<Rightarrow> (Inl e, w\<lparr>iw_sampler := s\<rparr>)
                | (Inr summary, s) \<Rightarrow>
                    commit_summary I P policy TargetFullReplace tokens_before total (append_reminder_block summary active_reminder)
                      (w\<lparr>iw_sampler := s\<rparr>)))"

definition join_results :: "intra_result \<Rightarrow> intra_result \<Rightarrow> intra_result" where
  "join_results h s =
     \<lparr>ir_tokens_before = saturating_add_u32 (ir_tokens_before h) (ir_tokens_before s),
      ir_tokens_after = saturating_add_u32 (ir_tokens_after h) (ir_tokens_after s),
      ir_turns_compacted = saturating_add_u32 (ir_turns_compacted h) (ir_turns_compacted s),
      ir_summary =
        (if ir_summary h = [] then ir_summary s
         else if ir_summary s = [] then ir_summary h
         else ir_summary h @ [newline_ch, newline_ch] @ ir_summary s)\<rparr>"

definition steps_still_large :: "'t item_ops \<Rightarrow> ('t, 'p) stream_proc \<Rightarrow> intra_config \<Rightarrow> 'p \<Rightarrow> bool" where
  "steps_still_large I P policy p \<longleftrightarrow>
     ip_steps_limit policy (sum_list (token_counts I (get_history_turns P p))) < sum_list (token_counts I (get_accumulated_turns P p))"

text \<open>After the history pass; \<open>h\<close> is its result, if it committed one.\<close>

definition steps_after_history :: "'t item_ops \<Rightarrow> ('t, 'p) stream_proc \<Rightarrow> ('t, 's) sampler \<Rightarrow> prompt_texts \<Rightarrow> intra_config \<Rightarrow> intra_trigger \<Rightarrow>
    intra_result option \<Rightarrow> ('p, 's) intra_world \<Rightarrow> (intra_error + intra_result) \<times> ('p, 's) intra_world" where
  "steps_after_history I P sampler texts policy trigger h w =
     (if \<not> steps_still_large I P policy (iw_proc w)
      then (case h of Some r \<Rightarrow> Inr r | None \<Rightarrow> Inl NothingToCompact, w)
      else let (steps_result, w') = apply_steps_compaction I P sampler texts policy trigger w
           in (case (h, steps_result) of
                 (Some h, Inr s) \<Rightarrow> Inr (join_results h s)
               | (Some h, Inl NothingToCompact) \<Rightarrow> Inr h
               | (None, Inr s) \<Rightarrow> Inr s
               | (_, Inl e) \<Rightarrow> Inl e, w'))"

definition apply_history_then_steps :: "'t item_ops \<Rightarrow> ('t, 'p) stream_proc \<Rightarrow> ('t, 's) sampler \<Rightarrow> prompt_texts \<Rightarrow> intra_config \<Rightarrow> intra_trigger \<Rightarrow>
    ('p, 's) intra_world \<Rightarrow> (intra_error + intra_result) \<times> ('p, 's) intra_world" where
  "apply_history_then_steps I P sampler texts policy trigger w =
     (case apply_history_compaction I P sampler texts policy trigger w of
        (Inr r, w) \<Rightarrow> steps_after_history I P sampler texts policy trigger (Some r) w
      | (Inl NothingToCompact, w) \<Rightarrow> steps_after_history I P sampler texts policy trigger None w
      | (Inl e, w) \<Rightarrow> (Inl e, w))"

definition apply_intra_compaction :: "'t item_ops \<Rightarrow> ('t, 'p) stream_proc \<Rightarrow> ('t, 's) sampler \<Rightarrow> prompt_texts \<Rightarrow> intra_config \<Rightarrow> intra_trigger \<Rightarrow>
    rstr option \<Rightarrow> nat option \<Rightarrow> ('p, 's) intra_world \<Rightarrow> (intra_error + intra_result) \<times> ('p, 's) intra_world" where
  "apply_intra_compaction I P sampler texts policy trigger active_reminder summarizer_input_budget w =
     (let (result, w') =
        (case ip_mode policy of
           FullReplaceMode \<Rightarrow> apply_full_replace_compaction I P sampler texts policy active_reminder summarizer_input_budget w
         | StepsOnly \<Rightarrow> apply_steps_compaction I P sampler texts policy trigger w
         | HistoryOnly \<Rightarrow> apply_history_compaction I P sampler texts policy trigger w
         | HistoryThenSteps \<Rightarrow> apply_history_then_steps I P sampler texts policy trigger w)
      in case result of
           Inl e \<Rightarrow> (Inl e, w'\<lparr>iw_events := iw_events w' @ [OnError (error_status_label e)]\<rparr>)
         | Inr r \<Rightarrow> (Inr r, w'))"

section \<open>What a stream processor promises\<close>

fun target_view :: "('t, 'p) stream_proc \<Rightarrow> compaction_target \<Rightarrow> 'p \<Rightarrow> 't list" where
  "target_view P TargetSteps = get_accumulated_turns P"
| "target_view P TargetHistory = get_history_turns P"
| "target_view P TargetFullReplace = get_all_turns P"

text \<open>
  The documented behaviour of \<open>replace_with_compaction\<close>: it replaces the first \<open>n\<close> items of the view of its target by the given item.
  That a call that fails leaves the conversation as it was is documented of \<open>InvalidSplit\<close>; of other failures, which the comment does
  not mention, it is assumed, as the comment of \<open>apply_intra_compaction\<close> does for errors in general.
\<close>

definition stream_contract :: "('t, 'p) stream_proc \<Rightarrow> bool" where
  "stream_contract P \<longleftrightarrow>
     (\<forall>target n turn p. case replace_with_compaction P target n turn p of
        (Some e, p') \<Rightarrow> p' = p
      | (None, p') \<Rightarrow>
          target_view P target p' = turn # drop n (target_view P target p) \<and>
          (target = TargetSteps \<longrightarrow> get_history_turns P p' = get_history_turns P p) \<and>
          (target = TargetHistory \<longrightarrow> get_accumulated_turns P p' = get_accumulated_turns P p))"

lemma stream_contractD:
  assumes "stream_contract P"
  shows "replace_with_compaction P target n turn p = (Some e, p') \<Longrightarrow> p' = p"
    and "replace_with_compaction P target n turn p = (None, p') \<Longrightarrow> target_view P target p' = turn # drop n (target_view P target p)"
    and "replace_with_compaction P TargetSteps n turn p = (None, p') \<Longrightarrow> get_history_turns P p' = get_history_turns P p"
    and "replace_with_compaction P TargetHistory n turn p = (None, p') \<Longrightarrow> get_accumulated_turns P p' = get_accumulated_turns P p"
proof -
  note law = assms [unfolded stream_contract_def, rule_format]
  show "replace_with_compaction P target n turn p = (Some e, p') \<Longrightarrow> p' = p"
    and "replace_with_compaction P target n turn p = (None, p') \<Longrightarrow> target_view P target p' = turn # drop n (target_view P target p)"
    using law [where target = target and n = n and turn = turn and p = p] by auto
  show "replace_with_compaction P TargetSteps n turn p = (None, p') \<Longrightarrow> get_history_turns P p' = get_history_turns P p"
    using law [where target = TargetSteps and n = n and turn = turn and p = p] by auto
  show "replace_with_compaction P TargetHistory n turn p = (None, p') \<Longrightarrow> get_accumulated_turns P p' = get_accumulated_turns P p"
    using law [where target = TargetHistory and n = n and turn = turn and p = p] by auto
qed

definition kept_within_limit :: "intra_config \<Rightarrow> intra_result \<Rightarrow> bool" where
  "kept_within_limit policy r \<longleftrightarrow> ir_tokens_before r = 0 \<or> ir_tokens_after r \<le> ip_reduction_limit policy (ir_tokens_before r)"

lemma commit_summary_failed:
  assumes "stream_contract P" "commit_summary I P policy target before n summary w = (Inl e, w')"
  shows "w' = w"
  using assms(2) stream_contractD(1) [OF assms(1)]
  by (auto simp: commit_summary_def Let_def split: if_splits prod.splits option.splits)

lemma commit_summary_done:
  assumes "commit_summary I P policy target before n summary w = (Inr r, w')"
  shows "replace_with_compaction P target n (it_summary_item I summary) (iw_proc w) = (None, iw_proc w')"
    "ir_summary r = summary" "ir_tokens_before r = before" "kept_within_limit policy r"
    "iw_events w' = iw_events w @ [OnSuccess target before (ir_tokens_after r) (ir_turns_compacted r)]"
  using assms by (auto simp: commit_summary_def kept_within_limit_def Let_def split: if_splits prod.splits option.splits)

lemma pass_failed:
  assumes "stream_contract P" "compact_one_pass I P sampler texts policy trigger target w = (Inl e, w')"
  shows "iw_proc w' = iw_proc w" "iw_events w' = iw_events w"
  using assms(2) commit_summary_failed [OF assms(1)]
  by (auto simp: compact_one_pass_def split: sum.splits if_splits option.splits prod.splits dest!: commit_summary_failed [OF assms(1)])

abbreviation target_tokens :: "intra_config \<Rightarrow> intra_trigger \<Rightarrow> nat" where
  "target_tokens policy trigger \<equiv> as_u32 (tr_context_window trigger * ip_target_threshold_percent policy div 100)"

text \<open>A view whose oldest turns gave way to one summary: the rest is as it was, fits the target and starts no tool result without its request.\<close>

definition view_compacted :: "'t item_ops \<Rightarrow> nat \<Rightarrow> 't list \<Rightarrow> 't list \<Rightarrow> rstr \<Rightarrow> bool" where
  "view_compacted I limit view view' summary \<longleftrightarrow>
     (\<exists>k. 0 < k \<and> k < length view \<and> view' = it_summary_item I summary # drop k view \<and>
        sum_list (token_counts I (drop k view)) \<le> limit \<and> (paired I view \<longrightarrow> paired I (drop k view)))"

lemma pass_done:
  assumes "stream_contract P" "target_tokens policy trigger < U32_MAX" "compact_one_pass I P sampler texts policy trigger target w = (Inr r, w')"
  shows "view_compacted I (target_tokens policy trigger) (target_view P target (iw_proc w)) (target_view P target (iw_proc w')) (ir_summary r)"
    and "target = TargetSteps \<Longrightarrow> get_history_turns P (iw_proc w') = get_history_turns P (iw_proc w)"
    and "target = TargetHistory \<Longrightarrow> get_accumulated_turns P (iw_proc w') = get_accumulated_turns P (iw_proc w)"
    and "target \<noteq> TargetFullReplace" "kept_within_limit policy r"
    and "iw_events w' = iw_events w @ [OnSuccess target (ir_tokens_before r) (ir_tokens_after r) (ir_turns_compacted r)]"
proof -
  from assms(3) obtain turns plan summary s where p: "turns_of_target P target (iw_proc w) = Inr turns"
    "select_turns_to_compact I (token_counts I turns) turns (target_tokens policy trigger) (ip_min_compactable_tokens policy) = Some plan"
    "commit_summary I P policy target (sp_tokens_to_compact plan) (sp_split_idx plan) summary (w\<lparr>iw_sampler := s\<rparr>) = (Inr r, w')"
    by (auto simp: compact_one_pass_def split: sum.splits if_splits option.splits prod.splits)
  note did = commit_summary_done [OF p(3)]
  have view: "target_view P target (iw_proc w) = turns" "target \<noteq> TargetFullReplace" using p(1) by (cases target; simp)+
  note safe = select_safe [OF _ assms(2) p(2)]
  have "target_view P target (iw_proc w') = it_summary_item I (ir_summary r) # drop (sp_split_idx plan) turns"
    using stream_contractD(2) [OF assms(1) did(1)] did(2) view(1) by simp
  moreover have "paired I turns \<Longrightarrow> paired I (drop (sp_split_idx plan) turns)" using safe by (intro paired_drop) simp_all
  ultimately show "view_compacted I (target_tokens policy trigger) (target_view P target (iw_proc w)) (target_view P target (iw_proc w')) (ir_summary r)"
    unfolding view_compacted_def view(1) using safe by (intro exI [of _ "sp_split_idx plan"]) simp
  show "target = TargetSteps \<Longrightarrow> get_history_turns P (iw_proc w') = get_history_turns P (iw_proc w)"
    and "target = TargetHistory \<Longrightarrow> get_accumulated_turns P (iw_proc w') = get_accumulated_turns P (iw_proc w)"
    using stream_contractD(3,4) [OF assms(1)] did(1) by auto
  show "target \<noteq> TargetFullReplace" by (rule view(2))
  show "kept_within_limit policy r" by (rule did(4))
  show "iw_events w' = iw_events w @ [OnSuccess target (ir_tokens_before r) (ir_tokens_after r) (ir_turns_compacted r)]" using did(3,5) by simp
qed

lemma full_replace_failed:
  assumes "stream_contract P" "apply_full_replace_compaction I P sampler texts policy reminder budget w = (Inl e, w')"
  shows "iw_proc w' = iw_proc w" "iw_events w' = iw_events w"
  using assms(2)
  by (auto simp: apply_full_replace_compaction_def Let_def split: sum.splits if_splits prod.splits dest!: commit_summary_failed [OF assms(1)])

lemma full_replace_done:
  assumes "stream_contract P" "apply_full_replace_compaction I P sampler texts policy reminder budget w = (Inr r, w')"
  shows "get_all_turns P (iw_proc w') = [it_summary_item I (ir_summary r)]" "kept_within_limit policy r"
    "iw_events w' = iw_events w @ [OnSuccess TargetFullReplace (ir_tokens_before r) (ir_tokens_after r) (ir_turns_compacted r)]"
proof -
  let ?n = "length (get_history_turns P (iw_proc w)) + length (get_accumulated_turns P (iw_proc w))"
  from assms(2) obtain before summary s where
    c: "commit_summary I P policy TargetFullReplace before ?n summary (w\<lparr>iw_sampler := s\<rparr>) = (Inr r, w')"
    by (auto simp: apply_full_replace_compaction_def Let_def split: sum.splits if_splits prod.splits)
  note did = commit_summary_done [OF c]
  show "get_all_turns P (iw_proc w') = [it_summary_item I (ir_summary r)]"
    using stream_contractD(2) [OF assms(1) did(1)] did(2) by (simp add: get_all_turns_def)
  show "kept_within_limit policy r" by (rule did(4))
  show "iw_events w' = iw_events w @ [OnSuccess TargetFullReplace (ir_tokens_before r) (ir_tokens_after r) (ir_turns_compacted r)]"
    using did(3,5) by simp
qed

lemmas strategy_defs = apply_steps_compaction_def apply_history_compaction_def

text \<open>The two passes of \<open>HistoryThenSteps\<close>, by what the first did.\<close>

lemma history_then_steps_cases:
  assumes "apply_history_then_steps I P sampler texts policy trigger w = (result, w')"
  obtains
    (history_failed) e where "result = Inl e" "apply_history_compaction I P sampler texts policy trigger w = (Inl e, w')" "e \<noteq> NothingToCompact"
  | (no_history) w1 where "apply_history_compaction I P sampler texts policy trigger w = (Inl NothingToCompact, w1)"
      "steps_after_history I P sampler texts policy trigger None w1 = (result, w')"
  | (history_done) r w1 where "apply_history_compaction I P sampler texts policy trigger w = (Inr r, w1)"
      "steps_after_history I P sampler texts policy trigger (Some r) w1 = (result, w')"
  using assms by (auto simp: apply_history_then_steps_def split: prod.splits sum.splits intra_error.splits)

lemma steps_after_history_failed:
  assumes "stream_contract P" "steps_after_history I P sampler texts policy trigger h w = (Inl e, w')"
  shows "iw_proc w' = iw_proc w \<and> iw_events w' = iw_events w \<and> (h \<noteq> None \<longrightarrow> e \<noteq> NothingToCompact)"
  using assms(2)
  by (auto simp: steps_after_history_def strategy_defs split: if_splits option.splits prod.splits sum.splits intra_error.splits
      dest: pass_failed [OF assms(1)])

text \<open>
  C5.  A failed compaction changes nothing: the conversation is the one before, and the failure is reported once, under its label.
  The one exception is the mode \<open>HistoryThenSteps\<close>, where a steps pass may fail after the history pass has been committed; then the
  conversation is the one that the history pass left, and both outcomes are reported.
\<close>
theorem failed_compaction_keeps_conversation:
  assumes "stream_contract P" "apply_intra_compaction I P sampler texts policy trigger reminder budget w = (Inl e, w')"
  shows "(iw_proc w' = iw_proc w \<and> iw_events w' = iw_events w @ [OnError (error_status_label e)]) \<or>
    (ip_mode policy = HistoryThenSteps \<and> e \<noteq> NothingToCompact \<and>
     (\<exists>r w1. apply_history_compaction I P sampler texts policy trigger w = (Inr r, w1) \<and> iw_proc w' = iw_proc w1 \<and>
        iw_events w' = iw_events w1 @ [OnError (error_status_label e)]))"
proof -
  obtain w2 where ev: "iw_proc w' = iw_proc w2" "iw_events w' = iw_events w2 @ [OnError (error_status_label e)]"
    and run: "(case ip_mode policy of
        FullReplaceMode \<Rightarrow> apply_full_replace_compaction I P sampler texts policy reminder budget w
      | StepsOnly \<Rightarrow> apply_steps_compaction I P sampler texts policy trigger w
      | HistoryOnly \<Rightarrow> apply_history_compaction I P sampler texts policy trigger w
      | HistoryThenSteps \<Rightarrow> apply_history_then_steps I P sampler texts policy trigger w) = (Inl e, w2)"
    using assms(2) by (auto simp: apply_intra_compaction_def split: prod.splits sum.splits)
  show ?thesis
  proof (cases "ip_mode policy")
    case HistoryThenSteps
    with run have "apply_history_then_steps I P sampler texts policy trigger w = (Inl e, w2)" by simp
    then show ?thesis
    proof (cases rule: history_then_steps_cases)
      case history_failed
      then show ?thesis using ev pass_failed [OF assms(1)] by (auto simp: strategy_defs)
    next
      case no_history
      then show ?thesis using ev pass_failed [OF assms(1)] steps_after_history_failed [OF assms(1)] by (metis apply_history_compaction_def)
    next
      case history_done
      then show ?thesis using ev steps_after_history_failed [OF assms(1) history_done(2)] HistoryThenSteps by auto
    qed
  qed (use run ev pass_failed [OF assms(1)] full_replace_failed [OF assms(1)] in \<open>auto simp: strategy_defs\<close>)
qed

abbreviation history_of :: "('t, 'p) stream_proc \<Rightarrow> ('p, 's) intra_world \<Rightarrow> 't list" where
  "history_of P w \<equiv> get_history_turns P (iw_proc w)"

abbreviation steps_of :: "('t, 'p) stream_proc \<Rightarrow> ('p, 's) intra_world \<Rightarrow> 't list" where
  "steps_of P w \<equiv> get_accumulated_turns P (iw_proc w)"

lemma steps_done:
  assumes "stream_contract P" "target_tokens policy trigger < U32_MAX" "apply_steps_compaction I P sampler texts policy trigger w = (Inr r, w')"
  shows "view_compacted I (target_tokens policy trigger) (steps_of P w) (steps_of P w') (ir_summary r)" "history_of P w' = history_of P w"
    "kept_within_limit policy r"
  using pass_done(1,2,5) [OF assms(1,2)] assms(3) by (fastforce simp: apply_steps_compaction_def)+

lemma history_done:
  assumes "stream_contract P" "target_tokens policy trigger < U32_MAX" "apply_history_compaction I P sampler texts policy trigger w = (Inr r, w')"
  shows "view_compacted I (target_tokens policy trigger) (history_of P w) (history_of P w') (ir_summary r)" "steps_of P w' = steps_of P w"
    "kept_within_limit policy r"
  using pass_done(1,3,5) [OF assms(1,2)] assms(3) by (fastforce simp: apply_history_compaction_def)+

lemma steps_after_history_done:
  assumes "stream_contract P" "target_tokens policy trigger < U32_MAX" "steps_after_history I P sampler texts policy trigger h w = (Inr r, w')"
  shows "history_of P w' = history_of P w"
    "(h = Some r \<and> steps_of P w' = steps_of P w) \<or>
     (\<exists>s. view_compacted I (target_tokens policy trigger) (steps_of P w) (steps_of P w') (ir_summary s) \<and> kept_within_limit policy s \<and>
        r = (case h of None \<Rightarrow> s | Some x \<Rightarrow> join_results x s))"
proof -
  have "(h = Some r \<and> iw_proc w' = iw_proc w) \<or>
    (\<exists>s. apply_steps_compaction I P sampler texts policy trigger w = (Inr s, w') \<and> r = (case h of None \<Rightarrow> s | Some x \<Rightarrow> join_results x s))"
    using assms(3)
    by (auto simp: steps_after_history_def split: if_splits option.splits prod.splits sum.splits intra_error.splits
        intro: pass_failed(1) [OF assms(1)] simp: apply_steps_compaction_def)
  then consider "h = Some r" "iw_proc w' = iw_proc w"
    | s where "apply_steps_compaction I P sampler texts policy trigger w = (Inr s, w')" "r = (case h of None \<Rightarrow> s | Some x \<Rightarrow> join_results x s)"
    by blast
  then have "history_of P w' = history_of P w \<and> ((h = Some r \<and> steps_of P w' = steps_of P w) \<or>
     (\<exists>s. view_compacted I (target_tokens policy trigger) (steps_of P w) (steps_of P w') (ir_summary s) \<and> kept_within_limit policy s \<and>
        r = (case h of None \<Rightarrow> s | Some x \<Rightarrow> join_results x s)))"
  proof cases
    case (2 s)
    then show ?thesis using steps_done [OF assms(1,2) 2(1)] by blast
  qed simp
  then show "history_of P w' = history_of P w" "(h = Some r \<and> steps_of P w' = steps_of P w) \<or>
     (\<exists>s. view_compacted I (target_tokens policy trigger) (steps_of P w) (steps_of P w') (ir_summary s) \<and> kept_within_limit policy s \<and>
        r = (case h of None \<Rightarrow> s | Some x \<Rightarrow> join_results x s))"
    by (rule conjunct1, rule conjunct2)
qed

text \<open>
  C6.  What a successful compaction leaves, in each mode, on a stream processor that behaves as its trait documents and for a target
  below the largest token count.  \<open>FullReplace\<close>, the default, keeps no turn: it leaves the one item that carries
  the returned summary.  \<open>StepsOnly\<close> and \<open>HistoryOnly\<close> replace a proper, non-empty prefix of their view by its summary; the turns kept
  are unchanged, fit the target share of the context window and begin no tool result without its request, and the other view is
  untouched.  \<open>HistoryThenSteps\<close> does this to the history and leaves the steps, or does it to both views, each with its own summary,
  and returns the joined result, or, when there is nothing to do in the history, to the steps alone.  Every pass that was committed
  respects the reduction limit.
\<close>
theorem successful_compaction_outcome:
  assumes "stream_contract P" "target_tokens policy trigger < U32_MAX"
    "apply_intra_compaction I P sampler texts policy trigger reminder budget w = (Inr r, w')"
  shows "case ip_mode policy of
      FullReplaceMode \<Rightarrow> get_all_turns P (iw_proc w') = [it_summary_item I (ir_summary r)] \<and> kept_within_limit policy r
    | StepsOnly \<Rightarrow> view_compacted I (target_tokens policy trigger) (steps_of P w) (steps_of P w') (ir_summary r) \<and>
        history_of P w' = history_of P w \<and> kept_within_limit policy r
    | HistoryOnly \<Rightarrow> view_compacted I (target_tokens policy trigger) (history_of P w) (history_of P w') (ir_summary r) \<and>
        steps_of P w' = steps_of P w \<and> kept_within_limit policy r
    | HistoryThenSteps \<Rightarrow>
        (\<exists>h. view_compacted I (target_tokens policy trigger) (history_of P w) (history_of P w') (ir_summary h) \<and> kept_within_limit policy h \<and>
          (r = h \<and> steps_of P w' = steps_of P w \<or>
           (\<exists>s. view_compacted I (target_tokens policy trigger) (steps_of P w) (steps_of P w') (ir_summary s) \<and> kept_within_limit policy s \<and>
              r = join_results h s))) \<or>
        (view_compacted I (target_tokens policy trigger) (steps_of P w) (steps_of P w') (ir_summary r) \<and> history_of P w' = history_of P w \<and>
         kept_within_limit policy r)"
proof -
  have run: "(case ip_mode policy of
        FullReplaceMode \<Rightarrow> apply_full_replace_compaction I P sampler texts policy reminder budget w
      | StepsOnly \<Rightarrow> apply_steps_compaction I P sampler texts policy trigger w
      | HistoryOnly \<Rightarrow> apply_history_compaction I P sampler texts policy trigger w
      | HistoryThenSteps \<Rightarrow> apply_history_then_steps I P sampler texts policy trigger w) = (Inr r, w')"
    using assms(3) by (auto simp: apply_intra_compaction_def split: prod.splits sum.splits)
  note kept = pass_done(5) [OF assms(1,2)]
  show ?thesis
  proof (cases "ip_mode policy")
    case FullReplaceMode
    then show ?thesis using run full_replace_done(1,2) [OF assms(1)] by auto
  next
    case StepsOnly
    then show ?thesis using run steps_done [OF assms(1,2)] kept by (auto simp: apply_steps_compaction_def)
  next
    case HistoryOnly
    then show ?thesis using run history_done [OF assms(1,2)] kept by (auto simp: apply_history_compaction_def)
  next
    case HistoryThenSteps
    with run have "apply_history_then_steps I P sampler texts policy trigger w = (Inr r, w')" by simp
    then show ?thesis
    proof (cases rule: history_then_steps_cases)
      case (no_history w1)
      then have "iw_proc w1 = iw_proc w" using pass_failed(1) [OF assms(1)] by (simp add: apply_history_compaction_def)
      then show ?thesis using steps_after_history_done [OF assms(1,2) no_history(2)] HistoryThenSteps by auto
    next
      case (history_done h w1)
      then show ?thesis
        using steps_after_history_done [OF assms(1,2) history_done(2)] Compaction_Intra.history_done [OF assms(1,2) history_done(1)]
        by (auto simp: HistoryThenSteps)
    qed simp
  qed
qed

subsection \<open>A processor that keeps its two views as lists\<close>

fun list_replace :: "compaction_target \<Rightarrow> nat \<Rightarrow> 't \<Rightarrow> 't list \<times> 't list \<Rightarrow> intra_error option \<times> 't list \<times> 't list" where
  "list_replace TargetSteps n turn (history, steps) =
     (if n > length steps then (Some (InvalidSplit n (length steps)), history, steps) else (None, history, turn # drop n steps))"
| "list_replace TargetHistory n turn (history, steps) =
     (if n > length history then (Some (InvalidSplit n (length history)), history, steps) else (None, turn # drop n history, steps))"
| "list_replace TargetFullReplace n turn (history, steps) =
     (let all_turns = history @ steps
      in if n > length all_turns then (Some (InvalidSplit n (length all_turns)), history, steps) else (None, [], turn # drop n all_turns))"

definition list_proc :: "('t, 't list \<times> 't list) stream_proc" where
  "list_proc = \<lparr>get_accumulated_turns = snd, get_history_turns = fst, replace_with_compaction = list_replace\<rparr>"

lemma list_proc_methods [simp]:
  "get_accumulated_turns list_proc = snd" "get_history_turns list_proc = fst" "replace_with_compaction list_proc = list_replace"
  by (simp_all add: list_proc_def)

lemma list_proc_contract: "stream_contract list_proc"
  unfolding stream_contract_def
proof (intro allI)
  fix target n and turn :: 'a and p
  show "case replace_with_compaction list_proc target n turn p of (Some e, p') \<Rightarrow> p' = p
    | (None, p') \<Rightarrow> target_view list_proc target p' = turn # drop n (target_view list_proc target p) \<and>
        (target = TargetSteps \<longrightarrow> get_history_turns list_proc p' = get_history_turns list_proc p) \<and>
        (target = TargetHistory \<longrightarrow> get_accumulated_turns list_proc p' = get_accumulated_turns list_proc p)"
    by (cases "(target, n, turn, p)" rule: list_replace.cases) (auto simp: get_all_turns_def Let_def)
qed

definition sample_texts :: prompt_texts where
  "sample_texts = \<lparr>pt_summary = [], pt_steps_system = [], pt_steps_user = [], pt_developer = [], pt_user = []\<rparr>"

definition sample_policy :: "intra_mode \<Rightarrow> intra_config" where
  "sample_policy mode =
     \<lparr>ip_enabled = True, ip_mode = mode, ip_trigger_threshold_percent = 85, ip_min_steps_before_compact = 3, ip_min_compactable_tokens = 5,
      ip_reduction_limit = (\<lambda>n. n * 8 div 10), ip_compaction_model_name = None, ip_sampling_timeout_secs = 120, ip_max_attempts = 2,
      ip_summarizer = LegacySummarizer, ip_target_threshold_percent = 50, ip_steps_limit = (\<lambda>n. n * 3 div 10),
      ip_user_message_truncate_chars = 3000\<rparr>"

definition sample_trigger :: intra_trigger where
  "sample_trigger = \<lparr>tr_last_prompt_tokens = 190, tr_context_window = 120, tr_percent = 100, tr_step = 4\<rparr>"

text \<open>A model that answers its first call and refuses every later one.\<close>

definition answers_once :: "((compaction_role \<times> nat), nat) sampler" where
  "answers_once turns prompt timeout n =
     (if n = 0 then Inr \<lparr>llm_response = lit ''Summary'', llm_thinking = []\<rparr> else Inl (SampleBuild (lit ''no model'')), Suc n)"

definition sample_world :: "((compaction_role \<times> nat) list \<times> (compaction_role \<times> nat) list, nat) intra_world" where
  "sample_world =
     \<lparr>iw_proc = ([(RoleUser, 40), (RoleAssistant, 40), (RoleUser, 10)], [(RoleAssistant, 10), (RoleTool, 50), (RoleAssistant, 40)]),
      iw_sampler = 0, iw_events = []\<rparr>"

abbreviation sample_run :: "intra_mode \<Rightarrow> nat \<Rightarrow> (intra_error + intra_result) \<times> ((compaction_role \<times> nat) list \<times> (compaction_role \<times> nat) list, nat) intra_world" where
  "sample_run mode calls \<equiv>
     apply_intra_compaction sized_items list_proc answers_once sample_texts (sample_policy mode) sample_trigger None None (sample_world\<lparr>iw_sampler := calls\<rparr>)"

theorem failed_compaction_keeps_conversation_witness:
  "fst (sample_run StepsOnly 1) = Inl (SamplerBuild (lit ''no model'')) \<and>
   iw_proc (snd (sample_run StepsOnly 1)) = iw_proc sample_world \<and>
   iw_events (snd (sample_run StepsOnly 1)) = [OnError (lit ''sampler_build'')]"
proof -
  have failed: "fst (sample_run StepsOnly 1) = Inl (SamplerBuild (lit ''no model''))" by code_simp
  have "sample_run StepsOnly 1 = (Inl (SamplerBuild (lit ''no model'')), snd (sample_run StepsOnly 1))" using failed by (metis prod.collapse)
  from failed_compaction_keeps_conversation [OF list_proc_contract this] failed show ?thesis
    by (simp add: sample_policy_def sample_world_def)
qed

theorem successful_compaction_outcome_witness:
  "\<exists>r w'. sample_run StepsOnly 0 = (Inr r, w') \<and>
     view_compacted sized_items 60 [(RoleAssistant, 10), (RoleTool, 50), (RoleAssistant, 40)] (steps_of list_proc w') (ir_summary r) \<and>
     history_of list_proc w' = [(RoleUser, 40), (RoleAssistant, 40), (RoleUser, 10)] \<and> kept_within_limit (sample_policy StepsOnly) r"
proof -
  have "\<not> isl (fst (sample_run StepsOnly 0))" by code_simp
  then obtain r w' where run: "sample_run StepsOnly 0 = (Inr r, w')" by (cases "sample_run StepsOnly 0"; cases "fst (sample_run StepsOnly 0)") auto
  have target: "target_tokens (sample_policy StepsOnly) sample_trigger = 60" by code_simp
  then have "target_tokens (sample_policy StepsOnly) sample_trigger < U32_MAX" by (simp add: U32_MAX_def)
  from successful_compaction_outcome [OF list_proc_contract this run] run target show ?thesis
    by (intro exI [of _ r] exI [of _ w']) (simp add: sample_policy_def sample_world_def)
qed

text \<open>
  The exception of the first theorem happens: the history pass has been committed when the steps pass fails, so the run reports an error
  although the conversation has changed.
\<close>

lemma steps_error_after_committed_history:
  "fst (sample_run HistoryThenSteps 0) = Inl (SamplerBuild (lit ''no model''))"
  "iw_proc (snd (sample_run HistoryThenSteps 0)) =
     ([(RoleDeveloper, 7), (RoleAssistant, 40), (RoleUser, 10)], [(RoleAssistant, 10), (RoleTool, 50), (RoleAssistant, 40)])"
  by code_simp+

section \<open>When a pass is due\<close>

lemma should_compact_ignores_steps_in_full_replace:
  assumes "ip_mode policy = FullReplaceMode"
  shows "map_option (\<lambda>t. t\<lparr>tr_step := 0\<rparr>) (should_compact policy used window step) = should_compact policy used window 0"
  using assms by (simp add: should_compact_def Let_def)

lemma should_compact_above_threshold:
  assumes "ip_trigger_threshold_percent policy \<le> 100" "window \<le> U32_MAX" "should_compact policy used window step = Some t"
  shows "window * ip_trigger_threshold_percent policy div 100 < used" "tr_percent t \<le> 100" "tr_step t = step"
proof -
  have "window * ip_trigger_threshold_percent policy div 100 \<le> window * 100 div 100" using assms(1) by (intro div_le_mono mult_left_mono) simp_all
  then have "as_u32 (window * ip_trigger_threshold_percent policy div 100) = window * ip_trigger_threshold_percent policy div 100"
    using assms(2) by (intro as_u32_id) simp
  then show "window * ip_trigger_threshold_percent policy div 100 < used" "tr_percent t \<le> 100" "tr_step t = step"
    using assms(3) by (auto simp: should_compact_def Let_def split: if_splits)
qed

end
