(* ===== verification/Compaction_Chunks.thy ===== *)
theory Compaction_Chunks
  imports Compaction_Intra
begin

text \<open>
  Compaction between turns (\<open>packages/agent/xai-grok-compaction/src/inter_compaction\<close>: \<open>config.rs\<close>, \<open>observer.rs\<close>, \<open>compact.rs\<close>):
  the filtered conversation is cut into chunks under a token limit, each chunk is summarised by one call of the model, and the summaries
  are joined behind the queries of the user.  The sampler, the item methods and the prompt texts are parameters as in the passes inside
  the loop; the identifiers that only go into log lines are left out, and what the observer is told is a list.
\<close>

record inter_config =
  ic_compaction_model_name :: rstr
  ic_sampling_timeout_secs :: nat
  ic_compaction_strategy :: compaction_strategy
  ic_dnc_chunk_token_limit :: nat
  ic_user_message_compact_threshold :: nat

datatype inter_event = OnRecompaction rstr | OnChunkCount nat | OnChunkSampled bool

type_synonym 's inter_world = "'s \<times> inter_event list"

record chunked_output =
  co_combined_text :: rstr
  co_analysis_text :: rstr

definition UNBOUNDED_CHUNK_LIMIT :: nat where "UNBOUNDED_CHUNK_LIMIT = U32_MAX"

definition flush_chunk :: "('t, 's) sampler \<Rightarrow> prompt_texts \<Rightarrow> inter_config \<Rightarrow> 't list \<Rightarrow> 's inter_world \<Rightarrow>
    (compaction_sample_error + llm_output) \<times> 's inter_world" where
  "flush_chunk sampler texts config turns w =
     (case w of (s, events) \<Rightarrow>
        case sampler turns \<lparr>cp_system = pt_developer texts, cp_user = pt_user texts\<rparr> (ic_sampling_timeout_secs config) s of
          (result, s) \<Rightarrow> (result, s, events @ [OnChunkSampled (\<not> isl result)]))"

text \<open>The walk over the turns: the open chunk, its token count, which is a plain 32-bit addition, and the outputs so far.\<close>

fun chunk_loop :: "('t list \<Rightarrow> 'w \<Rightarrow> ('e + 'o) \<times> 'w) \<Rightarrow> 't item_ops \<Rightarrow> nat \<Rightarrow> 't list \<Rightarrow> nat \<Rightarrow> 'o list \<Rightarrow> 't list \<Rightarrow> 'w \<Rightarrow> ('e + 'o list) \<times> 'w" where
  "chunk_loop flush I limit compactable chunk_tokens outputs [] w =
     (if compactable = [] then (Inr outputs, w)
      else case flush compactable w of (Inl e, w) \<Rightarrow> (Inl e, w) | (Inr output, w) \<Rightarrow> (Inr (outputs @ [output]), w))"
| "chunk_loop flush I limit compactable chunk_tokens outputs (t # ts) w =
     (if compactable \<noteq> [] \<and> limit \<noteq> UNBOUNDED_CHUNK_LIMIT \<and> limit < saturating_add_u32 chunk_tokens (it_tokens I t)
      then case flush compactable w of
          (Inl e, w) \<Rightarrow> (Inl e, w)
        | (Inr output, w) \<Rightarrow> chunk_loop flush I limit [t] (as_u32 (it_tokens I t)) (outputs @ [output]) ts w
      else chunk_loop flush I limit (compactable @ [t]) (as_u32 (chunk_tokens + it_tokens I t)) outputs ts w)"

definition chunk_summary :: "nat \<Rightarrow> llm_output \<Rightarrow> rstr" where
  "chunk_summary i output =
     lit ''<chunk_summary index='' @ [34] @ show_nat i @ [34] @ lit ''>'' @ [newline_ch] @ llm_response output @ [newline_ch] @
     lit ''</chunk_summary>'' @ [newline_ch, newline_ch]"

definition combine_chunks :: "rstr \<Rightarrow> llm_output list \<Rightarrow> chunked_output" where
  "combine_chunks preamble outputs =
     \<lparr>co_combined_text = preamble @ concat (map (\<lambda>(i, output). chunk_summary i output) (enumerate 0 outputs)),
      co_analysis_text = concat (map (\<lambda>(i, output). wrap_chunk_analysis i (llm_thinking output)) (enumerate 0 outputs))\<rparr>"

fun chunk_token_limit :: "inter_config \<Rightarrow> compaction_strategy \<Rightarrow> compaction_sample_error + nat" where
  "chunk_token_limit config BasicStrategy = Inr UNBOUNDED_CHUNK_LIMIT"
| "chunk_token_limit config DivideAndConquer = Inr (ic_dnc_chunk_token_limit config)"
| "chunk_token_limit config FullReplaceStrategy =
     Inl (SampleBuild (lit ''full_replace must be routed through the event-proc compact_conversation helper''))"

definition sample_compaction_chunked :: "'t item_ops \<Rightarrow> ('t, 's) sampler \<Rightarrow> prompt_texts \<Rightarrow> inter_config \<Rightarrow> 't list \<Rightarrow> rstr option \<Rightarrow>
    's inter_world \<Rightarrow> (compaction_sample_error + chunked_output) \<times> 's inter_world" where
  "sample_compaction_chunked I sampler texts config turns current_user_queries w =
     (case chunk_token_limit config (ic_compaction_strategy config) of
        Inl e \<Rightarrow> (Inl e, w)
      | Inr limit \<Rightarrow>
          let filtered = filter_turns_for_inter_compaction I turns
          in if filtered = [] then (Inl (SampleOther (lit ''No turns remaining after filtering'')), w)
             else let separated = separate_prior_user_queries I filtered
                  in case chunk_loop (flush_chunk sampler texts config) I limit [] 0 [] (sep_turns_for_llm separated) w of
                       (Inl e, w) \<Rightarrow> (Inl e, w)
                     | (Inr outputs, (s, events)) \<Rightarrow>
                         (Inr (combine_chunks (assemble_user_queries_preamble (sep_prior_user_queries separated) current_user_queries) outputs),
                          s, events @ (if sep_has_prior_compaction separated then [OnRecompaction (strategy_label (ic_compaction_strategy config))] else []) @
                            [OnChunkCount (length outputs)]))"

section \<open>The chunks\<close>

text \<open>The division of the turns that the loop makes, on exact token counts, and the calls of the model for a list of chunks.\<close>

fun chunks_from :: "'t item_ops \<Rightarrow> nat \<Rightarrow> 't list \<Rightarrow> 't list \<Rightarrow> 't list list" where
  "chunks_from I limit open_chunk [] = (if open_chunk = [] then [] else [open_chunk])"
| "chunks_from I limit open_chunk (t # ts) =
     (if open_chunk \<noteq> [] \<and> limit \<noteq> U32_MAX \<and> limit < sum_list (token_counts I (open_chunk @ [t]))
      then open_chunk # chunks_from I limit [t] ts
      else chunks_from I limit (open_chunk @ [t]) ts)"

fun flush_all :: "('t list \<Rightarrow> 'w \<Rightarrow> ('e + 'o) \<times> 'w) \<Rightarrow> 't list list \<Rightarrow> 'w \<Rightarrow> ('e + 'o list) \<times> 'w" where
  "flush_all flush [] w = (Inr [], w)"
| "flush_all flush (c # cs) w =
     (case flush c w of
        (Inl e, w) \<Rightarrow> (Inl e, w)
      | (Inr x, w) \<Rightarrow> (case flush_all flush cs w of (Inl e, w) \<Rightarrow> (Inl e, w) | (Inr xs, w) \<Rightarrow> (Inr (x # xs), w)))"

definition fits :: "'t item_ops \<Rightarrow> nat \<Rightarrow> 't list \<Rightarrow> bool" where
  "fits I limit chunk \<longleftrightarrow> length chunk = 1 \<or> sum_list (token_counts I chunk) \<le> limit"

lemma chunk_loop_chunks:
  assumes "\<forall>t. it_tokens I t \<le> U32_MAX" "limit \<le> U32_MAX" "limit \<noteq> U32_MAX \<Longrightarrow> n = sum_list (token_counts I open_chunk) \<and> (open_chunk = [] \<or> fits I limit open_chunk)"
  shows "chunk_loop flush I limit open_chunk n outputs turns w =
    (case flush_all flush (chunks_from I limit open_chunk turns) w of (Inl e, w) \<Rightarrow> (Inl e, w) | (Inr xs, w) \<Rightarrow> (Inr (outputs @ xs), w))"
  using assms(3)
proof (induction turns arbitrary: open_chunk n outputs w)
  case (Cons t ts)
  have small: "as_u32 (it_tokens I t) = it_tokens I t" using assms(1) by (simp add: as_u32_id)
  have one: "limit \<noteq> U32_MAX \<Longrightarrow> as_u32 (it_tokens I t) = sum_list (token_counts I [t]) \<and> ([t] = [] \<or> fits I limit [t])"
    by (simp add: small token_counts_def fits_def)
  let ?cut = "open_chunk \<noteq> [] \<and> limit \<noteq> U32_MAX \<and> limit < sum_list (token_counts I (open_chunk @ [t]))"
  have cut: "open_chunk \<noteq> [] \<and> limit \<noteq> U32_MAX \<and> limit < saturating_add_u32 n (it_tokens I t) \<longleftrightarrow> ?cut"
    using Cons.prems assms(2) by (auto simp: saturating_add_u32_def token_counts_def)
  show ?case
  proof (cases ?cut)
    case True
    then show ?thesis using cut Cons.IH [OF one] by (auto simp: UNBOUNDED_CHUNK_LIMIT_def split: prod.splits sum.splits)
  next
    case False
    have "limit \<noteq> U32_MAX \<Longrightarrow> as_u32 (n + it_tokens I t) = sum_list (token_counts I (open_chunk @ [t])) \<and> (open_chunk @ [t] = [] \<or> fits I limit (open_chunk @ [t]))"
      using False Cons.prems assms(2) small by (cases "open_chunk = []") (auto simp: token_counts_def fits_def as_u32_id)
    from Cons.IH [OF this] show ?thesis using False cut by (auto simp: UNBOUNDED_CHUNK_LIMIT_def)
  qed
qed (auto split: prod.splits sum.splits)

lemma chunks_concat: "concat (chunks_from I limit open_chunk turns) = open_chunk @ turns"
  by (induction turns arbitrary: open_chunk) auto

lemma chunks_fit:
  assumes "open_chunk = [] \<or> fits I limit open_chunk" "limit \<noteq> U32_MAX"
  shows "list_all (\<lambda>c. c \<noteq> [] \<and> fits I limit c) (chunks_from I limit open_chunk turns)"
  using assms(1)
proof (induction turns arbitrary: open_chunk)
  case (Cons t ts)
  have one: "[t] = [] \<or> fits I limit [t]" by (simp add: fits_def)
  show ?case
  proof (cases "open_chunk \<noteq> [] \<and> limit < sum_list (token_counts I (open_chunk @ [t]))")
    case True
    then show ?thesis using Cons.IH [OF one] Cons.prems assms(2) by simp
  next
    case False
    then have "open_chunk @ [t] = [] \<or> fits I limit (open_chunk @ [t])" by (auto simp: fits_def)
    from Cons.IH [OF this] show ?thesis using False by auto
  qed
qed auto

text \<open>A chunk is closed only when the next turn does not fit any more.\<close>

definition greedy :: "'t item_ops \<Rightarrow> nat \<Rightarrow> 't list list \<Rightarrow> bool" where
  "greedy I limit = successively (\<lambda>c d. limit < sum_list (token_counts I (c @ [hd d])))"

lemma chunks_open: "open_chunk \<noteq> [] \<Longrightarrow> \<exists>c cs. chunks_from I limit open_chunk turns = c # cs \<and> c \<noteq> [] \<and> hd c = hd open_chunk"
proof (induction turns arbitrary: open_chunk)
  case (Cons t ts)
  then show ?case using Cons.IH [of "open_chunk @ [t]"] by auto
qed auto

lemma chunks_greedy: "greedy I limit (chunks_from I limit open_chunk turns)"
proof (induction turns arbitrary: open_chunk)
  case (Cons t ts)
  obtain c cs where "chunks_from I limit [t] ts = c # cs" "hd c = t" using chunks_open [of "[t]"] by force
  then show ?case using Cons.IH [of "[t]"] Cons.IH [of "open_chunk @ [t]"] by (auto simp: greedy_def)
qed (simp add: greedy_def)

lemma chunks_unbounded: "chunks_from I U32_MAX open_chunk turns = (if open_chunk @ turns = [] then [] else [open_chunk @ turns])"
  by (induction turns arbitrary: open_chunk) auto

lemma flush_all_length: "flush_all flush cs w = (Inr xs, w') \<Longrightarrow> length xs = length cs"
  by (induction cs arbitrary: w xs) (auto split: prod.splits sum.splits)

abbreviation llm_turns :: "'t item_ops \<Rightarrow> 't list \<Rightarrow> 't list" where
  "llm_turns I turns \<equiv> sep_turns_for_llm (separate_prior_user_queries I (filter_turns_for_inter_compaction I turns))"

text \<open>
  C29.  The chunked compaction loses no turn.  The turns left by the filter are cut, in order and without a gap, into non-empty chunks.
  With a limit every chunk of more than one turn is within it, and a chunk ends only where the next turn would overstep the limit; a
  single turn over the limit is a chunk of its own, over the limit too.  Without a limit there is at most one chunk.  The model is
  called once per chunk, in order, up to the first call that fails, whose error is the result; otherwise the result joins the answers of
  all chunks behind the queries of the user.  Counts are those of a \<open>u32\<close>, and some turn is left by the filter.
\<close>
theorem chunked_compaction_covers_turns:
  assumes "\<forall>t. it_tokens I t \<le> U32_MAX" "limit \<le> U32_MAX" "chunk_token_limit config (ic_compaction_strategy config) = Inr limit"
    "filter_turns_for_inter_compaction I turns \<noteq> []" "cs = chunks_from I limit [] (llm_turns I turns)"
    "preamble = assemble_user_queries_preamble (sep_prior_user_queries (separate_prior_user_queries I (filter_turns_for_inter_compaction I turns))) current"
  shows "concat cs = llm_turns I turns \<and>
    (if limit = U32_MAX then length cs \<le> 1 else list_all (\<lambda>c. c \<noteq> [] \<and> fits I limit c) cs \<and> greedy I limit cs) \<and>
    (case sample_compaction_chunked I sampler texts config turns current w of
       (Inl e, w') \<Rightarrow> flush_all (flush_chunk sampler texts config) cs w = (Inl e, w')
     | (Inr out, s, events) \<Rightarrow>
         (\<exists>xs events'. flush_all (flush_chunk sampler texts config) cs w = (Inr xs, s, events') \<and> length xs = length cs \<and>
            out = combine_chunks preamble xs \<and> last events = OnChunkCount (length cs)))"
proof -
  have "concat cs = llm_turns I turns" using chunks_concat [of I limit "[]"] assms(5) by simp
  moreover have "if limit = U32_MAX then length cs \<le> 1 else list_all (\<lambda>c. c \<noteq> [] \<and> fits I limit c) cs \<and> greedy I limit cs"
    using chunks_greedy [of I limit "[]"] chunks_fit [of "[]" I limit] chunks_unbounded [of I "[]"] assms(5) by simp
  moreover have "chunk_loop (flush_chunk sampler texts config) I limit [] 0 [] (llm_turns I turns) w =
      (case flush_all (flush_chunk sampler texts config) cs w of (Inl e, w) \<Rightarrow> (Inl e, w) | (Inr xs, w) \<Rightarrow> (Inr ([] @ xs), w))"
    unfolding assms(5) by (rule chunk_loop_chunks [OF assms(1,2)]) (simp add: token_counts_def)
  then have "case sample_compaction_chunked I sampler texts config turns current w of
       (Inl e, w') \<Rightarrow> flush_all (flush_chunk sampler texts config) cs w = (Inl e, w')
     | (Inr out, s, events) \<Rightarrow>
         (\<exists>xs events'. flush_all (flush_chunk sampler texts config) cs w = (Inr xs, s, events') \<and> length xs = length cs \<and>
            out = combine_chunks preamble xs \<and> last events = OnChunkCount (length cs))"
    using assms(3,4,6) flush_all_length [of "flush_chunk sampler texts config" cs w]
    by (auto simp: sample_compaction_chunked_def Let_def split: prod.splits sum.splits)
  ultimately show ?thesis by blast
qed

subsection \<open>A run with two chunks\<close>

definition chat_items :: "(compaction_role \<times> nat) item_ops" where
  "chat_items = sized_items\<lparr>it_text := (\<lambda>_. Some (lit ''x'')), it_tokens := (\<lambda>t. min (snd t) 1000)\<rparr>"

definition sample_config :: inter_config where
  "sample_config = \<lparr>ic_compaction_model_name = [], ic_sampling_timeout_secs = 60, ic_compaction_strategy = DivideAndConquer,
     ic_dnc_chunk_token_limit = 50, ic_user_message_compact_threshold = 100\<rparr>"

definition echo_size :: "((compaction_role \<times> nat), nat) sampler" where
  "echo_size turns prompt timeout n = (Inr \<lparr>llm_response = show_nat (length turns), llm_thinking = []\<rparr>, Suc n)"

definition sample_chat :: "(compaction_role \<times> nat) list" where
  "sample_chat = [(RoleUser, 30), (RoleUser, 30), (RoleUser, 20)]"

definition sample_chunks :: "(compaction_role \<times> nat) list list" where
  "sample_chunks = chunks_from chat_items 50 [] (llm_turns chat_items sample_chat)"

theorem chunked_compaction_covers_turns_witness:
  "sample_chunks = [[(RoleUser, 30)], [(RoleUser, 30), (RoleUser, 20)]] \<and> list_all (\<lambda>c. c \<noteq> [] \<and> fits chat_items 50 c) sample_chunks \<and>
   (\<exists>out w' xs. sample_compaction_chunked chat_items echo_size sample_texts sample_config sample_chat None (0, []) = (Inr out, w') \<and>
      length xs = 2 \<and> out = combine_chunks [] xs \<and> last (snd w') = OnChunkCount 2)"
proof -
  let ?run = "sample_compaction_chunked chat_items echo_size sample_texts sample_config sample_chat None (0, [])"
  have bounded: "\<forall>t. it_tokens chat_items t \<le> U32_MAX" by (simp add: chat_items_def U32_MAX_def min_def)
  have limit: "chunk_token_limit sample_config (ic_compaction_strategy sample_config) = Inr 50" by code_simp
  have kept: "filter_turns_for_inter_compaction chat_items sample_chat \<noteq> []" by code_simp
  have no_queries: "[] = assemble_user_queries_preamble
      (sep_prior_user_queries (separate_prior_user_queries chat_items (filter_turns_for_inter_compaction chat_items sample_chat))) None"
    by code_simp
  have chunks: "sample_chunks = [[(RoleUser, 30)], [(RoleUser, 30), (RoleUser, 20)]]" by code_simp
  have "\<not> isl (fst ?run)" by code_simp
  then obtain out s events where run: "?run = (Inr out, s, events)" by (cases ?run; cases "fst ?run") auto
  have two: "length sample_chunks = 2" by (simp add: chunks)
  show ?thesis
    using chunked_compaction_covers_turns [OF bounded _ limit kept sample_chunks_def no_queries, of echo_size sample_texts "(0, [])"] chunks run
    by (auto simp: U32_MAX_def two)
qed

subsection \<open>What the validator sees\<close>

text \<open>
  The tags around a chunk are written by the pipeline and not by the model: an empty answer passes the check for empty content and
  balanced tags, and an answer that only quotes the opening tag fails it.
\<close>

lemma empty_answer_passes_validation:
  "validate_compaction_text (co_combined_text (combine_chunks [] [\<lparr>llm_response = [], llm_thinking = []\<rparr>])) DivideAndConquer = None"
  by code_simp

lemma quoted_tag_fails_validation:
  "validate_compaction_text (co_combined_text (combine_chunks [] [\<lparr>llm_response = lit ''see <chunk_summary'', llm_thinking = []\<rparr>])) DivideAndConquer =
     Some (UnbalancedChunkTags 2 1)"
  by code_simp

end
