(* ===== verification/Spec2Isabelle.thy ===== *)
theory Spec2Isabelle
  imports Breaker_Interleaving Message_Delivery Prompt_Queue Disk_Store Patch_Tool Permission_Handle Workflow_Resume
    Compaction_Reminder Compaction_Chunks
begin

text \<open>
  Verification of the core of the hyper-grok-build coding agent.

  \<^bold>\<open>The program.\<close>  The repository is a Rust workspace of a terminal coding agent.  A user's prompt passes the prompt queue
  and the interjection queue (\<open>packages/agent/xai-prompt-queue\<close>, \<open>xai-interjection-core\<close>) and messages between agents
  pass the delivery core (\<open>packages/coding-agent/xai-message-delivery-core\<close>).  The turn engine
  (\<open>packages/agent/xai-hyper-core\<close>) runs a turn against a host (\<open>packages/agent/xai-hyper-host\<close>): it streams the
  model, invokes tools, keeps and trims the transcript and commits the session through the host's store.  Tools act on the
  workspace: \<open>apply_patch\<close> (\<open>packages/tools/xai-grok-tools\<close>) edits files, and every access is first judged by the
  permission manager (\<open>packages/tools/xai-grok-workspace/src/permission\<close>), an actor that consults the policy, which takes shell
  scripts apart before it matches rules, then remembered grants, the classifier of auto mode and at last the user.  Workflow scripts
  (\<open>packages/agent/xai-workflow\<close>) drive several agents and are resumed from a journal.  When a conversation outgrows the context
  window, the compaction engine (\<open>packages/agent/xai-grok-compaction\<close>) lets a model summarise its older part and replaces that part by
  the summary.  Calls to remote services are guarded by the
  circuit breaker (\<open>packages/platform/xai-circuit-breaker\<close>).

  \<^bold>\<open>The theories.\<close>  Paths are under \<open>packages/\<close>.
  \<^item> \<open>Prelude\<close>: strings as lists of Unicode scalar values with their byte lengths, the string functions of the standard library,
    saturating arithmetic, lists and finds.
  \<^item> \<open>Sliding_Window\<close>, \<open>Breaker_Config\<close>, \<open>Circuit_Breaker\<close>, \<open>Breaker_Interleaving\<close>: \<open>platform/xai-circuit-breaker\<close>
    (\<open>window.rs\<close>, \<open>config.rs\<close>, \<open>retry_policy.rs\<close>, \<open>grpc.rs\<close>, \<open>state.rs\<close>, \<open>breaker.rs\<close>, \<open>registry.rs\<close>).  The window counts
    exactly and refines the history of its samples; the state machine keeps its invariant, sheds while open, recovers, never stays
    half-open, trips exactly at its threshold; and under every interleaving of threads, as a step relation on the atomic
    sections, at most the configured number of probes is admitted.
  \<^item> \<open>Message_Delivery\<close>: \<open>envelope.rs\<close> and \<open>lifecycle.rs\<close>.  Every admitted message is in exactly one place over every run,
    is handed out at most once, and a terminal transition partitions the messages of its turn.
  \<^item> \<open>Prompt_Queue\<close>: \<open>combine.rs\<close>, \<open>events.rs\<close>, \<open>buffer.rs\<close>, \<open>format.rs\<close>.  Merging is maximal, an aborted drain loses,
    duplicates and reorders nothing, framing never cuts a character.
  \<^item> \<open>Transcript\<close>, \<open>Hyper_Host\<close>, \<open>Hyper_Core\<close>: \<open>agent/xai-hyper-core/src/lib.rs\<close> and \<open>mock.rs\<close>, \<open>agent/xai-hyper-host\<close>.
    Trimming removes whole groups, reaches its cap and keeps the running turn; a failed turn leaves the session as it was; a
    committed turn is replayed, survives a restart; calls and results stay paired; turns return when the host does.
  \<^item> \<open>Disk_Store\<close>: \<open>disk_store.rs\<close> and the storage half of \<open>native.rs\<close>.  A commit is atomic under every modelled fault
    (beside the state file only its temporary and its lock file change) and keeps the terminal records, committed records never change,
    corrupt state is reported and left alone, and the turn engine on this host is durable.
  \<^item> \<open>Patch_Parser\<close>, \<open>Patch_Apply\<close>, \<open>Patch_Tool\<close>: \<open>tools/xai-grok-tools/src/implementations/codex/apply_patch\<close> and the file
    system interface.  Parsing inverts printing, the line matcher and the edits are correct, nothing is written before the whole patch is
    planned, and on a working file system the changes are made in order up to the first whose directory cannot be created.
  \<^item> \<open>Bash_Words\<close>, \<open>Bash_Syntax\<close>, \<open>Bash_Display\<close>: \<open>bash_command_splitting.rs\<close>.  Bounded peeling of wrappers is exact or says
    that it is not; only word-only syntax trees decompose; breaking long lines for display loses nothing.
  \<^item> \<open>Lexical_Paths\<close>, \<open>Permission_Rules\<close>, \<open>Permission_Policy\<close>, \<open>Permission_Gates\<close>: \<open>types.rs\<close>, \<open>rules.rs\<close>, \<open>policy.rs\<close>,
    \<open>normalize_lexically\<close> of \<open>platform/xai-grok-paths\<close> and the rule formatter of the settings import.  Rules that have a text survive
    escaping and parsing, and formatting without backslashes; decisions do not depend on the order of rules; the gate rejects exactly when a deny rule meets a command
    the script runs, at any nesting up to the bound, and asks whenever the script is not understood; an allow needs every command
    allowed; following links only makes decisions stricter, and a link that cannot be resolved is asked about when a deny or ask
    rule is there for the access.
  \<^item> \<open>Shell_Operands\<close>, \<open>Shell_Access\<close>: \<open>shell_access.rs\<close>.  What a syntax tree reads, writes and creates.  The files a script touches are specified over
    the redirects and the words of the commands of its tree (\<open>touches\<close>, \<open>hides_access\<close>), and the file gate rejects and
    asks exactly according to them, nested scripts included.
  \<^item> \<open>Protected_Edits\<close>: the protected targets of \<open>shell_access.rs\<close> and the resolution of paths in \<open>types/resources.rs\<close>.
    Protection is inherited by everything below a protected directory.
  \<^item> \<open>Permission_Store\<close>: \<open>state.rs\<close>.  Reading and writing a store are separate events that sessions interleave: what is remembered stays
    remembered as long as no write overtakes a write its session has not seen, and is lost otherwise (\<open>same_instant_write_loses_grant\<close>).
  \<^item> \<open>Exec_Risk\<close>, \<open>Bash_Safety\<close>, \<open>Tool_Grants\<close>, \<open>Bash_Grants\<close>, \<open>Grant_Decisions\<close>: \<open>exec_risk.rs\<close>, the findings and the
    environment checks of \<open>auto_mode\<close>, \<open>manager/bash_grants.rs\<close> and the pure half of \<open>manager/mod.rs\<close>.  A remembered denial is
    final, grants allow exactly the scripts a rule over their commands and their floor covers, and an answer stores exactly what the prompt offers.
  \<^item> \<open>Auto_Classifier\<close>: \<open>auto_mode/mod.rs\<close>.  A request with findings is allowed only by a model that was shown them, and no untrusted text
    opens a section of the messages that are built for it.
  \<^item> \<open>Permission_Manager\<close>, \<open>Manager_Safety\<close>: the actor of \<open>manager/mod.rs\<close> with \<open>gate_preflight.rs\<close>, \<open>reasons.rs\<close> and
    \<open>request_classification.rs\<close>.  A command is a function on the actor's state; \<open>handle_request\<close> composes the preflight, the early answers,
    auto mode, the late answers and the prompt.  A denial is final, a hook that asks reaches the user, edits and
    \<open>mkdir\<close>/\<open>touch\<close> of protected targets and blocked actions need consent, and the state keeps its invariant over every sequence of commands.
  \<^item> \<open>Permission_Handle\<close>: the calls of a handle, as a step relation that interleaves their stores and sends with the actor.  The shared
    flags agree with the actor at rest, and a pinned session never looks approved.
  \<^item> \<open>Workflow_Journal\<close>, \<open>Workflow_Engine\<close>, \<open>Workflow_Resume\<close>: \<open>agent/xai-workflow\<close> (\<open>journal.rs\<close>, \<open>engine.rs\<close>, \<open>run.rs\<close>,
    \<open>host.rs\<close>).  A torn append never loses a recorded call, requests are identified by their contents, and a run that is resumed
    from its journal after a crash sees the results it has seen before, without its host, provided no reservation of agents failed in a way
    the script could catch.
  \<^item> \<open>Compaction_Select\<close>, \<open>Compaction_History\<close>, \<open>Compaction_Summary\<close>, \<open>Compaction_Reminder\<close>, \<open>Compaction_Intra\<close>,
    \<open>Compaction_Chunks\<close>: \<open>agent/xai-grok-compaction\<close>.  The turns to summarise are the best split that orphans no tool result and their
    fitted form respects the budget of the summarizer; the queries of the user survive every later compaction unless they quote the end tag of their block; a cleaned summary has no
    control tags; the retry loops stop at the first decisive reply; the reminder names all running work; a pass inside the agent loop
    (\<open>apply_intra_compaction\<close>, on a stream processor with the documented behaviour) changes nothing when it fails, with one stated
    exception, and otherwise leaves what its mode prescribes; the chunked pipeline covers all turns, with chunks over its limit only where a
    single turn is.

  \<^bold>\<open>Interfaces.\<close>  The locales state what a component relies on and are interpreted on the model: the bounded log behind
  the window, the stages of delivery, the queue behind the interjections, the host and store laws of the turn engine, the
  consumers of patch lines, a working file system, peelers of words, escalating decisions, and bounded retries of a call.

  \<^bold>\<open>Conventions.\<close>  \<open>Inl\<close> is an error value; \<open>None\<close> of an operation that may panic or not return is exactly that.  Loops are
  recursive functions with a measure, or carry the code's own bound as their argument: eight wrappers, eight transparent
  prefixes, sixteen rounds of normalisation, eight nested scripts, forty links.  There is no other fuel: a model
  stream that never ends is \<open>None\<close>, and that turns return is a theorem under the hypothesis that streams end.  The clock is an
  argument of every operation that reads it.

  \<^bold>\<open>Parameters.\<close>  JSON and TOML encoding, glob patterns, URL parsing, Unicode lower-casing, the shell grammar, floating
  point parsing, the tilde of a path, the operating system's file and lock operations, git repositories, the text of the
  classifier's system prompt, the hash function, the workflow script, the prompt files of a compaction and its products with floating-point ratios, the processor that
  holds a conversation, the model and the answers of the user are not in the repository or not code; they are
  arguments or records of functions, with hypotheses only where a property needs them (decoding inverts encoding).

  \<^bold>\<open>Not modelled.\<close>  The terminal interface (\<open>tui\<close>), the sampler and its wire types (\<open>ai\<close>), authentication, telemetry, updates,
  extensions, the sandbox, worktrees and file watching, the session actor of \<open>xai-grok-shell\<close> and of \<open>xai-chat-state\<close>, the
  rows and the transport of a permission prompt, and the merging of managed settings: asynchronous input and output or glue.  Of these
  the prompt rows, the settings, the chat state and the hunk tracker carry logic of their own and would be next.
\<close>

end
